(* ===== verification/Prelude.thy ===== *)
theory Prelude
  imports Main "HOL-Library.Word"
begin

text \<open>
  Shared vocabulary of the development: machine integers, C strings, results with
  undefined behaviour, first-match searches, and the generic lemmas on lists and words
  that the component theories use.  Nothing in this theory is specific to one component.
\<close>

section \<open>Collections of facts\<close>

named_theorems ortp_simps \<open>equations of the oRTP contract\<close>
named_theorems res_simps \<open>rewriting of results that may fail\<close>

section \<open>Machine types\<close>

type_synonym u8 = "8 word"
type_synonym u16 = "16 word"
type_synonym u32 = "32 word"

text \<open>A SIP address, by its printed form; comparing and changing addresses belongs to the SIP stack.\<close>

type_synonym address = string

text \<open>
  C++ behaviour that has no defined result.  Every partial operation of the modelled code
  (front of an empty list, dereference of an end iterator, write past an array, uncaught
  exception, a fatal error that aborts the program) is a value of this type, never a HOL underspecified term.  \<open>Out_of_fuel\<close> is the only value the code
  does not have: it is the result of a recursion that was given too little fuel.
\<close>

datatype failure =
    Front_of_empty_list
  | End_iterator_dereferenced
  | Stoi_out_of_range
  | Buffer_overflow
  | Index_out_of_range
  | Null_dereference
  | Integer_out_of_range
  | Fatal_error
  | Out_of_fuel

type_synonym 'a res = "failure + 'a"

definition bindR :: "'a res \<Rightarrow> ('a \<Rightarrow> 'b res) \<Rightarrow> 'b res" where
  "bindR r f = (case r of Inl e \<Rightarrow> Inl e | Inr x \<Rightarrow> f x)"

text \<open>A loop whose body may fail: the state is threaded, the first failure stops the loop.\<close>

fun foldR :: "('s \<Rightarrow> 'a \<Rightarrow> 's res) \<Rightarrow> 's \<Rightarrow> 'a list \<Rightarrow> 's res" where
  "foldR f s [] = Inr s"
| "foldR f s (x # xs) = bindR (f s x) (\<lambda>s'. foldR f s' xs)"

section \<open>C strings\<close>

text \<open>\<open>tolower\<close>, \<open>toupper\<close> and \<open>strcasecmp\<close> of the C locale, on bytes.\<close>

definition tolower_c :: "char \<Rightarrow> char" where
  "tolower_c c = (if 65 \<le> (of_char c :: nat) \<and> (of_char c :: nat) \<le> 90
     then char_of ((of_char c :: nat) + 32) else c)"

definition toupper_c :: "char \<Rightarrow> char" where
  "toupper_c c = (if 97 \<le> (of_char c :: nat) \<and> (of_char c :: nat) \<le> 122
     then char_of ((of_char c :: nat) - 32) else c)"

definition strcaseeq :: "string \<Rightarrow> string \<Rightarrow> bool" where
  "strcaseeq a b \<longleftrightarrow> map tolower_c a = map tolower_c b"

definition is_digit_c :: "char \<Rightarrow> bool" where
  "is_digit_c c \<longleftrightarrow> 48 \<le> (of_char c :: nat) \<and> (of_char c :: nat) \<le> 57"

definition digit_value :: "char \<Rightarrow> nat" where
  "digit_value c = of_char c - 48"

text \<open>\<open>std::to_string\<close> of an unsigned value.\<close>

fun nat_to_string :: "nat \<Rightarrow> string" where
  "nat_to_string n =
     (if n < 10 then [char_of (n + 48)]
      else nat_to_string (n div 10) @ [char_of (n mod 10 + 48)])"

declare nat_to_string.simps [simp del]

text \<open>\<open>"%i"\<close> of a signed value.\<close>

definition int_to_string :: "int \<Rightarrow> string" where
  "int_to_string i = (if i < 0 then CHR ''-'' # nat_to_string (nat (- i)) else nat_to_string (nat i))"

text \<open>The value of a string of decimal digits, most significant first.\<close>

definition digits_value :: "string \<Rightarrow> nat" where
  "digits_value = foldl (\<lambda>acc c. acc * 10 + digit_value c) 0"

section \<open>First-match searches\<close>

text \<open>\<open>std::find_if\<close> as a position: \<open>None\<close> is the end iterator.\<close>

fun find_index :: "('a \<Rightarrow> bool) \<Rightarrow> 'a list \<Rightarrow> nat option" where
  "find_index P [] = None"
| "find_index P (x # xs) = (if P x then Some 0 else map_option Suc (find_index P xs))"

text \<open>The position as the \<open>int\<close> the code returns, \<open>-1\<close> at the end iterator.\<close>

definition index_or_minus1 :: "nat option \<Rightarrow> int" where
  "index_or_minus1 r = (case r of None \<Rightarrow> -1 | Some i \<Rightarrow> int i)"

section \<open>Results\<close>

lemma bindR_Inr [simp, res_simps]: "bindR (Inr x) f = f x"
  by (simp add: bindR_def)

lemma bindR_Inl [simp, res_simps]: "bindR (Inl e) f = Inl e"
  by (simp add: bindR_def)

lemma bindR_eq_Inr [res_simps]: "bindR r f = Inr y \<longleftrightarrow> (\<exists>x. r = Inr x \<and> f x = Inr y)"
  by (cases r) auto

lemma bindR_eq_Inl: "bindR r f = Inl e \<longleftrightarrow> r = Inl e \<or> (\<exists>x. r = Inr x \<and> f x = Inl e)"
  by (cases r) auto

lemma foldR_append: "foldR f s (xs @ ys) = bindR (foldR f s xs) (\<lambda>s'. foldR f s' ys)"
proof (induction xs arbitrary: s)
  case (Cons x xs)
  then show ?case by (cases "f s x") auto
qed simp

text \<open>A loop whose body never fails is an ordinary fold.\<close>

lemma foldR_total:
  assumes "\<And>s x. x \<in> set xs \<Longrightarrow> f s x = Inr (g s x)"
  shows "foldR f s xs = Inr (foldl g s xs)"
  using assms by (induction xs arbitrary: s) auto

text \<open>An invariant of the body is an invariant of the loop.\<close>

lemma foldR_invariant:
  assumes "foldR f s xs = Inr s'" and "I s"
    and "\<And>t x t'. I t \<Longrightarrow> x \<in> set xs \<Longrightarrow> f t x = Inr t' \<Longrightarrow> I t'"
  shows "I s'"
  using assms
proof (induction xs arbitrary: s)
  case (Cons x xs)
  from Cons.prems(1) obtain t where t: "f s x = Inr t" "foldR f t xs = Inr s'"
    by (auto simp: bindR_eq_Inr)
  have "I t" by (rule Cons.prems(3) [OF Cons.prems(2) _ t(1)]) simp
  then show ?case
    by (rule Cons.IH [OF t(2)]) (rule Cons.prems(3); simp)
qed simp

section \<open>Case-insensitive comparison\<close>

lemma strcaseeq_refl [simp]: "strcaseeq a a"
  by (simp add: strcaseeq_def)

lemma strcaseeq_sym: "strcaseeq a b \<Longrightarrow> strcaseeq b a"
  by (simp add: strcaseeq_def)

lemma strcaseeq_trans: "strcaseeq a b \<Longrightarrow> strcaseeq b c \<Longrightarrow> strcaseeq a c"
  by (simp add: strcaseeq_def)

section \<open>Searches\<close>

lemma find_index_None: "find_index P xs = None \<longleftrightarrow> (\<forall>x \<in> set xs. \<not> P x)"
  by (induction xs) auto

lemma find_index_SomeD:
  "find_index P xs = Some i \<Longrightarrow> i < length xs \<and> P (xs ! i) \<and> (\<forall>j < i. \<not> P (xs ! j))"
proof (induction xs arbitrary: i)
  case (Cons x xs)
  show ?case
  proof (cases "P x")
    case True
    with Cons.prems show ?thesis by simp
  next
    case False
    with Cons.prems obtain k where k: "find_index P xs = Some k" "i = Suc k" by auto
    with Cons.IH [OF k(1)] False show ?thesis by (auto simp: less_Suc_eq_0_disj)
  qed
qed simp

lemma find_index_SomeI:
  "i < length xs \<Longrightarrow> P (xs ! i) \<Longrightarrow> (\<And>j. j < i \<Longrightarrow> \<not> P (xs ! j)) \<Longrightarrow> find_index P xs = Some i"
proof (induction xs arbitrary: i)
  case (Cons x xs)
  show ?case
  proof (cases i)
    case 0
    with Cons.prems show ?thesis by simp
  next
    case (Suc k)
    have "find_index P xs = Some k"
      by (rule Cons.IH) (use Cons.prems Suc in force)+
    with Suc Cons.prems(3) [of 0] show ?thesis by simp
  qed
qed simp

lemma find_index_eq_find: "map_option (\<lambda>i. xs ! i) (find_index P xs) = find P xs"
proof (induction xs)
  case (Cons x xs)
  then show ?case by (auto simp: option.map_comp comp_def)
qed simp

lemma index_or_minus1_bounds:
  "index_or_minus1 (find_index P xs) \<ge> -1 \<and> index_or_minus1 (find_index P xs) < int (length xs)"
  by (auto simp: index_or_minus1_def split: option.splits dest: find_index_SomeD)

lemma index_or_minus1_eq [simp]:
  "index_or_minus1 r = -1 \<longleftrightarrow> r = None"
  "index_or_minus1 (Some i) = int i"
  by (auto simp: index_or_minus1_def split: option.splits)

section \<open>Stable two-way partition\<close>

text \<open>
  \<open>std::list::sort\<close> is stable, so sorting by a comparator that only says "the first has a
  quality the second lacks" moves the elements with the quality to the front and keeps
  the order inside the two groups.  An insertion sort from the right with the same
  comparator computes exactly that.
\<close>

fun insert_by :: "('a \<Rightarrow> 'a \<Rightarrow> bool) \<Rightarrow> 'a \<Rightarrow> 'a list \<Rightarrow> 'a list" where
  "insert_by lt x [] = [x]"
| "insert_by lt x (y # ys) = (if lt y x then y # insert_by lt x ys else x # y # ys)"

definition stable_sort_by :: "('a \<Rightarrow> 'a \<Rightarrow> bool) \<Rightarrow> 'a list \<Rightarrow> 'a list" where
  "stable_sort_by lt xs = foldr (insert_by lt) xs []"

lemma set_insert_by [simp]: "set (insert_by lt x xs) = insert x (set xs)"
  by (induction xs) auto

lemma set_stable_sort_by [simp]: "set (stable_sort_by lt xs) = set xs"
  by (induction xs) (auto simp: stable_sort_by_def)

lemma insert_by_quality:
  "insert_by (\<lambda>a b. Q a \<and> \<not> Q b) x (filter Q xs @ filter (\<lambda>a. \<not> Q a) ys) =
     (if Q x then x # filter Q xs @ filter (\<lambda>a. \<not> Q a) ys
      else filter Q xs @ x # filter (\<lambda>a. \<not> Q a) ys)"
proof (cases "Q x")
  case True
  then show ?thesis
    by (cases "filter Q xs @ filter (\<lambda>a. \<not> Q a) ys") auto
next
  case False
  have tail: "insert_by (\<lambda>a b. Q a \<and> \<not> Q b) x (filter (\<lambda>a. \<not> Q a) ys) = x # filter (\<lambda>a. \<not> Q a) ys"
    by (induction ys) auto
  from False tail show ?thesis by (induction xs) auto
qed

lemma stable_sort_by_quality:
  "stable_sort_by (\<lambda>a b. Q a \<and> \<not> Q b) xs = filter Q xs @ filter (\<lambda>a. \<not> Q a) xs"
proof (induction xs)
  case (Cons x xs)
  then show ?case by (simp add: stable_sort_by_def insert_by_quality)
qed (simp add: stable_sort_by_def)

section \<open>Decimal numerals\<close>

lemma of_char_digit: "n < 10 \<Longrightarrow> (of_char (char_of (n + 48) :: char) :: nat) = n + 48"
  by (simp add: of_char_of)

lemma digit_of_nat [simp]:
  assumes "n < 10"
  shows "is_digit_c (char_of (n + 48))" and "digit_value (char_of (n + 48)) = n"
  using of_char_digit [OF assms] assms by (simp_all add: is_digit_c_def digit_value_def)

lemma digits_value_snoc [simp]: "digits_value (xs @ [c]) = digits_value xs * 10 + digit_value c"
  by (simp add: digits_value_def)

lemma nat_to_string_digits: "list_all is_digit_c (nat_to_string n)"
proof (induction n rule: nat_to_string.induct)
  case (1 n)
  then show ?case by (simp add: nat_to_string.simps [of n])
qed

lemma nat_to_string_nonempty [simp]: "nat_to_string n \<noteq> []"
  by (simp add: nat_to_string.simps [of n])

text \<open>Reading back a printed number gives the number.\<close>

lemma digits_value_nat_to_string [simp]: "digits_value (nat_to_string n) = n"
proof (induction n rule: nat_to_string.induct)
  case (1 n)
  show ?case
  proof (cases "n < 10")
    case True
    then show ?thesis by (simp add: nat_to_string.simps [of n] digits_value_def)
  next
    case False
    with 1 show ?thesis by (simp add: nat_to_string.simps [of n])
  qed
qed

lemma nat_to_string_inj: "nat_to_string a = nat_to_string b \<Longrightarrow> a = b"
  by (metis digits_value_nat_to_string)

lemma takeWhile_prefix:
  assumes "list_all P xs" and "ys = [] \<or> \<not> P (hd ys)"
  shows "takeWhile P (xs @ ys) = xs \<and> dropWhile P (xs @ ys) = ys"
  using assms by (cases ys) (auto simp: list_all_iff takeWhile_append dropWhile_append)

section \<open>Searches whose test may fail\<close>

text \<open>\<open>std::find_if\<close> with a predicate that may fail; elements behind the first match are not tested.\<close>

primrec find_ifR :: "('a \<Rightarrow> bool res) \<Rightarrow> 'a list \<Rightarrow> 'a option res" where
  "find_ifR P [] = Inr None"
| "find_ifR P (x # xs) = bindR (P x) (\<lambda>b. if b then Inr (Some x) else find_ifR P xs)"

lemma find_ifR_total:
  assumes "\<And>x. x \<in> set xs \<Longrightarrow> P x = Inr (Q x)"
  shows "find_ifR P xs = Inr (find Q xs)"
  using assms by (induction xs) auto

lemma find_ifR_Some:
  "find_ifR P xs = Inr (Some x) \<Longrightarrow> x \<in> set xs \<and> P x = Inr True"
  by (induction xs) (auto simp: bindR_eq_Inr split: if_splits)

lemma find_ifR_None: "find_ifR P xs = Inr None \<Longrightarrow> \<forall>x \<in> set xs. P x = Inr False"
  by (induction xs) (auto simp: bindR_eq_Inr split: if_splits)

section \<open>Results of searches\<close>

lemma find_SomeD: "find P xs = Some x \<Longrightarrow> x \<in> set xs \<and> P x"
  by (auto simp: find_Some_iff)

text \<open>An invariant of a loop that cannot fail, with its result.\<close>

lemma foldR_ex:
  assumes "I s" and "\<And>t x. I t \<Longrightarrow> x \<in> set xs \<Longrightarrow> \<exists>t'. f t x = Inr t' \<and> I t'"
  shows "\<exists>s'. foldR f s xs = Inr s' \<and> I s'"
  using assms
proof (induction xs arbitrary: s)
  case (Cons x xs)
  then obtain t where t: "f s x = Inr t" "I t" by (meson list.set_intros(1))
  have "\<exists>s'. foldR f t xs = Inr s' \<and> I s'"
    by (rule Cons.IH [OF t(2)]) (use Cons.prems(2) in auto)
  with t(1) show ?case by simp
qed simp

end
