(* ===== verification/Sal_Types.thy ===== *)
theory Sal_Types
  imports Prelude
begin

text \<open>
  The vocabulary of the signalling abstraction layer (\<open>src/c-wrapper/internal/c-sal.h\<close> and
  \<open>c-sal.cpp\<close>): the enumerations of stream directions, media types, transport profiles,
  DTLS roles and so on, the change bits of a media-description comparison, and the
  conversions between these values and the strings that appear in SDP.
\<close>

section \<open>Enumerations\<close>

datatype SalTransport = SalTransportUDP | SalTransportTCP | SalTransportTLS | SalTransportDTLS

datatype SalStreamDir = SalStreamSendRecv | SalStreamSendOnly | SalStreamRecvOnly | SalStreamInactive

datatype SalStreamType = SalAudio | SalVideo | SalText | SalOther

datatype SalMediaProto =
    SalProtoRtpAvp | SalProtoRtpSavp | SalProtoRtpAvpf | SalProtoRtpSavpf
  | SalProtoUdpTlsRtpSavp | SalProtoUdpTlsRtpSavpf | SalProtoOther

datatype SalDtlsRole = SalDtlsRoleInvalid | SalDtlsRoleIsServer | SalDtlsRoleIsClient | SalDtlsRoleUnset

datatype SalMulticastRole =
  SalMulticastInactive | SalMulticastSender | SalMulticastReceiver | SalMulticastSenderReceiver

datatype SalMediaRecord = SalMediaRecordNone | SalMediaRecordOff | SalMediaRecordOn | SalMediaRecordPaused

datatype LinphoneMediaEncryption =
    LinphoneMediaEncryptionNone | LinphoneMediaEncryptionSRTP
  | LinphoneMediaEncryptionZRTP | LinphoneMediaEncryptionDTLS

section \<open>Change bits\<close>

text \<open>
  The result of a comparison is a bit mask.  Each \<open>SAL_MEDIA_DESCRIPTION_*\<close> macro is one bit,
  so a mask is the set of its bits: \<open>|=\<close> is union, \<open>& X\<close> is membership, and
  \<open>SAL_MEDIA_DESCRIPTION_UNCHANGED\<close> is the empty set.  \<open>change_bit\<close> gives the bit position
  of the macro.
\<close>

datatype sal_change =
    NETWORK_CHANGED | CODEC_CHANGED | CRYPTO_KEYS_CHANGED | CRYPTO_POLICY_CHANGED
  | STREAMS_CHANGED | NETWORK_XXXCAST_CHANGED | FORCE_STREAM_RECONSTRUCTION
  | ICE_RESTART_DETECTED | CONFIGURATION_CHANGED | CRYPTO_TYPE_CHANGED
  | MIXER_TO_CLIENT_EXTENSION_CHANGED | CLIENT_TO_MIXER_EXTENSION_CHANGED
  | PTIME_CHANGED | BANDWIDTH_CHANGED | FRAME_MARKING_EXTENSION_CHANGED
  | CONTENT_CHANGED | DIRECTION_CHANGED

type_synonym changes = "sal_change set"

abbreviation UNCHANGED :: changes where "UNCHANGED \<equiv> {}"

fun change_bit :: "sal_change \<Rightarrow> nat" where
  "change_bit NETWORK_CHANGED = 0"
| "change_bit CODEC_CHANGED = 1"
| "change_bit CRYPTO_KEYS_CHANGED = 2"
| "change_bit CRYPTO_POLICY_CHANGED = 3"
| "change_bit STREAMS_CHANGED = 4"
| "change_bit NETWORK_XXXCAST_CHANGED = 5"
| "change_bit FORCE_STREAM_RECONSTRUCTION = 6"
| "change_bit ICE_RESTART_DETECTED = 7"
| "change_bit CONFIGURATION_CHANGED = 8"
| "change_bit CRYPTO_TYPE_CHANGED = 9"
| "change_bit MIXER_TO_CLIENT_EXTENSION_CHANGED = 10"
| "change_bit CLIENT_TO_MIXER_EXTENSION_CHANGED = 11"
| "change_bit PTIME_CHANGED = 12"
| "change_bit BANDWIDTH_CHANGED = 13"
| "change_bit FRAME_MARKING_EXTENSION_CHANGED = 14"
| "change_bit CONTENT_CHANGED = 15"
| "change_bit DIRECTION_CHANGED = 16"

text \<open>\<open>if (cond) result |= bit;\<close>\<close>

definition flag_if :: "bool \<Rightarrow> sal_change \<Rightarrow> changes" where
  "flag_if b c = (if b then {c} else {})"

section \<open>Conversions\<close>

fun sal_multicast_role_to_string :: "SalMulticastRole \<Rightarrow> string" where
  "sal_multicast_role_to_string SalMulticastInactive = ''inactive''"
| "sal_multicast_role_to_string SalMulticastReceiver = ''receiver''"
| "sal_multicast_role_to_string SalMulticastSender = ''sender''"
| "sal_multicast_role_to_string SalMulticastSenderReceiver = ''sender-receiver''"

fun sal_transport_to_string :: "SalTransport \<Rightarrow> string" where
  "sal_transport_to_string SalTransportUDP = ''udp''"
| "sal_transport_to_string SalTransportTCP = ''tcp''"
| "sal_transport_to_string SalTransportTLS = ''tls''"
| "sal_transport_to_string SalTransportDTLS = ''dtls''"

text \<open>The parameter is a \<open>const char *\<close> that may be null.\<close>

definition sal_transport_parse :: "string option \<Rightarrow> SalTransport" where
  "sal_transport_parse param =
     (case param of
        None \<Rightarrow> SalTransportUDP
      | Some p \<Rightarrow>
          if strcaseeq ''udp'' p then SalTransportUDP
          else if strcaseeq ''tcp'' p then SalTransportTCP
          else if strcaseeq ''tls'' p then SalTransportTLS
          else if strcaseeq ''dtls'' p then SalTransportDTLS
          else SalTransportUDP)"

fun sal_stream_type_to_string :: "SalStreamType \<Rightarrow> string" where
  "sal_stream_type_to_string SalAudio = ''audio''"
| "sal_stream_type_to_string SalVideo = ''video''"
| "sal_stream_type_to_string SalText = ''text''"
| "sal_stream_type_to_string SalOther = ''other''"

fun sal_media_proto_to_string :: "SalMediaProto \<Rightarrow> string" where
  "sal_media_proto_to_string SalProtoRtpAvp = ''RTP/AVP''"
| "sal_media_proto_to_string SalProtoRtpSavp = ''RTP/SAVP''"
| "sal_media_proto_to_string SalProtoUdpTlsRtpSavp = ''UDP/TLS/RTP/SAVP''"
| "sal_media_proto_to_string SalProtoRtpAvpf = ''RTP/AVPF''"
| "sal_media_proto_to_string SalProtoRtpSavpf = ''RTP/SAVPF''"
| "sal_media_proto_to_string SalProtoUdpTlsRtpSavpf = ''UDP/TLS/RTP/SAVPF''"
| "sal_media_proto_to_string SalProtoOther = ''unknown''"

definition sal_media_proto_from_string :: "string \<Rightarrow> SalMediaProto" where
  "sal_media_proto_from_string type =
     (if type = ''RTP/AVP'' then SalProtoRtpAvp
      else if type = ''RTP/SAVP'' then SalProtoRtpSavp
      else if type = ''UDP/TLS/RTP/SAVP'' then SalProtoUdpTlsRtpSavp
      else if type = ''RTP/AVPF'' then SalProtoRtpAvpf
      else if type = ''RTP/SAVPF'' then SalProtoRtpSavpf
      else if type = ''UDP/TLS/RTP/SAVPF'' then SalProtoUdpTlsRtpSavpf
      else SalProtoOther)"

definition linphone_media_encryption_to_sal_media_proto ::
  "LinphoneMediaEncryption \<Rightarrow> bool \<Rightarrow> SalMediaProto" where
  "linphone_media_encryption_to_sal_media_proto media_enc avpf =
     (if media_enc = LinphoneMediaEncryptionSRTP \<and> avpf then SalProtoRtpSavpf
      else if media_enc = LinphoneMediaEncryptionSRTP then SalProtoRtpSavp
      else if media_enc = LinphoneMediaEncryptionDTLS \<and> avpf then SalProtoUdpTlsRtpSavpf
      else if media_enc = LinphoneMediaEncryptionDTLS then SalProtoUdpTlsRtpSavp
      else if avpf then SalProtoRtpAvpf
      else SalProtoRtpAvp)"

definition sal_media_proto_to_linphone_media_encryption ::
  "SalMediaProto \<Rightarrow> bool \<Rightarrow> LinphoneMediaEncryption" where
  "sal_media_proto_to_linphone_media_encryption proto haveZrtpHash =
     (if proto = SalProtoRtpSavpf \<or> proto = SalProtoRtpSavp then LinphoneMediaEncryptionSRTP
      else if proto = SalProtoUdpTlsRtpSavpf \<or> proto = SalProtoUdpTlsRtpSavp
        then LinphoneMediaEncryptionDTLS
      else if haveZrtpHash then LinphoneMediaEncryptionZRTP
      else LinphoneMediaEncryptionNone)"

fun sal_stream_dir_to_string :: "SalStreamDir \<Rightarrow> string" where
  "sal_stream_dir_to_string SalStreamSendRecv = ''sendrecv''"
| "sal_stream_dir_to_string SalStreamSendOnly = ''sendonly''"
| "sal_stream_dir_to_string SalStreamRecvOnly = ''recvonly''"
| "sal_stream_dir_to_string SalStreamInactive = ''inactive''"

fun sal_media_record_to_string :: "SalMediaRecord \<Rightarrow> string" where
  "sal_media_record_to_string SalMediaRecordOff = ''off''"
| "sal_media_record_to_string SalMediaRecordOn = ''on''"
| "sal_media_record_to_string SalMediaRecordPaused = ''paused''"
| "sal_media_record_to_string SalMediaRecordNone = ''none''"

section \<open>Facts\<close>

lemma flag_if_simps [simp]:
  "flag_if False c = {}" "flag_if True c = {c}"
  by (simp_all add: flag_if_def)

lemma mem_flag_if [simp]: "x \<in> flag_if b c \<longleftrightarrow> b \<and> x = c"
  by (simp add: flag_if_def)

lemma flag_if_empty [simp]: "flag_if b c = {} \<longleftrightarrow> \<not> b"
  by (simp add: flag_if_def)

lemma change_bit_inj: "change_bit a = change_bit b \<Longrightarrow> a = b"
  by (cases a; cases b) simp_all

lemma proto_string_roundtrip [simp]: "sal_media_proto_from_string (sal_media_proto_to_string p) = p"
  by (cases p) (simp_all add: sal_media_proto_from_string_def)

lemma transport_string_roundtrip: "sal_transport_parse (Some (sal_transport_to_string t)) = t"
  by (cases t) (simp_all add: sal_transport_parse_def strcaseeq_def tolower_c_def)

lemma encryption_proto_roundtrip:
  "sal_media_proto_to_linphone_media_encryption
     (linphone_media_encryption_to_sal_media_proto enc avpf) (enc = LinphoneMediaEncryptionZRTP) = enc"
  by (cases enc) (simp_all add: sal_media_proto_to_linphone_media_encryption_def
      linphone_media_encryption_to_sal_media_proto_def)

end
