(* ===== verification/Payload_Types.thy ===== *)
theory Payload_Types
  imports Sal_Types
begin

text \<open>
  RTP payload types and \<open>PayloadTypeHandler\<close> (\<open>src/utils/payload-type-handler.cpp\<close>).

  \<open>OrtpPayloadType\<close> belongs to oRTP, which is not part of this repository.  Its fields are
  the ones the code reads; the oRTP functions the code calls are the fields of the record
  \<open>ortp_api\<close>, an argument of every definition that uses them, and \<open>ortp_contract\<close> names what
  the code relies on (the documented effect of each function).  The payload flags are
  distinct bits, so a flag word is the set of its bits.
\<close>

section \<open>Payload types\<close>

datatype pt_kind =
  PAYLOAD_AUDIO_CONTINUOUS | PAYLOAD_AUDIO_PACKETIZED | PAYLOAD_VIDEO | PAYLOAD_TEXT | PAYLOAD_OTHER

datatype pt_flag =
    PAYLOAD_TYPE_FLAG_CAN_RECV | PAYLOAD_TYPE_FLAG_CAN_SEND
  | PAYLOAD_TYPE_RTCP_FEEDBACK_ENABLED
  | PAYLOAD_TYPE_ENABLED | PAYLOAD_TYPE_BITRATE_OVERRIDE
  | PAYLOAD_TYPE_FROZEN_NUMBER | PAYLOAD_TYPE_PRIORITY_BONUS

record avpf_params =
  features :: u8
  rpsi_compatibility :: bool
  trr_interval :: u16

record payload_type =
  pt_type :: pt_kind
  mime_type :: "string option"
  clock_rate :: int
  channels :: int
  send_fmtp :: "string option"
  recv_fmtp :: "string option"
  pt_avpf :: avpf_params
  pt_flags :: "pt_flag set"
  pt_number :: int

type_synonym payloads = "payload_type list"

record ortp_api =
  payload_type_clone :: "payload_type \<Rightarrow> payload_type"
  payload_type_get_number :: "payload_type \<Rightarrow> int"
  payload_type_set_number :: "payload_type \<Rightarrow> int \<Rightarrow> payload_type"
  payload_type_set_flag :: "payload_type \<Rightarrow> pt_flag set \<Rightarrow> payload_type"
  payload_type_unset_flag :: "payload_type \<Rightarrow> pt_flag set \<Rightarrow> payload_type"
  payload_type_append_send_fmtp :: "payload_type \<Rightarrow> string \<Rightarrow> payload_type"
  payload_type_set_recv_fmtp :: "payload_type \<Rightarrow> string \<Rightarrow> payload_type"
  t140_mime :: string
  t140_red_mime :: string
  telephone_event_pt :: payload_type
  flexfec_pt :: payload_type

definition ortp_contract :: "ortp_api \<Rightarrow> bool" where
  "ortp_contract api \<longleftrightarrow>
     (\<forall>p. payload_type_clone api p = p) \<and>
     (\<forall>p. payload_type_get_number api p = pt_number p) \<and>
     (\<forall>p n. payload_type_set_number api p n = p\<lparr>pt_number := n\<rparr>) \<and>
     (\<forall>p f. payload_type_set_flag api p f = p\<lparr>pt_flags := pt_flags p \<union> f\<rparr>) \<and>
     (\<forall>p f. payload_type_unset_flag api p f = p\<lparr>pt_flags := pt_flags p - f\<rparr>) \<and>
     (\<forall>p s. \<exists>x. payload_type_append_send_fmtp api p s = p\<lparr>send_fmtp := x\<rparr>) \<and>
     (\<forall>p s. payload_type_set_recv_fmtp api p s = p\<lparr>recv_fmtp := Some s\<rparr>)"

text \<open>
  \<open>strcasecmp\<close> and \<open>strcmp\<close> on the mime types: a null pointer has no result.
\<close>

definition mime_caseeq :: "payload_type \<Rightarrow> string \<Rightarrow> bool res" where
  "mime_caseeq p s = (case mime_type p of None \<Rightarrow> Inl Null_dereference | Some m \<Rightarrow> Inr (strcaseeq m s))"

definition mime_eq :: "payload_type \<Rightarrow> string \<Rightarrow> bool res" where
  "mime_eq p s = (case mime_type p of None \<Rightarrow> Inl Null_dereference | Some m \<Rightarrow> Inr (m = s))"

definition mimes_caseeq :: "payload_type \<Rightarrow> payload_type \<Rightarrow> bool res" where
  "mimes_caseeq p q = (case mime_type p of None \<Rightarrow> Inl Null_dereference | Some m \<Rightarrow> mime_caseeq q m)"

text \<open>The lists of a running program hold payload types that have a mime type.\<close>

definition named_payloads :: "payloads \<Rightarrow> bool" where
  "named_payloads l \<longleftrightarrow> (\<forall>p \<in> set l. mime_type p \<noteq> None)"

section \<open>PayloadTypeHandler\<close>

text \<open>The test of the receive parameters: equal up to case, or both null.\<close>

definition same_recv_fmtp :: "payload_type \<Rightarrow> payload_type \<Rightarrow> bool" where
  "same_recv_fmtp it pt =
     (case recv_fmtp it of
        Some f \<Rightarrow> (case recv_fmtp pt of Some g \<Rightarrow> strcaseeq f g | None \<Rightarrow> False)
      | None \<Rightarrow> recv_fmtp pt = None)"

text \<open>\<open>findPayloadTypeNumber\<close>: the loop keeps the last match and stops at an exact one.\<close>

primrec findPayloadTypeCandidate ::
  "payloads \<Rightarrow> payload_type \<Rightarrow> payload_type option \<Rightarrow> payload_type option res" where
  "findPayloadTypeCandidate [] pt candidate = Inr candidate"
| "findPayloadTypeCandidate (it # rest) pt candidate =
     bindR (mimes_caseeq pt it) (\<lambda>same.
     if same \<and> clock_rate it = clock_rate pt \<and> (channels it = channels pt \<or> channels pt \<le> 0)
     then (if same_recv_fmtp it pt then Inr (Some it)
           else findPayloadTypeCandidate rest pt (Some it))
     else findPayloadTypeCandidate rest pt candidate)"

definition findPayloadTypeNumber :: "ortp_api \<Rightarrow> payloads \<Rightarrow> payload_type \<Rightarrow> int res" where
  "findPayloadTypeNumber api assigned pt =
     bindR (findPayloadTypeCandidate assigned pt None) (\<lambda>c.
       Inr (case c of None \<Rightarrow> -1 | Some p \<Rightarrow> payload_type_get_number api p))"

definition hasTelephoneEventPayloadType :: "payloads \<Rightarrow> int \<Rightarrow> bool" where
  "hasTelephoneEventPayloadType tev rate = list_ex (\<lambda>pt. clock_rate pt = rate) tev"

text \<open>The table of \<open>(maxAvailableBitrate, minClockRate, recommendedBitrate)\<close>, without its sentinel.\<close>

definition defaultVbrCodecBitrates :: "(int \<times> int \<times> int) list" where
  "defaultVbrCodecBitrates =
     [(64, 44100, 50), (64, 16000, 40), (32, 16000, 32), (32, 8000, 32), (0, 8000, 24)]"

definition lookupTypicalVbrBitrate :: "int \<Rightarrow> int \<Rightarrow> int" where
  "lookupTypicalVbrBitrate maxBandwidth clockRate =
     (let maxBandwidth' = (if maxBandwidth \<le> 0 then 64 else maxBandwidth)
      in case find (\<lambda>(maxAvailableBitrate, minClockRate, _).
                      maxBandwidth' \<ge> maxAvailableBitrate \<and> clockRate \<ge> minClockRate)
                   defaultVbrCodecBitrates of
           Some (_, _, recommendedBitrate) \<Rightarrow> recommendedBitrate
         | None \<Rightarrow> 32)"

text \<open>
  \<open>isPayloadTypeNumberAvailable\<close>: the ignored payload type is a pointer into the list, here a
  position (\<open>None\<close> for \<open>nullptr\<close>).
\<close>

definition isPayloadTypeNumberAvailable :: "ortp_api \<Rightarrow> payloads \<Rightarrow> int \<Rightarrow> nat option \<Rightarrow> bool" where
  "isPayloadTypeNumberAvailable api codecs number ignore =
     list_all (\<lambda>(i, pt). \<not> (Some i \<noteq> ignore \<and> payload_type_get_number api pt = number))
       (List.enumerate 0 codecs)"

text \<open>
  The search for a dynamic number: \<open>while (dynNumber < 127)\<close>.  The result is the number that
  was set, if any, and the value of \<open>dynNumber\<close> after the loop.
\<close>

function find_dyn_number :: "ortp_api \<Rightarrow> payloads \<Rightarrow> int \<Rightarrow> int option \<times> int" where
  "find_dyn_number api codecs dynNumber =
     (if dynNumber < 127
      then (if isPayloadTypeNumberAvailable api codecs dynNumber None
            then (Some dynNumber, dynNumber + 1)
            else find_dyn_number api codecs (dynNumber + 1))
      else (None, dynNumber))"
  by pat_completeness auto
termination
  by (relation "measure (\<lambda>(api, codecs, d). nat (127 - d))") auto

declare find_dyn_number.simps [simp del]

text \<open>\<open>payload_type_set_enable\<close> and \<open>payload_type_enabled\<close> (\<open>src/payload-type/payload-type.cpp\<close>).\<close>

definition payload_type_set_enable :: "ortp_api \<Rightarrow> payload_type \<Rightarrow> bool \<Rightarrow> payload_type" where
  "payload_type_set_enable api pt v =
     (if v then payload_type_set_flag api pt {PAYLOAD_TYPE_ENABLED}
      else payload_type_unset_flag api pt {PAYLOAD_TYPE_ENABLED})"

definition payload_type_enabled :: "payload_type \<Rightarrow> bool" where
  "payload_type_enabled pt \<longleftrightarrow> PAYLOAD_TYPE_ENABLED \<in> pt_flags pt"

text \<open>One iteration of the loop over the codecs, at position \<open>i\<close>.\<close>

definition assign_one :: "ortp_api \<Rightarrow> int \<Rightarrow> payloads \<Rightarrow> payloads \<Rightarrow> nat \<Rightarrow> payloads res" where
  "assign_one api dyn_pt previousList codecs i =
     bindR (findPayloadTypeNumber api previousList (codecs ! i)) (\<lambda>found.
       let codecs1 = (if found \<noteq> -1
             then codecs[i := payload_type_set_flag api (payload_type_set_number api (codecs ! i) found)
                                {PAYLOAD_TYPE_FROZEN_NUMBER}]
             else codecs);
           number1 = (if found \<noteq> -1 then found else payload_type_get_number api (codecs ! i));
           number2 = (if number1 \<noteq> -1 \<and> PAYLOAD_TYPE_FROZEN_NUMBER \<notin> pt_flags (codecs1 ! i)
                         \<and> \<not> isPayloadTypeNumberAvailable api codecs1 number1 (Some i)
                      then -1 else number1)
       in Inr (if number2 = -1
               then (let (assigned, dynNumber) = find_dyn_number api codecs1 dyn_pt;
                         codecs2 = (case assigned of
                             None \<Rightarrow> codecs1
                           | Some d \<Rightarrow> codecs1[i := payload_type_set_number api (codecs1 ! i) d])
                     in if dynNumber = 127
                        then codecs2[i := payload_type_set_enable api (codecs2 ! i) False]
                        else codecs2)
               else codecs1))"

text \<open>
  \<open>if (mime is t140 red) red = pt; else if (mime is t140) t140 = pt;\<close> over the codecs: the
  positions of the last ones.
\<close>

fun find_red_t140 :: "ortp_api \<Rightarrow> (nat \<times> payload_type) list \<Rightarrow> nat option \<Rightarrow> nat option \<Rightarrow>
    (nat option \<times> nat option) res" where
  "find_red_t140 api [] red t140 = Inr (red, t140)"
| "find_red_t140 api ((i, p) # ps) red t140 =
     bindR (mime_eq p (t140_red_mime api)) (\<lambda>is_red.
       if is_red then find_red_t140 api ps (Some i) t140
       else bindR (mime_eq p (t140_mime api)) (\<lambda>is_t140.
              find_red_t140 api ps red (if is_t140 then Some i else t140)))"

definition assignPayloadTypeNumbers :: "ortp_api \<Rightarrow> int \<Rightarrow> payloads \<Rightarrow> payloads \<Rightarrow> payloads res" where
  "assignPayloadTypeNumbers api dyn_pt codecs previousList =
     bindR (foldR (assign_one api dyn_pt previousList) codecs [0..<length codecs]) (\<lambda>l.
     bindR (find_red_t140 api (List.enumerate 0 l) None None) (\<lambda>(red, t140).
       Inr (case (t140, red) of
              (Some t, Some r) \<Rightarrow>
                let n = int_to_string (payload_type_get_number api (l ! t))
                in l[r := payload_type_set_recv_fmtp api (l ! r) (n @ ''/'' @ n @ ''/'' @ n)]
            | _ \<Rightarrow> l)))"

text \<open>\<open>createTelephoneEventPayloadTypes\<close>: one telephone-event type per clock rate of the codecs.\<close>

fun createTelephoneEvents :: "ortp_api \<Rightarrow> int \<Rightarrow> payloads \<Rightarrow> payloads \<Rightarrow> payloads \<Rightarrow> payloads" where
  "createTelephoneEvents api prefered codecs [] result = result"
| "createTelephoneEvents api prefered codecs (pt # pts) result =
     (if hasTelephoneEventPayloadType result (clock_rate pt)
      then createTelephoneEvents api prefered codecs pts result
      else (let tev = (payload_type_clone api (telephone_event_pt api))\<lparr>clock_rate := clock_rate pt\<rparr>;
                tev' = (if result = [] \<and> isPayloadTypeNumberAvailable api codecs prefered None
                        then payload_type_set_number api tev prefered
                        else payload_type_set_number api tev (-1))
            in createTelephoneEvents api prefered codecs pts (result @ [tev'])))"

definition createTelephoneEventPayloadTypes :: "ortp_api \<Rightarrow> int \<Rightarrow> payloads \<Rightarrow> payloads" where
  "createTelephoneEventPayloadTypes api prefered codecs = createTelephoneEvents api prefered codecs codecs []"

definition createFecPayloadType :: "ortp_api \<Rightarrow> payload_type" where
  "createFecPayloadType api = payload_type_set_number api (payload_type_clone api (flexfec_pt api)) (-1)"

definition bandwidthIsGreater :: "int \<Rightarrow> int \<Rightarrow> bool" where
  "bandwidthIsGreater bandwidth1 bandwidth2 =
     (if bandwidth1 \<le> 0 then True else if bandwidth2 \<le> 0 then False else bandwidth1 \<ge> bandwidth2)"

definition getMaxCodecSampleRate :: "payloads \<Rightarrow> int res" where
  "getMaxCodecSampleRate codecs =
     foldR (\<lambda>maxSampleRate pt.
       bindR (mime_caseeq pt ''G722'') (\<lambda>g722.
         let sampleRate = (if g722 then 16000 else clock_rate pt)
         in Inr (if sampleRate > maxSampleRate then sampleRate else maxSampleRate))) 0 codecs"

definition getMinBandwidth :: "int \<Rightarrow> int \<Rightarrow> int" where
  "getMinBandwidth downBandwidth upBandwidth =
     (if downBandwidth \<le> 0 then upBandwidth
      else if upBandwidth \<le> 0 then downBandwidth
      else min downBandwidth upBandwidth)"

definition getRemainingBandwidthForVideo :: "int \<Rightarrow> int \<Rightarrow> int" where
  "getRemainingBandwidthForVideo total_bw audio =
     (let remaining = total_bw - audio - 10 in if remaining < 0 then 0 else remaining)"

section \<open>The oRTP contract as rewrite rules\<close>

lemma ortp_eqs:
  assumes "ortp_contract api"
  shows "payload_type_clone api p = p"
    and "payload_type_get_number api p = pt_number p"
    and "payload_type_set_number api p n = p\<lparr>pt_number := n\<rparr>"
    and "payload_type_set_flag api p f = p\<lparr>pt_flags := pt_flags p \<union> f\<rparr>"
    and "payload_type_unset_flag api p f = p\<lparr>pt_flags := pt_flags p - f\<rparr>"
    and "payload_type_set_recv_fmtp api p s = p\<lparr>recv_fmtp := Some s\<rparr>"
  using assms by (simp_all add: ortp_contract_def)

lemma ortp_append_send_fmtp:
  assumes "ortp_contract api"
  obtains x where "payload_type_append_send_fmtp api p s = p\<lparr>send_fmtp := x\<rparr>"
  using assms unfolding ortp_contract_def by blast

lemma ortp_append_fields:
  assumes "ortp_contract api"
  shows "mime_type (payload_type_append_send_fmtp api p s) = mime_type p"
    and "clock_rate (payload_type_append_send_fmtp api p s) = clock_rate p"
    and "channels (payload_type_append_send_fmtp api p s) = channels p"
    and "pt_type (payload_type_append_send_fmtp api p s) = pt_type p"
    and "recv_fmtp (payload_type_append_send_fmtp api p s) = recv_fmtp p"
    and "pt_avpf (payload_type_append_send_fmtp api p s) = pt_avpf p"
    and "pt_flags (payload_type_append_send_fmtp api p s) = pt_flags p"
    and "pt_number (payload_type_append_send_fmtp api p s) = pt_number p"
  by (rule ortp_append_send_fmtp [OF assms, of p s]; simp)+

text \<open>A concrete oRTP, for the examples: the functions do what the contract says.\<close>

definition sample_pt :: "string \<Rightarrow> int \<Rightarrow> int \<Rightarrow> int \<Rightarrow> payload_type" where
  "sample_pt mime rate chans number =
     \<lparr>pt_type = PAYLOAD_AUDIO_CONTINUOUS, mime_type = Some mime, clock_rate = rate, channels = chans,
      send_fmtp = None, recv_fmtp = None,
      pt_avpf = \<lparr>features = 0, rpsi_compatibility = False, trr_interval = 0\<rparr>,
      pt_flags = {PAYLOAD_TYPE_ENABLED}, pt_number = number\<rparr>"

definition sample_ortp :: ortp_api where
  "sample_ortp =
     \<lparr>payload_type_clone = (\<lambda>p. p), payload_type_get_number = pt_number,
      payload_type_set_number = (\<lambda>p n. p\<lparr>pt_number := n\<rparr>),
      payload_type_set_flag = (\<lambda>p f. p\<lparr>pt_flags := pt_flags p \<union> f\<rparr>),
      payload_type_unset_flag = (\<lambda>p f. p\<lparr>pt_flags := pt_flags p - f\<rparr>),
      payload_type_append_send_fmtp = (\<lambda>p s. p\<lparr>send_fmtp :=
        Some (case send_fmtp p of None \<Rightarrow> s | Some t \<Rightarrow> t @ '';'' @ s)\<rparr>),
      payload_type_set_recv_fmtp = (\<lambda>p s. p\<lparr>recv_fmtp := Some s\<rparr>),
      t140_mime = ''t140'', t140_red_mime = ''red'',
      telephone_event_pt = sample_pt ''telephone-event'' 8000 0 (-1),
      flexfec_pt = sample_pt ''flexfec'' 90000 0 (-1)\<rparr>"

lemma sample_ortp_contract: "ortp_contract sample_ortp"
  by (auto simp: ortp_contract_def sample_ortp_def)

section \<open>Allocation of payload type numbers\<close>

definition numbers :: "payloads \<Rightarrow> int list" where
  "numbers l = map pt_number l"

lemma length_numbers [simp]: "length (numbers l) = length l"
  by (simp add: numbers_def)

lemma nth_numbers [simp]: "i < length l \<Longrightarrow> numbers l ! i = pt_number (l ! i)"
  by (simp add: numbers_def)

lemma available_iff:
  assumes "ortp_contract api"
  shows "isPayloadTypeNumberAvailable api l n ignore \<longleftrightarrow>
     (\<forall>i < length l. Some i \<noteq> ignore \<longrightarrow> pt_number (l ! i) \<noteq> n)"
  by (auto simp: isPayloadTypeNumberAvailable_def ortp_eqs [OF assms] list_all_iff in_set_enumerate_eq)

lemma available_None_iff:
  assumes "ortp_contract api"
  shows "isPayloadTypeNumberAvailable api l n None \<longleftrightarrow> n \<notin> set (numbers l)"
  by (auto simp: available_iff [OF assms] in_set_conv_nth)

lemma find_dyn_number_Some:
  assumes "find_dyn_number api l d = (Some n, e)"
  shows "d \<le> n \<and> n < 127 \<and> e = n + 1 \<and> isPayloadTypeNumberAvailable api l n None \<and>
    (\<forall>k. d \<le> k \<and> k < n \<longrightarrow> \<not> isPayloadTypeNumberAvailable api l k None)"
  using assms
proof (induction api l d rule: find_dyn_number.induct)
  case (1 api l d)
  show ?case
  proof (cases "d < 127 \<and> \<not> isPayloadTypeNumberAvailable api l d None")
    case True
    with "1.prems" have "find_dyn_number api l (d + 1) = (Some n, e)"
      by (simp add: find_dyn_number.simps [of api l d])
    with "1.IH" True have IH: "d + 1 \<le> n \<and> n < 127 \<and> e = n + 1 \<and> isPayloadTypeNumberAvailable api l n None \<and>
        (\<forall>k. d + 1 \<le> k \<and> k < n \<longrightarrow> \<not> isPayloadTypeNumberAvailable api l k None)" by blast
    have "\<not> isPayloadTypeNumberAvailable api l k None" if "d \<le> k" "k < n" for k
      using IH True that by (cases "k = d") auto
    with IH show ?thesis by simp
  next
    case False
    with "1.prems" show ?thesis
      by (auto simp: find_dyn_number.simps [of api l d] split: if_splits)
  qed
qed

lemma find_dyn_number_None:
  assumes "find_dyn_number api l d = (None, e)" and "d \<le> k" and "k < 127"
  shows "\<not> isPayloadTypeNumberAvailable api l k None"
  using assms
proof (induction api l d rule: find_dyn_number.induct)
  case (1 api l d)
  show ?case
  proof (cases "d < 127 \<and> \<not> isPayloadTypeNumberAvailable api l d None")
    case True
    with "1.prems"(1) have rec: "find_dyn_number api l (d + 1) = (None, e)"
      by (simp add: find_dyn_number.simps [of api l d])
    show ?thesis
    proof (cases "k = d")
      case False
      with "1.IH" True rec "1.prems"(2,3) show ?thesis by simp
    qed (use True in simp)
  next
    case False
    with "1.prems" show ?thesis
      by (auto simp: find_dyn_number.simps [of api l d] split: if_splits)
  qed
qed

text \<open>A list that does not use all of a range leaves a number of the range free.\<close>

lemma free_number_exists:
  fixes d :: int
  assumes "card (set (numbers l) \<inter> {d..<127}) < length l" and "d + int (length l) \<le> 127"
  shows "\<exists>n. d \<le> n \<and> n < 127 \<and> n \<notin> set (numbers l)"
proof (rule ccontr)
  assume "\<not> ?thesis"
  then have "{d..<127} \<subseteq> set (numbers l) \<inter> {d..<127}" by auto
  then have "card {d..<127} \<le> card (set (numbers l) \<inter> {d..<127})" by (intro card_mono) auto
  with assms show False by simp
qed

lemma card_numbers_dup:
  assumes "i < length l" and "j < length l" and "i \<noteq> j" and "pt_number (l ! i) = pt_number (l ! j)"
  shows "card (set (numbers l) \<inter> A) < length l"
proof -
  have "\<not> distinct (numbers l)" using assms by (auto simp: distinct_conv_nth)
  then have "card (set (numbers l)) < length l"
    by (metis card_distinct card_length le_neq_implies_less length_numbers)
  moreover have "card (set (numbers l) \<inter> A) \<le> card (set (numbers l))" by (intro card_mono) auto
  ultimately show ?thesis by simp
qed

lemma card_numbers_outside:
  assumes "i < length l" and "pt_number (l ! i) \<notin> A"
  shows "card (set (numbers l) \<inter> A) < length l"
proof -
  have "pt_number (l ! i) \<in> set (numbers l)" using assms by (metis length_numbers nth_mem nth_numbers)
  with assms(2) have "set (numbers l) \<inter> A \<subset> set (numbers l)" by auto
  then have "card (set (numbers l) \<inter> A) < card (set (numbers l))" by (intro psubset_card_mono) auto
  also have "\<dots> \<le> length l" by (metis card_length length_numbers)
  finally show ?thesis .
qed

text \<open>The loop invariant: the first \<open>k\<close> codecs have numbers no other codec of the list has.\<close>

definition assigned_upto :: "nat \<Rightarrow> payloads \<Rightarrow> bool" where
  "assigned_upto k l \<longleftrightarrow>
     (\<forall>p \<in> set l. PAYLOAD_TYPE_FROZEN_NUMBER \<notin> pt_flags p) \<and>
     (\<forall>i < k. i < length l \<longrightarrow> pt_number (l ! i) \<noteq> -1 \<and>
        (\<forall>j < length l. j \<noteq> i \<longrightarrow> pt_number (l ! j) \<noteq> pt_number (l ! i)))"

text \<open>Giving codec \<open>k\<close> a number no codec has extends the invariant by one.\<close>

lemma assigned_upto_update:
  assumes inv: "assigned_upto k l" and k: "k < length l"
    and n: "pt_number q \<notin> set (numbers l)" "pt_number q \<noteq> -1"
    and fl: "PAYLOAD_TYPE_FROZEN_NUMBER \<notin> pt_flags q"
  shows "assigned_upto (Suc k) (l[k := q])"
proof -
  have fresh: "\<forall>j < length l. pt_number (l ! j) \<noteq> pt_number q \<and> pt_number q \<noteq> pt_number (l ! j)"
    using n(1) by (metis length_numbers nth_mem nth_numbers)
  have "\<forall>p \<in> set (l[k := q]). PAYLOAD_TYPE_FROZEN_NUMBER \<notin> pt_flags p"
    using inv fl set_update_subset_insert [of l k q] by (auto simp: assigned_upto_def)
  moreover have "pt_number (l[k := q] ! i) \<noteq> -1 \<and>
      (\<forall>j < length l. j \<noteq> i \<longrightarrow> pt_number (l[k := q] ! j) \<noteq> pt_number (l[k := q] ! i))"
    if "i < Suc k" "i < length l" for i
    using inv fresh n(2) k that by (auto simp: assigned_upto_def nth_list_update less_Suc_eq)
  ultimately show ?thesis by (simp add: assigned_upto_def)
qed

lemma assigned_upto_keep:
  assumes "assigned_upto k l" and "k < length l" and "pt_number (l ! k) \<noteq> -1"
    and "\<forall>j < length l. j \<noteq> k \<longrightarrow> pt_number (l ! j) \<noteq> pt_number (l ! k)"
  shows "assigned_upto (Suc k) l"
  using assms by (auto simp: assigned_upto_def less_Suc_eq)

lemma findPayloadTypeNumber_Nil [simp]: "findPayloadTypeNumber api [] pt = Inr (-1)"
  by (simp add: findPayloadTypeNumber_def)

lemma assign_one_step:
  assumes api: "ortp_contract api" and inv: "assigned_upto k l" and k: "k < length l"
    and room: "0 \<le> dyn_pt" "dyn_pt + int (length l) \<le> 127"
  shows "\<exists>l'. assign_one api dyn_pt [] l k = Inr l' \<and> assigned_upto (Suc k) l' \<and> length l' = length l
    \<and> map mime_type l' = map mime_type l"
proof -
  have nf: "PAYLOAD_TYPE_FROZEN_NUMBER \<notin> pt_flags (l ! k)"
    using inv k by (auto simp: assigned_upto_def)
  have un: "map mime_type (l[k := q]) = map mime_type l" if "mime_type q = mime_type (l ! k)" for q
    using that k by (metis list_update_id map_update)
  show ?thesis
  proof (cases "pt_number (l ! k) \<noteq> -1 \<and> isPayloadTypeNumberAvailable api l (pt_number (l ! k)) (Some k)")
    case True
    then have "assign_one api dyn_pt [] l k = Inr l"
      by (auto simp: assign_one_def ortp_eqs [OF api] Let_def)
    moreover have "assigned_upto (Suc k) l"
      using True by (intro assigned_upto_keep [OF inv k]) (auto simp: available_iff [OF api])
    ultimately show ?thesis by auto
  next
    case False
    have "card (set (numbers l) \<inter> {dyn_pt..<127}) < length l"
    proof (cases "pt_number (l ! k) = -1")
      case True
      with k room show ?thesis by (intro card_numbers_outside) auto
    next
      case neg: False
      with False obtain j where "j < length l" "j \<noteq> k" "pt_number (l ! j) = pt_number (l ! k)"
        by (auto simp: available_iff [OF api])
      with k card_numbers_dup [of k l j] show ?thesis by simp
    qed
    then obtain m where m: "dyn_pt \<le> m" "m < 127" "m \<notin> set (numbers l)"
      using free_number_exists room by blast
    obtain d e where de: "find_dyn_number api l dyn_pt = (Some d, e)"
      using m find_dyn_number_None [of api l dyn_pt _ m]
      by (metis available_None_iff [OF api] option.exhaust surj_pair)
    have d: "d \<notin> set (numbers l)" "d \<noteq> -1"
      using find_dyn_number_Some [OF de] room by (auto simp: available_None_iff [OF api])
    let ?q = "if e = 127 then payload_type_set_enable api ((l ! k)\<lparr>pt_number := d\<rparr>) False
              else (l ! k)\<lparr>pt_number := d\<rparr>"
    have "assign_one api dyn_pt [] l k = Inr (l[k := ?q])"
      using False nf k de by (auto simp: assign_one_def ortp_eqs [OF api] Let_def)
    moreover have "assigned_upto (Suc k) (l[k := ?q])"
      by (rule assigned_upto_update [OF inv k])
        (use d nf in \<open>auto simp: payload_type_set_enable_def ortp_eqs [OF api]\<close>)
    ultimately show ?thesis
      using un [of ?q] by (simp add: payload_type_set_enable_def ortp_eqs [OF api])
  qed
qed

lemma assign_loop:
  assumes api: "ortp_contract api" and room: "0 \<le> dyn_pt" "dyn_pt + int (length l) \<le> 127"
    and nf: "\<forall>p \<in> set l. PAYLOAD_TYPE_FROZEN_NUMBER \<notin> pt_flags p" and k: "k \<le> length l"
  shows "\<exists>l'. foldR (assign_one api dyn_pt []) l [0..<k] = Inr l' \<and> assigned_upto k l' \<and>
    length l' = length l \<and> map mime_type l' = map mime_type l"
  using k
proof (induction k)
  case 0
  with nf show ?case by (simp add: assigned_upto_def)
next
  case (Suc k)
  then obtain l' where l': "foldR (assign_one api dyn_pt []) l [0..<k] = Inr l'" "assigned_upto k l'"
    "length l' = length l" "map mime_type l' = map mime_type l" by auto
  with assign_one_step [OF api, of k l' dyn_pt] room Suc.prems show ?case
    by (auto simp: foldR_append)
qed

text \<open>Replacing an element by one with the same field leaves the list of the fields.\<close>

lemma update_field_map: "f q = f (l ! i) \<Longrightarrow> map f (l[i := q]) = map f l"
proof (cases "i < length l")
  case True
  assume "f q = f (l ! i)"
  with True show ?thesis by (metis list_update_id map_update)
qed (simp add: list_update_beyond)

lemma find_red_t140_named:
  assumes "\<forall>(i, p) \<in> set ps. mime_type p \<noteq> None"
  shows "\<exists>r t. find_red_t140 api ps red t140 = Inr (r, t)"
  using assms
proof (induction ps arbitrary: red t140)
  case (Cons x ps)
  then show ?case by (cases x) (auto simp: mime_eq_def)
qed simp

lemma assigned_upto_distinct: "assigned_upto (length l) l \<Longrightarrow> distinct (numbers l) \<and> -1 \<notin> set (numbers l)"
  by (auto simp: assigned_upto_def distinct_conv_nth in_set_conv_nth)

text \<open>
  C32: Allocation of payload type numbers.  With no earlier offer to honour (empty
  \<open>previousList\<close>), no frozen number, and enough numbers between \<open>dyn_pt\<close> and 126 for the codecs,
  \<open>assignPayloadTypeNumbers\<close> returns the same codecs with pairwise different numbers, none of
  them left unassigned.
\<close>

theorem assignPayloadTypeNumbers_distinct:
  assumes api: "ortp_contract api" and named: "named_payloads codecs"
    and nf: "\<forall>p \<in> set codecs. PAYLOAD_TYPE_FROZEN_NUMBER \<notin> pt_flags p"
    and room: "0 \<le> dyn_pt" "dyn_pt + int (length codecs) \<le> 127"
  shows "\<exists>l. assignPayloadTypeNumbers api dyn_pt codecs [] = Inr l \<and>
    map mime_type l = map mime_type codecs \<and> distinct (numbers l) \<and> -1 \<notin> set (numbers l)"
proof -
  obtain l where l: "foldR (assign_one api dyn_pt []) codecs [0..<length codecs] = Inr l"
    "assigned_upto (length l) l" "length l = length codecs" "map mime_type l = map mime_type codecs"
    using assign_loop [OF api room nf, of "length codecs"] by auto
  have "set (map mime_type l) = set (map mime_type codecs)" by (simp only: l(4))
  then have "\<forall>p \<in> set l. mime_type p \<noteq> None"
    using named unfolding named_payloads_def by (metis (no_types, lifting) image_iff set_map)
  moreover have "snd ` set (List.enumerate 0 l) = set l" by (metis map_snd_enumerate set_map)
  ultimately have "\<forall>(i, p) \<in> set (List.enumerate 0 l). mime_type p \<noteq> None" by force
  then obtain r t where rt: "find_red_t140 api (List.enumerate 0 l) None None = Inr (r, t)"
    using find_red_t140_named by blast
  have same: "numbers (l[i := payload_type_set_recv_fmtp api (l ! i) x]) = numbers l"
    "map mime_type (l[i := payload_type_set_recv_fmtp api (l ! i) x]) = map mime_type l" for i x
    by (simp_all add: ortp_eqs [OF api] numbers_def update_field_map)
  have "\<exists>l'. assignPayloadTypeNumbers api dyn_pt codecs [] = Inr l' \<and>
      map mime_type l' = map mime_type l \<and> numbers l' = numbers l"
    by (cases r; cases t) (simp_all add: assignPayloadTypeNumbers_def l(1) rt same Let_def)
  with assigned_upto_distinct [OF l(2)] l(4) show ?thesis by auto
qed

theorem assignPayloadTypeNumbers_distinct_witness:
  "\<exists>l. assignPayloadTypeNumbers sample_ortp 96
       [sample_pt ''opus'' 48000 2 (-1), sample_pt ''PCMU'' 8000 1 0, sample_pt ''speex'' 16000 1 0] [] = Inr l \<and>
     map mime_type l = [Some ''opus'', Some ''PCMU'', Some ''speex''] \<and>
     distinct (numbers l) \<and> -1 \<notin> set (numbers l)"
  using assignPayloadTypeNumbers_distinct [OF sample_ortp_contract, of
      "[sample_pt ''opus'' 48000 2 (-1), sample_pt ''PCMU'' 8000 1 0, sample_pt ''speex'' 16000 1 0]" 96]
  by (simp add: named_payloads_def sample_pt_def)

text \<open>
  The end of the dynamic range.  When 126 is the only number left, the code assigns it and then
  takes the end of its search for a failure: the codec leaves with the number 126 and disabled.
\<close>

theorem assign_one_last_number_disabled:
  assumes api: "ortp_contract api" and k: "k < length l" and num: "pt_number (l ! k) = -1"
    and dyn: "0 \<le> dyn_pt" "dyn_pt \<le> 126"
    and used: "\<forall>n. dyn_pt \<le> n \<and> n < 126 \<longrightarrow> n \<in> set (numbers l)" and free: "126 \<notin> set (numbers l)"
  shows "assign_one api dyn_pt [] l k =
    Inr (l[k := (l ! k)\<lparr>pt_number := 126, pt_flags := pt_flags (l ! k) - {PAYLOAD_TYPE_ENABLED}\<rparr>])"
proof -
  obtain r e where re: "find_dyn_number api l dyn_pt = (r, e)" by fastforce
  have "r \<noteq> None"
    using find_dyn_number_None [of api l dyn_pt e 126] re dyn free
    by (auto simp: available_None_iff [OF api])
  then obtain d where d: "r = Some d" by blast
  have D: "dyn_pt \<le> d" "d < 127" "e = d + 1" "d \<notin> set (numbers l)"
    using find_dyn_number_Some [of api l dyn_pt d e] re d by (auto simp: available_None_iff [OF api])
  then have "d = 126" using used by force
  with re d D(3) num k show ?thesis
    by (simp add: assign_one_def ortp_eqs [OF api] payload_type_set_enable_def Let_def)
qed

theorem assign_one_last_number_disabled_witness:
  "let l = [sample_pt ''a'' 8000 1 125, sample_pt ''b'' 8000 1 (-1)]
   in assign_one sample_ortp 125 [] l 1 = Inr (l[1 := (l ! 1)\<lparr>pt_number := 126, pt_flags := {}\<rparr>])"
  using assign_one_last_number_disabled [OF sample_ortp_contract,
      of 1 "[sample_pt ''a'' 8000 1 125, sample_pt ''b'' 8000 1 (-1)]" 125]
  by (simp add: sample_pt_def numbers_def)

section \<open>Telephone events\<close>

lemma createTelephoneEvents_rates:
  assumes api: "ortp_contract api"
  shows "distinct (map clock_rate r) \<Longrightarrow>
     distinct (map clock_rate (createTelephoneEvents api n codecs pts r)) \<and>
     clock_rate ` set (createTelephoneEvents api n codecs pts r) = clock_rate ` set r \<union> clock_rate ` set pts"
proof (induction pts arbitrary: r)
  case (Cons pt pts)
  show ?case
  proof (cases "hasTelephoneEventPayloadType r (clock_rate pt)")
    case True
    then have "clock_rate pt \<in> clock_rate ` set r"
      unfolding hasTelephoneEventPayloadType_def list_ex_iff by (metis imageI)
    with True Cons show ?thesis by auto
  next
    case False
    then have "clock_rate pt \<notin> clock_rate ` set r"
      by (auto simp: hasTelephoneEventPayloadType_def list_ex_iff)
    with False Cons.IH Cons.prems show ?thesis by (auto simp: Let_def ortp_eqs [OF api])
  qed
qed simp

lemma createTelephoneEvents_invariant:
  assumes "P r" and "\<And>rate. P [(telephone_event_pt api)\<lparr>clock_rate := rate, pt_number := n\<rparr>]"
    and "\<And>s rate. P s \<Longrightarrow> P (s @ [(telephone_event_pt api)\<lparr>clock_rate := rate, pt_number := -1\<rparr>])"
    and api: "ortp_contract api"
  shows "P (createTelephoneEvents api n codecs pts r)"
  using assms(1)
proof (induction pts arbitrary: r)
  case (Cons pt pts)
  with assms(2) [of "clock_rate pt"] assms(3) [of r "clock_rate pt"] show ?case
    by (simp add: Let_def ortp_eqs [OF api])
qed simp

lemma createTelephoneEvents_numbers:
  assumes api: "ortp_contract api"
  shows "\<forall>p \<in> set (tl (createTelephoneEvents api n codecs pts [])). pt_number p = -1"
proof (rule createTelephoneEvents_invariant [OF _ _ _ api])
  fix s :: payloads and rate
  assume "\<forall>p \<in> set (tl s). pt_number p = -1"
  then show "\<forall>p \<in> set (tl (s @ [(telephone_event_pt api)\<lparr>clock_rate := rate, pt_number := -1\<rparr>])).
      pt_number p = -1" by (cases s) auto
qed simp_all

text \<open>
  \<open>createTelephoneEventPayloadTypes\<close> creates exactly one telephone-event type for every clock
  rate among the codecs, and only the first may claim the preferred number; the numbers of the others
  are left to the allocation.
\<close>

theorem createTelephoneEventPayloadTypes_per_rate:
  assumes api: "ortp_contract api"
  shows "distinct (map clock_rate (createTelephoneEventPayloadTypes api n codecs)) \<and>
    clock_rate ` set (createTelephoneEventPayloadTypes api n codecs) = clock_rate ` set codecs \<and>
    (\<forall>p \<in> set (tl (createTelephoneEventPayloadTypes api n codecs)). pt_number p = -1)"
  using createTelephoneEvents_rates [OF api, of "[]" n codecs codecs]
    createTelephoneEvents_numbers [OF api, of n codecs codecs]
  by (simp add: createTelephoneEventPayloadTypes_def)

theorem createTelephoneEventPayloadTypes_per_rate_witness:
  "let r = createTelephoneEventPayloadTypes sample_ortp 101
        [sample_pt ''opus'' 48000 2 96, sample_pt ''PCMU'' 8000 1 0, sample_pt ''PCMA'' 8000 1 8]
   in distinct (map clock_rate r) \<and> clock_rate ` set r = {48000, 8000} \<and> list_all (\<lambda>p. pt_number p = -1) (tl r)"
  using createTelephoneEventPayloadTypes_per_rate [OF sample_ortp_contract, of 101
      "[sample_pt ''opus'' 48000 2 96, sample_pt ''PCMU'' 8000 1 0, sample_pt ''PCMA'' 8000 1 8]"]
  by (simp add: sample_pt_def list_all_iff)

section \<open>Bandwidth\<close>

text \<open>
  The bitrate recommended for a variable-rate codec fits the available bandwidth whenever that
  is at least the smallest entry of the table (24 kbit/s) and the codec samples at 8 kHz or more; with no
  bandwidth limit (zero or negative) it is between 24 and 50 kbit/s.
\<close>

theorem lookupTypicalVbrBitrate_fits:
  assumes "8000 \<le> rate"
  shows "(24 \<le> bw \<longrightarrow> lookupTypicalVbrBitrate bw rate \<le> bw) \<and>
    24 \<le> lookupTypicalVbrBitrate bw rate \<and> lookupTypicalVbrBitrate bw rate \<le> 50"
  using assms by (simp add: lookupTypicalVbrBitrate_def defaultVbrCodecBitrates_def)

theorem lookupTypicalVbrBitrate_fits_witness:
  "lookupTypicalVbrBitrate 30 48000 \<le> 30 \<and> lookupTypicalVbrBitrate 30 48000 = 24"
  using lookupTypicalVbrBitrate_fits [of 48000 30]
  by (simp add: lookupTypicalVbrBitrate_def defaultVbrCodecBitrates_def)

end
