(* ===== verification/C_Text.thy ===== *)
theory C_Text
  imports Prelude
begin

text \<open>
  Text conversions of the C library that several components use: white space, words of \<open>%s\<close>, decimal,
  octal and hexadecimal numbers as read by \<open>atoi\<close> and \<open>scanf\<close> and written by \<open>printf\<close>, lines of
  \<open>strtok\<close>.  C strings are lists of characters without the terminator; a number that does not fit
  the destination has no defined result.
\<close>

section \<open>White space and words\<close>

definition is_space_c :: "char \<Rightarrow> bool" where
  "is_space_c c \<longleftrightarrow> c \<in> {CHR '' '', CHR 0x09, CHR 0x0A, CHR 0x0B, CHR 0x0C, CHR 0x0D}"

definition skip_ws :: "string \<Rightarrow> string" where
  "skip_ws = dropWhile is_space_c"

text \<open>\<open>%ns\<close>: at least one and at most \<open>n\<close> characters that are not white space.\<close>

definition scan_s :: "nat \<Rightarrow> string \<Rightarrow> (string \<times> string) option" where
  "scan_s n inp =
     (let s = skip_ws inp; w = take n (takeWhile (\<lambda>c. \<not> is_space_c c) s)
      in if w = [] then None else Some (w, drop (length w) s))"

text \<open>\<open>%s\<close> without a width: the whole word.\<close>

definition scan_word :: "string \<Rightarrow> (string \<times> string) option" where
  "scan_word inp =
     (let s = skip_ws inp; w = takeWhile (\<lambda>c. \<not> is_space_c c) s
      in if w = [] then None else Some (w, dropWhile (\<lambda>c. \<not> is_space_c c) s))"

text \<open>The tokens of \<open>strtok\<close> for one separator: the non-empty pieces between separators.\<close>

fun split_at :: "char \<Rightarrow> string \<Rightarrow> string list" where
  "split_at d [] = [[]]"
| "split_at d (c # cs) = (if c = d then [] # split_at d cs
     else (case split_at d cs of [] \<Rightarrow> [[c]] | w # ws \<Rightarrow> (c # w) # ws))"

definition strtok_all :: "char \<Rightarrow> string \<Rightarrow> string list" where
  "strtok_all d s = filter (\<lambda>w. w \<noteq> []) (split_at d s)"

section \<open>Numbers\<close>

definition scan_sign :: "string \<Rightarrow> bool \<times> string" where
  "scan_sign s = (case s of
      [] \<Rightarrow> (False, [])
    | c # cs \<Rightarrow> if c = CHR ''-'' then (True, cs) else if c = CHR ''+'' then (False, cs) else (False, s))"

definition signed_of :: "bool \<Rightarrow> nat \<Rightarrow> int" where
  "signed_of neg n = (if neg then - int n else int n)"

text \<open>The values of a signed type of the given width, and the failure for the others.\<close>

definition fits :: "nat \<Rightarrow> int \<Rightarrow> bool" where
  "fits w v \<longleftrightarrow> - (2 ^ (w - 1)) \<le> v \<and> v < 2 ^ (w - 1)"

definition store_signed :: "nat \<Rightarrow> int \<Rightarrow> int res" where
  "store_signed w v = (if fits w v then Inr v else Inl Integer_out_of_range)"

text \<open>\<open>atoi\<close> (width 32) and \<open>atoll\<close> (width 64).\<close>

definition c_atoi :: "nat \<Rightarrow> string \<Rightarrow> int res" where
  "c_atoi w s = (let (neg, b) = scan_sign (skip_ws s)
     in store_signed w (signed_of neg (digits_value (takeWhile is_digit_c b))))"

definition is_hex_c :: "char \<Rightarrow> bool" where
  "is_hex_c c \<longleftrightarrow> is_digit_c c \<or> (97 \<le> (of_char c :: nat) \<and> (of_char c :: nat) \<le> 102) \<or>
     (65 \<le> (of_char c :: nat) \<and> (of_char c :: nat) \<le> 70)"

definition hex_value :: "char \<Rightarrow> nat" where
  "hex_value c = (if is_digit_c c then of_char c - 48 else if 97 \<le> (of_char c :: nat) then of_char c - 87
     else of_char c - 55)"

definition base_value :: "nat \<Rightarrow> string \<Rightarrow> nat" where
  "base_value b = foldl (\<lambda>acc c. acc * b + hex_value c) 0"

definition is_octal_c :: "char \<Rightarrow> bool" where
  "is_octal_c c \<longleftrightarrow> 48 \<le> (of_char c :: nat) \<and> (of_char c :: nat) \<le> 55"

definition hex_prefix :: "string \<Rightarrow> bool" where
  "hex_prefix s \<longleftrightarrow> take 2 s = ''0x'' \<or> take 2 s = ''0X''"

text \<open>
  \<open>sscanf(s, "%i", &ret)\<close> on a variable that holds 0: the base is that of the prefix, and input without digits
  leaves the 0.
\<close>

definition scan_i :: "string \<Rightarrow> int res" where
  "scan_i s = (let (neg, b) = scan_sign (skip_ws s);
       n = (if hex_prefix b then base_value 16 (takeWhile is_hex_c (drop 2 b))
            else if take 1 b = ''0'' then base_value 8 (takeWhile is_octal_c b)
            else digits_value (takeWhile is_digit_c b))
     in store_signed 32 (signed_of neg n))"

text \<open>\<open>sscanf(s, "%x", &ret)\<close> on text that starts with \<open>0x\<close>: the bits are stored in the \<open>int\<close>.\<close>

definition scan_x :: "string \<Rightarrow> int res" where
  "scan_x s = (let n = base_value 16 (takeWhile is_hex_c (drop 2 s))
     in if n < 2 ^ 32 then Inr (sint (of_nat n :: u32)) else Inl Integer_out_of_range)"

definition hex_digit :: "nat \<Rightarrow> char" where
  "hex_digit d = (if d < 10 then char_of (d + 48) else char_of (d + 87))"

fun nat_to_hex :: "nat \<Rightarrow> string" where
  "nat_to_hex n = (if n < 16 then [hex_digit n] else nat_to_hex (n div 16) @ [hex_digit (n mod 16)])"

declare nat_to_hex.simps [simp del]

text \<open>\<open>"%x"\<close> of an \<open>int\<close>: its bits as an unsigned number.\<close>

definition int_to_hex :: "int \<Rightarrow> string" where
  "int_to_hex v = nat_to_hex (unat (word_of_int v :: u32))"

text \<open>\<open>snprintf\<close> into an array: what fits before the terminator.\<close>

definition snprintf_into :: "nat \<Rightarrow> string \<Rightarrow> string" where
  "snprintf_into n s = take (n - 1) s"

section \<open>Lemmas on words\<close>

definition word_of :: "nat \<Rightarrow> string \<Rightarrow> bool" where
  "word_of n w \<longleftrightarrow> w \<noteq> [] \<and> length w \<le> n \<and> list_all (\<lambda>c. \<not> is_space_c c) w"

lemma digit_not_special:
  "is_digit_c c \<Longrightarrow> \<not> is_space_c c \<and> c \<noteq> CHR ''-'' \<and> c \<noteq> CHR ''+''"
  by (auto simp: is_digit_c_def is_space_c_def)

lemma space_not_digit: "\<not> is_digit_c (CHR '' '')" "is_space_c (CHR '' '')"
  by (simp_all add: is_digit_c_def is_space_c_def)

lemma skip_ws_space_word: "word_of n w \<Longrightarrow> skip_ws (CHR '' '' # w @ r) = w @ r"
  by (cases w) (simp_all add: skip_ws_def word_of_def space_not_digit)

lemma skip_ws_word: "word_of n w \<Longrightarrow> skip_ws (w @ r) = w @ r"
  by (cases w) (simp_all add: skip_ws_def word_of_def)

lemma scan_s_word:
  assumes "word_of n w" and "r = [] \<or> is_space_c (hd r)"
  shows "scan_s n (CHR '' '' # w @ r) = Some (w, r)" and "scan_s n (w @ r) = Some (w, r)"
proof -
  have "takeWhile (\<lambda>c. \<not> is_space_c c) (w @ r) = w"
    using takeWhile_prefix [of "\<lambda>c. \<not> is_space_c c" w r] assms by (auto simp: word_of_def)
  moreover have "take n w = w" "w \<noteq> []" using assms(1) by (simp_all add: word_of_def)
  ultimately show "scan_s n (CHR '' '' # w @ r) = Some (w, r)" and "scan_s n (w @ r) = Some (w, r)"
    unfolding scan_s_def skip_ws_space_word [OF assms(1)] skip_ws_word [OF assms(1)] Let_def
    by simp_all
qed

lemma scan_word_word:
  assumes "word_of n w" and "r = [] \<or> is_space_c (hd r)"
  shows "scan_word (CHR '' '' # w @ r) = Some (w, r)" and "scan_word (w @ r) = Some (w, r)"
proof -
  have "takeWhile (\<lambda>c. \<not> is_space_c c) (w @ r) = w \<and> dropWhile (\<lambda>c. \<not> is_space_c c) (w @ r) = r"
    using takeWhile_prefix [of "\<lambda>c. \<not> is_space_c c" w r] assms by (auto simp: word_of_def)
  moreover have "w \<noteq> []" using assms(1) by (simp add: word_of_def)
  ultimately show "scan_word (CHR '' '' # w @ r) = Some (w, r)" and "scan_word (w @ r) = Some (w, r)"
    unfolding scan_word_def skip_ws_space_word [OF assms(1)] skip_ws_word [OF assms(1)] Let_def by simp_all
qed

lemma split_at_nonempty [simp]: "split_at d s \<noteq> []"
  by (induction s) (auto split: list.splits)

lemma split_at_no_sep: "d \<notin> set s \<Longrightarrow> split_at d s = [s]"
  by (induction s) auto

lemma split_at_append: "d \<notin> set l \<Longrightarrow> split_at d (l @ d # s) = l # split_at d s"
  by (induction l) auto

text \<open>The pieces and the tokens of a text made of lines.\<close>

lemma split_at_lines:
  "list_all (\<lambda>l. d \<notin> set l) ls \<Longrightarrow> split_at d (concat (map (\<lambda>l. l @ [d]) ls)) = ls @ [[]]"
  by (induction ls) (simp_all add: split_at_append)

lemma strtok_all_lines:
  "list_all (\<lambda>l. d \<notin> set l) ls \<Longrightarrow> strtok_all d (concat (map (\<lambda>l. l @ [d]) ls)) = filter (\<lambda>l. l \<noteq> []) ls"
  by (simp add: strtok_all_def split_at_lines)

section \<open>Lemmas on numbers\<close>

lemma nat_to_string_hd: "0 < n \<Longrightarrow> hd (nat_to_string n) \<noteq> CHR ''0''"
proof (induction n rule: nat_to_string.induct)
  case (1 n)
  show ?case
  proof (cases "n < 10")
    case True
    have "char_of (n + 48) \<noteq> CHR ''0''"
    proof
      assume "char_of (n + 48) = CHR ''0''"
      then have "(of_char (char_of (n + 48) :: char) :: nat) = 48" by simp
      with of_char_digit [OF True] "1.prems" show False by simp
    qed
    then show ?thesis using True by (simp add: nat_to_string.simps)
  next
    case False
    with 1 show ?thesis by (simp add: nat_to_string.simps [of n])
  qed
qed

lemma length_nat_to_string: "n < 10 ^ Suc k \<Longrightarrow> length (nat_to_string n) \<le> Suc k"
proof (induction k arbitrary: n)
  case 0
  then show ?case by (simp add: nat_to_string.simps)
next
  case (Suc k)
  have "n div 10 < 10 ^ Suc k" using Suc.prems by (simp add: less_mult_imp_div_less)
  with Suc.IH [of "n div 10"] show ?case by (simp add: nat_to_string.simps [of n])
qed

lemma length_int_to_string: "- (10 ^ Suc k) < v \<Longrightarrow> v < 10 ^ Suc k \<Longrightarrow> length (int_to_string v) \<le> Suc (Suc k)"
  using length_nat_to_string [of "nat v" k] length_nat_to_string [of "nat (- v)" k]
  by (auto simp: int_to_string_def nat_less_iff)

lemma takeWhile_digits:
  assumes "r = [] \<or> \<not> is_digit_c (hd r)"
  shows "takeWhile is_digit_c (nat_to_string n @ r) = nat_to_string n"
  using takeWhile_prefix [OF nat_to_string_digits [of n], of r] assms by blast

lemma nat_to_string_Cons: obtains d ds where "nat_to_string n = d # ds" "is_digit_c d"
  using nat_to_string_digits [of n] by (cases "nat_to_string n") auto

lemma scan_sign_int:
  "scan_sign (skip_ws (int_to_string v @ r)) = (v < 0, nat_to_string (nat \<bar>v\<bar>) @ r)"
proof (cases "v < 0")
  case True
  then show ?thesis by (simp add: int_to_string_def skip_ws_def scan_sign_def is_space_c_def abs_if)
next
  case False
  obtain d ds where d: "nat_to_string (nat v) = d # ds" "is_digit_c d" by (rule nat_to_string_Cons)
  with digit_not_special [OF d(2)] False show ?thesis by (simp add: int_to_string_def skip_ws_def scan_sign_def)
qed

lemma signed_of_abs [simp]: "signed_of (v < 0) (nat \<bar>v\<bar>) = v"
  by (simp add: signed_of_def)

text \<open>Reading back a printed number.\<close>

lemma c_atoi_int_to_string:
  assumes "fits w v" and "r = [] \<or> \<not> is_digit_c (hd r)"
  shows "c_atoi w (int_to_string v @ r) = Inr v"
  using assms by (simp add: c_atoi_def scan_sign_int takeWhile_digits store_signed_def)

lemma scan_i_int_to_string:
  assumes "fits 32 v"
  shows "scan_i (int_to_string v) = Inr v"
proof -
  let ?s = "nat_to_string (nat \<bar>v\<bar>)"
  obtain d ds where d: "?s = d # ds" "is_digit_c d" by (rule nat_to_string_Cons)
  have all: "list_all is_digit_c ?s" by (rule nat_to_string_digits)
  have nothex: "\<not> hex_prefix ?s"
  proof
    assume "hex_prefix ?s"
    then have "CHR ''x'' \<in> set ?s \<or> CHR ''X'' \<in> set ?s"
      unfolding hex_prefix_def by (metis in_set_takeD list.set_intros(1,2))
    with all show False by (auto simp: list_all_iff is_digit_c_def)
  qed
  have val: "(if take 1 ?s = ''0'' then base_value 8 (takeWhile is_octal_c ?s) else digits_value (takeWhile is_digit_c ?s)) = nat \<bar>v\<bar>"
  proof (cases "v = 0")
    case True
    have "char_of (48 :: nat) = CHR ''0''" by code_simp
    with True show ?thesis by (simp add: nat_to_string.simps base_value_def is_octal_c_def hex_value_def is_digit_c_def)
  next
    case False
    then have "take 1 ?s \<noteq> ''0''" using nat_to_string_hd [of "nat \<bar>v\<bar>"] d by simp
    then show ?thesis by (simp add: takeWhile_digits [of "[]", simplified append_Nil2])
  qed
  have "scan_sign (skip_ws (int_to_string v)) = (v < 0, ?s)" using scan_sign_int [of v "[]"] by simp
  then show ?thesis using assms nothex val by (simp add: scan_i_def store_signed_def)
qed

lemma hex_digit_value:
  assumes "d < 16"
  shows "is_hex_c (hex_digit d) \<and> hex_value (hex_digit d) = d"
proof (cases "d < 10")
  case True
  then show ?thesis using of_char_digit [OF True] by (simp add: hex_digit_def is_hex_c_def hex_value_def is_digit_c_def)
next
  case False
  have "(of_char (char_of (d + 87) :: char) :: nat) = d + 87" using assms by (simp add: of_char_of)
  with False assms show ?thesis by (simp add: hex_digit_def is_hex_c_def hex_value_def is_digit_c_def)
qed

lemma nat_to_hex_digits: "list_all is_hex_c (nat_to_hex n)"
proof (induction n rule: nat_to_hex.induct)
  case (1 n)
  then show ?case using hex_digit_value [of n] hex_digit_value [of "n mod 16"] by (simp add: nat_to_hex.simps [of n])
qed

lemma base_value_nat_to_hex: "base_value 16 (nat_to_hex n) = n"
proof (induction n rule: nat_to_hex.induct)
  case (1 n)
  show ?case
  proof (cases "n < 16")
    case True
    then show ?thesis using hex_digit_value [of n] by (simp add: nat_to_hex.simps base_value_def)
  next
    case False
    with 1 have "base_value 16 (nat_to_hex (n div 16)) = n div 16" by simp
    then show ?thesis using False hex_digit_value [of "n mod 16"] by (simp add: nat_to_hex.simps [of n] base_value_def)
  qed
qed

lemma length_nat_to_hex: "n < 16 ^ Suc k \<Longrightarrow> length (nat_to_hex n) \<le> Suc k"
proof (induction k arbitrary: n)
  case 0
  then show ?case by (simp add: nat_to_hex.simps)
next
  case (Suc k)
  have "n div 16 < 16 ^ Suc k" using Suc.prems by (simp add: less_mult_imp_div_less)
  with Suc.IH [of "n div 16"] show ?case by (simp add: nat_to_hex.simps [of n])
qed

lemma scan_x_int_to_hex:
  assumes "fits 32 v"
  shows "scan_x (''0x'' @ int_to_hex v) = Inr v"
proof -
  let ?n = "unat (word_of_int v :: u32)"
  have tw: "takeWhile is_hex_c (nat_to_hex ?n) = nat_to_hex ?n" using nat_to_hex_digits by (simp add: takeWhile_eq_all_conv list_all_iff)
  have "?n < 2 ^ 32" using unsigned_less [of "word_of_int v :: u32", where 'a = nat] by simp
  moreover have "sint (word_of_int v :: u32) = v"
    using assms by (simp add: fits_def signed_of_int signed_take_bit_int_eq_self)
  ultimately show ?thesis by (simp add: scan_x_def int_to_hex_def tw base_value_nat_to_hex)
qed

end
