(* ===== verification/Stream_Config.thy ===== *)
theory Stream_Config
  imports Payload_Types C_Text
begin

text \<open>
  \<open>SalStreamConfiguration\<close> (\<open>src/sal/sal_stream_configuration.h\<close> and \<open>.cpp\<close>): one candidate
  configuration of a media stream.  The record has the members of the class; \<open>equal\<close> computes
  the change mask of two configurations.  Operations that dereference a mime type, the
  fixed-size ZRTP hash or the front of a list have a result of type \<open>res\<close>.  The members \<open>pad\<close> and
  \<open>custom_sdp_attributes\<close> are never read by the class and are left out.
\<close>

section \<open>Data\<close>

text \<open>The crypto suites belong to mediastreamer2; only the invalid one is distinguished.\<close>

datatype ms_crypto_suite = MS_CRYPTO_SUITE_INVALID | MS_CRYPTO_SUITE nat

record SalSrtpCryptoAlgo =
  tag :: u32
  algo :: ms_crypto_suite
  master_key :: string

record rtcp_fb_config =
  generic_nack_enabled :: bool
  tmmbr_enabled :: bool
  goog_remb_enabled :: bool

record rtcp_xr_config =
  xr_enabled :: bool
  xr_stat_summary_enabled :: bool
  xr_voip_metrics_enabled :: bool
  xr_stat_summary_flags :: nat
  xr_rcvr_rtt_mode :: nat
  xr_rcvr_rtt_max_size :: int

record cfg =
  cfg_index :: u32
  cfg_proto :: SalMediaProto
  cfg_proto_other :: string
  cfg_rtp_ssrc :: u32
  cfg_rtcp_cname :: string
  cfg_payloads :: payloads
  cfg_ptime :: int
  cfg_maxptime :: int
  cfg_dir :: SalStreamDir
  cfg_crypto :: "SalSrtpCryptoAlgo list"
  cfg_max_rate :: int
  cfg_bundle_only :: bool
  cfg_implicit_rtcp_fb :: bool
  cfg_rtcp_fb :: rtcp_fb_config
  cfg_rtcp_xr :: rtcp_xr_config
  cfg_mid :: string
  cfg_mid_rtp_ext_header_id :: int
  cfg_mixer_to_client_extension_id :: int
  cfg_client_to_mixer_extension_id :: int
  cfg_frame_marking_extension_id :: int
  cfg_conference_ssrc :: u32
  cfg_set_nortpproxy :: bool
  cfg_rtcp_mux :: bool
  cfg_haveZrtpHash :: u8
  cfg_haveLimeIk :: u8
  cfg_zrtphash :: string
  cfg_dtls_fingerprint :: string
  cfg_dtls_role :: SalDtlsRole
  cfg_ttl :: int
  cfg_delete_media_attributes :: bool
  cfg_delete_session_attributes :: bool
  cfg_tcapIndex :: u32
  cfg_acapIndexes :: "u32 list list"

text \<open>The default member initialisers.  \<open>zrtphash\<close> is an array of 128 bytes, all zero.\<close>

definition no_rtcp_fb :: rtcp_fb_config where
  "no_rtcp_fb = \<lparr>generic_nack_enabled = False, tmmbr_enabled = False, goog_remb_enabled = False\<rparr>"

definition no_rtcp_xr :: rtcp_xr_config where
  "no_rtcp_xr = \<lparr>xr_enabled = False, xr_stat_summary_enabled = False, xr_voip_metrics_enabled = False,
     xr_stat_summary_flags = 0, xr_rcvr_rtt_mode = 0, xr_rcvr_rtt_max_size = 0\<rparr>"

definition zero_zrtphash :: string where
  "zero_zrtphash = replicate 128 (CHR 0x00)"

definition default_cfg :: cfg where
  "default_cfg =
     \<lparr>cfg_index = 0, cfg_proto = SalProtoRtpAvp, cfg_proto_other = '''', cfg_rtp_ssrc = 0, cfg_rtcp_cname = '''',
      cfg_payloads = [], cfg_ptime = 0, cfg_maxptime = 0, cfg_dir = SalStreamInactive, cfg_crypto = [],
      cfg_max_rate = 0, cfg_bundle_only = False, cfg_implicit_rtcp_fb = False, cfg_rtcp_fb = no_rtcp_fb,
      cfg_rtcp_xr = no_rtcp_xr, cfg_mid = '''', cfg_mid_rtp_ext_header_id = 0,
      cfg_mixer_to_client_extension_id = 0, cfg_client_to_mixer_extension_id = 0,
      cfg_frame_marking_extension_id = 0, cfg_conference_ssrc = 0, cfg_set_nortpproxy = False,
      cfg_rtcp_mux = False, cfg_haveZrtpHash = 0, cfg_haveLimeIk = 0, cfg_zrtphash = zero_zrtphash,
      cfg_dtls_fingerprint = '''', cfg_dtls_role = SalDtlsRoleInvalid, cfg_ttl = 0,
      cfg_delete_media_attributes = False, cfg_delete_session_attributes = False,
      cfg_tcapIndex = 0, cfg_acapIndexes = []\<rparr>"

section \<open>Copying\<close>

definition replacePayloads :: "ortp_api \<Rightarrow> payloads \<Rightarrow> cfg \<Rightarrow> cfg" where
  "replacePayloads api newPayloads c = c\<lparr>cfg_payloads := map (payload_type_clone api) newPayloads\<rparr>"

text \<open>\<open>operator=\<close>, member by member in the order of the code.\<close>

definition cfg_assign :: "ortp_api \<Rightarrow> cfg \<Rightarrow> cfg \<Rightarrow> cfg" where
  "cfg_assign api this other =
     (let c1 = this\<lparr>cfg_proto := cfg_proto other, cfg_proto_other := cfg_proto_other other,
                 cfg_rtp_ssrc := cfg_rtp_ssrc other, cfg_rtcp_cname := cfg_rtcp_cname other\<rparr>;
          c2 = replacePayloads api (cfg_payloads other) c1;
          c3 = c2\<lparr>cfg_ptime := cfg_ptime other, cfg_maxptime := cfg_maxptime other, cfg_dir := cfg_dir other,
                 cfg_crypto := cfg_crypto other, cfg_max_rate := cfg_max_rate other,
                 cfg_bundle_only := cfg_bundle_only other,
                 cfg_implicit_rtcp_fb := cfg_implicit_rtcp_fb other, cfg_rtcp_fb := cfg_rtcp_fb other,
                 cfg_rtcp_xr := cfg_rtcp_xr other, cfg_mid := cfg_mid other,
                 cfg_mid_rtp_ext_header_id := cfg_mid_rtp_ext_header_id other,
                 cfg_mixer_to_client_extension_id := cfg_mixer_to_client_extension_id other,
                 cfg_client_to_mixer_extension_id := cfg_client_to_mixer_extension_id other,
                 cfg_frame_marking_extension_id := cfg_frame_marking_extension_id other,
                 cfg_conference_ssrc := cfg_conference_ssrc other,
                 cfg_set_nortpproxy := cfg_set_nortpproxy other, cfg_rtcp_mux := cfg_rtcp_mux other\<rparr>
      in c3\<lparr>cfg_haveZrtpHash := cfg_haveZrtpHash other, cfg_haveLimeIk := cfg_haveLimeIk other,
             cfg_zrtphash := cfg_zrtphash other, cfg_dtls_fingerprint := cfg_dtls_fingerprint other,
             cfg_dtls_role := cfg_dtls_role other, cfg_ttl := cfg_ttl other, cfg_index := cfg_index other,
             cfg_tcapIndex := cfg_tcapIndex other, cfg_acapIndexes := cfg_acapIndexes other,
             cfg_delete_media_attributes := cfg_delete_media_attributes other,
             cfg_delete_session_attributes := cfg_delete_session_attributes other\<rparr>)"

text \<open>The copy constructor starts from the default members and copies the same ones.\<close>

definition cfg_copy :: "ortp_api \<Rightarrow> cfg \<Rightarrow> cfg" where
  "cfg_copy api other =
     \<lparr>cfg_index = cfg_index other, cfg_proto = cfg_proto other, cfg_proto_other = cfg_proto_other other,
      cfg_rtp_ssrc = cfg_rtp_ssrc other, cfg_rtcp_cname = cfg_rtcp_cname other,
      cfg_payloads = map (payload_type_clone api) (cfg_payloads other), cfg_ptime = cfg_ptime other,
      cfg_maxptime = cfg_maxptime other, cfg_dir = cfg_dir other, cfg_crypto = cfg_crypto other,
      cfg_max_rate = cfg_max_rate other, cfg_bundle_only = cfg_bundle_only other,
      cfg_implicit_rtcp_fb = cfg_implicit_rtcp_fb other, cfg_rtcp_fb = cfg_rtcp_fb other,
      cfg_rtcp_xr = cfg_rtcp_xr other, cfg_mid = cfg_mid other,
      cfg_mid_rtp_ext_header_id = cfg_mid_rtp_ext_header_id other,
      cfg_mixer_to_client_extension_id = cfg_mixer_to_client_extension_id other,
      cfg_client_to_mixer_extension_id = cfg_client_to_mixer_extension_id other,
      cfg_frame_marking_extension_id = cfg_frame_marking_extension_id other,
      cfg_conference_ssrc = cfg_conference_ssrc other, cfg_set_nortpproxy = cfg_set_nortpproxy other,
      cfg_rtcp_mux = cfg_rtcp_mux other, cfg_haveZrtpHash = cfg_haveZrtpHash other,
      cfg_haveLimeIk = cfg_haveLimeIk other, cfg_zrtphash = cfg_zrtphash other,
      cfg_dtls_fingerprint = cfg_dtls_fingerprint other, cfg_dtls_role = cfg_dtls_role other,
      cfg_ttl = cfg_ttl other, cfg_delete_media_attributes = cfg_delete_media_attributes other,
      cfg_delete_session_attributes = cfg_delete_session_attributes other,
      cfg_tcapIndex = cfg_tcapIndex other, cfg_acapIndexes = cfg_acapIndexes other\<rparr>"

section \<open>Comparison\<close>

definition isRecvOnly :: "payload_type \<Rightarrow> bool" where
  "isRecvOnly p \<longleftrightarrow> PAYLOAD_TYPE_FLAG_CAN_RECV \<in> pt_flags p \<and> PAYLOAD_TYPE_FLAG_CAN_SEND \<notin> pt_flags p"

text \<open>\<open>strcmp(p1->mime_type, p2->mime_type) == 0\<close>.\<close>

definition mimes_eq :: "payload_type \<Rightarrow> payload_type \<Rightarrow> bool res" where
  "mimes_eq p q = (case mime_type p of None \<Rightarrow> Inl Null_dereference | Some m \<Rightarrow> mime_eq q m)"

definition isSamePayloadType :: "ortp_api \<Rightarrow> payload_type \<Rightarrow> payload_type \<Rightarrow> bool res" where
  "isSamePayloadType api p1 p2 =
     (if pt_type p1 \<noteq> pt_type p2 then Inr False
      else bindR (mimes_eq p1 p2) (\<lambda>same.
        Inr (same \<and> clock_rate p1 = clock_rate p2 \<and> channels p1 = channels p2
             \<and> payload_type_get_number api p1 = payload_type_get_number api p2)))"

text \<open>The parallel walk; what is left of the first list may only hold receive-only types.\<close>

primrec isSamePayloadList :: "ortp_api \<Rightarrow> payloads \<Rightarrow> payloads \<Rightarrow> bool res" where
  "isSamePayloadList api [] l2 = Inr (l2 = [])"
| "isSamePayloadList api (p1 # l1) l2 =
     (case l2 of
        [] \<Rightarrow> Inr (list_all isRecvOnly (p1 # l1))
      | p2 # l2' \<Rightarrow> bindR (isSamePayloadType api p1 p2) (\<lambda>same.
          if same then isSamePayloadList api l1 l2' else Inr False))"

text \<open>The C string a fixed-size buffer holds; a buffer with no terminator has none.\<close>

definition c_string :: "string \<Rightarrow> string res" where
  "c_string buf = (if CHR 0x00 \<in> set buf then Inr (takeWhile (\<lambda>c. c \<noteq> CHR 0x00) buf) else Inl Buffer_overflow)"

definition cryptoChanges :: "SalSrtpCryptoAlgo list \<Rightarrow> SalSrtpCryptoAlgo list \<Rightarrow> changes" where
  "cryptoChanges cs1 cs2 =
     foldl (\<lambda>r (c1, c2). r \<union> flag_if (tag c1 \<noteq> tag c2 \<or> algo c1 \<noteq> algo c2) CRYPTO_POLICY_CHANGED
                           \<union> flag_if (master_key c1 \<noteq> master_key c2) CRYPTO_KEYS_CHANGED)
       UNCHANGED (zip cs1 cs2)
     \<union> flag_if (length cs1 \<noteq> length cs2) CRYPTO_POLICY_CHANGED
     \<union> flag_if (length cs1 \<noteq> length cs2) CRYPTO_KEYS_CHANGED
     \<union> flag_if (0 < length cs1 \<and> length cs2 = 0 \<or> length cs1 = 0 \<and> 0 < length cs2) CRYPTO_TYPE_CHANGED"

definition zrtpChanges :: "cfg \<Rightarrow> cfg \<Rightarrow> changes res" where
  "zrtpChanges c d =
     bindR (if cfg_haveZrtpHash c \<noteq> 0 \<and> cfg_haveZrtpHash d \<noteq> 0
            then bindR (c_string (cfg_zrtphash c)) (\<lambda>a.
                 bindR (c_string (cfg_zrtphash d)) (\<lambda>b. Inr (a \<noteq> b)))
            else Inr False) (\<lambda>differ.
     Inr (flag_if (cfg_haveZrtpHash c \<noteq> cfg_haveZrtpHash d) CRYPTO_KEYS_CHANGED
          \<union> flag_if (cfg_haveZrtpHash c \<noteq> cfg_haveZrtpHash d) CRYPTO_TYPE_CHANGED
          \<union> flag_if differ CRYPTO_KEYS_CHANGED))"

definition cfg_equal :: "ortp_api \<Rightarrow> cfg \<Rightarrow> cfg \<Rightarrow> changes res" where
  "cfg_equal api c d =
     bindR (isSamePayloadList api (cfg_payloads c) (cfg_payloads d)) (\<lambda>samePayloads.
     bindR (zrtpChanges c d) (\<lambda>zrtp.
     Inr (flag_if (cfg_proto c \<noteq> cfg_proto d) CODEC_CHANGED
          \<union> cryptoChanges (cfg_crypto c) (cfg_crypto d)
          \<union> flag_if (\<not> samePayloads) CODEC_CHANGED
          \<union> flag_if ((cfg_ptime c > 0) \<noteq> (cfg_ptime d > 0)) PTIME_CHANGED
          \<union> flag_if (cfg_ptime c > 0 \<and> cfg_ptime d > 0 \<and> cfg_ptime c \<noteq> cfg_ptime d) PTIME_CHANGED
          \<union> flag_if (cfg_dir c \<noteq> cfg_dir d) DIRECTION_CHANGED
          \<union> flag_if (cfg_dtls_role c \<noteq> cfg_dtls_role d) CRYPTO_KEYS_CHANGED
          \<union> flag_if (cfg_dtls_role c = SalDtlsRoleInvalid \<and> cfg_dtls_role d \<noteq> SalDtlsRoleInvalid \<or>
                     cfg_dtls_role c \<noteq> SalDtlsRoleInvalid \<and> cfg_dtls_role d = SalDtlsRoleInvalid)
              CRYPTO_TYPE_CHANGED
          \<union> flag_if (cfg_dtls_fingerprint c \<noteq> cfg_dtls_fingerprint d) CRYPTO_KEYS_CHANGED
          \<union> zrtp
          \<union> flag_if (cfg_mixer_to_client_extension_id c \<noteq> cfg_mixer_to_client_extension_id d)
              MIXER_TO_CLIENT_EXTENSION_CHANGED
          \<union> flag_if (cfg_client_to_mixer_extension_id c \<noteq> cfg_client_to_mixer_extension_id d)
              CLIENT_TO_MIXER_EXTENSION_CHANGED
          \<union> flag_if (cfg_frame_marking_extension_id c \<noteq> cfg_frame_marking_extension_id d)
              FRAME_MARKING_EXTENSION_CHANGED)))"

definition cfg_eq :: "ortp_api \<Rightarrow> cfg \<Rightarrow> cfg \<Rightarrow> bool res" where
  "cfg_eq api c d = bindR (cfg_equal api c d) (\<lambda>r. Inr (r = UNCHANGED))"

section \<open>Operations\<close>

text \<open>A disabled stream is moved out of its bundle.\<close>

definition cfg_disable :: "cfg \<Rightarrow> cfg" where
  "cfg_disable c = c\<lparr>cfg_mid := '''', cfg_bundle_only := False, cfg_dir := SalStreamInactive\<rparr>"

definition cfg_hasAvpf :: "cfg \<Rightarrow> bool" where
  "cfg_hasAvpf c = (case cfg_proto c of
       SalProtoRtpAvpf \<Rightarrow> True | SalProtoRtpSavpf \<Rightarrow> True | SalProtoUdpTlsRtpSavpf \<Rightarrow> True
     | SalProtoRtpAvp \<Rightarrow> False | SalProtoRtpSavp \<Rightarrow> False | SalProtoUdpTlsRtpSavp \<Rightarrow> False
     | SalProtoOther \<Rightarrow> False)"

definition cfg_hasImplicitAvpf :: "cfg \<Rightarrow> bool" where
  "cfg_hasImplicitAvpf c = cfg_implicit_rtcp_fb c"

definition cfg_hasSrtp :: "cfg \<Rightarrow> bool" where
  "cfg_hasSrtp c = (case cfg_proto c of
       SalProtoRtpSavp \<Rightarrow> True | SalProtoRtpSavpf \<Rightarrow> True
     | SalProtoRtpAvp \<Rightarrow> False | SalProtoRtpAvpf \<Rightarrow> False | SalProtoUdpTlsRtpSavpf \<Rightarrow> False
     | SalProtoUdpTlsRtpSavp \<Rightarrow> False | SalProtoOther \<Rightarrow> False)"

definition cfg_hasDtls :: "cfg \<Rightarrow> bool" where
  "cfg_hasDtls c = (case cfg_proto c of
       SalProtoUdpTlsRtpSavpf \<Rightarrow> True | SalProtoUdpTlsRtpSavp \<Rightarrow> True
     | SalProtoRtpSavp \<Rightarrow> False | SalProtoRtpSavpf \<Rightarrow> False | SalProtoRtpAvp \<Rightarrow> False
     | SalProtoRtpAvpf \<Rightarrow> False | SalProtoOther \<Rightarrow> False)"

definition cfg_hasZrtpHash :: "cfg \<Rightarrow> bool" where
  "cfg_hasZrtpHash c \<longleftrightarrow> cfg_haveZrtpHash c = 1"

definition cfg_hasZrtp :: "cfg \<Rightarrow> bool" where
  "cfg_hasZrtp c =
     (if cfg_haveZrtpHash c = 1
      then (case cfg_proto c of
              SalProtoRtpAvp \<Rightarrow> True | SalProtoRtpAvpf \<Rightarrow> True
            | SalProtoUdpTlsRtpSavpf \<Rightarrow> False | SalProtoUdpTlsRtpSavp \<Rightarrow> False
            | SalProtoRtpSavp \<Rightarrow> False | SalProtoRtpSavpf \<Rightarrow> False | SalProtoOther \<Rightarrow> False)
      else False)"

definition cfg_hasLimeIk :: "cfg \<Rightarrow> bool" where
  "cfg_hasLimeIk c = (if cfg_haveLimeIk c = 1 then True else False)"

definition cfg_getProtoAsString :: "cfg \<Rightarrow> string" where
  "cfg_getProtoAsString c =
     (if cfg_proto c = SalProtoOther then cfg_proto_other c else sal_media_proto_to_string (cfg_proto c))"

definition cfg_enableAvpfForStream :: "ortp_api \<Rightarrow> cfg \<Rightarrow> cfg" where
  "cfg_enableAvpfForStream api c =
     c\<lparr>cfg_payloads := map (\<lambda>pt. payload_type_set_flag api pt {PAYLOAD_TYPE_RTCP_FEEDBACK_ENABLED}) (cfg_payloads c)\<rparr>"

definition cfg_disableAvpfForStream :: "ortp_api \<Rightarrow> cfg \<Rightarrow> cfg" where
  "cfg_disableAvpfForStream api c =
     c\<lparr>cfg_payloads := map (\<lambda>pt. payload_type_unset_flag api pt {PAYLOAD_TYPE_RTCP_FEEDBACK_ENABLED}) (cfg_payloads c)\<rparr>"

text \<open>Merging of attribute-capability sets, without duplicates of what is already there.\<close>

definition acapFound :: "u32 list list \<Rightarrow> u32 list \<Rightarrow> bool" where
  "acapFound acapIndexes newIdxs =
     foldl (\<lambda>found idxs. found \<or> (length idxs = length newIdxs \<and> list_all2 (=) idxs newIdxs)) False acapIndexes"

definition mergeAcaps :: "u32 list list \<Rightarrow> cfg \<Rightarrow> cfg" where
  "mergeAcaps acaps c =
     foldl (\<lambda>c newIdxs. if \<not> acapFound (cfg_acapIndexes c) newIdxs
        then c\<lparr>cfg_acapIndexes := cfg_acapIndexes c @ [newIdxs]\<rparr> else c) c acaps"

text \<open>One capability set: a comma before every index that differs from the first, no zero.\<close>

definition acapSetString :: "u32 list \<Rightarrow> string res" where
  "acapSetString acapSet =
     (case acapSet of
        [] \<Rightarrow> Inl Front_of_empty_list
      | firstAcapIdx # _ \<Rightarrow>
          Inr (concat (map (\<lambda>acapIdx. (if acapIdx \<noteq> firstAcapIdx then '','' else '''')
                 @ (if acapIdx \<noteq> 0 then nat_to_string (unat acapIdx) else '''')) acapSet)))"

definition acapString :: "u32 list list \<Rightarrow> string res" where
  "acapString sets =
     foldR (\<lambda>acc acapSet. bindR (acapSetString acapSet) (\<lambda>s.
       Inr ((if acc \<noteq> '''' then acc @ ''|'' else acc) @ s))) '''' sets"

definition getSdpString :: "cfg \<Rightarrow> string res" where
  "getSdpString c =
     bindR (acapString (cfg_acapIndexes c)) (\<lambda>acaps.
       let tcapString = (if cfg_tcapIndex c \<noteq> 0 then nat_to_string (unat (cfg_tcapIndex c)) else '''');
           deleteAttrs = (if cfg_delete_media_attributes c \<and> cfg_delete_session_attributes c then ''-ms''
                          else if cfg_delete_session_attributes c then ''-s''
                          else if cfg_delete_media_attributes c then ''-m'' else '''');
           sdp = (if deleteAttrs \<noteq> '''' \<and> acaps \<noteq> '''' then ''a='' @ deleteAttrs @ '':'' @ acaps
                  else if deleteAttrs \<noteq> '''' then ''a='' @ deleteAttrs
                  else if acaps \<noteq> '''' then ''a='' @ acaps else '''')
       in Inr (if tcapString \<noteq> ''''
               then (if sdp \<noteq> '''' then sdp @ '' '' else sdp) @ ''t='' @ tcapString
               else sdp))"

text \<open>
  \<open>cryptoToSdpValue\<close>; the name and the parameters of a suite come from mediastreamer2
  (\<open>ms_crypto_suite_to_name_params\<close>), an argument of the definition.
\<close>

definition cryptoToSdpValue ::
  "(ms_crypto_suite \<Rightarrow> (string \<times> string option) option) \<Rightarrow> SalSrtpCryptoAlgo \<Rightarrow> string" where
  "cryptoToSdpValue suite_to_name c =
     (case suite_to_name (algo c) of
        None \<Rightarrow> ''''
      | Some (name, params) \<Rightarrow>
          nat_to_string (unat (tag c)) @ '' '' @ name @ '' inline:'' @ master_key c
          @ (case params of None \<Rightarrow> '''' | Some p \<Rightarrow> '' '' @ p))"

fun getSetupAttributeForDtlsRole :: "SalDtlsRole \<Rightarrow> string" where
  "getSetupAttributeForDtlsRole SalDtlsRoleIsClient = ''active''"
| "getSetupAttributeForDtlsRole SalDtlsRoleIsServer = ''passive''"
| "getSetupAttributeForDtlsRole SalDtlsRoleInvalid = ''''"
| "getSetupAttributeForDtlsRole SalDtlsRoleUnset = ''actpass''"

definition getDtlsRoleFromSetupAttribute :: "string \<Rightarrow> SalDtlsRole" where
  "getDtlsRoleFromSetupAttribute setupAttr =
     (if setupAttr = ''actpass'' then SalDtlsRoleUnset
      else if setupAttr = ''active'' then SalDtlsRoleIsClient
      else if setupAttr = ''passive'' then SalDtlsRoleIsServer
      else SalDtlsRoleInvalid)"

section \<open>The SDP crypto attribute\<close>

text \<open>
  \<open>sscanf(value, "%u %256s inline:%128s %256[A-Z_ ]", \<dots>)\<close>: the conversions in order, each on
  the rest of the input; the result of a conversion that fails is \<open>None\<close>.  \<open>%u\<close> accepts a sign and
  reduces the value as \<open>strtoul\<close> on a 64-bit \<open>unsigned long\<close> stored into 32 bits.
\<close>

definition scan_u :: "string \<Rightarrow> (u32 \<times> string) option" where
  "scan_u inp =
     (let s = skip_ws inp;
          (neg, body) = (case s of
              c # cs \<Rightarrow> if c = CHR ''-'' then (True, cs) else if c = CHR ''+'' then (False, cs) else (False, s)
            | [] \<Rightarrow> (False, []));
          ds = takeWhile is_digit_c body
      in if ds = [] then None
         else (let n = digits_value ds;
                   v = (if 2 ^ 64 \<le> n then - 1 else if neg then - of_nat n else of_nat n)
               in Some (v, dropWhile is_digit_c body)))"

text \<open>A literal of the format; white space before it in the format skips white space.\<close>

definition scan_lit :: "string \<Rightarrow> string \<Rightarrow> string option" where
  "scan_lit lit inp =
     (let s = skip_ws inp in if take (length lit) s = lit then Some (drop (length lit) s) else None)"

definition is_param_char :: "char \<Rightarrow> bool" where
  "is_param_char c \<longleftrightarrow> (65 \<le> (of_char c :: nat) \<and> (of_char c :: nat) \<le> 90) \<or> c = CHR ''_'' \<or> c = CHR '' ''"

text \<open>The last conversion reads the optional session parameters; nothing read leaves the buffer empty.\<close>

definition scan_params :: "string \<Rightarrow> string" where
  "scan_params inp = take 256 (takeWhile is_param_char (skip_ws inp))"

definition scan_crypto :: "string \<Rightarrow> (u32 \<times> string \<times> string \<times> string) option" where
  "scan_crypto value =
     (case scan_u value of None \<Rightarrow> None | Some (t, r1) \<Rightarrow>
      case scan_s 256 r1 of None \<Rightarrow> None | Some (name, r2) \<Rightarrow>
      case scan_lit ''inline:'' r2 of None \<Rightarrow> None | Some r3 \<Rightarrow>
      case scan_s 128 r3 of None \<Rightarrow> None | Some (key, r4) \<Rightarrow> Some (t, name, key, scan_params r4))"

text \<open>
  \<open>fillStrpCryptoAlgoFromString\<close>; \<open>ms_crypto_suite_build_from_name_params\<close> of mediastreamer2 is
  an argument.  What follows a \<open>|\<close> in the key (the lifetime) is erased.
\<close>

definition fillStrpCryptoAlgoFromString ::
  "(string \<Rightarrow> string option \<Rightarrow> ms_crypto_suite) \<Rightarrow> string \<Rightarrow> SalSrtpCryptoAlgo" where
  "fillStrpCryptoAlgoFromString suite_from_name value =
     (let keyEnc = \<lparr>tag = 0, algo = MS_CRYPTO_SUITE_INVALID, master_key = ''''\<rparr>
      in case scan_crypto value of
           None \<Rightarrow> keyEnc
         | Some (t, name, masterKey, parameters) \<Rightarrow>
             (let cs = suite_from_name name (if parameters \<noteq> '''' then Some parameters else None)
              in if cs = MS_CRYPTO_SUITE_INVALID then keyEnc\<lparr>algo := cs\<rparr>
                 else \<lparr>tag = t, algo = cs, master_key = takeWhile (\<lambda>c. c \<noteq> CHR ''|'') masterKey\<rparr>))"

section \<open>Copying and comparing\<close>

lemma cfg_copy_id: "ortp_contract api \<Longrightarrow> cfg_copy api c = c"
  by (cases c) (simp add: cfg_copy_def ortp_eqs cong: map_cong)

lemma cfg_assign_id: "ortp_contract api \<Longrightarrow> cfg_assign api c d = d"
  by (cases c, cases d) (simp add: cfg_assign_def replacePayloads_def ortp_eqs Let_def cong: map_cong)

lemma isSamePayloadType_iff:
  assumes "ortp_contract api" and "mime_type p = Some m" and "mime_type q = Some n"
  shows "isSamePayloadType api p q = Inr (pt_type p = pt_type q \<and> n = m \<and>
    clock_rate p = clock_rate q \<and> channels p = channels q \<and> pt_number p = pt_number q)"
  using assms by (simp add: isSamePayloadType_def mimes_eq_def mime_eq_def ortp_eqs)

lemma isSamePayloadList_refl:
  assumes "ortp_contract api"
  shows "named_payloads l \<Longrightarrow> isSamePayloadList api l l = Inr True"
  by (induction l) (auto simp: named_payloads_def isSamePayloadType_iff [OF assms])

text \<open>What identifies a payload type for a comparison.\<close>

definition pt_key :: "payload_type \<Rightarrow> pt_kind \<times> string option \<times> int \<times> int \<times> int" where
  "pt_key p = (pt_type p, mime_type p, clock_rate p, channels p, pt_number p)"

lemma isSamePayloadList_iff:
  assumes "ortp_contract api"
  shows "named_payloads l1 \<Longrightarrow> named_payloads l2 \<Longrightarrow>
    isSamePayloadList api l1 l2 = Inr (map pt_key l2 = map pt_key (take (length l2) l1) \<and>
      list_all isRecvOnly (drop (length l2) l1))"
proof (induction l1 arbitrary: l2)
  case (Cons p l1)
  then show ?case
    by (cases l2) (auto simp: named_payloads_def isSamePayloadType_iff [OF assms] pt_key_def)
qed auto

lemma crypto_fold_changes:
  "foldl (\<lambda>r (c1, c2). r \<union> flag_if (tag c1 \<noteq> tag c2 \<or> algo c1 \<noteq> algo c2) CRYPTO_POLICY_CHANGED
                           \<union> flag_if (master_key c1 \<noteq> master_key c2) CRYPTO_KEYS_CHANGED) r zs = {} \<longleftrightarrow>
     r = {} \<and> (\<forall>(c1, c2) \<in> set zs. c1 = (c2 :: SalSrtpCryptoAlgo))"
proof (induction zs arbitrary: r)
  case (Cons z zs)
  obtain c1 c2 where "z = (c1, c2)" by fastforce
  with Cons show ?case by (cases c1; cases c2) auto
qed simp

lemma cryptoChanges_empty: "cryptoChanges cs ds = {} \<longleftrightarrow> cs = ds"
proof -
  have "(length cs = length ds \<and> (\<forall>(c1, c2) \<in> set (zip cs ds). c1 = c2)) \<longleftrightarrow> cs = ds"
    by (induction cs ds rule: list_induct2') auto
  then show ?thesis unfolding cryptoChanges_def Un_empty flag_if_empty crypto_fold_changes by auto
qed

definition terminated_hash :: "cfg \<Rightarrow> bool" where
  "terminated_hash c \<longleftrightarrow> CHR 0x00 \<in> set (cfg_zrtphash c)"

definition hash_string :: "cfg \<Rightarrow> string" where
  "hash_string c = takeWhile (\<lambda>x. x \<noteq> CHR 0x00) (cfg_zrtphash c)"

lemma zrtpChanges_total:
  "terminated_hash c \<Longrightarrow> terminated_hash d \<Longrightarrow>
   zrtpChanges c d = Inr (flag_if (cfg_haveZrtpHash c \<noteq> cfg_haveZrtpHash d) CRYPTO_KEYS_CHANGED
          \<union> flag_if (cfg_haveZrtpHash c \<noteq> cfg_haveZrtpHash d) CRYPTO_TYPE_CHANGED
          \<union> flag_if (cfg_haveZrtpHash c \<noteq> 0 \<and> cfg_haveZrtpHash d \<noteq> 0 \<and> hash_string c \<noteq> hash_string d)
              CRYPTO_KEYS_CHANGED)"
  by (simp add: zrtpChanges_def c_string_def terminated_hash_def hash_string_def)

lemma max_zero_eq:
  "max 0 a = max 0 b \<longleftrightarrow> \<not> ((a > 0) \<noteq> (b > 0)) \<and> \<not> (a > 0 \<and> b > 0 \<and> a \<noteq> (b :: int))"
  by (auto simp: max_def)

text \<open>
  \<open>operator==\<close> of two configurations whose payload types have mime types and whose hash buffers
  are terminated always has a result, and the result says exactly that the two agree on profile, keys,
  direction, valid packet times, DTLS role and fingerprint, ZRTP hash, extension identifiers, and on the payload
  types up to receive-only ones at the end of the first list.
\<close>

theorem cfg_eq_iff:
  assumes api: "ortp_contract api"
    and named: "named_payloads (cfg_payloads c)" "named_payloads (cfg_payloads d)"
    and hash: "terminated_hash c" "terminated_hash d"
  shows "\<exists>b. cfg_eq api c d = Inr b \<and> (b \<longleftrightarrow>
      cfg_proto c = cfg_proto d \<and> cfg_crypto c = cfg_crypto d \<and>
      map pt_key (cfg_payloads d) = map pt_key (take (length (cfg_payloads d)) (cfg_payloads c)) \<and>
      list_all isRecvOnly (drop (length (cfg_payloads d)) (cfg_payloads c)) \<and>
      max 0 (cfg_ptime c) = max 0 (cfg_ptime d) \<and> cfg_dir c = cfg_dir d \<and>
      cfg_dtls_role c = cfg_dtls_role d \<and> cfg_dtls_fingerprint c = cfg_dtls_fingerprint d \<and>
      cfg_haveZrtpHash c = cfg_haveZrtpHash d \<and> (cfg_haveZrtpHash c \<noteq> 0 \<longrightarrow> hash_string c = hash_string d) \<and>
      cfg_mixer_to_client_extension_id c = cfg_mixer_to_client_extension_id d \<and>
      cfg_client_to_mixer_extension_id c = cfg_client_to_mixer_extension_id d \<and>
      cfg_frame_marking_extension_id c = cfg_frame_marking_extension_id d)"
  unfolding cfg_eq_def cfg_equal_def isSamePayloadList_iff [OF api named] zrtpChanges_total [OF hash]
  by (simp only: bindR_Inr sum.inject simp_thms ex_simps Un_empty flag_if_empty cryptoChanges_empty
      max_zero_eq)
    (rule iffI; elim conjE; intro conjI; (assumption | metis))

definition sample_cfg :: cfg where
  "sample_cfg = default_cfg\<lparr>cfg_payloads := [sample_pt ''opus'' 48000 2 96, sample_pt ''PCMU'' 8000 1 0],
     cfg_dir := SalStreamSendRecv, cfg_ptime := 20\<rparr>"

lemma sample_cfg_wf [simp]:
  "named_payloads (cfg_payloads sample_cfg)" "terminated_hash sample_cfg"
  by (simp_all add: sample_cfg_def default_cfg_def named_payloads_def sample_pt_def terminated_hash_def
      zero_zrtphash_def)

theorem cfg_eq_iff_witness:
  "cfg_eq sample_ortp sample_cfg sample_cfg = Inr True \<and>
   cfg_eq sample_ortp sample_cfg (sample_cfg\<lparr>cfg_dir := SalStreamSendOnly\<rparr>) = Inr False"
proof -
  let ?d = "sample_cfg\<lparr>cfg_dir := SalStreamSendOnly\<rparr>"
  have wf: "named_payloads (cfg_payloads ?d)" "terminated_hash ?d"
    using sample_cfg_wf by (simp_all add: terminated_hash_def)
  have dir: "cfg_dir sample_cfg = SalStreamSendRecv" by (simp add: sample_cfg_def)
  show ?thesis
    using cfg_eq_iff [OF sample_ortp_contract sample_cfg_wf(1) sample_cfg_wf(1) sample_cfg_wf(2) sample_cfg_wf(2)]
      cfg_eq_iff [OF sample_ortp_contract sample_cfg_wf(1) wf(1) sample_cfg_wf(2) wf(2)]
    by (auto simp: dir)
qed

text \<open>
  Copies are faithful.  The copy constructor and the assignment of a configuration reproduce every
  member of their source, so a copy compares as unchanged.
\<close>

theorem cfg_copy_faithful:
  assumes api: "ortp_contract api" and "named_payloads (cfg_payloads c)" and "terminated_hash c"
  shows "cfg_copy api c = c \<and> cfg_assign api d c = c \<and> cfg_equal api (cfg_copy api c) c = Inr UNCHANGED"
proof -
  have "cryptoChanges (cfg_crypto c) (cfg_crypto c) = {}" by (simp only: cryptoChanges_empty)
  then show ?thesis
    by (simp add: cfg_copy_id [OF api] cfg_assign_id [OF api] cfg_equal_def
        isSamePayloadList_refl [OF api assms(2)] zrtpChanges_total [OF assms(3,3)])
qed

theorem cfg_copy_faithful_witness:
  "cfg_copy sample_ortp sample_cfg = sample_cfg \<and> cfg_assign sample_ortp default_cfg sample_cfg = sample_cfg \<and>
   cfg_equal sample_ortp (cfg_copy sample_ortp sample_cfg) sample_cfg = Inr UNCHANGED"
  by (rule cfg_copy_faithful [OF sample_ortp_contract]) simp_all

section \<open>Capability sets\<close>

lemma acapFound_iff: "acapFound l x \<longleftrightarrow> x \<in> set l"
proof -
  have "foldl (\<lambda>found idxs. found \<or> (length idxs = length x \<and> list_all2 (=) idxs x)) b l \<longleftrightarrow> b \<or> x \<in> set l" for b
    by (induction l arbitrary: b) (auto simp: list.rel_eq)
  then show ?thesis by (simp add: acapFound_def)
qed

lemma mergeAcaps_append_form:
  "\<exists>new. cfg_acapIndexes (mergeAcaps acaps c) = cfg_acapIndexes c @ new \<and>
     set new = set acaps - set (cfg_acapIndexes c) \<and> distinct new \<and>
     mergeAcaps acaps c = c\<lparr>cfg_acapIndexes := cfg_acapIndexes c @ new\<rparr>"
proof (induction acaps arbitrary: c)
  case (Cons a acaps)
  show ?case
  proof (cases "a \<in> set (cfg_acapIndexes c)")
    case True
    then have "mergeAcaps (a # acaps) c = mergeAcaps acaps c"
      by (simp add: mergeAcaps_def acapFound_iff)
    with Cons.IH [of c] True show ?thesis by (simp add: insert_Diff_if)
  next
    case False
    let ?c = "c\<lparr>cfg_acapIndexes := cfg_acapIndexes c @ [a]\<rparr>"
    from False have step: "mergeAcaps (a # acaps) c = mergeAcaps acaps ?c"
      by (simp add: mergeAcaps_def acapFound_iff)
    from Cons.IH [of ?c] obtain new where
      "mergeAcaps acaps ?c = ?c\<lparr>cfg_acapIndexes := cfg_acapIndexes ?c @ new\<rparr>"
      "set new = set acaps - set (cfg_acapIndexes ?c)" "distinct new" by blast
    with step False show ?thesis by (intro exI [of _ "a # new"]) auto
  qed
qed (auto simp: mergeAcaps_def)

text \<open>
  \<open>mergeAcaps\<close> appends exactly the capability sets that are not yet there, each once: the known
  sets keep their positions, nothing is duplicated, no other member changes, and a second merge of the
  same sets does nothing.
\<close>

theorem mergeAcaps_spec:
  "(\<exists>new. mergeAcaps acaps c = c\<lparr>cfg_acapIndexes := cfg_acapIndexes c @ new\<rparr> \<and> distinct new \<and>
      set new = set acaps - set (cfg_acapIndexes c)) \<and>
   mergeAcaps acaps (mergeAcaps acaps c) = mergeAcaps acaps c"
proof -
  obtain new where new: "mergeAcaps acaps c = c\<lparr>cfg_acapIndexes := cfg_acapIndexes c @ new\<rparr>"
    "set new = set acaps - set (cfg_acapIndexes c)" "distinct new"
    using mergeAcaps_append_form by blast
  obtain new2 where new2: "mergeAcaps acaps (mergeAcaps acaps c) =
      (mergeAcaps acaps c)\<lparr>cfg_acapIndexes := cfg_acapIndexes (mergeAcaps acaps c) @ new2\<rparr>"
    "set new2 = set acaps - set (cfg_acapIndexes (mergeAcaps acaps c))"
    using mergeAcaps_append_form by blast
  from new new2(2) have "set new2 = {}" by auto
  then have "new2 = []" by simp
  with new new2(1) show ?thesis by auto
qed

section \<open>Round trips\<close>

lemma dtls_role_roundtrip: "getDtlsRoleFromSetupAttribute (getSetupAttributeForDtlsRole r) = r"
  by (cases r) (simp_all add: getDtlsRoleFromSetupAttribute_def)

lemma scan_u_nat_to_string: "scan_u (nat_to_string (unat t) @ CHR '' '' # r) = Some (t, CHR '' '' # r)"
proof -
  obtain d ds where ds: "nat_to_string (unat t) = d # ds"
    by (meson list.exhaust nat_to_string_nonempty)
  have all: "list_all is_digit_c (d # ds)" using nat_to_string_digits [of "unat t"] by (simp add: ds)
  then have d: "\<not> is_space_c d" "d \<noteq> CHR ''-''" "d \<noteq> CHR ''+''"
    using digit_not_special by auto
  have split: "takeWhile is_digit_c ((d # ds) @ CHR '' '' # r) = d # ds \<and>
      dropWhile is_digit_c ((d # ds) @ CHR '' '' # r) = CHR '' '' # r"
    by (rule takeWhile_prefix [OF all]) (simp add: space_not_digit)
  have "digits_value (d # ds) = unat t" by (metis ds digits_value_nat_to_string)
  moreover have "\<not> 2 ^ 64 \<le> unat t" using unsigned_less [of t, where 'a = nat] by simp
  ultimately show ?thesis using split d by (simp add: scan_u_def ds skip_ws_def)
qed

lemma scan_lit_inline: "scan_lit ''inline:'' ('' inline:'' @ r) = Some r"
  by (simp add: scan_lit_def skip_ws_def is_space_c_def)

lemma scan_params_word:
  assumes "list_all is_param_char p" and "length p \<le> 256" and "p \<noteq> []" and "hd p \<noteq> CHR '' ''"
  shows "scan_params (CHR '' '' # p) = p"
proof -
  have "\<not> is_space_c (hd p)"
    using assms by (cases p) (auto simp: is_param_char_def is_space_c_def)
  with assms(3) have "skip_ws (CHR '' '' # p) = p"
    by (cases p) (simp_all add: skip_ws_def space_not_digit)
  moreover have "takeWhile is_param_char p = p"
    using assms(1) by (auto simp: takeWhile_eq_all_conv list_all_iff)
  ultimately show ?thesis unfolding scan_params_def using assms(2) by (metis take_all)
qed

text \<open>The session parameters that mediastreamer2 attaches to a suite.\<close>

definition params_ok :: "string option \<Rightarrow> bool" where
  "params_ok params = (case params of None \<Rightarrow> True
     | Some p \<Rightarrow> p \<noteq> [] \<and> length p \<le> 256 \<and> list_all is_param_char p \<and> hd p \<noteq> CHR '' '')"

text \<open>
  C36: The SDP crypto attribute round-trips.  A key whose suite mediastreamer2 can name and read back, with
  a key string of at most 128 characters without white space or a bar, is recovered
  exactly, tag included, from the attribute value that was printed for it.
\<close>

theorem crypto_attribute_roundtrip:
  assumes to: "suite_to_name (algo c) = Some (name, params)"
    and from_: "suite_from_name name params = algo c" and valid: "algo c \<noteq> MS_CRYPTO_SUITE_INVALID"
    and name: "word_of 256 name" and params: "params_ok params"
    and key: "word_of 128 (master_key c)" "CHR ''|'' \<notin> set (master_key c)"
  shows "fillStrpCryptoAlgoFromString suite_from_name (cryptoToSdpValue suite_to_name c) = c"
proof -
  let ?ps = "case params of None \<Rightarrow> '''' | Some p \<Rightarrow> '' '' @ p"
  have tail: "?ps = [] \<or> is_space_c (hd ?ps)" by (simp add: space_not_digit split: option.splits)
  have p: "scan_params ?ps = (case params of None \<Rightarrow> '''' | Some p \<Rightarrow> p)"
    using params scan_params_word
    by (auto simp: params_ok_def scan_params_def skip_ws_def split: option.splits)
  have "cryptoToSdpValue suite_to_name c =
      nat_to_string (unat (tag c)) @ CHR '' '' # name @ '' inline:'' @ master_key c @ ?ps"
    by (simp add: cryptoToSdpValue_def to)
  moreover have "scan_s 256 (CHR '' '' # name @ '' inline:'' @ master_key c @ ?ps) =
      Some (name, '' inline:'' @ master_key c @ ?ps)"
    by (rule scan_s_word(1) [OF name]) (simp add: space_not_digit)
  ultimately have "scan_crypto (cryptoToSdpValue suite_to_name c) =
      Some (tag c, name, master_key c, case params of None \<Rightarrow> '''' | Some p \<Rightarrow> p)"
    unfolding scan_crypto_def
    by (simp only: scan_u_nat_to_string option.case prod.case scan_lit_inline
        scan_s_word(2) [OF key(1) tail] p)
  moreover have "takeWhile (\<lambda>x. x \<noteq> CHR ''|'') (master_key c) = master_key c"
    using key(2) by (auto simp: takeWhile_eq_all_conv)
  ultimately show ?thesis
    using from_ valid params
    by (auto simp: fillStrpCryptoAlgoFromString_def Let_def params_ok_def split: option.splits)
qed

theorem crypto_attribute_roundtrip_witness:
  "let c = \<lparr>tag = 7, algo = MS_CRYPTO_SUITE 1, master_key = ''QUJD''\<rparr>;
       to = (\<lambda>s. if s = MS_CRYPTO_SUITE 1 then Some (''AES_CM_128_HMAC_SHA1_80'', Some ''UNENCRYPTED_SRTCP'') else None);
       back = (\<lambda>n p. if n = ''AES_CM_128_HMAC_SHA1_80'' \<and> p = Some ''UNENCRYPTED_SRTCP'' then MS_CRYPTO_SUITE 1
                 else MS_CRYPTO_SUITE_INVALID)
   in fillStrpCryptoAlgoFromString back (cryptoToSdpValue to c) = c"
  unfolding Let_def
  by (rule crypto_attribute_roundtrip [where name = "''AES_CM_128_HMAC_SHA1_80''"
        and params = "Some ''UNENCRYPTED_SRTCP''"])
    (simp_all add: word_of_def params_ok_def is_space_c_def is_param_char_def)

end
