(* ===== verification/Stream_Bundle.thy ===== *)
theory Stream_Bundle
  imports Stream_Config
begin

text \<open>
  \<open>SalStreamBundle\<close> (\<open>src/sal/sal_stream_bundle.cpp\<close>): the media identifiers of the streams that
  share a transport, the transport owner first.  A bundle-only stream that arrives before
  the owner reserves the owner's slot with an empty identifier.
\<close>

record SalStreamBundle =
  mids :: "string list"

definition empty_bundle :: SalStreamBundle where
  "empty_bundle = \<lparr>mids = []\<rparr>"

text \<open>
  The constructor from the value of a \<open>group\<close> attribute: \<open>sscanf(ids, "%s%n", tmp, &consumed)\<close> until
  the input ends or holds no further word.
\<close>

function parse_mids :: "string \<Rightarrow> string list" where
  "parse_mids ids =
     (let s = skip_ws ids; w = takeWhile (\<lambda>c. \<not> is_space_c c) s; rest = dropWhile (\<lambda>c. \<not> is_space_c c) s
      in if w = [] then [] else if rest = [] then [w] else w # parse_mids rest)"
  by pat_completeness auto
termination
proof (relation "measure length")
  fix ids s w rest
  assume s: "s = skip_ws ids" and w: "w = takeWhile (\<lambda>c. \<not> is_space_c c) s" "w \<noteq> []"
    and rest: "rest = dropWhile (\<lambda>c. \<not> is_space_c c) s"
  have "length w + length rest = length s" using w(1) rest by (metis length_append takeWhile_dropWhile_id)
  moreover have "length s \<le> length ids" by (simp add: s skip_ws_def length_dropWhile_le)
  moreover have "length w \<noteq> 0" using w(2) by simp
  ultimately show "(rest, ids) \<in> measure length" unfolding in_measure by linarith
qed simp

declare parse_mids.simps [simp del]

definition bundle_from_string :: "string \<Rightarrow> SalStreamBundle" where
  "bundle_from_string ids = \<lparr>mids = parse_mids ids\<rparr>"

text \<open>The value of the \<open>group\<close> attribute that \<open>addToSdp\<close> adds.\<close>

definition bundle_group_value :: "SalStreamBundle \<Rightarrow> string" where
  "bundle_group_value b = foldl (\<lambda>attr_value mid. attr_value @ '' '' @ mid) ''BUNDLE'' (mids b)"

text \<open>\<open>addStream\<close> sets the identifier in the configuration and records it in the bundle.\<close>

definition addStream :: "SalStreamBundle \<Rightarrow> cfg \<Rightarrow> string \<Rightarrow> SalStreamBundle \<times> cfg" where
  "addStream b c mid =
     (let c' = c\<lparr>cfg_mid := mid\<rparr>
      in if cfg_bundle_only c \<and> mids b = [] then (\<lparr>mids = ['''', mid]\<rparr>, c')
         else if \<not> cfg_bundle_only c \<and> mids b \<noteq> [] \<and> hd (mids b) = ''''
           then (\<lparr>mids = mid # tl (mids b)\<rparr>, c')
         else (\<lparr>mids = mids b @ [mid]\<rparr>, c'))"

definition getMidOfTransportOwner :: "SalStreamBundle \<Rightarrow> string" where
  "getMidOfTransportOwner b = (if mids b \<noteq> [] then hd (mids b) else '''')"

definition hasMid :: "SalStreamBundle \<Rightarrow> string \<Rightarrow> bool" where
  "hasMid b mid \<longleftrightarrow> find_index (\<lambda>bundleMid. bundleMid = mid) (mids b) \<noteq> None"

text \<open>Streams added one after the other.\<close>

definition addStreams :: "SalStreamBundle \<Rightarrow> (cfg \<times> string) list \<Rightarrow> SalStreamBundle" where
  "addStreams b cs = foldl (\<lambda>b (c, mid). fst (addStream b c mid)) b cs"

section \<open>Facts\<close>

lemma hasMid_iff: "hasMid b mid \<longleftrightarrow> mid \<in> set (mids b)"
  by (auto simp: hasMid_def find_index_None)

lemma addStream_cfg: "snd (addStream b c mid) = c\<lparr>cfg_mid := mid\<rparr>"
  by (simp add: addStream_def Let_def)

lemma addStream_mids:
  "mid' \<noteq> '''' \<Longrightarrow> hasMid (fst (addStream b c mid)) mid' \<longleftrightarrow> mid' = mid \<or> hasMid b mid'"
  by (cases "mids b") (auto simp: hasMid_iff addStream_def Let_def)

text \<open>
  The owner slot after a sequence of additions: the first stream that is not bundle-only, and the
  reserved empty slot while there is none.
\<close>

definition first_owner :: "(cfg \<times> string) list \<Rightarrow> string" where
  "first_owner cs = (case filter (\<lambda>(c, m). \<not> cfg_bundle_only c) cs of [] \<Rightarrow> '''' | (c, m) # _ \<Rightarrow> m)"

lemma addStreams_owned:
  assumes "mids b \<noteq> []" and "hd (mids b) \<noteq> ''''"
  shows "mids (addStreams b cs) \<noteq> [] \<and> hd (mids (addStreams b cs)) = hd (mids b)"
  using assms
proof (induction cs arbitrary: b)
  case (Cons x cs)
  obtain c m where x: "x = (c, m)" by fastforce
  let ?b = "fst (addStream b c m)"
  have "mids ?b \<noteq> []" "hd (mids ?b) = hd (mids b)"
    using Cons.prems by (auto simp: addStream_def Let_def)
  with Cons show ?case by (simp add: addStreams_def x)
qed (simp add: addStreams_def)

lemma addStreams_reserved:
  assumes "mids b = '''' # rest" and "\<forall>(c, m) \<in> set cs. m \<noteq> ''''"
  shows "mids (addStreams b cs) \<noteq> [] \<and> hd (mids (addStreams b cs)) = first_owner cs"
  using assms
proof (induction cs arbitrary: b rest)
  case (Cons x cs)
  obtain c m where x: "x = (c, m)" by fastforce
  show ?case
  proof (cases "cfg_bundle_only c")
    case True
    with Cons show ?thesis by (auto simp: x addStreams_def addStream_def first_owner_def)
  next
    case False
    with Cons.prems x have "addStreams b (x # cs) = addStreams \<lparr>mids = m # rest\<rparr> cs"
      by (simp add: addStreams_def addStream_def)
    with addStreams_owned [of "\<lparr>mids = m # rest\<rparr>" cs] Cons.prems False x show ?thesis
      by (simp add: first_owner_def)
  qed
qed (simp add: addStreams_def first_owner_def)

text \<open>
  The transport owner of a bundle.  Whatever the order in which streams with non-empty identifiers
  are added, the owner is the first one that is not bundle-only, and no owner is reported while only
  bundle-only streams have been added.
\<close>

theorem addStreams_owner:
  assumes "\<forall>(c, m) \<in> set cs. m \<noteq> ''''"
  shows "getMidOfTransportOwner (addStreams empty_bundle cs) = first_owner cs"
proof (cases cs)
  case (Cons x rest)
  obtain c m where x: "x = (c, m)" by fastforce
  show ?thesis
  proof (cases "cfg_bundle_only c")
    case True
    with Cons x have "addStreams empty_bundle cs = addStreams \<lparr>mids = ['''', m]\<rparr> rest"
      by (simp add: addStreams_def addStream_def empty_bundle_def)
    with addStreams_reserved [of "\<lparr>mids = ['''', m]\<rparr>" "[m]" rest] assms True Cons x show ?thesis
      by (simp add: getMidOfTransportOwner_def first_owner_def)
  next
    case False
    with Cons x have "addStreams empty_bundle cs = addStreams \<lparr>mids = [m]\<rparr> rest"
      by (simp add: addStreams_def addStream_def empty_bundle_def)
    with addStreams_owned [of "\<lparr>mids = [m]\<rparr>" rest] assms False Cons x show ?thesis
      by (simp add: getMidOfTransportOwner_def first_owner_def)
  qed
qed (simp add: addStreams_def getMidOfTransportOwner_def empty_bundle_def first_owner_def)

theorem addStreams_owner_witness:
  "getMidOfTransportOwner (addStreams empty_bundle
     [(default_cfg\<lparr>cfg_bundle_only := True\<rparr>, ''vs''), (default_cfg, ''as''), (default_cfg, ''ts'')]) = ''as''"
  using addStreams_owner [of "[(default_cfg\<lparr>cfg_bundle_only := True\<rparr>, ''vs''), (default_cfg, ''as''), (default_cfg, ''ts'')]"]
  by (simp add: first_owner_def default_cfg_def)

lemma group_value_append:
  "foldl (\<lambda>attr_value mid. attr_value @ '' '' @ mid) s ms = s @ concat (map ((#) (CHR '' '')) ms)"
  by (induction ms arbitrary: s) auto

lemma parse_mids_words:
  "\<forall>m \<in> set ms. word_of (length m) m \<Longrightarrow> parse_mids (concat (map ((#) (CHR '' '')) ms)) = ms"
proof (induction ms)
  case Nil
  show ?case by (simp add: parse_mids.simps [of "[]"] skip_ws_def)
next
  case (Cons m ms)
  let ?r = "concat (map ((#) (CHR '' '')) ms)"
  have w: "word_of (length m) m" using Cons.prems by simp
  have split: "takeWhile (\<lambda>c. \<not> is_space_c c) (m @ ?r) = m \<and> dropWhile (\<lambda>c. \<not> is_space_c c) (m @ ?r) = ?r"
    by (rule takeWhile_prefix) (use w in \<open>cases ms; simp add: word_of_def space_not_digit\<close>)+
  have skip: "skip_ws (concat (map ((#) (CHR '' '')) (m # ms))) = m @ ?r"
    using skip_ws_space_word [OF w, of ?r] by simp
  have "parse_mids (concat (map ((#) (CHR '' '')) (m # ms))) = (if ?r = [] then [m] else m # parse_mids ?r)"
    unfolding parse_mids.simps [of "concat (map ((#) (CHR '' '')) (m # ms))"] skip Let_def
    using split w by (simp add: word_of_def list_all_iff)
  also have "\<dots> = m # ms" using Cons by (cases ms) simp_all
  finally show ?case .
qed

text \<open>
  The \<open>group\<close> attribute round-trips: parsing what follows \<open>BUNDLE\<close> in the printed value gives
  back the identifiers in their order, when each is a non-empty word.
\<close>

theorem bundle_group_roundtrip:
  assumes "\<forall>m \<in> set (mids b). word_of (length m) m"
  shows "bundle_from_string (drop (length ''BUNDLE'') (bundle_group_value b)) = b"
proof -
  have "drop (length ''BUNDLE'') (bundle_group_value b) = concat (map ((#) (CHR '' '')) (mids b))"
    unfolding bundle_group_value_def group_value_append by simp
  with parse_mids_words [OF assms] show ?thesis by (simp add: bundle_from_string_def)
qed

theorem bundle_group_roundtrip_witness:
  "bundle_from_string (drop (length ''BUNDLE'') (bundle_group_value \<lparr>mids = [''as'', ''vs'']\<rparr>)) = \<lparr>mids = [''as'', ''vs'']\<rparr>"
  by (rule bundle_group_roundtrip) (simp add: word_of_def is_space_c_def)

end
