(* ===== verification/Std_Map.thy ===== *)
theory Std_Map
  imports Prelude
begin

text \<open>
  \<open>std::map\<close> with a user-supplied comparator.  A map is the list of its nodes in iteration
  order; the comparator is given by the rank it compares.  The operations are the ones the
  media-negotiation code uses: \<open>m[k] = v\<close>, \<open>m.insert\<close>, \<open>m.at\<close> and range insertion.
  The locale \<open>ranked_map\<close> holds the laws of a comparator and what follows for the
  operations; it is interpreted for \<open>std::less\<close> on \<open>unsigned int\<close> here and for
  \<open>SalConfigurationCmp\<close> in the theory of the stream description.
\<close>

type_synonym ('k, 'v) stdmap = "('k \<times> 'v) list"

fun map_set :: "('k \<Rightarrow> nat) \<Rightarrow> 'k \<Rightarrow> 'v \<Rightarrow> ('k, 'v) stdmap \<Rightarrow> ('k, 'v) stdmap" where
  "map_set rank k v [] = [(k, v)]"
| "map_set rank k v ((a, b) # m) =
     (if rank k < rank a then (k, v) # (a, b) # m
      else if rank k = rank a then (a, v) # m
      else (a, b) # map_set rank k v m)"

text \<open>\<open>m.insert(\<dots>)\<close> keeps the node that is already there; the flag says whether it inserted.\<close>

definition map_insert ::
  "('k \<Rightarrow> nat) \<Rightarrow> 'k \<Rightarrow> 'v \<Rightarrow> ('k, 'v) stdmap \<Rightarrow> ('k, 'v) stdmap \<times> bool" where
  "map_insert rank k v m =
     (case map_of m k of None \<Rightarrow> (map_set rank k v m, True) | Some _ \<Rightarrow> (m, False))"

definition map_insert_range ::
  "('k \<Rightarrow> nat) \<Rightarrow> ('k, 'v) stdmap \<Rightarrow> ('k, 'v) stdmap \<Rightarrow> ('k, 'v) stdmap" where
  "map_insert_range rank m other = foldl (\<lambda>acc (k, v). fst (map_insert rank k v acc)) m other"

text \<open>Insert-or-overwrite of a whole range, as the copy operations of the code do it.\<close>

definition map_overwrite_range ::
  "('k \<Rightarrow> nat) \<Rightarrow> ('k, 'v) stdmap \<Rightarrow> ('k, 'v) stdmap \<Rightarrow> ('k, 'v) stdmap" where
  "map_overwrite_range rank m other = foldl (\<lambda>acc (k, v). map_set rank k v acc) m other"

definition map_update_at :: "'k \<Rightarrow> ('v \<Rightarrow> 'v) \<Rightarrow> ('k, 'v) stdmap \<Rightarrow> ('k, 'v) stdmap" where
  "map_update_at k f m = map (\<lambda>(a, b). if a = k then (a, f b) else (a, b)) m"

text \<open>Iteration order is the comparator's order, without two equivalent keys.\<close>

definition map_wf :: "('k \<Rightarrow> nat) \<Rightarrow> ('k, 'v) stdmap \<Rightarrow> bool" where
  "map_wf rank m \<longleftrightarrow> sorted_wrt (\<lambda>x y. rank (fst x) < rank (fst y)) m"

section \<open>Facts that need no law of the comparator\<close>

lemma map_wf_simps [simp]:
  "map_wf rank []"
  "map_wf rank (x # m) \<longleftrightarrow> (\<forall>y \<in> set m. rank (fst x) < rank (fst y)) \<and> map_wf rank m"
  by (simp_all add: map_wf_def)

lemma map_of_map_update_at:
  "map_of (map_update_at k f m) j = (if j = k then map_option f (map_of m j) else map_of m j)"
  by (induction m) (auto simp: map_update_at_def)

lemma map_fst_update_at [simp]: "map fst (map_update_at k f m) = map fst m"
  by (induction m) (auto simp: map_update_at_def)

lemma map_wf_keys:
  "map_wf rank m \<longleftrightarrow> sorted_wrt (\<lambda>x y. rank x < rank y) (map fst m)"
  by (simp add: map_wf_def sorted_wrt_map)

lemma map_wf_update_at [simp]: "map_wf rank (map_update_at k f m) = map_wf rank m"
  by (simp add: map_wf_keys)

lemma map_wf_distinct: "map_wf rank m \<Longrightarrow> distinct (map fst m)"
  by (induction m) auto

lemma keys_map_set_subset: "fst ` set (map_set rank k v m) \<subseteq> insert k (fst ` set m)"
proof (induction m)
  case (Cons x m)
  then show ?case by (cases x) auto
qed simp

lemma map_wf_map_set [simp]:
  assumes "map_wf rank m"
  shows "map_wf rank (map_set rank k v m)"
  using assms
proof (induction m)
  case (Cons x m)
  obtain a b where x: "x = (a, b)" by fastforce
  have lt: "\<forall>y \<in> set m. rank a < rank (fst y)" using Cons.prems x by auto
  show ?case
  proof (cases "rank a < rank k")
    case True
    have "\<forall>y \<in> set (map_set rank k v m). rank a < rank (fst y)"
    proof
      fix y assume "y \<in> set (map_set rank k v m)"
      then have "fst y \<in> fst ` set (map_set rank k v m)" by (rule imageI)
      then have "fst y \<in> insert k (fst ` set m)" using keys_map_set_subset by (rule rev_subsetD)
      with lt True show "rank a < rank (fst y)" by auto
    qed
    with True Cons x show ?thesis by simp
  next
    case False
    with lt Cons.prems x show ?thesis by auto
  qed
qed simp

lemma map_wf_map_insert [simp]: "map_wf rank m \<Longrightarrow> map_wf rank (fst (map_insert rank k v m))"
  by (simp add: map_insert_def split: option.splits)

lemma map_wf_insert_range [simp]: "map_wf rank m \<Longrightarrow> map_wf rank (map_insert_range rank m other)"
  by (induction other arbitrary: m) (auto simp: map_insert_range_def)

lemma map_wf_overwrite_range [simp]:
  "map_wf rank m \<Longrightarrow> map_wf rank (map_overwrite_range rank m other)"
  by (induction other arbitrary: m) (auto simp: map_overwrite_range_def)

lemma map_insert_fresh: "map_of m k = None \<Longrightarrow> map_insert rank k v m = (map_set rank k v m, True)"
  by (simp add: map_insert_def)

lemma map_insert_present: "map_of m k = Some w \<Longrightarrow> map_insert rank k v m = (m, False)"
  by (simp add: map_insert_def)

lemma map_set_nonempty [simp]: "map_set rank k v m \<noteq> []"
  by (cases m) (auto split: prod.splits if_splits)

section \<open>The interface\<close>

locale ranked_map =
  fixes rank :: "'k \<Rightarrow> nat"
  assumes rank_inj: "rank a = rank b \<Longrightarrow> a = b"
begin

lemma map_of_map_set:
  assumes "map_wf rank m"
  shows "map_of (map_set rank k v m) = (map_of m)(k \<mapsto> v)"
  using assms
proof (induction m)
  case (Cons x m)
  obtain a b where x: "x = (a, b)" by fastforce
  from Cons.prems x have wf: "map_wf rank m" by simp
  show ?case
  proof (cases "rank k = rank a")
    case True
    then have "k = a" by (rule rank_inj)
    with x show ?thesis by (auto simp: fun_eq_iff)
  next
    case False
    then have "k \<noteq> a" by auto
    with Cons.IH [OF wf] False x show ?thesis by (auto simp: fun_eq_iff)
  qed
qed (simp add: fun_eq_iff)

lemma map_of_map_insert:
  assumes "map_wf rank m"
  shows "map_of (fst (map_insert rank k v m)) =
    (case map_of m k of None \<Rightarrow> (map_of m)(k \<mapsto> v) | Some _ \<Rightarrow> map_of m)"
  using assms by (auto simp: map_insert_def map_of_map_set split: option.splits)

lemma map_set_twice:
  assumes "map_wf rank m"
  shows "map_set rank k w (map_set rank k v m) = map_set rank k w m"
  using assms
proof (induction m)
  case (Cons x m)
  obtain a b where x: "x = (a, b)" by fastforce
  with Cons show ?case by auto
qed simp

text \<open>Range insertion keeps what the map already has; overwriting takes the new range.\<close>

lemma map_of_insert_range:
  assumes "map_wf rank m" and "distinct (map fst other)"
  shows "map_of (map_insert_range rank m other) = map_of other ++ map_of m"
  using assms
proof (induction other arbitrary: m)
  case (Cons x other)
  obtain k v where x: "x = (k, v)" by fastforce
  from Cons.prems x have k: "k \<notin> fst ` set other" "distinct (map fst other)" by auto
  then have kn: "map_of other k = None" by (simp add: map_of_eq_None_iff)
  let ?m = "fst (map_insert rank k v m)"
  have "map_of (map_insert_range rank m (x # other)) = map_of (map_insert_range rank ?m other)"
    by (simp add: map_insert_range_def x)
  also have "\<dots> = map_of other ++ map_of ?m"
    by (rule Cons.IH) (use Cons.prems k in auto)
  also have "\<dots> = map_of (x # other) ++ map_of m"
    using Cons.prems(1) kn x
    by (auto simp: map_of_map_insert fun_eq_iff map_add_def split: option.splits)
  finally show ?case .
qed (simp add: map_insert_range_def)

lemma map_of_overwrite_range:
  assumes "map_wf rank m" and "distinct (map fst other)"
  shows "map_of (map_overwrite_range rank m other) = map_of m ++ map_of other"
  using assms
proof (induction other arbitrary: m)
  case (Cons x other)
  obtain k v where x: "x = (k, v)" by fastforce
  from Cons.prems x have k: "k \<notin> fst ` set other" "distinct (map fst other)" by auto
  then have kn: "map_of other k = None" by (simp add: map_of_eq_None_iff)
  have "map_of (map_overwrite_range rank m (x # other)) =
      map_of (map_overwrite_range rank (map_set rank k v m) other)"
    by (simp add: map_overwrite_range_def x)
  also have "\<dots> = map_of (map_set rank k v m) ++ map_of other"
    by (rule Cons.IH) (use Cons.prems k in auto)
  also have "\<dots> = map_of m ++ map_of (x # other)"
    using Cons.prems(1) kn x by (auto simp: map_of_map_set fun_eq_iff map_add_def split: option.splits)
  finally show ?case .
qed (simp add: map_overwrite_range_def)

text \<open>Two well-formed maps with the same lookups are the same sequence of nodes.\<close>

lemma map_wf_ext:
  assumes "map_wf rank m" and "map_wf rank n" and "map_of m = map_of n"
  shows "m = n"
proof -
  have wf: "sorted (map (rank \<circ> fst) l) \<and> distinct (map (rank \<circ> fst) l)" if "map_wf rank l" for l :: "('k, 'a) stdmap"
    using that unfolding map_wf_def strict_sorted_iff [symmetric] by (simp add: sorted_wrt_map)
  have sets: "set m = set n"
    using assms map_wf_distinct map_of_inject_set by metis
  have inj: "inj_on (rank \<circ> fst) (set m \<union> set n)"
  proof (rule inj_onI)
    fix x y assume xy: "x \<in> set m \<union> set n" "y \<in> set m \<union> set n" "(rank \<circ> fst) x = (rank \<circ> fst) y"
    then have "fst x = fst y" by (simp add: rank_inj)
    with xy sets assms(1) show "x = y"
      using map_wf_distinct by (metis (no_types, lifting) Un_absorb eq_key_imp_eq_value prod.collapse)
  qed
  show ?thesis
    by (rule map_sorted_distinct_set_unique [OF inj]) (use wf assms sets in auto)
qed

end

section \<open>The comparator of unsigned keys\<close>

interpretation u32_map: ranked_map "unat :: u32 \<Rightarrow> nat"
  by unfold_locales (simp add: word_unat_eq_iff)

end
