(* ===== verification/Potential_Cfg.thy ===== *)
theory Potential_Cfg
  imports Std_Map "HOL-Library.Multiset"
begin

text \<open>
  \<open>PotentialCfgGraph\<close> (\<open>src/sal/potential_config_graph.h\<close> and \<open>.cpp\<close>): the attribute and transport
  capabilities of a session description and the potential configurations built from them
  (RFC 5939).  The attributes of the session description come from belle-sip, already
  parsed; they are the records \<open>acap_attr\<close>, \<open>tcap_attr\<close>, \<open>cfg_attr\<close>.  \<open>bctoolbox::Utils::split\<close> is an
  argument of the definitions that call it.  The weak pointers of a configuration point to
  capabilities the graph owns and never removes, so they are the capabilities themselves.
\<close>

section \<open>Data\<close>

datatype config_type = ACFG | PCFG

datatype capability_type = ATTRIBUTE | TRANSPORT_PROTOCOL | EXTENDED

record capability =
  cap_index :: u32
  cap_value :: string
  cap_type :: capability_type

record acapability = capability +
  cap_name :: string

record 'c config_capability =
  cc_cap :: 'c
  cc_mandatory :: bool

record config_attribute =
  ca_acap :: "acapability config_capability list list"
  ca_tcap :: "capability config_capability list"
  ca_delete_media_attributes :: bool
  ca_delete_session_attributes :: bool

text \<open>A default-constructed \<open>config_attribute\<close>.\<close>

definition empty_config :: config_attribute where
  "empty_config = \<lparr>ca_acap = [], ca_tcap = [], ca_delete_media_attributes = False,
     ca_delete_session_attributes = False\<rparr>"

type_synonym media_description_config = "(u32, config_attribute) stdmap"

record PotentialCfgGraph =
  globalAcap :: "acapability list"
  globalTcap :: "capability list"
  g_cfgs :: "(u32, media_description_config) stdmap"
  g_unparsed_cfgs :: "(u32, (u32, string) stdmap) stdmap"
  g_acap :: "(u32, acapability list) stdmap"
  g_tcap :: "(u32, capability list) stdmap"

definition empty_graph :: PotentialCfgGraph where
  "empty_graph = \<lparr>globalAcap = [], globalTcap = [], g_cfgs = [], g_unparsed_cfgs = [], g_acap = [], g_tcap = []\<rparr>"

text \<open>\<open>operator=\<close> copies every member but \<open>unparsed_cfgs\<close>.\<close>

definition graph_assign :: "PotentialCfgGraph \<Rightarrow> PotentialCfgGraph \<Rightarrow> PotentialCfgGraph" where
  "graph_assign this other =
     this\<lparr>globalAcap := globalAcap other, globalTcap := globalTcap other, g_cfgs := g_cfgs other,
          g_acap := g_acap other, g_tcap := g_tcap other\<rparr>"

fun capabilityToAttributeName :: "capability_type \<Rightarrow> string" where
  "capabilityToAttributeName ATTRIBUTE = ''acap''"
| "capabilityToAttributeName TRANSPORT_PROTOCOL = ''tcap''"
| "capabilityToAttributeName EXTENDED = ''ecap''"

definition graph_empty :: "PotentialCfgGraph \<Rightarrow> bool" where
  "graph_empty g \<longleftrightarrow> globalAcap g = [] \<and> globalTcap g = [] \<and> g_cfgs g = [] \<and> g_acap g = [] \<and> g_tcap g = []
     \<and> g_unparsed_cfgs g = []"

section \<open>Getters\<close>

definition getCfgForStream :: "PotentialCfgGraph \<Rightarrow> u32 \<Rightarrow> media_description_config" where
  "getCfgForStream g idx = (case map_of (g_cfgs g) idx of Some c \<Rightarrow> c | None \<Rightarrow> [])"

definition getUnparsedCfgForStream :: "PotentialCfgGraph \<Rightarrow> u32 \<Rightarrow> (u32, string) stdmap" where
  "getUnparsedCfgForStream g idx = (case map_of (g_unparsed_cfgs g) idx of Some c \<Rightarrow> c | None \<Rightarrow> [])"

definition getMediaAcapForStream :: "PotentialCfgGraph \<Rightarrow> u32 \<Rightarrow> acapability list" where
  "getMediaAcapForStream g idx = (case map_of (g_acap g) idx of Some c \<Rightarrow> c | None \<Rightarrow> [])"

definition getMediaTcapForStream :: "PotentialCfgGraph \<Rightarrow> u32 \<Rightarrow> capability list" where
  "getMediaTcapForStream g idx = (case map_of (g_tcap g) idx of Some c \<Rightarrow> c | None \<Rightarrow> [])"

definition getAllAcapForStream :: "PotentialCfgGraph \<Rightarrow> u32 \<Rightarrow> acapability list" where
  "getAllAcapForStream g idx = getMediaAcapForStream g idx @ globalAcap g"

definition getAllTcapForStream :: "PotentialCfgGraph \<Rightarrow> u32 \<Rightarrow> capability list" where
  "getAllTcapForStream g idx = getMediaTcapForStream g idx @ globalTcap g"

section \<open>Adding capabilities\<close>

definition has_cap_index :: "u32 \<Rightarrow> 'a capability_scheme list \<Rightarrow> bool" where
  "has_cap_index index caps \<longleftrightarrow> find_index (\<lambda>cap. cap_index cap = index) caps \<noteq> None"

definition canFindAcapWithIdx :: "PotentialCfgGraph \<Rightarrow> u32 \<Rightarrow> bool" where
  "canFindAcapWithIdx g index =
     (let foundInGlobalAcap = has_cap_index index (globalAcap g);
          foundInStreamAcap = foldl (\<lambda>found (_, acapList). found \<or> has_cap_index index acapList) False (g_acap g)
      in foundInStreamAcap \<or> foundInGlobalAcap)"

definition canFindTcapWithIdx :: "PotentialCfgGraph \<Rightarrow> u32 \<Rightarrow> bool" where
  "canFindTcapWithIdx g index =
     (let foundInGlobalTcap = has_cap_index index (globalTcap g);
          foundInStreamTcap = foldl (\<lambda>found (_, tcapList). found \<or> has_cap_index index tcapList) False (g_tcap g)
      in foundInStreamTcap \<or> foundInGlobalTcap)"

text \<open>The four additions return whether they added; an index already in use leaves the graph alone.\<close>

definition addGlobalAcap :: "PotentialCfgGraph \<Rightarrow> u32 \<Rightarrow> string \<Rightarrow> string \<Rightarrow> PotentialCfgGraph \<times> bool" where
  "addGlobalAcap g idx name value =
     (if \<not> canFindAcapWithIdx g idx
      then (g\<lparr>globalAcap := globalAcap g @
              [\<lparr>cap_index = idx, cap_value = value, cap_type = ATTRIBUTE, cap_name = name\<rparr>]\<rparr>, True)
      else (g, False))"

definition addGlobalTcap :: "PotentialCfgGraph \<Rightarrow> u32 \<Rightarrow> string \<Rightarrow> PotentialCfgGraph \<times> bool" where
  "addGlobalTcap g idx value =
     (if \<not> canFindTcapWithIdx g idx
      then (g\<lparr>globalTcap := globalTcap g @
              [\<lparr>cap_index = idx, cap_value = value, cap_type = TRANSPORT_PROTOCOL\<rparr>]\<rparr>, True)
      else (g, False))"

definition addAcapToStream ::
  "PotentialCfgGraph \<Rightarrow> u32 \<Rightarrow> u32 \<Rightarrow> string \<Rightarrow> string \<Rightarrow> PotentialCfgGraph \<times> bool" where
  "addAcapToStream g streamIdx capIdx capName capValue =
     (if \<not> canFindAcapWithIdx g capIdx
      then (g\<lparr>g_acap := map_set unat streamIdx (getMediaAcapForStream g streamIdx @
              [\<lparr>cap_index = capIdx, cap_value = capValue, cap_type = ATTRIBUTE, cap_name = capName\<rparr>])
              (g_acap g)\<rparr>, True)
      else (g, False))"

definition addTcapToStream ::
  "PotentialCfgGraph \<Rightarrow> u32 \<Rightarrow> u32 \<Rightarrow> string \<Rightarrow> PotentialCfgGraph \<times> bool" where
  "addTcapToStream g streamIdx capIdx capValue =
     (if \<not> canFindTcapWithIdx g capIdx
      then (g\<lparr>g_tcap := map_set unat streamIdx (getMediaTcapForStream g streamIdx @
              [\<lparr>cap_index = capIdx, cap_value = capValue, cap_type = TRANSPORT_PROTOCOL\<rparr>])
              (g_tcap g)\<rparr>, True)
      else (g, False))"

section \<open>Adding configurations\<close>

text \<open>The loop over the requested indexes stops at the first one that is not available.\<close>

primrec createAcapList_loop ::
  "acapability list \<Rightarrow> (u32 \<times> bool) list \<Rightarrow> acapability config_capability list" where
  "createAcapList_loop acaps [] = []"
| "createAcapList_loop acaps (x # rest) =
     (case find (\<lambda>cap. cap_index cap = fst x) acaps of
        None \<Rightarrow> []
      | Some cap \<Rightarrow> \<lparr>cc_cap = cap, cc_mandatory = snd x\<rparr> # createAcapList_loop acaps rest)"

definition createAcapList ::
  "PotentialCfgGraph \<Rightarrow> u32 \<Rightarrow> (u32, bool) stdmap \<Rightarrow> acapability config_capability list" where
  "createAcapList g streamIdx acapIdx = createAcapList_loop (getAllAcapForStream g streamIdx) acapIdx"

primrec createTcapList_loop :: "capability list \<Rightarrow> u32 list \<Rightarrow> capability config_capability list" where
  "createTcapList_loop tcaps [] = []"
| "createTcapList_loop tcaps (idx # rest) =
     (case find (\<lambda>cap. cap_index cap = idx) tcaps of
        None \<Rightarrow> []
      | Some cap \<Rightarrow> \<lparr>cc_cap = cap, cc_mandatory = False\<rparr> # createTcapList_loop tcaps rest)"

definition createTcapList :: "PotentialCfgGraph \<Rightarrow> u32 \<Rightarrow> u32 list \<Rightarrow> capability config_capability list" where
  "createTcapList g streamIdx tcapIdx = createTcapList_loop (getAllTcapForStream g streamIdx) tcapIdx"

definition createCfgAttr ::
  "PotentialCfgGraph \<Rightarrow> u32 \<Rightarrow> (u32, bool) stdmap list \<Rightarrow> u32 list \<Rightarrow> bool \<Rightarrow> bool \<Rightarrow> config_attribute" where
  "createCfgAttr g streamIdx acapIdxs tcapIdx delete_media delete_session =
     \<lparr>ca_acap = map (createAcapList g streamIdx) acapIdxs,
      ca_tcap = (if tcapIdx \<noteq> [] then createTcapList g streamIdx tcapIdx else []),
      ca_delete_media_attributes = delete_media, ca_delete_session_attributes = delete_session\<rparr>"

definition addCfg ::
  "PotentialCfgGraph \<Rightarrow> u32 \<Rightarrow> u32 \<Rightarrow> (u32, bool) stdmap list \<Rightarrow> u32 list \<Rightarrow> bool \<Rightarrow> bool \<Rightarrow> PotentialCfgGraph" where
  "addCfg g streamIdx cfgIdx acapIdxs tcapIdx delete_media delete_session =
     g\<lparr>g_cfgs := map_set unat streamIdx
         (map_set unat cfgIdx (createCfgAttr g streamIdx acapIdxs tcapIdx delete_media delete_session)
            (getCfgForStream g streamIdx)) (g_cfgs g)\<rparr>"

text \<open>
  \<open>cfgs.at\<close> and \<open>cfg.at\<close> in one \<open>try\<close>: the stream's configurations are kept when only the second
  throws.
\<close>

definition cfgAttrAt :: "PotentialCfgGraph \<Rightarrow> u32 \<Rightarrow> u32 \<Rightarrow> config_attribute" where
  "cfgAttrAt g streamIdx cfgIdx =
     (case map_of (getCfgForStream g streamIdx) cfgIdx of
        Some a \<Rightarrow> a
      | None \<Rightarrow> empty_config\<lparr>ca_delete_session_attributes := False, ca_delete_media_attributes := False\<rparr>)"

definition addAcapListToCfg ::
  "PotentialCfgGraph \<Rightarrow> u32 \<Rightarrow> u32 \<Rightarrow> (u32, bool) stdmap \<Rightarrow> PotentialCfgGraph" where
  "addAcapListToCfg g streamIdx cfgIdx acapIdx =
     (if acapIdx \<noteq> []
      then (let a = cfgAttrAt g streamIdx cfgIdx;
                a' = a\<lparr>ca_acap := ca_acap a @ [createAcapList g streamIdx acapIdx]\<rparr>
            in g\<lparr>g_cfgs := map_set unat streamIdx
                  (map_set unat cfgIdx a' (getCfgForStream g streamIdx)) (g_cfgs g)\<rparr>)
      else g)"

definition addTcapListToCfg :: "PotentialCfgGraph \<Rightarrow> u32 \<Rightarrow> u32 \<Rightarrow> u32 list \<Rightarrow> PotentialCfgGraph" where
  "addTcapListToCfg g streamIdx cfgIdx tcapIdx =
     (if tcapIdx \<noteq> []
      then (let a = cfgAttrAt g streamIdx cfgIdx;
                a' = a\<lparr>ca_tcap := createTcapList g streamIdx tcapIdx @ ca_tcap a\<rparr>
            in g\<lparr>g_cfgs := map_set unat streamIdx
                  (map_set unat cfgIdx a' (getCfgForStream g streamIdx)) (g_cfgs g)\<rparr>)
      else g)"

section \<open>Free indexes\<close>

text \<open>
  \<open>getFreeIdx\<close>: the sorted copy without duplicates gives the differences of neighbours; the
  start of the gap is read from the list as it was passed.
\<close>

definition getFreeIdx :: "u32 list \<Rightarrow> u32" where
  "getFreeIdx l =
     (if l = [] then 1
      else (let lCopy = remdups_adj (sort_key unat l);
                lResult = map2 (\<lambda>b a. b - a) (tl lCopy) (butlast lCopy)
            in case find_index (\<lambda>el. el \<noteq> 1) lResult of
                 None \<Rightarrow> (let listMinEl = fold min (tl l) (hd l)
                          in if listMinEl > 1 then listMinEl - 1 else fold max (tl l) (hd l) + 1)
               | Some elIdx \<Rightarrow> l ! elIdx + 1))"

definition acapIndexes :: "PotentialCfgGraph \<Rightarrow> u32 list" where
  "acapIndexes g = map cap_index (globalAcap g) @ concat (map (\<lambda>(_, l). map cap_index l) (g_acap g))"

definition tcapIndexes :: "PotentialCfgGraph \<Rightarrow> u32 list" where
  "tcapIndexes g = map cap_index (globalTcap g) @ concat (map (\<lambda>(_, l). map cap_index l) (g_tcap g))"

definition getFreeTcapIdx :: "PotentialCfgGraph \<Rightarrow> u32" where
  "getFreeTcapIdx g = getFreeIdx (tcapIndexes g)"

definition getFreeAcapIdx :: "PotentialCfgGraph \<Rightarrow> u32" where
  "getFreeAcapIdx g = getFreeIdx (acapIndexes g)"

definition graph_getFreeCfgIdx :: "PotentialCfgGraph \<Rightarrow> u32 \<Rightarrow> u32" where
  "graph_getFreeCfgIdx g idx = getFreeIdx (map fst (getCfgForStream g idx))"

section \<open>Parsing\<close>

record acap_attr =
  aa_id :: int
  aa_name :: string
  aa_value :: "string option"

record tcap_attr =
  ta_id :: int
  ta_protos :: "string list"

text \<open>An \<open>acfg\<close> or \<open>pcfg\<close> attribute: its identifier, its configurations, its printed form.\<close>

record cfg_attr =
  ga_id :: int
  ga_configs :: "string list"
  ga_string :: string

definition createACapabilitiesList :: "acap_attr list \<Rightarrow> capability_type \<Rightarrow> acapability list" where
  "createACapabilitiesList caps_attr cap =
     map (\<lambda>a. \<lparr>cap_index = word_of_int (aa_id a),
               cap_value = (case aa_value a of None \<Rightarrow> '''' | Some v \<Rightarrow> v), cap_type = cap,
               cap_name = aa_name a\<rparr>) caps_attr"

primrec tcaps_of_protos :: "capability_type \<Rightarrow> u32 \<Rightarrow> string list \<Rightarrow> capability list" where
  "tcaps_of_protos cap i [] = []"
| "tcaps_of_protos cap i (p # ps) =
     \<lparr>cap_index = i, cap_value = p, cap_type = cap\<rparr> # tcaps_of_protos cap (i + 1) ps"

definition createTCapabilitiesList :: "tcap_attr list \<Rightarrow> capability_type \<Rightarrow> capability list" where
  "createTCapabilitiesList caps_attr cap =
     concat (map (\<lambda>a. tcaps_of_protos cap (word_of_int (ta_id a)) (ta_protos a)) caps_attr)"

definition capabilityTypeFromAttrParam :: "string \<Rightarrow> capability_type" where
  "capabilityTypeFromAttrParam attrParam =
     (if attrParam = ''a'' then ATTRIBUTE else if attrParam = ''t'' then TRANSPORT_PROTOCOL else EXTENDED)"

text \<open>
  \<open>getElementIdx\<close>: the first run of digits, converted by \<open>std::stoi\<close>.  Without a digit the end
  iterator is dereferenced; a value beyond \<open>INT_MAX\<close> throws \<open>std::out_of_range\<close>.
\<close>

definition getElementIdx :: "string \<Rightarrow> u32 res" where
  "getElementIdx index =
     (let run = takeWhile is_digit_c (dropWhile (\<lambda>c. \<not> is_digit_c c) index)
      in if run = [] then Inl End_iterator_dereferenced
         else if digits_value run > 2147483647 then Inl Stoi_out_of_range
         else Inr (word_of_nat (digits_value run)))"

text \<open>The inner loop of \<open>parseIdxList\<close>: the capabilities so far, \<open>mandatory\<close>, \<open>success\<close>.\<close>

primrec parse_caps ::
  "'a capability_scheme list \<Rightarrow> string list \<Rightarrow> 'a capability_scheme config_capability list \<Rightarrow> bool \<Rightarrow> bool \<Rightarrow>
   ('a capability_scheme config_capability list \<times> bool \<times> bool) res" where
  "parse_caps availableCaps [] caps mandatory success = Inr (caps, mandatory, success)"
| "parse_caps availableCaps (index # rest) caps mandatory success =
     (let mandatory1 = (if CHR ''['' \<in> set index then False else mandatory)
      in bindR (getElementIdx index) (\<lambda>idx.
         case find (\<lambda>cap. cap_index cap = idx) availableCaps of
           None \<Rightarrow> Inr ([], mandatory1, False)
         | Some cap \<Rightarrow> parse_caps availableCaps rest (caps @ [\<lparr>cc_cap = cap, cc_mandatory = mandatory1\<rparr>])
             (if CHR '']'' \<in> set index then True else mandatory1) success))"

definition parseIdxList ::
  "(string \<Rightarrow> char \<Rightarrow> string list) \<Rightarrow> string \<Rightarrow> 'a capability_scheme list \<Rightarrow>
   ('a capability_scheme config_capability list list \<times> bool) res" where
  "parseIdxList split idxList availableCaps =
     bindR (foldR (\<lambda>(capList, mandatory, success) config.
         bindR (parse_caps availableCaps (split config (CHR '','')) [] mandatory success) (\<lambda>(caps, m, s).
           Inr (if caps \<noteq> [] then capList @ [caps] else capList, m, s)))
       ([], True, True) (split idxList (CHR ''|'')))
     (\<lambda>(capList, _, success). Inr (capList, success))"

text \<open>The locals of \<open>processConfig\<close>.\<close>

record config_state =
  cs_delete_media :: bool
  cs_delete_session :: bool
  cs_acaps :: "acapability config_capability list list"
  cs_tcaps :: "capability config_capability list"
  cs_acapError :: bool
  cs_tcapError :: bool

text \<open>The transport list: a set of several protocols is ignored, \<open>front()\<close> is its only element.\<close>

definition collect_tcaps ::
  "capability config_capability list list \<Rightarrow> capability config_capability list" where
  "collect_tcaps parsed =
     concat (map (\<lambda>tcapCfg. if length tcapCfg > 1 then [] else take 1 tcapCfg) parsed)"

definition processConfig_step ::
  "(string \<Rightarrow> char \<Rightarrow> string list) \<Rightarrow> acapability list \<Rightarrow> capability list \<Rightarrow> config_state \<Rightarrow> string \<Rightarrow>
   string \<Rightarrow> config_state res" where
  "processConfig_step split mediaAcap mediaTcap st capType attrBody =
     (let cap = capabilityTypeFromAttrParam capType; deleteAttrSplit = split attrBody (CHR '':'')
      in if deleteAttrSplit = [] then Inl Front_of_empty_list
         else (let idxList = last deleteAttrSplit
               in if cap = ATTRIBUTE \<and> cs_acaps st = []
                  then bindR (parseIdxList split idxList mediaAcap) (\<lambda>(parsedList, success).
                    Inr (st\<lparr>cs_acapError := cs_acapError st \<or> (\<not> success \<and> parsedList = []),
                            cs_acaps := (if parsedList \<noteq> [] then parsedList else cs_acaps st),
                            cs_delete_media := CHR ''m'' \<in> set (hd deleteAttrSplit),
                            cs_delete_session := CHR ''s'' \<in> set (hd deleteAttrSplit)\<rparr>))
                  else if cap = TRANSPORT_PROTOCOL \<and> cs_tcaps st = []
                  then bindR (parseIdxList split idxList mediaTcap) (\<lambda>(parsedList, success).
                    Inr (st\<lparr>cs_tcapError := cs_tcapError st \<or> (\<not> success \<and> parsedList = []),
                            cs_tcaps := cs_tcaps st @ collect_tcaps parsedList\<rparr>))
                  else Inr st))"

text \<open>The loop over the configurations; a string without an equals sign returns the empty attribute.\<close>

primrec processConfig_loop ::
  "(string \<Rightarrow> char \<Rightarrow> string list) \<Rightarrow> acapability list \<Rightarrow> capability list \<Rightarrow> string list \<Rightarrow> config_state \<Rightarrow>
   config_state option res" where
  "processConfig_loop split mediaAcap mediaTcap [] st = Inr (Some st)"
| "processConfig_loop split mediaAcap mediaTcap (cfg # rest) st =
     (let bodySplit = split cfg (CHR ''='')
      in if length bodySplit < 2 then Inr None
         else bindR (processConfig_step split mediaAcap mediaTcap st (hd bodySplit) (last bodySplit))
                (\<lambda>st'. processConfig_loop split mediaAcap mediaTcap rest st'))"

definition processConfig ::
  "(string \<Rightarrow> char \<Rightarrow> string list) \<Rightarrow> string list \<Rightarrow> acapability list \<Rightarrow> capability list \<Rightarrow> config_attribute res" where
  "processConfig split configList mediaAcap mediaTcap =
     bindR (processConfig_loop split mediaAcap mediaTcap configList
              \<lparr>cs_delete_media = False, cs_delete_session = False, cs_acaps = [], cs_tcaps = [],
               cs_acapError = False, cs_tcapError = False\<rparr>) (\<lambda>r.
       case r of
         None \<Rightarrow> Inr empty_config
       | Some st \<Rightarrow>
           Inr (if cs_acapError st \<or> cs_tcapError st \<or> (cs_tcaps st = [] \<and> cs_acaps st = [])
                then empty_config
                else \<lparr>ca_acap = cs_acaps st, ca_tcap = cs_tcaps st,
                      ca_delete_media_attributes = cs_delete_media st,
                      ca_delete_session_attributes = cs_delete_session st\<rparr>))"

section \<open>Session and media descriptions\<close>

text \<open>The attributes of a media description that the graph reads.\<close>

record media_caps =
  mc_acap :: "acap_attr list"
  mc_tcap :: "tcap_attr list"
  mc_acfg :: "cfg_attr list"
  mc_pcfg :: "cfg_attr list"

record session_caps =
  sc_acap :: "acap_attr list"
  sc_tcap :: "tcap_attr list"
  sc_media :: "media_caps list"

text \<open>\<open>processMediaAcfg\<close> and \<open>processMediaPcfg\<close> differ only in the attributes they read.\<close>

definition processMediaCfgAttrs ::
  "(string \<Rightarrow> char \<Rightarrow> string list) \<Rightarrow> u32 \<Rightarrow> cfg_attr list \<Rightarrow> PotentialCfgGraph \<Rightarrow> (PotentialCfgGraph \<times> bool) res" where
  "processMediaCfgAttrs split idx attrs g =
     (let mediaAcap = getAllAcapForStream g idx; mediaTcap = getAllTcapForStream g idx
      in bindR (foldR (\<lambda>(config, unparsed) a.
           let i = word_of_int (ga_id a) in
           bindR (processConfig split (ga_configs a) mediaAcap mediaTcap) (\<lambda>attr_configs.
             Inr (if ca_acap attr_configs = [] \<and> ca_tcap attr_configs = []
                  then (config, map_set unat i (ga_string a) unparsed)
                  else (map_set unat i attr_configs config, unparsed)))) ([], []) attrs)
         (\<lambda>(config, unparsed).
           let g1 = (if config \<noteq> [] then g\<lparr>g_cfgs := map_set unat idx config (g_cfgs g)\<rparr> else g);
               unparsed1 = map_overwrite_range unat unparsed (getUnparsedCfgForStream g1 idx)
           in Inr (g1\<lparr>g_unparsed_cfgs := map_set unat idx unparsed1 (g_unparsed_cfgs g1)\<rparr>, config \<noteq> [])))"

definition processMediaCfg ::
  "(string \<Rightarrow> char \<Rightarrow> string list) \<Rightarrow> u32 \<Rightarrow> media_caps \<Rightarrow> config_type \<Rightarrow> PotentialCfgGraph \<Rightarrow>
   (PotentialCfgGraph \<times> bool) res" where
  "processMediaCfg split idx media cfgType g =
     (case cfgType of
        ACFG \<Rightarrow> processMediaCfgAttrs split idx (mc_acfg media) g
      | PCFG \<Rightarrow> processMediaCfgAttrs split idx (mc_pcfg media) g)"

definition processMediaDescription ::
  "(string \<Rightarrow> char \<Rightarrow> string list) \<Rightarrow> PotentialCfgGraph \<Rightarrow> u32 \<Rightarrow> media_caps \<Rightarrow> PotentialCfgGraph res" where
  "processMediaDescription split g idx media =
     (let mediaAcap = createACapabilitiesList (mc_acap media) ATTRIBUTE;
          g1 = (if mediaAcap \<noteq> [] then g\<lparr>g_acap := map_set unat idx mediaAcap (g_acap g)\<rparr> else g);
          mediaTcap = createTCapabilitiesList (mc_tcap media) TRANSPORT_PROTOCOL;
          g2 = (if mediaTcap \<noteq> [] then g1\<lparr>g_tcap := map_set unat idx mediaTcap (g_tcap g1)\<rparr> else g1)
      in bindR (processMediaCfg split idx media ACFG g2) (\<lambda>(g3, acfgFound).
         bindR (processMediaCfg split idx media PCFG g3) (\<lambda>(g4, pcfgFound). Inr g4)))"

definition processSessionDescription ::
  "(string \<Rightarrow> char \<Rightarrow> string list) \<Rightarrow> PotentialCfgGraph \<Rightarrow> session_caps \<Rightarrow> PotentialCfgGraph res" where
  "processSessionDescription split g session =
     (let g1 = g\<lparr>globalAcap := createACapabilitiesList (sc_acap session) ATTRIBUTE,
                 globalTcap := createTCapabilitiesList (sc_tcap session) TRANSPORT_PROTOCOL\<rparr>
      in foldR (\<lambda>g (mediaIdx, media). processMediaDescription split g (word_of_nat mediaIdx) media)
           g1 (List.enumerate 0 (sc_media session)))"

section \<open>Free indexes are free in sorted lists\<close>

lemma strict_sorted_sort_key:
  fixes l :: "u32 list"
  assumes "sorted_wrt (<) l"
  shows "remdups_adj (sort_key unat l) = l"
proof -
  have "sorted_wrt (\<lambda>x y. unat x \<le> unat y) l"
    by (rule sorted_wrt_mono_rel [OF _ assms]) (simp add: word_less_nat_alt)
  then have "sorted (map unat l)" by (simp add: sorted_wrt_map)
  then have "sort_key unat l = l" by (rule sort_key_id_if_sorted)
  moreover have "distinct l" using assms by (simp add: strict_sorted_iff)
  ultimately show ?thesis by (simp add: remdups_adj_distinct)
qed

lemma neighbours_nth:
  "i < length l - 1 \<Longrightarrow> map2 (\<lambda>b a. b - a) (tl l) (butlast l) ! i = l ! Suc i - (l ! i :: u32)"
  by (simp add: nth_tl nth_butlast)

lemma gap_free:
  fixes l :: "u32 list"
  assumes sorted: "sorted_wrt (<) l" and i: "Suc i < length l" and gap: "l ! Suc i - l ! i \<noteq> 1"
  shows "l ! i + 1 \<notin> set l" and "l ! i + 1 \<noteq> 0"
proof -
  have mono: "l ! a \<le> l ! b" if "a \<le> b" "b < length l" for a b
    using sorted that by (simp add: strict_sorted_iff sorted_nth_mono)
  have lt: "l ! i < l ! Suc i" using sorted i by (simp add: sorted_wrt_nth_less)
  then have up: "l ! i < l ! i + 1" and le: "l ! i + 1 \<le> l ! Suc i" by (unat_arith+)
  moreover have "l ! i + 1 \<noteq> l ! Suc i" using gap by (metis add_diff_cancel_left')
  ultimately have "l ! i + 1 < l ! Suc i" by simp
  show "l ! i + 1 \<noteq> 0" using up by auto
  show "l ! i + 1 \<notin> set l"
  proof
    assume "l ! i + 1 \<in> set l"
    then obtain j where j: "j < length l" "l ! j = l ! i + 1" by (auto simp: in_set_conv_nth)
    then consider "j \<le> i" | "Suc i \<le> j" by linarith
    then show False
    proof cases
      case 1
      then have "l ! j \<le> l ! i" using mono i by simp
      with up j(2) show False by simp
    next
      case 2
      then have "l ! Suc i \<le> l ! j" using mono j(1) by simp
      with \<open>l ! i + 1 < l ! Suc i\<close> j(2) show False by simp
    qed
  qed
qed

lemma fold_min_max:
  fixes l :: "u32 list"
  assumes "l \<noteq> []"
  shows "fold min (tl l) (hd l) = Min (set l)" and "fold max (tl l) (hd l) = Max (set l)"
  using assms Min.set_eq_fold [of "hd l" "tl l"] Max.set_eq_fold [of "hd l" "tl l"] by simp_all

text \<open>
  \<open>getFreeIdx\<close> on a strictly increasing list, as the keys of a \<open>std::map\<close> are, returns a valid
  index that the list does not use, unless the largest index is the largest unsigned value.
\<close>

theorem getFreeIdx_sorted_free:
  assumes sorted: "sorted_wrt (<) l" and top: "- 1 \<notin> set l"
  shows "getFreeIdx l \<notin> set l \<and> getFreeIdx l \<noteq> 0"
proof (cases "l = []")
  case True
  then show ?thesis by (simp add: getFreeIdx_def)
next
  case False
  let ?diffs = "map2 (\<lambda>b a. b - a) (tl l) (butlast l)"
  show ?thesis
  proof (cases "find_index (\<lambda>el. el \<noteq> 1) ?diffs")
    case None
    have r: "getFreeIdx l = (if Min (set l) > 1 then Min (set l) - 1 else Max (set l) + 1)"
      using False None by (simp add: getFreeIdx_def strict_sorted_sort_key [OF sorted] fold_min_max Let_def)
    have "Min (set l) \<le> i \<and> i \<le> Max (set l)" if "i \<in> set l" for i using that by simp
    moreover have "Max (set l) \<noteq> - 1" using top False by (metis List.finite_set Max_in set_empty)
    then have "Max (set l) < - 1" by (simp add: word_order.not_eq_extremum)
    then have "Max (set l) < Max (set l) + 1" by unat_arith
    moreover have "Min (set l) > 1 \<Longrightarrow> Min (set l) - 1 < Min (set l) \<and> Min (set l) - 1 \<noteq> 0"
      by (simp add: word_less_nat_alt) unat_arith
    ultimately show ?thesis unfolding r by (auto simp: not_less [symmetric])
  next
    case (Some i)
    from find_index_SomeD [OF Some] have i: "i < length l - 1" "?diffs ! i \<noteq> 1" by auto
    then have "l ! Suc i - l ! i \<noteq> 1" using neighbours_nth by metis
    with gap_free [OF sorted, of i] i(1) have "l ! i + 1 \<notin> set l" "l ! i + 1 \<noteq> 0" by auto
    with False Some show ?thesis
      by (simp add: getFreeIdx_def strict_sorted_sort_key [OF sorted] Let_def)
  qed
qed

theorem getFreeIdx_sorted_free_witness: "getFreeIdx [1, 2, 5, 6] \<notin> set [1, 2, 5, 6] \<and> getFreeIdx [1, 2, 5, 6] \<noteq> 0"
  by (rule getFreeIdx_sorted_free) simp_all

text \<open>
  The start of the gap is read from the unsorted argument, so on a list out of order the index
  returned may be in use.
\<close>

theorem getFreeIdx_unsorted_taken: "getFreeIdx [3, 1, 4] = 4 \<and> getFreeIdx [3, 1, 4] \<in> set [3, 1, 4]"
  by (simp add: getFreeIdx_def sort_key_def insort_key.simps)

section \<open>The interface of a capability store\<close>

text \<open>
  What the callers of the graph rely on when they add capabilities: an addition succeeds exactly
  when the index is unused, a refused one leaves the store alone, an accepted one adds one index.
\<close>

locale index_store =
  fixes add :: "'s \<Rightarrow> u32 \<Rightarrow> 'v \<Rightarrow> 's \<times> bool" and indexes :: "'s \<Rightarrow> u32 list" and wf :: "'s \<Rightarrow> bool"
  assumes add_used: "i \<in> set (indexes s) \<Longrightarrow> add s i v = (s, False)"
    and add_fresh: "wf s \<Longrightarrow> i \<notin> set (indexes s) \<Longrightarrow>
      snd (add s i v) \<and> wf (fst (add s i v)) \<and> mset (indexes (fst (add s i v))) = add_mset i (mset (indexes s))"
begin

lemma add_distinct:
  assumes "wf s" and "distinct (indexes s)"
  shows "wf (fst (add s i v)) \<and> distinct (indexes (fst (add s i v))) \<and>
    set (indexes (fst (add s i v))) = insert i (set (indexes s))"
proof (cases "i \<in> set (indexes s)")
  case True
  then show ?thesis using assms add_used [OF True] by auto
next
  case False
  have m: "mset (indexes (fst (add s i v))) = mset (i # indexes s)" using add_fresh [OF assms(1) False] by simp
  from assms(2) False have "distinct (i # indexes s)" by simp
  then have "distinct (indexes (fst (add s i v)))" using m by (metis distinct_count_atmost_1 mset_eq_setD)
  moreover have "set (indexes (fst (add s i v))) = insert i (set (indexes s))" using mset_eq_setD [OF m] by simp
  ultimately show ?thesis using add_fresh [OF assms(1) False] by simp
qed

lemma adds_distinct:
  assumes "wf s" and "distinct (indexes s)"
  shows "distinct (indexes (foldl (\<lambda>s (i, v). fst (add s i v)) s ops)) \<and>
    set (indexes (foldl (\<lambda>s (i, v). fst (add s i v)) s ops)) = set (indexes s) \<union> fst ` set ops"
  using assms
proof (induction ops arbitrary: s)
  case (Cons x ops)
  obtain i v where x: "x = (i, v)" by fastforce
  have s': "wf (fst (add s i v))" "distinct (indexes (fst (add s i v)))"
    "set (indexes (fst (add s i v))) = insert i (set (indexes s))"
    using add_distinct [OF Cons.prems] by auto
  from Cons.IH [OF s'(1,2)] s'(3) show ?case by (auto simp: x)
qed simp

end

text \<open>Global and per-stream additions share one index space; \<open>None\<close> is the session level.\<close>

definition addAcap :: "PotentialCfgGraph \<Rightarrow> u32 \<Rightarrow> u32 option \<times> string \<times> string \<Rightarrow> PotentialCfgGraph \<times> bool" where
  "addAcap g i v = (case v of
       (None, name, value) \<Rightarrow> addGlobalAcap g i name value
     | (Some streamIdx, name, value) \<Rightarrow> addAcapToStream g streamIdx i name value)"

definition addTcap :: "PotentialCfgGraph \<Rightarrow> u32 \<Rightarrow> u32 option \<times> string \<Rightarrow> PotentialCfgGraph \<times> bool" where
  "addTcap g i v = (case v of
       (None, value) \<Rightarrow> addGlobalTcap g i value
     | (Some streamIdx, value) \<Rightarrow> addTcapToStream g streamIdx i value)"

definition graph_wf :: "PotentialCfgGraph \<Rightarrow> bool" where
  "graph_wf g \<longleftrightarrow> map_wf unat (g_acap g) \<and> map_wf unat (g_tcap g)"

lemma has_cap_index_iff: "has_cap_index i l \<longleftrightarrow> i \<in> cap_index ` set l"
  by (auto simp: has_cap_index_def find_index_None)

lemma found_fold: "foldl (\<lambda>found (_, l). found \<or> P l) b m \<longleftrightarrow> b \<or> (\<exists>x \<in> set m. P (snd x))"
  by (induction m arbitrary: b) (auto split: prod.splits)

lemma mem_stream_indexes:
  "i \<in> set (concat (map (\<lambda>(_, l). map cap_index l) m)) \<longleftrightarrow> (\<exists>x \<in> set m. i \<in> cap_index ` set (snd x))"
  by (induction m) auto

lemma canFindAcap_iff: "canFindAcapWithIdx g i \<longleftrightarrow> i \<in> set (acapIndexes g)"
  unfolding canFindAcapWithIdx_def acapIndexes_def Let_def found_fold has_cap_index_iff set_append Un_iff
    mem_stream_indexes by auto

lemma canFindTcap_iff: "canFindTcapWithIdx g i \<longleftrightarrow> i \<in> set (tcapIndexes g)"
  unfolding canFindTcapWithIdx_def tcapIndexes_def Let_def found_fold has_cap_index_iff set_append Un_iff
    mem_stream_indexes by auto

text \<open>Appending one capability to the list of a stream adds one index to the map's indexes.\<close>

lemma map_set_append_mset:
  fixes m :: "(u32, 'a capability_scheme list) stdmap"
  assumes "map_wf unat m"
  shows "mset (concat (map (\<lambda>(_, l). map cap_index l)
      (map_set unat k ((case map_of m k of Some c \<Rightarrow> c | None \<Rightarrow> []) @ [cap]) m))) =
    add_mset (cap_index cap) (mset (concat (map (\<lambda>(_, l). map cap_index l) m)))"
  using assms
proof (induction m)
  case (Cons x m)
  obtain a b where x: "x = (a, b)" by fastforce
  show ?case
  proof (cases "unat k < unat a")
    case True
    then have "\<forall>y \<in> set m. fst y \<noteq> k" using Cons.prems x by auto
    then have "map_of m k = None" by (auto simp: map_of_eq_None_iff)
    with True x show ?thesis by auto
  next
    case False
    with Cons x show ?thesis by (auto simp: word_unat_eq_iff)
  qed
qed simp

interpretation acap_store: index_store addAcap acapIndexes graph_wf
proof
  show "addAcap g i v = (g, False)" if "i \<in> set (acapIndexes g)" for g i v
    using that by (auto simp: addAcap_def addGlobalAcap_def addAcapToStream_def canFindAcap_iff split: prod.splits option.splits)
  show "snd (addAcap g i v) \<and> graph_wf (fst (addAcap g i v)) \<and>
      mset (acapIndexes (fst (addAcap g i v))) = add_mset i (mset (acapIndexes g))"
    if "graph_wf g" "i \<notin> set (acapIndexes g)" for g i v
  proof -
    obtain s n x where v: "v = (s, n, x)" by (cases v) auto
    show ?thesis
    proof (cases s)
      case None
      with that v show ?thesis
        by (simp add: addAcap_def addGlobalAcap_def canFindAcap_iff graph_wf_def) (simp add: acapIndexes_def)
    next
      case (Some st)
      have "map_wf unat (g_acap g)" using that by (simp add: graph_wf_def)
      with map_set_append_mset [OF this, of st "\<lparr>cap_index = i, cap_value = x, cap_type = ATTRIBUTE, cap_name = n\<rparr>"]
        that v Some show ?thesis
        by (simp add: addAcap_def addAcapToStream_def canFindAcap_iff graph_wf_def getMediaAcapForStream_def)
          (simp add: acapIndexes_def)
    qed
  qed
qed

interpretation tcap_store: index_store addTcap tcapIndexes graph_wf
proof
  show "addTcap g i v = (g, False)" if "i \<in> set (tcapIndexes g)" for g i v
    using that by (auto simp: addTcap_def addGlobalTcap_def addTcapToStream_def canFindTcap_iff split: prod.splits option.splits)
  show "snd (addTcap g i v) \<and> graph_wf (fst (addTcap g i v)) \<and>
      mset (tcapIndexes (fst (addTcap g i v))) = add_mset i (mset (tcapIndexes g))"
    if "graph_wf g" "i \<notin> set (tcapIndexes g)" for g i v
  proof -
    obtain s x where v: "v = (s, x)" by (cases v) auto
    show ?thesis
    proof (cases s)
      case None
      with that v show ?thesis
        by (simp add: addTcap_def addGlobalTcap_def canFindTcap_iff graph_wf_def) (simp add: tcapIndexes_def)
    next
      case (Some st)
      have "map_wf unat (g_tcap g)" using that by (simp add: graph_wf_def)
      with map_set_append_mset [OF this, of st "\<lparr>cap_index = i, cap_value = x, cap_type = TRANSPORT_PROTOCOL\<rparr>"]
        that v Some show ?thesis
        by (simp add: addTcap_def addTcapToStream_def canFindTcap_iff graph_wf_def getMediaTcapForStream_def)
          (simp add: tcapIndexes_def)
    qed
  qed
qed

text \<open>
  C35: Capability indexes stay unique.  After any sequence of session-level and stream-level additions
  to an empty graph, no two attribute capabilities share an index (nor two transport
  capabilities), and the indexes in use are exactly those that were passed.
\<close>

theorem capability_indexes_unique:
  "distinct (acapIndexes (foldl (\<lambda>g (i, v). fst (addAcap g i v)) empty_graph ops)) \<and>
   set (acapIndexes (foldl (\<lambda>g (i, v). fst (addAcap g i v)) empty_graph ops)) = fst ` set ops \<and>
   distinct (tcapIndexes (foldl (\<lambda>g (i, v). fst (addTcap g i v)) empty_graph tops)) \<and>
   set (tcapIndexes (foldl (\<lambda>g (i, v). fst (addTcap g i v)) empty_graph tops)) = fst ` set tops"
proof -
  have "graph_wf empty_graph" "acapIndexes empty_graph = []" "tcapIndexes empty_graph = []"
    by (simp_all add: graph_wf_def empty_graph_def acapIndexes_def tcapIndexes_def)
  with acap_store.adds_distinct [of empty_graph ops] tcap_store.adds_distinct [of empty_graph tops]
  show ?thesis by simp
qed

text \<open>
  A graph built with the class's own operations on which the next free attribute index is an index in
  use, so that the following addition is refused.
\<close>

theorem getFreeAcapIdx_can_be_taken:
  "let g = fst (addAcapToStream (fst (addGlobalAcap (fst (addGlobalAcap empty_graph 3 ''n'' ''v'')) 1 ''n'' ''v'')) 0 4 ''n'' ''v'')
   in getFreeAcapIdx g = 4 \<and> canFindAcapWithIdx g (getFreeAcapIdx g) \<and>
      addGlobalAcap g (getFreeAcapIdx g) ''m'' ''w'' = (g, False)"
  by (simp add: addGlobalAcap_def addAcapToStream_def canFindAcap_iff getFreeAcapIdx_def acapIndexes_def empty_graph_def
      getMediaAcapForStream_def getFreeIdx_def sort_key_def insort_key.simps Let_def)

section \<open>Parsed configurations refer to available capabilities\<close>

text \<open>The configuration's capabilities are among the given ones.\<close>

definition caps_from :: "acapability list \<Rightarrow> capability list \<Rightarrow> config_attribute \<Rightarrow> bool" where
  "caps_from A T a \<longleftrightarrow>
     (\<forall>l \<in> set (ca_acap a). \<forall>c \<in> set l. cc_cap c \<in> set A) \<and> (\<forall>c \<in> set (ca_tcap a). cc_cap c \<in> set T)"

lemma parse_caps_available:
  "parse_caps avail ids caps m s = Inr (caps', m', s') \<Longrightarrow> \<forall>c \<in> set caps. cc_cap c \<in> set avail \<Longrightarrow>
   \<forall>c \<in> set caps'. cc_cap c \<in> set avail"
proof (induction ids arbitrary: caps m s)
  case (Cons i ids)
  from Cons.prems(1) obtain idx where idx: "getElementIdx i = Inr idx"
    by (auto simp: Let_def bindR_eq_Inr)
  show ?case
  proof (cases "find (\<lambda>cap. cap_index cap = idx) avail")
    case None
    with Cons.prems(1) idx show ?thesis by (auto simp: Let_def)
  next
    case (Some cap)
    then have "cap \<in> set avail" by (metis find_Some_iff nth_mem)
    with Cons.prems(2) have "\<forall>c \<in> set (caps @ [\<lparr>cc_cap = cap, cc_mandatory = b\<rparr>]). cc_cap c \<in> set avail" for b
      by auto
    moreover from Cons.prems(1) Some idx obtain b m1 where
      "parse_caps avail ids (caps @ [\<lparr>cc_cap = cap, cc_mandatory = b\<rparr>]) m1 s = Inr (caps', m', s')"
      by (auto simp: Let_def)
    ultimately show ?thesis using Cons.IH by metis
  qed
qed simp

lemma parseIdxList_available:
  assumes "parseIdxList split idxList avail = Inr (capList, success)"
  shows "\<forall>l \<in> set capList. \<forall>c \<in> set l. cc_cap c \<in> set avail"
proof -
  let ?f = "\<lambda>(capList, mandatory, success) config.
         bindR (parse_caps avail (split config (CHR '','')) [] mandatory success) (\<lambda>(caps, m, s).
           Inr (if caps \<noteq> [] then capList @ [caps] else capList, m, s))"
  let ?I = "\<lambda>(cl, m, s). \<forall>l \<in> set cl. \<forall>c \<in> set l. cc_cap c \<in> set avail"
  obtain m where f: "foldR ?f ([], True, True) (split idxList (CHR ''|'')) = Inr (capList, m, success)"
    using assms by (auto simp: parseIdxList_def bindR_eq_Inr)
  have "?I (capList, m, success)"
  proof (rule foldR_invariant [OF f])
    show "?I t'" if I: "?I t" and t: "?f t x = Inr t'" for t x t'
    proof -
      obtain cl m0 s0 where T: "t = (cl, m0, s0)" by (cases t) auto
      with t obtain caps m1 s1 where p: "parse_caps avail (split x (CHR '','')) [] m0 s0 = Inr (caps, m1, s1)"
        and t': "t' = (if caps \<noteq> [] then cl @ [caps] else cl, m1, s1)"
        by (auto simp: bindR_eq_Inr)
      have "\<forall>c \<in> set caps. cc_cap c \<in> set avail" by (rule parse_caps_available [OF p]) simp
      with I T t' show ?thesis by auto
    qed
  qed simp
  then show ?thesis by simp
qed

lemma collect_tcaps_subset: "c \<in> set (collect_tcaps parsed) \<Longrightarrow> \<exists>l \<in> set parsed. c \<in> set l"
  by (auto simp: collect_tcaps_def dest!: in_set_takeD split: if_splits)

definition state_from :: "acapability list \<Rightarrow> capability list \<Rightarrow> config_state \<Rightarrow> bool" where
  "state_from A T st \<longleftrightarrow>
     (\<forall>l \<in> set (cs_acaps st). \<forall>c \<in> set l. cc_cap c \<in> set A) \<and> (\<forall>c \<in> set (cs_tcaps st). cc_cap c \<in> set T)"

lemma processConfig_step_from:
  assumes "processConfig_step split A T st ct body = Inr st'" and "state_from A T st"
  shows "state_from A T st'"
proof -
  let ?ids = "last (split body (CHR '':''))"
  have a: "\<forall>l \<in> set p. \<forall>c \<in> set l. cc_cap c \<in> set A" if "parseIdxList split ?ids A = Inr (p, b)" for p b
    by (rule parseIdxList_available [OF that])
  have t: "\<forall>c \<in> set (collect_tcaps p). cc_cap c \<in> set T" if "parseIdxList split ?ids T = Inr (p, b)" for p b
    using parseIdxList_available [OF that] collect_tcaps_subset by blast
  show ?thesis
    using assms a t
    by (auto simp: processConfig_step_def Let_def state_from_def bindR_eq_Inr split: if_splits)
qed

lemma processConfig_loop_from:
  "processConfig_loop split A T cfgs st = Inr (Some st') \<Longrightarrow> state_from A T st \<Longrightarrow> state_from A T st'"
proof (induction cfgs arbitrary: st)
  case (Cons c cfgs)
  then show ?case
    by (auto simp: Let_def bindR_eq_Inr split: if_splits intro: processConfig_step_from)
qed simp

lemma processConfig_from:
  assumes "processConfig split cfgs A T = Inr a"
  shows "caps_from A T a"
proof -
  let ?st0 = "\<lparr>cs_delete_media = False, cs_delete_session = False, cs_acaps = [], cs_tcaps = [],
               cs_acapError = False, cs_tcapError = False\<rparr>"
  obtain r where r: "processConfig_loop split A T cfgs ?st0 = Inr r"
    using assms by (auto simp: processConfig_def bindR_eq_Inr)
  show ?thesis
  proof (cases r)
    case None
    with assms r show ?thesis by (auto simp: processConfig_def caps_from_def empty_config_def)
  next
    case (Some st)
    have "state_from A T st"
      using processConfig_loop_from r Some by (auto simp: state_from_def)
    with assms r Some show ?thesis
      by (auto simp: processConfig_def caps_from_def empty_config_def state_from_def split: if_splits)
  qed
qed

lemma set_map_set_subset: "set (map_set rank k v m) \<subseteq> insert (k, v) (insert (k, v) (set m)) \<union> {(a, v) | a. rank a = rank k}"
proof (induction m)
  case (Cons x m)
  then show ?case by (cases x) auto
qed simp

lemma set_map_set_u32: "set (map_set unat (k :: u32) v m) \<subseteq> insert (k, v) (set m)"
  using set_map_set_subset [of unat k v m] by (auto simp: word_unat_eq_iff)

text \<open>The invariant of a graph built from a session description.\<close>

definition caps_available :: "PotentialCfgGraph \<Rightarrow> bool" where
  "caps_available g \<longleftrightarrow> (\<forall>x \<in> set (g_cfgs g). \<forall>y \<in> set (snd x).
     caps_from (getAllAcapForStream g (fst x)) (getAllTcapForStream g (fst x)) (snd y))"

lemma processMediaCfgAttrs_available:
  assumes "processMediaCfgAttrs split idx attrs g = Inr (g', found)"
  shows "globalAcap g' = globalAcap g \<and> globalTcap g' = globalTcap g \<and> g_acap g' = g_acap g \<and> g_tcap g' = g_tcap g \<and>
    (\<forall>x \<in> set (g_cfgs g'). x \<in> set (g_cfgs g) \<or> fst x = idx \<and>
      (\<forall>y \<in> set (snd x). caps_from (getAllAcapForStream g idx) (getAllTcapForStream g idx) (snd y)))"
proof -
  let ?A = "getAllAcapForStream g idx" and ?T = "getAllTcapForStream g idx"
  let ?f = "\<lambda>(config, unparsed) a. let i = word_of_int (ga_id a) in
           bindR (processConfig split (ga_configs a) ?A ?T) (\<lambda>attr_configs.
             Inr (if ca_acap attr_configs = [] \<and> ca_tcap attr_configs = []
                  then (config, map_set unat i (ga_string a) unparsed)
                  else (map_set unat i attr_configs config, unparsed)))"
  let ?I = "\<lambda>(config, unparsed :: (u32, string) stdmap). \<forall>(i, a) \<in> set config. caps_from ?A ?T a"
  obtain config unparsed where f: "foldR ?f ([], []) attrs = Inr (config, unparsed)"
    and g': "g' = (let g1 = (if config \<noteq> [] then g\<lparr>g_cfgs := map_set unat idx config (g_cfgs g)\<rparr> else g)
       in g1\<lparr>g_unparsed_cfgs := map_set unat idx
              (map_overwrite_range unat unparsed (getUnparsedCfgForStream g1 idx)) (g_unparsed_cfgs g1)\<rparr>)"
    using assms by (auto simp: processMediaCfgAttrs_def Let_def bindR_eq_Inr)
  have "?I (config, unparsed)"
  proof (rule foldR_invariant [OF f])
    show "?I t'" if I: "?I t" and t: "?f t x = Inr t'" for t x t'
    proof -
      obtain cf un where T: "t = (cf, un)" by (cases t) auto
      with t obtain a where a: "processConfig split (ga_configs x) ?A ?T = Inr a"
        and t': "fst t' = cf \<or> fst t' = map_set unat (word_of_int (ga_id x)) a cf"
        by (auto simp: bindR_eq_Inr Let_def split: if_splits)
      from processConfig_from [OF a] I T t' set_map_set_u32 [of "word_of_int (ga_id x)" a cf]
      show ?thesis by (cases t') auto
    qed
  qed simp
  then have "\<forall>y \<in> set config. caps_from ?A ?T (snd y)" by auto
  moreover have "g_cfgs g' = g_cfgs g \<or> g_cfgs g' = map_set unat idx config (g_cfgs g)"
    unfolding g' by (simp add: Let_def)
  then have "\<forall>x \<in> set (g_cfgs g'). x \<in> set (g_cfgs g) \<or> x = (idx, config)"
    using set_map_set_u32 [of idx config "g_cfgs g"] by auto
  ultimately have "\<forall>x \<in> set (g_cfgs g'). x \<in> set (g_cfgs g) \<or> fst x = idx \<and> (\<forall>y \<in> set (snd x). caps_from ?A ?T (snd y))"
    by (metis fst_conv snd_conv)
  then show ?thesis unfolding g' by (simp add: Let_def)
qed

lemma processMediaDescription_available:
  assumes p: "processMediaDescription split g idx media = Inr g'"
    and inv: "caps_available g" and fresh: "idx \<notin> fst ` set (g_cfgs g)"
    and wf: "map_wf unat (g_acap g)" "map_wf unat (g_tcap g)"
  shows "caps_available g' \<and> fst ` set (g_cfgs g') \<subseteq> insert idx (fst ` set (g_cfgs g)) \<and>
    map_wf unat (g_acap g') \<and> map_wf unat (g_tcap g')"
proof -
  define g2 where "g2 = (let mediaAcap = createACapabilitiesList (mc_acap media) ATTRIBUTE;
          g1 = (if mediaAcap \<noteq> [] then g\<lparr>g_acap := map_set unat idx mediaAcap (g_acap g)\<rparr> else g);
          mediaTcap = createTCapabilitiesList (mc_tcap media) TRANSPORT_PROTOCOL
      in (if mediaTcap \<noteq> [] then g1\<lparr>g_tcap := map_set unat idx mediaTcap (g_tcap g1)\<rparr> else g1))"
  have g2: "g_cfgs g2 = g_cfgs g" "map_wf unat (g_acap g2)" "map_wf unat (g_tcap g2)"
    using wf by (auto simp: g2_def Let_def)
  have same: "getAllAcapForStream g2 j = getAllAcapForStream g j" "getAllTcapForStream g2 j = getAllTcapForStream g j"
    if "j \<noteq> idx" for j
    using that wf by (auto simp: g2_def Let_def getAllAcapForStream_def getAllTcapForStream_def
        getMediaAcapForStream_def getMediaTcapForStream_def u32_map.map_of_map_set)
  obtain g3 b3 b4 where p3: "processMediaCfgAttrs split idx (mc_acfg media) g2 = Inr (g3, b3)"
    and p4: "processMediaCfgAttrs split idx (mc_pcfg media) g3 = Inr (g', b4)"
    using p by (auto simp: processMediaDescription_def processMediaCfg_def g2_def Let_def bindR_eq_Inr)
  note a3 = processMediaCfgAttrs_available [OF p3] and a4 = processMediaCfgAttrs_available [OF p4]
  have caps: "getAllAcapForStream g' = getAllAcapForStream g2" "getAllTcapForStream g' = getAllTcapForStream g2"
    "getAllAcapForStream g3 = getAllAcapForStream g2" "getAllTcapForStream g3 = getAllTcapForStream g2"
    using a3 a4 by (simp_all add: fun_eq_iff getAllAcapForStream_def getAllTcapForStream_def
        getMediaAcapForStream_def getMediaTcapForStream_def)
  have new: "\<forall>x \<in> set (g_cfgs g'). x \<in> set (g_cfgs g) \<or>
      fst x = idx \<and> (\<forall>y \<in> set (snd x). caps_from (getAllAcapForStream g2 idx) (getAllTcapForStream g2 idx) (snd y))"
    using a3 a4 unfolding caps g2(1) by blast
  have "caps_available g'"
    unfolding caps_available_def caps
  proof (intro ballI)
    fix x y assume x: "x \<in> set (g_cfgs g')" and y: "y \<in> set (snd x)"
    show "caps_from (getAllAcapForStream g2 (fst x)) (getAllTcapForStream g2 (fst x)) (snd y)"
    proof (cases "x \<in> set (g_cfgs g)")
      case True
      then have "fst x \<noteq> idx" using fresh by force
      moreover have "caps_from (getAllAcapForStream g (fst x)) (getAllTcapForStream g (fst x)) (snd y)"
        using inv True y unfolding caps_available_def by blast
      ultimately show ?thesis by (simp add: same)
    next
      case False
      with new x y show ?thesis by auto
    qed
  qed
  moreover have "fst ` set (g_cfgs g') \<subseteq> insert idx (fst ` set (g_cfgs g))" using new by auto
  ultimately show ?thesis using a3 a4 g2 by simp
qed

lemma processMedia_loop_available:
  assumes "foldR (\<lambda>g (mediaIdx, media). processMediaDescription split g (word_of_nat mediaIdx) media)
      g (List.enumerate n ms) = Inr g'"
    and "caps_available g" and "fst ` set (g_cfgs g) \<subseteq> word_of_nat ` {..<n}" and "n + length ms \<le> 2 ^ 32"
    and "map_wf unat (g_acap g)" and "map_wf unat (g_tcap g)"
  shows "caps_available g'"
  using assms
proof (induction ms arbitrary: n g)
  case (Cons m ms)
  from Cons.prems(1) obtain g1 where g1: "processMediaDescription split g (word_of_nat n) m = Inr g1"
    and rest: "foldR (\<lambda>g (mediaIdx, media). processMediaDescription split g (word_of_nat mediaIdx) media)
      g1 (List.enumerate (Suc n) ms) = Inr g'"
    by (auto simp: bindR_eq_Inr)
  have n: "n < 2 ^ 32" using Cons.prems(4) by simp
  have "(word_of_nat n :: u32) \<notin> word_of_nat ` {..<n}"
  proof
    assume "(word_of_nat n :: u32) \<in> word_of_nat ` {..<n}"
    then obtain k where "k < n" "(word_of_nat n :: u32) = word_of_nat k" by auto
    with n show False by (simp add: word_of_nat_eq_iff take_bit_nat_eq_self)
  qed
  with Cons.prems(3) have "(word_of_nat n :: u32) \<notin> fst ` set (g_cfgs g)" by blast
  from processMediaDescription_available [OF g1 Cons.prems(2) this Cons.prems(5,6)]
  have g1': "caps_available g1" "fst ` set (g_cfgs g1) \<subseteq> insert (word_of_nat n) (fst ` set (g_cfgs g))"
    "map_wf unat (g_acap g1)" "map_wf unat (g_tcap g1)" by auto
  have "fst ` set (g_cfgs g1) \<subseteq> word_of_nat ` {..<Suc n}"
    using g1'(2) Cons.prems(3) by (auto simp: lessThan_Suc)
  with Cons.IH [OF rest g1'(1)] g1' Cons.prems(4) show ?case by simp
qed simp

text \<open>
  C34: The graph of a session description is consistent: every capability a potential or actual
  configuration of a stream refers to is one that the session or that stream declares, whatever the
  configuration strings hold.
\<close>

theorem processSessionDescription_caps_available:
  assumes "processSessionDescription split empty_graph session = Inr g" and "length (sc_media session) \<le> 2 ^ 32"
  shows "caps_available g"
  by (rule processMedia_loop_available [OF assms(1) [unfolded processSessionDescription_def Let_def]])
    (use assms(2) in \<open>simp_all add: caps_available_def empty_graph_def\<close>)

text \<open>A splitter for the examples: the pieces between the delimiters.\<close>

primrec split_on :: "string \<Rightarrow> char \<Rightarrow> string list" where
  "split_on [] d = [[]]"
| "split_on (c # cs) d = (if c = d then [] # split_on cs d
     else (case split_on cs d of [] \<Rightarrow> [[c]] | w # ws \<Rightarrow> (c # w) # ws))"

definition sample_session :: session_caps where
  "sample_session = \<lparr>sc_acap = [\<lparr>aa_id = 1, aa_name = ''setup'', aa_value = Some ''active''\<rparr>],
     sc_tcap = [\<lparr>ta_id = 1, ta_protos = [''RTP/SAVP'', ''RTP/SAVPF'']\<rparr>],
     sc_media = [\<lparr>mc_acap = [], mc_tcap = [], mc_acfg = [],
       mc_pcfg = [\<lparr>ga_id = 1, ga_configs = [''a=1'', ''t=2''], ga_string = ''pcfg:1 a=1 t=2''\<rparr>]\<rparr>]\<rparr>"

theorem processSessionDescription_caps_available_witness:
  "\<exists>g a. processSessionDescription split_on empty_graph sample_session = Inr g \<and>
     g_cfgs g = [(0, [(1, a)])] \<and> length (ca_acap a) = 1 \<and> length (ca_tcap a) = 1 \<and> caps_available g"
proof -
  obtain g a where g: "processSessionDescription split_on empty_graph sample_session = Inr g"
    "g_cfgs g = [(0, [(1, a)])]" "length (ca_acap a) = 1" "length (ca_tcap a) = 1"
    by (simp add: processSessionDescription_def sample_session_def processMediaDescription_def processMediaCfg_def
        processMediaCfgAttrs_def processConfig_def processConfig_step_def capabilityTypeFromAttrParam_def
        parseIdxList_def getElementIdx_def is_digit_c_def digits_value_def digit_value_def createACapabilitiesList_def
        createTCapabilitiesList_def getAllAcapForStream_def getAllTcapForStream_def getMediaAcapForStream_def
        getMediaTcapForStream_def empty_graph_def collect_tcaps_def map_overwrite_range_def
        getUnparsedCfgForStream_def Let_def)
  with processSessionDescription_caps_available [OF g(1)] show ?thesis by (auto simp: sample_session_def)
qed

text \<open>
  After an unavailable optional capability the parser leaves its loop without closing the option:
  the next set, which is mandatory, is recorded as optional.
\<close>

theorem parseIdxList_mandatory_leak:
  assumes "cap_index cap = 1"
  shows "parseIdxList split_on ''[9]|1'' [cap] = Inr ([[\<lparr>cc_cap = cap, cc_mandatory = False\<rparr>]], False) \<and>
    parseIdxList split_on ''1'' [cap] = Inr ([[\<lparr>cc_cap = cap, cc_mandatory = True\<rparr>]], True)"
  using assms by (simp add: parseIdxList_def getElementIdx_def is_digit_c_def digits_value_def digit_value_def Let_def)

theorem parseIdxList_mandatory_leak_witness:
  "parseIdxList split_on ''[9]|1'' [\<lparr>cap_index = 1, cap_value = ''RTP/SAVP'', cap_type = TRANSPORT_PROTOCOL\<rparr>] =
     Inr ([[\<lparr>cc_cap = \<lparr>cap_index = 1, cap_value = ''RTP/SAVP'', cap_type = TRANSPORT_PROTOCOL\<rparr>, cc_mandatory = False\<rparr>]], False)"
  by (rule conjunct1, rule parseIdxList_mandatory_leak) simp

end
