(* ===== verification/Stream_Desc.thy ===== *)
theory Stream_Desc
  imports Stream_Bundle Potential_Cfg
begin

text \<open>
  \<open>SalStreamDescription\<close> (\<open>src/sal/sal_stream_description.h\<close> and \<open>.cpp\<close>): one media line with its
  actual configuration (index 0), its potential configurations, and the index of the chosen
  one.  The configurations are a \<open>std::map\<close> ordered by \<open>SalConfigurationCmp\<close>, which puts the
  actual configuration last.  Copies of configurations are by value: \<open>cfg_copy\<close> and \<open>cfg_assign\<close>
  of the theory of configurations are the identity under the oRTP contract.  The custom
  attributes are a reference-counted handle that cloning shares.
\<close>

section \<open>Data\<close>

record SalIceCandidate =
  ice_addr :: string
  ice_raddr :: string
  ice_foundation :: string
  ice_type :: string
  ice_componentID :: u32
  ice_priority :: u32
  ice_port :: int
  ice_rport :: int

record SalIceRemoteCandidate =
  rem_addr :: string
  rem_port :: int

type_synonym acap_map = "(u32, string \<times> string) stdmap"
type_synonym tcap_map = "(u32, string) stdmap"

text \<open>\<open>SalConfigurationCmp\<close> compares the keys minus one, in unsigned arithmetic.\<close>

definition cfg_rank :: "u32 \<Rightarrow> nat" where
  "cfg_rank k = unat (k - 1)"

definition SalConfigurationCmp :: "u32 \<Rightarrow> u32 \<Rightarrow> bool" where
  "SalConfigurationCmp lhs rhs \<longleftrightarrow> lhs - 1 < rhs - 1"

type_synonym cfg_map = "(u32, cfg) stdmap"

record stream =
  s_name :: string
  s_type :: SalStreamType
  s_typeother :: string
  s_rtp_addr :: string
  s_rtcp_addr :: string
  s_rtp_port :: int
  s_rtcp_port :: int
  s_already_assigned_payloads :: payloads
  s_bandwidth :: int
  s_multicast_role :: SalMulticastRole
  s_custom_sdp_attributes :: "nat option"
  s_cfgIndex :: u32
  s_ice_candidates :: "SalIceCandidate list"
  s_ice_remote_candidates :: "SalIceRemoteCandidate list"
  s_ice_ufrag :: string
  s_ice_pwd :: string
  s_ice_mismatch :: bool
  s_label :: string
  s_content :: string
  s_cfgs :: cfg_map
  s_acaps :: acap_map
  s_tcaps :: tcap_map
  s_unparsed_cfgs :: "(u32, string) stdmap"
  s_supportedEncryption :: "LinphoneMediaEncryption list"

abbreviation actualConfigurationIndex :: u32 where
  "actualConfigurationIndex \<equiv> 0"

definition default_stream :: stream where
  "default_stream =
     \<lparr>s_name = '''', s_type = SalAudio, s_typeother = '''', s_rtp_addr = '''', s_rtcp_addr = '''', s_rtp_port = 0,
      s_rtcp_port = 0, s_already_assigned_payloads = [], s_bandwidth = 0,
      s_multicast_role = SalMulticastInactive, s_custom_sdp_attributes = None,
      s_cfgIndex = actualConfigurationIndex, s_ice_candidates = [], s_ice_remote_candidates = [],
      s_ice_ufrag = '''', s_ice_pwd = '''', s_ice_mismatch = False, s_label = '''', s_content = '''',
      s_cfgs = [], s_acaps = [], s_tcaps = [], s_unparsed_cfgs = [], s_supportedEncryption = []\<rparr>"

section \<open>Copying\<close>

text \<open>\<open>operator=\<close>: the configurations of the source are inserted or overwritten, none is removed.\<close>

definition stream_assign :: "ortp_api \<Rightarrow> stream \<Rightarrow> stream \<Rightarrow> stream" where
  "stream_assign api this other =
     this\<lparr>s_name := s_name other, s_type := s_type other, s_typeother := s_typeother other,
          s_rtp_addr := s_rtp_addr other, s_rtcp_addr := s_rtcp_addr other,
          s_rtp_port := s_rtp_port other, s_rtcp_port := s_rtcp_port other,
          s_acaps := s_acaps other, s_tcaps := s_tcaps other,
          s_cfgs := map_overwrite_range cfg_rank (s_cfgs this) (s_cfgs other),
          s_unparsed_cfgs := map_overwrite_range unat (s_unparsed_cfgs this) (s_unparsed_cfgs other),
          s_already_assigned_payloads := map (payload_type_clone api) (s_already_assigned_payloads other),
          s_bandwidth := s_bandwidth other, s_multicast_role := s_multicast_role other,
          s_ice_candidates := s_ice_candidates other,
          s_ice_remote_candidates := s_ice_remote_candidates other,
          s_ice_ufrag := s_ice_ufrag other, s_ice_pwd := s_ice_pwd other,
          s_ice_mismatch := s_ice_mismatch other,
          s_supportedEncryption := s_supportedEncryption other,
          s_custom_sdp_attributes := s_custom_sdp_attributes other,
          s_cfgIndex := s_cfgIndex other, s_label := s_label other, s_content := s_content other\<rparr>"

definition stream_copy :: "ortp_api \<Rightarrow> stream \<Rightarrow> stream" where
  "stream_copy api other =
     \<lparr>s_name = s_name other, s_type = s_type other, s_typeother = s_typeother other,
      s_rtp_addr = s_rtp_addr other, s_rtcp_addr = s_rtcp_addr other, s_rtp_port = s_rtp_port other,
      s_rtcp_port = s_rtcp_port other,
      s_already_assigned_payloads = map (payload_type_clone api) (s_already_assigned_payloads other),
      s_bandwidth = s_bandwidth other, s_multicast_role = s_multicast_role other,
      s_custom_sdp_attributes = s_custom_sdp_attributes other, s_cfgIndex = s_cfgIndex other,
      s_ice_candidates = s_ice_candidates other, s_ice_remote_candidates = s_ice_remote_candidates other,
      s_ice_ufrag = s_ice_ufrag other, s_ice_pwd = s_ice_pwd other, s_ice_mismatch = s_ice_mismatch other,
      s_label = s_label other, s_content = s_content other,
      s_cfgs = map_overwrite_range cfg_rank [] (s_cfgs other), s_acaps = s_acaps other,
      s_tcaps = s_tcaps other, s_unparsed_cfgs = map_overwrite_range unat [] (s_unparsed_cfgs other),
      s_supportedEncryption = s_supportedEncryption other\<rparr>"

section \<open>Access to the configurations\<close>

definition getConfigurationAtIndex :: "stream \<Rightarrow> u32 \<Rightarrow> cfg" where
  "getConfigurationAtIndex s index = (case map_of (s_cfgs s) index of Some c \<Rightarrow> c | None \<Rightarrow> default_cfg)"

definition hasConfigurationAtIndex :: "stream \<Rightarrow> u32 \<Rightarrow> bool" where
  "hasConfigurationAtIndex s index \<longleftrightarrow> map_of (s_cfgs s) index \<noteq> None"

definition getActualConfiguration :: "stream \<Rightarrow> cfg" where
  "getActualConfiguration s = getConfigurationAtIndex s actualConfigurationIndex"

definition getChosenConfiguration :: "stream \<Rightarrow> cfg" where
  "getChosenConfiguration s = getConfigurationAtIndex s (s_cfgIndex s)"

definition addConfigurationAtIndex :: "u32 \<Rightarrow> cfg \<Rightarrow> stream \<Rightarrow> stream" where
  "addConfigurationAtIndex idx c s = s\<lparr>s_cfgs := map_set cfg_rank idx c (s_cfgs s)\<rparr>"

definition addActualConfiguration :: "cfg \<Rightarrow> stream \<Rightarrow> stream" where
  "addActualConfiguration c s = addConfigurationAtIndex actualConfigurationIndex c s"

text \<open>\<open>cfgs[getChosenConfigurationIndex()]\<close> as an l-value: a missing configuration is created.\<close>

definition update_chosen :: "(cfg \<Rightarrow> cfg) \<Rightarrow> stream \<Rightarrow> stream" where
  "update_chosen f s = addConfigurationAtIndex (s_cfgIndex s) (f (getChosenConfiguration s)) s"

definition stream_getFreeCfgIdx :: "stream \<Rightarrow> u32" where
  "stream_getFreeCfgIdx s = getFreeIdx (map fst (s_cfgs s))"

section \<open>Queries and updates\<close>

definition getDirection :: "stream \<Rightarrow> SalStreamDir" where
  "getDirection s = cfg_dir (getChosenConfiguration s)"

definition isBundleOnly :: "stream \<Rightarrow> bool" where
  "isBundleOnly s = cfg_bundle_only (getChosenConfiguration s)"

definition enabled :: "stream \<Rightarrow> bool" where
  "enabled s \<longleftrightarrow> s_rtp_port s > 0 \<or> (isBundleOnly s \<and> getDirection s \<noteq> SalStreamInactive)"

definition stream_isAcceptable :: "stream \<Rightarrow> bool" where
  "stream_isAcceptable s \<longleftrightarrow> enabled s \<or> s_rtp_port s = 0"

definition stream_disable :: "stream \<Rightarrow> stream" where
  "stream_disable s = update_chosen cfg_disable (s\<lparr>s_rtp_port := 0\<rparr>)"

definition stream_hasAvpf :: "stream \<Rightarrow> bool" where
  "stream_hasAvpf s = cfg_hasAvpf (getChosenConfiguration s)"

definition stream_hasIpv6 :: "stream \<Rightarrow> bool" where
  "stream_hasIpv6 s \<longleftrightarrow> CHR '':'' \<in> set (s_rtp_addr s)"

definition stream_hasImplicitAvpf :: "stream \<Rightarrow> bool" where
  "stream_hasImplicitAvpf s = cfg_hasImplicitAvpf (getChosenConfiguration s)"

definition supportSrtp :: "stream \<Rightarrow> bool" where
  "supportSrtp s = list_ex (\<lambda>(_, c). cfg_hasSrtp c) (s_cfgs s)"

definition supportZrtp :: "stream \<Rightarrow> bool" where
  "supportZrtp s = list_ex (\<lambda>(_, c). cfg_hasZrtp c) (s_cfgs s)"

definition supportDtls :: "stream \<Rightarrow> bool" where
  "supportDtls s = list_ex (\<lambda>(_, c). cfg_hasDtls c) (s_cfgs s)"

definition stream_hasSrtp :: "stream \<Rightarrow> bool" where
  "stream_hasSrtp s = cfg_hasSrtp (getChosenConfiguration s)"

definition stream_hasDtls :: "stream \<Rightarrow> bool" where
  "stream_hasDtls s = cfg_hasDtls (getChosenConfiguration s)"

definition stream_hasZrtp :: "stream \<Rightarrow> bool" where
  "stream_hasZrtp s = cfg_hasZrtp (getChosenConfiguration s)"

definition stream_hasLimeIk :: "stream \<Rightarrow> bool" where
  "stream_hasLimeIk s = cfg_hasLimeIk (getChosenConfiguration s)"

definition getTypeAsString :: "stream \<Rightarrow> string" where
  "getTypeAsString s = (if s_type s = SalOther then s_typeother s else sal_stream_type_to_string (s_type s))"

definition setProto :: "SalMediaProto \<Rightarrow> stream \<Rightarrow> stream" where
  "setProto p = update_chosen (\<lambda>c. c\<lparr>cfg_proto := p\<rparr>)"

definition getProto :: "stream \<Rightarrow> SalMediaProto" where
  "getProto s = cfg_proto (getChosenConfiguration s)"

definition getProtoAsString :: "stream \<Rightarrow> string" where
  "getProtoAsString s = cfg_getProtoAsString (getChosenConfiguration s)"

definition setDirection :: "SalStreamDir \<Rightarrow> stream \<Rightarrow> stream" where
  "setDirection d = update_chosen (\<lambda>c. c\<lparr>cfg_dir := d\<rparr>)"

definition getPayloads :: "stream \<Rightarrow> payloads" where
  "getPayloads s = cfg_payloads (getChosenConfiguration s)"

definition getMid :: "stream \<Rightarrow> string" where
  "getMid s = cfg_mid (getChosenConfiguration s)"

definition setPtime :: "int \<Rightarrow> int \<Rightarrow> stream \<Rightarrow> stream" where
  "setPtime ptime maxptime s =
     (let s1 = (if ptime > 0 then update_chosen (\<lambda>c. c\<lparr>cfg_ptime := ptime\<rparr>) s else s)
      in if maxptime > 0 then update_chosen (\<lambda>c. c\<lparr>cfg_maxptime := maxptime\<rparr>) s1 else s1)"

definition getCryptoAtIndex :: "stream \<Rightarrow> nat \<Rightarrow> SalSrtpCryptoAlgo" where
  "getCryptoAtIndex s idx =
     (let cs = cfg_crypto (getChosenConfiguration s)
      in if idx < length cs then cs ! idx else \<lparr>tag = 0, algo = MS_CRYPTO_SUITE_INVALID, master_key = ''''\<rparr>)"

text \<open>\<open>crypto[idx] = newCrypto\<close> on a \<open>std::vector\<close>: out of range has no result.\<close>

definition setCrypto :: "nat \<Rightarrow> SalSrtpCryptoAlgo \<Rightarrow> stream \<Rightarrow> stream res" where
  "setCrypto idx newCrypto s =
     (if idx < length (cfg_crypto (getChosenConfiguration s))
      then Inr (update_chosen (\<lambda>c. c\<lparr>cfg_crypto := (cfg_crypto c)[idx := newCrypto]\<rparr>) s)
      else Inl Index_out_of_range)"

definition setSupportedEncryptions :: "LinphoneMediaEncryption list \<Rightarrow> stream \<Rightarrow> stream" where
  "setSupportedEncryptions encryptionList s = s\<lparr>s_supportedEncryption := encryptionList\<rparr>"

definition setupRtcpFb :: "bool \<Rightarrow> bool \<Rightarrow> bool \<Rightarrow> stream \<Rightarrow> stream" where
  "setupRtcpFb nack tmmbr implicit s =
     s\<lparr>s_cfgs := map (\<lambda>(k, c). (k, c\<lparr>cfg_rtcp_fb := (cfg_rtcp_fb c)\<lparr>generic_nack_enabled := nack, tmmbr_enabled := tmmbr\<rparr>,
                                  cfg_implicit_rtcp_fb := implicit\<rparr>)) (s_cfgs s)\<rparr>"

definition setupRtcpXr :: "rtcp_xr_config \<Rightarrow> stream \<Rightarrow> stream" where
  "setupRtcpXr rtcpXr s = s\<lparr>s_cfgs := map (\<lambda>(k, c). (k, c\<lparr>cfg_rtcp_xr := rtcpXr\<rparr>)) (s_cfgs s)\<rparr>"

text \<open>\<open>memcpy\<close> of the whole array from a pointer to at least as many bytes.\<close>

definition setZrtpHash :: "u8 \<Rightarrow> string option \<Rightarrow> stream \<Rightarrow> stream res" where
  "setZrtpHash enable zrtphash s =
     bindR (if enable \<noteq> 0
            then (case zrtphash of
                    None \<Rightarrow> Inl Null_dereference
                  | Some h \<Rightarrow> if length h < 128 then Inl Buffer_overflow
                              else Inr (update_chosen (\<lambda>c. c\<lparr>cfg_zrtphash := take 128 h\<rparr>) s))
            else Inr s) (\<lambda>s1. Inr (update_chosen (\<lambda>c. c\<lparr>cfg_haveZrtpHash := enable\<rparr>) s1))"

definition setDtls :: "SalDtlsRole \<Rightarrow> string \<Rightarrow> stream \<Rightarrow> stream" where
  "setDtls role fingerprint s =
     update_chosen (\<lambda>c. c\<lparr>cfg_dtls_fingerprint := fingerprint\<rparr>) (update_chosen (\<lambda>c. c\<lparr>cfg_dtls_role := role\<rparr>) s)"

definition setBundleOnly :: "bool \<Rightarrow> stream \<Rightarrow> stream" where
  "setBundleOnly enable = update_chosen (\<lambda>c. c\<lparr>cfg_bundle_only := enable\<rparr>)"

definition stream_addTcap :: "u32 \<Rightarrow> string \<Rightarrow> stream \<Rightarrow> stream" where
  "stream_addTcap idx value s = s\<lparr>s_tcaps := map_set unat idx value (s_tcaps s)\<rparr>"

definition stream_getTcap :: "stream \<Rightarrow> u32 \<Rightarrow> string" where
  "stream_getTcap s idx = (case map_of (s_tcaps s) idx of Some v \<Rightarrow> v | None \<Rightarrow> '''')"

definition stream_addAcap :: "u32 \<Rightarrow> string \<Rightarrow> string \<Rightarrow> stream \<Rightarrow> stream" where
  "stream_addAcap idx name value s = s\<lparr>s_acaps := map_set unat idx (name, value) (s_acaps s)\<rparr>"

definition stream_getAcap :: "stream \<Rightarrow> u32 \<Rightarrow> string \<times> string" where
  "stream_getAcap s idx = (case map_of (s_acaps s) idx of Some v \<Rightarrow> v | None \<Rightarrow> ('''', ''''))"

definition getIceCandidateAtIndex :: "stream \<Rightarrow> nat \<Rightarrow> SalIceCandidate" where
  "getIceCandidateAtIndex s idx =
     (if idx < length (s_ice_candidates s) then s_ice_candidates s ! idx
      else \<lparr>ice_addr = '''', ice_raddr = '''', ice_foundation = '''', ice_type = '''', ice_componentID = 0,
            ice_priority = 0, ice_port = 0, ice_rport = 0\<rparr>)"

definition getIceRemoteCandidateAtIndex :: "stream \<Rightarrow> nat \<Rightarrow> SalIceRemoteCandidate" where
  "getIceRemoteCandidateAtIndex s idx =
     (if idx < length (s_ice_remote_candidates s) then s_ice_remote_candidates s ! idx
      else \<lparr>rem_addr = '''', rem_port = 0\<rparr>)"

definition stream_hasIceCandidates :: "stream \<Rightarrow> bool" where
  "stream_hasIceCandidates s \<longleftrightarrow> s_ice_candidates s \<noteq> []"

definition stream_hasIceParams :: "stream \<Rightarrow> bool" where
  "stream_hasIceParams s \<longleftrightarrow> s_ice_ufrag s \<noteq> '''' \<and> s_ice_pwd s \<noteq> '''' \<and> stream_hasIceCandidates s"

section \<open>Comparison\<close>

text \<open>\<open>ms_is_multicast\<close> belongs to mediastreamer2 and is an argument.\<close>

definition globalEqual :: "(string \<Rightarrow> bool) \<Rightarrow> stream \<Rightarrow> stream \<Rightarrow> changes" where
  "globalEqual is_multicast s t =
     flag_if (s_type s \<noteq> s_type t) CODEC_CHANGED
     \<union> flag_if (s_content s \<noteq> s_content t) CONTENT_CHANGED
     \<union> flag_if (s_rtp_addr s \<noteq> s_rtp_addr t \<and> (s_rtp_port s \<noteq> 0 \<or> s_rtp_port t \<noteq> 0)) NETWORK_CHANGED
     \<union> flag_if (s_rtp_addr s \<noteq> '''' \<and> s_rtp_addr t \<noteq> '''' \<and>
                is_multicast (s_rtp_addr s) \<noteq> is_multicast (s_rtp_addr t)) NETWORK_XXXCAST_CHANGED
     \<union> (if s_rtp_port s \<noteq> s_rtp_port t
        then (if s_rtp_port s = 0 \<or> s_rtp_port t = 0 then {CODEC_CHANGED} else {NETWORK_CHANGED}) else UNCHANGED)
     \<union> flag_if (s_rtcp_addr s \<noteq> s_rtcp_addr t \<and> s_rtcp_port s \<noteq> 0 \<and> s_rtcp_port t \<noteq> 0) NETWORK_CHANGED
     \<union> flag_if (s_rtcp_addr s \<noteq> '''' \<and> s_rtcp_addr t \<noteq> '''' \<and>
                is_multicast (s_rtcp_addr s) \<noteq> is_multicast (s_rtcp_addr t)) NETWORK_XXXCAST_CHANGED
     \<union> (if s_rtcp_port s \<noteq> s_rtcp_port t
        then (if s_rtcp_port s = 0 \<or> s_rtcp_port t = 0 then {CODEC_CHANGED} else {NETWORK_CHANGED}) else UNCHANGED)
     \<union> flag_if (s_multicast_role s \<noteq> s_multicast_role t) NETWORK_XXXCAST_CHANGED"

definition compareConfigurations :: "ortp_api \<Rightarrow> stream \<Rightarrow> stream \<Rightarrow> u32 \<Rightarrow> u32 \<Rightarrow> changes res" where
  "compareConfigurations api s t thisKey otherKey =
     cfg_equal api (getConfigurationAtIndex s thisKey) (getConfigurationAtIndex t otherKey)"

definition compareToChosenConfiguration :: "ortp_api \<Rightarrow> (string \<Rightarrow> bool) \<Rightarrow> stream \<Rightarrow> stream \<Rightarrow> changes res" where
  "compareToChosenConfiguration api is_multicast s t =
     bindR (compareConfigurations api s t (s_cfgIndex s) (s_cfgIndex t)) (\<lambda>r. Inr (globalEqual is_multicast s t \<union> r))"

definition compareToActualConfiguration :: "ortp_api \<Rightarrow> (string \<Rightarrow> bool) \<Rightarrow> stream \<Rightarrow> stream \<Rightarrow> changes res" where
  "compareToActualConfiguration api is_multicast s t =
     bindR (compareConfigurations api s t (s_cfgIndex s) actualConfigurationIndex)
       (\<lambda>r. Inr (globalEqual is_multicast s t \<union> r))"

definition stream_equal :: "ortp_api \<Rightarrow> (string \<Rightarrow> bool) \<Rightarrow> stream \<Rightarrow> stream \<Rightarrow> changes res" where
  "stream_equal api is_multicast s t =
     bindR (foldR (\<lambda>r (c, d). bindR (cfg_equal api c d) (\<lambda>x. Inr (r \<union> x)))
        (globalEqual is_multicast s t \<union> flag_if (length (s_cfgs s) \<noteq> length (s_cfgs t)) CONFIGURATION_CHANGED)
        (zip (map snd (s_cfgs s)) (map snd (s_cfgs t)))) (\<lambda>r.
     Inr (r \<union> flag_if (s_ice_ufrag s \<noteq> s_ice_ufrag t \<and> s_ice_ufrag t \<noteq> '''') ICE_RESTART_DETECTED
            \<union> flag_if (s_ice_pwd s \<noteq> s_ice_pwd t \<and> s_ice_pwd t \<noteq> '''') ICE_RESTART_DETECTED))"

definition stream_eq :: "ortp_api \<Rightarrow> (string \<Rightarrow> bool) \<Rightarrow> stream \<Rightarrow> stream \<Rightarrow> bool res" where
  "stream_eq api is_multicast s t = bindR (stream_equal api is_multicast s t) (\<lambda>r. Inr (r = UNCHANGED))"

section \<open>Potential configurations\<close>

definition encryptionToTcap :: "tcap_map \<Rightarrow> LinphoneMediaEncryption \<Rightarrow> bool \<Rightarrow> u32 \<times> string" where
  "encryptionToTcap caps encEnum avpf =
     (case find (\<lambda>(_, v). v = sal_media_proto_to_string (linphone_media_encryption_to_sal_media_proto encEnum avpf)) caps of
        Some cap \<Rightarrow> cap
      | None \<Rightarrow> (0, ''''))"

text \<open>\<open>haveZrtpHash\<close>: some attribute of some set is a \<open>zrtp-hash\<close>.\<close>

definition have_zrtp_hash :: "acap_map list \<Rightarrow> bool" where
  "have_zrtp_hash attrList =
     foldl (\<lambda>have attrs. have \<or> find (\<lambda>(_, name, _). name = ''zrtp-hash'') attrs \<noteq> None) False attrList"

text \<open>\<open>std::list::unique\<close> removes consecutive duplicates only.\<close>

definition addSupportedEncryptionFromSdp :: "tcap_map \<Rightarrow> acap_map list \<Rightarrow> stream \<Rightarrow> stream" where
  "addSupportedEncryptionFromSdp protoMap attrList s =
     s\<lparr>s_supportedEncryption := remdups_adj (foldl (\<lambda>encs (_, protoStr).
         sal_media_proto_to_linphone_media_encryption (sal_media_proto_from_string protoStr)
           (have_zrtp_hash attrList) # encs) (s_supportedEncryption s) protoMap)\<rparr>"

text \<open>All but the last; on an empty list the iterator before the first element is undefined.\<close>

definition getSupportedEncryptionsInPotentialCfgs :: "stream \<Rightarrow> LinphoneMediaEncryption list res" where
  "getSupportedEncryptionsInPotentialCfgs s =
     (if s_supportedEncryption s = [] then Inl End_iterator_dereferenced
      else Inr (butlast (s_supportedEncryption s)))"

definition createBasePotentialCfg :: "stream \<Rightarrow> cfg" where
  "createBasePotentialCfg s =
     (getActualConfiguration s)\<lparr>cfg_haveZrtpHash := 0, cfg_zrtphash := zero_zrtphash, cfg_crypto := [],
        cfg_acapIndexes := [], cfg_dtls_fingerprint := '''', cfg_dtls_role := SalDtlsRoleInvalid\<rparr>"

text \<open>\<open>strncpy\<close> of \<open>n\<close> characters into an array: more than the array holds has no result.\<close>

definition strncpy_into :: "string \<Rightarrow> string \<Rightarrow> string res" where
  "strncpy_into buf s = (if length s > length buf then Inl Buffer_overflow else Inr (s @ drop (length s) buf))"

text \<open>\<open>sscanf(value, "%u cname:%s", \<dots>)\<close> into an array of 256 bytes.\<close>

definition scan_ssrc :: "string \<Rightarrow> (u32 \<times> string) option res" where
  "scan_ssrc value =
     (case scan_u value of None \<Rightarrow> Inr None | Some (ssrc, r1) \<Rightarrow>
      case scan_lit ''cname:'' r1 of None \<Rightarrow> Inr None | Some r2 \<Rightarrow>
        (let w = takeWhile (\<lambda>c. \<not> is_space_c c) (skip_ws r2)
         in if w = [] then Inr None
            else if length w > 255 then Inl Buffer_overflow
            else Inr (Some (ssrc, w))))"

text \<open>One SRTP attribute: the state is the configurations collected so far and the current one.\<close>

definition srtp_attr ::
  "(string \<Rightarrow> string option \<Rightarrow> ms_crypto_suite) \<Rightarrow> cfg \<Rightarrow> bool \<Rightarrow> cfg list \<times> cfg \<Rightarrow> u32 \<times> string \<times> string \<Rightarrow> cfg list \<times> cfg" where
  "srtp_attr suite_from_name baseCfg mergeCfgLines st attr =
     (case st of (cfgList, c) \<Rightarrow> case attr of (capIndex, capName, capValue) \<Rightarrow>
        if capName = ''crypto''
        then (let c1 = c\<lparr>cfg_acapIndexes := cfg_acapIndexes c @ [[capIndex]]\<rparr>;
                  keyEnc = fillStrpCryptoAlgoFromString suite_from_name capValue
              in if algo keyEnc \<noteq> MS_CRYPTO_SUITE_INVALID
                 then (let c2 = c1\<lparr>cfg_crypto := cfg_crypto c1 @ [keyEnc]\<rparr>
                       in if \<not> mergeCfgLines then (cfgList @ [c2], baseCfg) else (cfgList, c2))
                 else (cfgList, c1))
        else (cfgList, c))"

text \<open>One DTLS attribute: the indexes used so far and the current configuration.\<close>

definition dtls_attr :: "u32 list \<times> cfg \<Rightarrow> u32 \<times> string \<times> string \<Rightarrow> (u32 list \<times> cfg) res" where
  "dtls_attr st attr =
     (case st of (cfgAcaps, c) \<Rightarrow> case attr of (capIndex, capName, capValue) \<Rightarrow>
        if capName = ''fingerprint'' then Inr (cfgAcaps @ [capIndex], c\<lparr>cfg_dtls_fingerprint := capValue\<rparr>)
        else if capName = ''setup''
          then Inr (cfgAcaps @ [capIndex], c\<lparr>cfg_dtls_role := getDtlsRoleFromSetupAttribute capValue\<rparr>)
        else if capName = ''rtcp-mux'' then Inr (cfgAcaps @ [capIndex], c\<lparr>cfg_rtcp_mux := True\<rparr>)
        else if capName = ''ssrc''
          then bindR (scan_ssrc capValue) (\<lambda>r. Inr (case r of
                 Some (rtpSsrc, rtcpName) \<Rightarrow>
                   (cfgAcaps @ [capIndex], c\<lparr>cfg_rtp_ssrc := rtpSsrc, cfg_rtcp_cname := rtcpName\<rparr>)
               | None \<Rightarrow> (cfgAcaps, c)))
        else Inr (cfgAcaps, c))"

definition zrtp_attr :: "cfg \<Rightarrow> cfg list \<times> cfg \<Rightarrow> u32 \<times> string \<times> string \<Rightarrow> (cfg list \<times> cfg) res" where
  "zrtp_attr baseCfg st attr =
     (case st of (cfgList, c) \<Rightarrow> case attr of (capIndex, capName, capValue) \<Rightarrow>
        if capName = ''zrtp-hash''
        then bindR (strncpy_into (cfg_zrtphash c) capValue) (\<lambda>h.
               Inr (cfgList @ [c\<lparr>cfg_acapIndexes := cfg_acapIndexes c @ [[capIndex]], cfg_haveZrtpHash := 1,
                                 cfg_zrtphash := h\<rparr>], baseCfg))
        else Inr (cfgList, c))"

text \<open>One set of attributes, by encryption.\<close>

definition addAcaps_step ::
  "(string \<Rightarrow> string option \<Rightarrow> ms_crypto_suite) \<Rightarrow> cfg \<Rightarrow> LinphoneMediaEncryption \<Rightarrow> bool \<Rightarrow>
   cfg list \<times> cfg \<Rightarrow> acap_map \<Rightarrow> (cfg list \<times> cfg) res" where
  "addAcaps_step suite_from_name baseCfg enc mergeCfgLines st attrs =
     (case enc of
        LinphoneMediaEncryptionSRTP \<Rightarrow> Inr (foldl (srtp_attr suite_from_name baseCfg mergeCfgLines) st attrs)
      | LinphoneMediaEncryptionDTLS \<Rightarrow>
          bindR (foldR dtls_attr ([], snd st) attrs) (\<lambda>(cfgAcaps, c).
            let c1 = c\<lparr>cfg_acapIndexes := cfg_acapIndexes c @ [cfgAcaps]\<rparr>
            in Inr (if \<not> mergeCfgLines \<and> cfg_dtls_fingerprint c1 \<noteq> '''' \<and> cfg_dtls_role c1 \<noteq> SalDtlsRoleInvalid
                       \<and> cfg_rtp_ssrc c1 \<noteq> 0
                    then (fst st @ [c1], baseCfg) else (fst st, c1)))
      | LinphoneMediaEncryptionZRTP \<Rightarrow> foldR (zrtp_attr baseCfg) st attrs
      | LinphoneMediaEncryptionNone \<Rightarrow> Inr st)"

definition addAcapsToConfiguration ::
  "(string \<Rightarrow> string option \<Rightarrow> ms_crypto_suite) \<Rightarrow> cfg \<Rightarrow> LinphoneMediaEncryption \<Rightarrow> acap_map list \<Rightarrow> bool \<Rightarrow>
   cfg list res" where
  "addAcapsToConfiguration suite_from_name baseCfg enc attrList mergeCfgLines =
     bindR (foldR (addAcaps_step suite_from_name baseCfg enc mergeCfgLines) ([], baseCfg) attrList)
       (\<lambda>(cfgList, c). Inr (if cfgList = [] then [c] else cfgList))"

text \<open>
  \<open>insertOrMergeConfiguration\<close>: nothing happens when a potential configuration compares equal;
  a taken index merges the capability sets when the transport is the same.
\<close>

definition insertOrMergeConfiguration :: "ortp_api \<Rightarrow> u32 \<Rightarrow> cfg \<Rightarrow> stream \<Rightarrow> stream res" where
  "insertOrMergeConfiguration api idx c s =
     bindR (find_ifR (\<lambda>(k, d). if k \<noteq> actualConfigurationIndex then cfg_eq api d c else Inr False) (s_cfgs s))
       (\<lambda>sameCfg.
         Inr (case sameCfg of
                Some _ \<Rightarrow> s
              | None \<Rightarrow>
                  (case map_insert cfg_rank idx c (s_cfgs s) of
                     (cfgs', True) \<Rightarrow> s\<lparr>s_cfgs := cfgs'\<rparr>
                   | (_, False) \<Rightarrow>
                       let existingCfg = getConfigurationAtIndex s idx
                       in if cfg_tcapIndex existingCfg = cfg_tcapIndex c
                          then s\<lparr>s_cfgs := map_set cfg_rank idx (mergeAcaps (cfg_acapIndexes c) existingCfg) (s_cfgs s)\<rparr>
                          else s)))"

definition set_base_proto :: "ortp_api \<Rightarrow> u32 \<Rightarrow> string \<Rightarrow> cfg \<Rightarrow> cfg" where
  "set_base_proto api protoIdx protoValue baseCfg =
     (let proto = sal_media_proto_from_string protoValue;
          c = baseCfg\<lparr>cfg_tcapIndex := protoIdx, cfg_proto := proto,
                cfg_proto_other := map toupper_c (if proto = SalProtoOther then protoValue else '''')\<rparr>
      in if cfg_hasAvpf c then cfg_enableAvpfForStream api c else cfg_disableAvpfForStream api c)"

text \<open>The loop over the transport capabilities carries the base configuration along.\<close>

definition createPotentialConfigurationAtIdx ::
  "ortp_api \<Rightarrow> (string \<Rightarrow> string option \<Rightarrow> ms_crypto_suite) \<Rightarrow> u32 \<Rightarrow> tcap_map \<Rightarrow> acap_map list \<Rightarrow> bool \<Rightarrow> bool \<Rightarrow>
   stream \<Rightarrow> stream res" where
  "createPotentialConfigurationAtIdx api suite_from_name idx tcaps attrList delete_session delete_media s =
     bindR (foldR (\<lambda>(baseCfg, s) (protoIdx, protoValue).
         let base1 = set_base_proto api protoIdx protoValue baseCfg;
             enc = sal_media_proto_to_linphone_media_encryption (cfg_proto base1) (have_zrtp_hash attrList)
         in bindR (addAcapsToConfiguration suite_from_name base1 enc attrList True) (\<lambda>cfgList.
              if cfgList = [] then Inl Front_of_empty_list
              else bindR (insertOrMergeConfiguration api idx ((hd cfgList)\<lparr>cfg_index := idx\<rparr>) s)
                     (\<lambda>s'. Inr (base1, s'))))
       ((createBasePotentialCfg s)\<lparr>cfg_delete_media_attributes := delete_media,
          cfg_delete_session_attributes := delete_session\<rparr>, s) tcaps)
       (\<lambda>(_, s'). Inr s')"

text \<open>The inner loop body of \<open>createPotentialConfiguration\<close> for one encryption.\<close>

definition potential_for_enc ::
  "ortp_api \<Rightarrow> (string \<Rightarrow> string option \<Rightarrow> ms_crypto_suite) \<Rightarrow> tcap_map \<Rightarrow> acap_map list \<Rightarrow> bool \<Rightarrow>
   cfg \<times> u32 \<times> cfg list \<Rightarrow> bool \<times> LinphoneMediaEncryption \<Rightarrow> (cfg \<times> u32 \<times> cfg list) res" where
  "potential_for_enc api suite_from_name protoMap attrList mergeCfgLines st avpf_enc =
     (case st of (baseCfg, idx, cfgList) \<Rightarrow> case avpf_enc of (avpf, enc) \<Rightarrow>
        let protoEl = encryptionToTcap protoMap enc avpf
        in if protoEl \<noteq> (0, '''')
           then (let base1 = set_base_proto api (fst protoEl) (snd protoEl) baseCfg
                 in bindR (addAcapsToConfiguration suite_from_name base1 enc attrList mergeCfgLines) (\<lambda>cfgListForEnc.
                      Inr (base1,
                           idx + word_of_nat (length cfgListForEnc),
                           cfgList @ map (\<lambda>(i, c). c\<lparr>cfg_index := idx + word_of_nat i\<rparr>)
                             (List.enumerate 0 cfgListForEnc))))
           else Inr (baseCfg, idx, cfgList))"

definition createPotentialConfiguration ::
  "ortp_api \<Rightarrow> (string \<Rightarrow> string option \<Rightarrow> ms_crypto_suite) \<Rightarrow> tcap_map \<Rightarrow> acap_map list \<Rightarrow> bool \<Rightarrow> bool \<Rightarrow> bool \<Rightarrow>
   stream \<Rightarrow> stream res" where
  "createPotentialConfiguration api suite_from_name protoMap attrList delete_session delete_media mergeCfgLines s =
     (let baseCfg = (createBasePotentialCfg s)\<lparr>cfg_delete_media_attributes := delete_media,
                       cfg_delete_session_attributes := delete_session\<rparr>
      in bindR (if protoMap = []
                then Inr (map (\<lambda>attrs. baseCfg\<lparr>cfg_acapIndexes := cfg_acapIndexes baseCfg @ [map fst attrs]\<rparr>) attrList)
                else bindR (getSupportedEncryptionsInPotentialCfgs s) (\<lambda>supportedEncs.
                     bindR (foldR (potential_for_enc api suite_from_name protoMap attrList mergeCfgLines)
                              (baseCfg, stream_getFreeCfgIdx s, [])
                              (map (Pair True) supportedEncs @ map (Pair False) supportedEncs))
                       (\<lambda>(_, _, cfgList). Inr cfgList)))
         (\<lambda>cfgList. foldR (\<lambda>s c. insertOrMergeConfiguration api (cfg_index c) c s) s cfgList))"

text \<open>The transport and attribute maps of one configuration of the graph.\<close>

definition proto_map_of :: "config_attribute \<Rightarrow> tcap_map" where
  "proto_map_of a = foldl (\<lambda>m t. map_set unat (cap_index (cc_cap t)) (cap_value (cc_cap t)) m) [] (ca_tcap a)"

definition attr_list_of :: "config_attribute \<Rightarrow> acap_map list" where
  "attr_list_of a =
     filter (\<lambda>attrs. attrs \<noteq> [])
       (map (\<lambda>aAttrList. foldl (\<lambda>m x. fst (map_insert unat (cap_index (cc_cap x))
               (cap_name (cc_cap x), cap_value (cc_cap x)) m)) [] aAttrList) (ca_acap a))"

definition fillPotentialConfigurationsFromPotentialCfgGraph ::
  "ortp_api \<Rightarrow> (string \<Rightarrow> string option \<Rightarrow> ms_crypto_suite) \<Rightarrow> media_description_config \<Rightarrow> stream \<Rightarrow> stream res" where
  "fillPotentialConfigurationsFromPotentialCfgGraph api suite_from_name sdpCfgs s =
     foldR (\<lambda>s (idx, a).
       createPotentialConfigurationAtIdx api suite_from_name idx (proto_map_of a) (attr_list_of a)
         (ca_delete_session_attributes a) (ca_delete_media_attributes a)
         (addSupportedEncryptionFromSdp (proto_map_of a) (attr_list_of a) s)) s sdpCfgs"

definition setProtoInCfg :: "cfg \<Rightarrow> string \<Rightarrow> cfg" where
  "setProtoInCfg c str =
     (let (proto, protoOther) =
        (if str \<noteq> ''''
         then (let protoAsString = map toupper_c str
               in if protoAsString = ''RTP/AVP'' then (SalProtoRtpAvp, '''')
                  else if protoAsString = ''RTP/SAVP'' then (SalProtoRtpSavp, '''')
                  else if protoAsString = ''RTP/AVPF'' then (SalProtoRtpAvpf, '''')
                  else if protoAsString = ''RTP/SAVPF'' then (SalProtoRtpSavpf, '''')
                  else if protoAsString = ''UDP/TLS/RTP/SAVP'' then (SalProtoUdpTlsRtpSavp, '''')
                  else if protoAsString = ''UDP/TLS/RTP/SAVPF'' then (SalProtoUdpTlsRtpSavpf, '''')
                  else (SalProtoOther, protoAsString))
         else (SalProtoOther, ''''))
      in c\<lparr>cfg_proto := proto, cfg_proto_other := protoOther\<rparr>)"

section \<open>The order of the configurations\<close>

interpretation cfg_order: ranked_map cfg_rank
  by unfold_locales (simp add: cfg_rank_def word_unat_eq_iff [symmetric])

lemma cfg_rank_cmp: "SalConfigurationCmp a b \<longleftrightarrow> cfg_rank a < cfg_rank b"
  by (simp add: SalConfigurationCmp_def cfg_rank_def word_less_nat_alt)

lemma cfg_rank_actual: "k \<noteq> 0 \<Longrightarrow> cfg_rank k < cfg_rank actualConfigurationIndex"
proof -
  assume "k \<noteq> 0"
  then have "k - 1 \<noteq> - 1" by (simp add: diff_eq_eq)
  then have "k - 1 < - 1" by (simp only: word_order.not_eq_extremum)
  then show ?thesis by (simp add: cfg_rank_def word_less_nat_alt)
qed

definition stream_wf :: "stream \<Rightarrow> bool" where
  "stream_wf s \<longleftrightarrow> map_wf cfg_rank (s_cfgs s) \<and> map_wf unat (s_unparsed_cfgs s)"

text \<open>
  Iterating over the configurations of a stream visits the actual configuration last: in a well-formed
  map the node of index 0, if there is one, is the last node, and the others come in increasing
  order of their index.
\<close>

theorem actual_configuration_last:
  assumes "map_wf cfg_rank m" and "map_of m actualConfigurationIndex = Some c"
  shows "last m = (actualConfigurationIndex, c) \<and> sorted_wrt (<) (map fst (butlast m))"
  using assms
proof (induction m)
  case (Cons x m)
  obtain k d where x: "x = (k, d)" by fastforce
  show ?case
  proof (cases "k = 0")
    case True
    have "m = []"
    proof (rule ccontr)
      assume "m \<noteq> []"
      then obtain j e where "(j, e) \<in> set m" by (metis last_in_set surj_pair)
      with Cons.prems(1) x True have "cfg_rank 0 < cfg_rank j" by auto
      with cfg_rank_actual [of j] show False by (cases "j = 0") auto
    qed
    with Cons.prems x True show ?thesis by simp
  next
    case False
    with Cons x have IH: "last m = (0, c)" "sorted_wrt (<) (map fst (butlast m))" by auto
    have "m \<noteq> []" using Cons.prems(2) x False by auto
    moreover have "k < j" if "(j, e) \<in> set (butlast m)" for j e
    proof -
      have "(j, e) \<in> set m" using that by (rule in_set_butlastD)
      then have rank: "cfg_rank k < cfg_rank j" using Cons.prems(1) x by auto
      have "j \<noteq> 0"
      proof
        assume "j = 0"
        from \<open>m \<noteq> []\<close> IH(1) have "m = butlast m @ [(0, c)]" by (metis append_butlast_last_id)
        then have "distinct (map fst (butlast m @ [(0, c)]))" using map_wf_distinct Cons.prems(1) by (metis map_wf_simps(2))
        with that \<open>j = 0\<close> show False by force
      qed
      with rank False show ?thesis by (simp add: cfg_rank_def) unat_arith
    qed
    ultimately show ?thesis using IH x by auto
  qed
qed simp

theorem actual_configuration_last_witness:
  "let m = map_set cfg_rank 0 default_cfg (map_set cfg_rank 2 default_cfg (map_set cfg_rank 1 sample_cfg []))
   in last m = (0, default_cfg) \<and> sorted_wrt (<) (map fst (butlast m))"
proof -
  let ?m = "map_set cfg_rank 0 default_cfg (map_set cfg_rank 2 default_cfg (map_set cfg_rank 1 sample_cfg []))"
  have "map_wf cfg_rank ?m" by simp
  moreover have "map_of ?m 0 = Some default_cfg" by (simp add: cfg_order.map_of_map_set)
  ultimately show ?thesis using actual_configuration_last [of ?m default_cfg] by (simp add: Let_def)
qed

section \<open>Updates of the chosen configuration\<close>

lemma map_of_update_chosen:
  "stream_wf s \<Longrightarrow> map_of (s_cfgs (update_chosen f s)) = (map_of (s_cfgs s))(s_cfgIndex s \<mapsto> f (getChosenConfiguration s))"
  by (simp add: update_chosen_def addConfigurationAtIndex_def stream_wf_def cfg_order.map_of_map_set)

lemma stream_wf_update_chosen [simp]: "stream_wf s \<Longrightarrow> stream_wf (update_chosen f s)"
  by (simp add: update_chosen_def addConfigurationAtIndex_def stream_wf_def)

lemma cfgIndex_update_chosen [simp]: "s_cfgIndex (update_chosen f s) = s_cfgIndex s"
  "s_rtp_port (update_chosen f s) = s_rtp_port s"
  by (simp_all add: update_chosen_def addConfigurationAtIndex_def)

lemma getChosen_update_chosen [simp]:
  "stream_wf s \<Longrightarrow> getChosenConfiguration (update_chosen f s) = f (getChosenConfiguration s)"
  by (simp add: getChosenConfiguration_def [of "update_chosen f s"] getConfigurationAtIndex_def map_of_update_chosen)

lemma getConfiguration_update_chosen:
  "stream_wf s \<Longrightarrow> i \<noteq> s_cfgIndex s \<Longrightarrow> getConfigurationAtIndex (update_chosen f s) i = getConfigurationAtIndex s i"
  by (simp add: getConfigurationAtIndex_def map_of_update_chosen)

text \<open>
  A disabled stream stays out of the session: after \<open>disable\<close> the stream is not enabled, is still
  acceptable, has left its bundle and is inactive, and its other configurations are as they were.
\<close>

theorem stream_disable_disables:
  assumes "stream_wf s"
  shows "\<not> enabled (stream_disable s) \<and> stream_isAcceptable (stream_disable s) \<and> stream_wf (stream_disable s) \<and>
    getMid (stream_disable s) = '''' \<and> getDirection (stream_disable s) = SalStreamInactive \<and>
    (\<forall>i. i \<noteq> s_cfgIndex s \<longrightarrow> getConfigurationAtIndex (stream_disable s) i = getConfigurationAtIndex s i)"
proof -
  have wf: "stream_wf (s\<lparr>s_rtp_port := 0\<rparr>)" using assms by (simp add: stream_wf_def)
  have "getConfigurationAtIndex (s\<lparr>s_rtp_port := 0\<rparr>) i = getConfigurationAtIndex s i" for i
    by (simp add: getConfigurationAtIndex_def)
  with wf getConfiguration_update_chosen [OF wf] show ?thesis
    by (simp add: stream_disable_def enabled_def stream_isAcceptable_def isBundleOnly_def getDirection_def getMid_def
        cfg_disable_def)
qed

definition sample_stream :: stream where
  "sample_stream = addActualConfiguration sample_cfg (default_stream\<lparr>s_rtp_addr := ''10.0.0.1'', s_rtp_port := 7078\<rparr>)"

lemma sample_stream_wf [simp]: "stream_wf sample_stream"
  by (simp add: stream_wf_def sample_stream_def addActualConfiguration_def addConfigurationAtIndex_def default_stream_def)

theorem stream_disable_disables_witness:
  "enabled sample_stream \<and> \<not> enabled (stream_disable sample_stream) \<and> stream_isAcceptable (stream_disable sample_stream)"
  using stream_disable_disables [OF sample_stream_wf]
  by (simp add: enabled_def [of sample_stream])
    (simp add: sample_stream_def addActualConfiguration_def addConfigurationAtIndex_def)

section \<open>Copies and assignment\<close>

lemma overwrite_empty_id:
  assumes "map_wf cfg_rank m"
  shows "map_overwrite_range cfg_rank [] m = m"
  by (rule cfg_order.map_wf_ext)
    (use assms map_wf_distinct [OF assms] in \<open>simp_all add: cfg_order.map_of_overwrite_range\<close>)

lemma overwrite_empty_id_u32:
  assumes "map_wf unat (m :: (u32, 'a) stdmap)"
  shows "map_overwrite_range unat [] m = m"
  by (rule u32_map.map_wf_ext)
    (use assms map_wf_distinct [OF assms] in \<open>simp_all add: u32_map.map_of_overwrite_range\<close>)

lemma clone_map: "ortp_contract api \<Longrightarrow> map (payload_type_clone api) l = l"
  by (simp add: ortp_eqs map_idI)

text \<open>
  C33: The copy constructor of a stream reproduces the stream.  The assignment does not: it keeps every
  configuration of the target that the source does not have, so the target's configurations after it
  are the union, the source winning.
\<close>

theorem stream_copy_and_assign:
  assumes api: "ortp_contract api" and "stream_wf s" and "stream_wf t"
  shows "stream_copy api s = s \<and>
    (\<forall>i. map_of (s_cfgs (stream_assign api t s)) i =
       (case map_of (s_cfgs s) i of Some c \<Rightarrow> Some c | None \<Rightarrow> map_of (s_cfgs t) i))"
proof -
  have "map_of (s_cfgs (stream_assign api t s)) = map_of (s_cfgs t) ++ map_of (s_cfgs s)"
    using assms(2,3) map_wf_distinct [of cfg_rank "s_cfgs s"]
    by (simp add: stream_assign_def stream_wf_def cfg_order.map_of_overwrite_range)
  moreover have "stream_copy api s = s"
    using assms(2) by (cases s) (simp add: stream_copy_def clone_map [OF api] stream_wf_def overwrite_empty_id
        overwrite_empty_id_u32)
  ultimately show ?thesis by (simp add: map_add_def)
qed

theorem stream_copy_and_assign_witness:
  "stream_copy sample_ortp sample_stream = sample_stream \<and>
   map_of (s_cfgs (stream_assign sample_ortp (addConfigurationAtIndex 7 sample_cfg default_stream) sample_stream)) 7 = Some sample_cfg"
proof -
  have wf: "stream_wf (addConfigurationAtIndex 7 sample_cfg default_stream)"
    by (simp add: stream_wf_def addConfigurationAtIndex_def default_stream_def)
  show ?thesis
    using stream_copy_and_assign [OF sample_ortp_contract sample_stream_wf wf]
    by (simp add: sample_stream_def addActualConfiguration_def addConfigurationAtIndex_def default_stream_def)
qed

section \<open>Potential configurations extend the stream\<close>

text \<open>
  \<open>extends s s'\<close>: every configuration of \<open>s\<close> is still there under its index, at most with further
  capability sets; indexes outside \<open>I\<close> are untouched.
\<close>

definition extends :: "u32 set \<Rightarrow> stream \<Rightarrow> stream \<Rightarrow> bool" where
  "extends I s s' \<longleftrightarrow> stream_wf s' \<and> s_cfgIndex s' = s_cfgIndex s \<and>
     (\<forall>i d. map_of (s_cfgs s) i = Some d \<longrightarrow>
        (\<exists>new. map_of (s_cfgs s') i = Some (d\<lparr>cfg_acapIndexes := cfg_acapIndexes d @ new\<rparr>))) \<and>
     (\<forall>i. i \<notin> I \<longrightarrow> map_of (s_cfgs s') i = map_of (s_cfgs s) i)"

lemma extends_refl: "stream_wf s \<Longrightarrow> extends I s s"
  by (auto simp: extends_def intro: exI [of _ "[]"])

lemma extends_trans:
  assumes "extends I s t" and "extends I t u"
  shows "extends I s u"
proof -
  have "\<exists>new. map_of (s_cfgs u) i = Some (d\<lparr>cfg_acapIndexes := cfg_acapIndexes d @ new\<rparr>)"
    if d: "map_of (s_cfgs s) i = Some d" for i d
  proof -
    from assms(1) d obtain n1 where "map_of (s_cfgs t) i = Some (d\<lparr>cfg_acapIndexes := cfg_acapIndexes d @ n1\<rparr>)"
      unfolding extends_def by blast
    with assms(2) obtain n2 where "map_of (s_cfgs u) i =
        Some (d\<lparr>cfg_acapIndexes := cfg_acapIndexes d @ n1, cfg_acapIndexes := (cfg_acapIndexes d @ n1) @ n2\<rparr>)"
      unfolding extends_def by fastforce
    then show ?thesis by auto
  qed
  with assms show ?thesis by (auto simp: extends_def)
qed

lemma extends_mono: "extends I s t \<Longrightarrow> I \<subseteq> J \<Longrightarrow> extends J s t"
  by (auto simp: extends_def)

lemma insertOrMerge_extends:
  assumes "insertOrMergeConfiguration api idx c s = Inr s'" and wf: "stream_wf s"
  shows "extends {idx} s s'"
proof -
  obtain same where same: "find_ifR (\<lambda>(k, d). if k \<noteq> actualConfigurationIndex then cfg_eq api d c else Inr False)
      (s_cfgs s) = Inr same"
    using assms(1) by (auto simp: insertOrMergeConfiguration_def bindR_eq_Inr)
  show ?thesis
  proof (cases "same = None \<and> (map_of (s_cfgs s) idx = None \<or>
        cfg_tcapIndex (getConfigurationAtIndex s idx) = cfg_tcapIndex c)")
    case False
    with assms(1) same have "s' = s"
      by (auto simp: insertOrMergeConfiguration_def map_insert_def Let_def split: option.splits)
    with wf show ?thesis by (simp add: extends_refl)
  next
    case True
    show ?thesis
    proof (cases "map_of (s_cfgs s) idx")
      case None
      with assms(1) same True have "s' = s\<lparr>s_cfgs := map_set cfg_rank idx c (s_cfgs s)\<rparr>"
        by (auto simp: insertOrMergeConfiguration_def map_insert_def)
      with wf None show ?thesis
        by (auto simp: extends_def stream_wf_def cfg_order.map_of_map_set intro: exI [of _ "[]"])
    next
      case (Some d)
      obtain new where new: "mergeAcaps (cfg_acapIndexes c) d = d\<lparr>cfg_acapIndexes := cfg_acapIndexes d @ new\<rparr>"
        using mergeAcaps_append_form by blast
      from assms(1) same True Some have "s' = s\<lparr>s_cfgs := map_set cfg_rank idx (mergeAcaps (cfg_acapIndexes c) d) (s_cfgs s)\<rparr>"
        by (auto simp: insertOrMergeConfiguration_def map_insert_def getConfigurationAtIndex_def)
      with wf Some new show ?thesis
        by (auto simp: extends_def stream_wf_def cfg_order.map_of_map_set intro: exI [of _ "[]"])
    qed
  qed
qed

lemma createPotentialConfigurationAtIdx_extends:
  assumes "createPotentialConfigurationAtIdx api sf idx tcaps attrList ds dm s = Inr s'" and "stream_wf s"
  shows "extends {idx} s s'"
proof -
  obtain b where f: "foldR (\<lambda>(baseCfg, s) (protoIdx, protoValue).
         let base1 = set_base_proto api protoIdx protoValue baseCfg;
             enc = sal_media_proto_to_linphone_media_encryption (cfg_proto base1) (have_zrtp_hash attrList)
         in bindR (addAcapsToConfiguration sf base1 enc attrList True) (\<lambda>cfgList.
              if cfgList = [] then Inl Front_of_empty_list
              else bindR (insertOrMergeConfiguration api idx ((hd cfgList)\<lparr>cfg_index := idx\<rparr>) s)
                     (\<lambda>s'. Inr (base1, s'))))
       ((createBasePotentialCfg s)\<lparr>cfg_delete_media_attributes := dm, cfg_delete_session_attributes := ds\<rparr>, s) tcaps
      = Inr (b, s')"
    using assms(1) unfolding createPotentialConfigurationAtIdx_def by (auto simp: bindR_eq_Inr)
  have "case (b, s') of (_, t) \<Rightarrow> extends {idx} s t"
  proof (rule foldR_invariant [OF f])
    fix t x t'
    assume I: "case t of (_, t) \<Rightarrow> extends {idx} s t"
      and step: "(case t of (baseCfg, s) \<Rightarrow> \<lambda>(protoIdx, protoValue).
         let base1 = set_base_proto api protoIdx protoValue baseCfg;
             enc = sal_media_proto_to_linphone_media_encryption (cfg_proto base1) (have_zrtp_hash attrList)
         in bindR (addAcapsToConfiguration sf base1 enc attrList True) (\<lambda>cfgList.
              if cfgList = [] then Inl Front_of_empty_list
              else bindR (insertOrMergeConfiguration api idx ((hd cfgList)\<lparr>cfg_index := idx\<rparr>) s)
                     (\<lambda>s'. Inr (base1, s')))) x = Inr t'"
    obtain b0 s0 where t: "t = (b0, s0)" by fastforce
    obtain b1 s1 where t': "t' = (b1, s1)" by fastforce
    from step t t' obtain c where ins: "insertOrMergeConfiguration api idx c s0 = Inr s1"
      by (auto simp: Let_def bindR_eq_Inr split: prod.splits if_splits)
    have "stream_wf s0" using I t by (simp add: extends_def)
    with insertOrMerge_extends [OF ins] I t t' show "case t' of (_, t) \<Rightarrow> extends {idx} s t"
      by (auto intro: extends_trans)
  qed (simp add: extends_refl assms(2))
  then show ?thesis by simp
qed

lemma addSupportedEncryption_extends: "extends I (addSupportedEncryptionFromSdp p a s) t \<Longrightarrow> extends I s t"
  by (simp add: extends_def addSupportedEncryptionFromSdp_def)

lemma addSupportedEncryption_wf [simp]: "stream_wf (addSupportedEncryptionFromSdp p a s) = stream_wf s"
  by (simp add: stream_wf_def addSupportedEncryptionFromSdp_def)

text \<open>
  Building the potential configurations of a stream from the capability graph never loses or rewrites a
  configuration: each one that was there keeps its index and its members, at most
  with further capability sets, and the actual configuration is unchanged when no graph entry has index 0.
\<close>

theorem fillPotentialConfigurations_extends:
  assumes fill: "fillPotentialConfigurationsFromPotentialCfgGraph api sf sdpCfgs s = Inr s'"
    and wf: "stream_wf s" and idx: "actualConfigurationIndex \<notin> fst ` set sdpCfgs"
  shows "extends (fst ` set sdpCfgs) s s' \<and> getActualConfiguration s' = getActualConfiguration s"
proof -
  have ext: "extends (fst ` set sdpCfgs) s s'"
    using fill wf
  proof (induction sdpCfgs arbitrary: s)
    case Nil
    then show ?case by (simp add: fillPotentialConfigurationsFromPotentialCfgGraph_def extends_refl)
  next
    case (Cons x rest)
    obtain i a where x: "x = (i, a)" by fastforce
    from Cons.prems(1) x obtain t where
      step: "createPotentialConfigurationAtIdx api sf i (proto_map_of a) (attr_list_of a)
         (ca_delete_session_attributes a) (ca_delete_media_attributes a)
         (addSupportedEncryptionFromSdp (proto_map_of a) (attr_list_of a) s) = Inr t"
      and rest: "fillPotentialConfigurationsFromPotentialCfgGraph api sf rest t = Inr s'"
      by (auto simp: fillPotentialConfigurationsFromPotentialCfgGraph_def bindR_eq_Inr)
    have st: "extends {i} s t"
      by (rule addSupportedEncryption_extends, rule createPotentialConfigurationAtIdx_extends [OF step])
        (simp add: Cons.prems(2))
    then have "stream_wf t" by (simp add: extends_def)
    from Cons.IH [OF rest this] have "extends (fst ` set rest) t s'" .
    with st show ?case
      by (intro extends_trans [of _ s t s']) (auto simp: x intro: extends_mono)
  qed
  then have "map_of (s_cfgs s') actualConfigurationIndex = map_of (s_cfgs s) actualConfigurationIndex"
    using idx unfolding extends_def by blast
  with ext show ?thesis by (simp add: getActualConfiguration_def getConfigurationAtIndex_def)
qed

lemma unat_minus_one_u32: "unat (- 1 :: u32) = 4294967295"
  by (simp add: unsigned_minus_1_eq_mask mask_eq_exp_minus_1)

definition sample_graph_cfg :: config_attribute where
  "sample_graph_cfg = empty_config\<lparr>ca_tcap :=
     [\<lparr>cc_cap = \<lparr>cap_index = 1, cap_value = ''RTP/SAVP'', cap_type = TRANSPORT_PROTOCOL\<rparr>, cc_mandatory = True\<rparr>]\<rparr>"

theorem fillPotentialConfigurations_extends_witness:
  "\<exists>s'. fillPotentialConfigurationsFromPotentialCfgGraph sample_ortp (\<lambda>_ _. MS_CRYPTO_SUITE_INVALID)
       [(1, sample_graph_cfg)] sample_stream = Inr s' \<and>
     map_of (s_cfgs s') 1 \<noteq> None \<and> extends {1} sample_stream s' \<and>
     getActualConfiguration s' = getActualConfiguration sample_stream"
proof -
  obtain s' where s': "fillPotentialConfigurationsFromPotentialCfgGraph sample_ortp (\<lambda>_ _. MS_CRYPTO_SUITE_INVALID)
       [(1, sample_graph_cfg)] sample_stream = Inr s'" and one: "map_of (s_cfgs s') 1 \<noteq> None"
    by (simp add: fillPotentialConfigurationsFromPotentialCfgGraph_def sample_graph_cfg_def empty_config_def
        proto_map_of_def attr_list_of_def createPotentialConfigurationAtIdx_def addSupportedEncryptionFromSdp_def
        addAcapsToConfiguration_def insertOrMergeConfiguration_def sample_stream_def addActualConfiguration_def
        addConfigurationAtIndex_def default_stream_def map_insert_def cfg_rank_def unat_minus_one_u32 Let_def)
  from fillPotentialConfigurations_extends [OF s'] have
    "extends {1} sample_stream s' \<and> getActualConfiguration s' = getActualConfiguration sample_stream" by simp
  with s' one show ?thesis by blast
qed

section \<open>Keys and hashes from capabilities\<close>

definition crypto_attrs :: "acap_map \<Rightarrow> acap_map" where
  "crypto_attrs attrs = filter (\<lambda>(_, name, _). name = ''crypto'') attrs"

definition valid_keys :: "(string \<Rightarrow> string option \<Rightarrow> ms_crypto_suite) \<Rightarrow> acap_map \<Rightarrow> SalSrtpCryptoAlgo list" where
  "valid_keys sf attrs =
     filter (\<lambda>k. algo k \<noteq> MS_CRYPTO_SUITE_INVALID)
       (map (\<lambda>(_, _, v). fillStrpCryptoAlgoFromString sf v) (crypto_attrs attrs))"

lemma srtp_attrs_fold:
  "foldl (srtp_attr sf base True) (l, c) attrs =
     (l, c\<lparr>cfg_acapIndexes := cfg_acapIndexes c @ map (\<lambda>(i, _). [i]) (crypto_attrs attrs),
          cfg_crypto := cfg_crypto c @ valid_keys sf attrs\<rparr>)"
proof (induction attrs arbitrary: c)
  case (Cons a attrs)
  obtain i n v where "a = (i, n, v)" by (cases a) auto
  with Cons show ?case by (simp add: srtp_attr_def crypto_attrs_def valid_keys_def Let_def)
qed (simp add: crypto_attrs_def valid_keys_def)

lemma srtp_sets_fold:
  "foldR (addAcaps_step sf base LinphoneMediaEncryptionSRTP True) (l, c) attrList =
     Inr (l, c\<lparr>cfg_acapIndexes := cfg_acapIndexes c @ concat (map (\<lambda>attrs. map (\<lambda>(i, _). [i]) (crypto_attrs attrs)) attrList),
               cfg_crypto := cfg_crypto c @ concat (map (valid_keys sf) attrList)\<rparr>)"
  by (induction attrList arbitrary: c) (simp_all add: addAcaps_step_def srtp_attrs_fold)

text \<open>
  The SRTP configuration built from capabilities holds exactly the keys of the crypto attributes that
  parse, in the order of the attributes, and names exactly the crypto attributes, one set each;
  attributes of other kinds leave no trace.
\<close>

theorem srtp_configuration_keys:
  "addAcapsToConfiguration sf base LinphoneMediaEncryptionSRTP attrList True =
     Inr [base\<lparr>cfg_acapIndexes := cfg_acapIndexes base @
                concat (map (\<lambda>attrs. map (\<lambda>(i, _). [i]) (crypto_attrs attrs)) attrList),
              cfg_crypto := cfg_crypto base @ concat (map (valid_keys sf) attrList)\<rparr>]"
  by (simp add: addAcapsToConfiguration_def srtp_sets_fold)

text \<open>
  A \<open>zrtp-hash\<close> capability longer than the 128 bytes of the configuration's buffer is copied past the
  buffer's end: the capability value comes from the peer's offer and is not bounded.
\<close>

theorem zrtp_hash_capability_overflow:
  assumes "length v > 128" and "length (cfg_zrtphash base) = 128"
  shows "addAcapsToConfiguration sf base LinphoneMediaEncryptionZRTP [[(i, ''zrtp-hash'', v)]] merge = Inl Buffer_overflow"
  using assms by (simp add: addAcapsToConfiguration_def addAcaps_step_def zrtp_attr_def strncpy_into_def)

theorem zrtp_hash_capability_overflow_witness:
  "addAcapsToConfiguration (\<lambda>_ _. MS_CRYPTO_SUITE_INVALID) default_cfg LinphoneMediaEncryptionZRTP
     [[(1, ''zrtp-hash'', replicate 129 (CHR ''a''))]] True = Inl Buffer_overflow"
  by (rule zrtp_hash_capability_overflow) (simp_all add: default_cfg_def zero_zrtphash_def)

text \<open>
  The next free configuration index of a stream can be in use: the keys are listed with the actual
  configuration last, which is not the order the search assumes.
\<close>

theorem stream_getFreeCfgIdx_can_be_taken:
  "let s = addConfigurationAtIndex 4 c (addConfigurationAtIndex 3 c (addConfigurationAtIndex 1 c (addActualConfiguration c default_stream)))
   in stream_getFreeCfgIdx s = 4 \<and> hasConfigurationAtIndex s 4"
  by (simp add: stream_getFreeCfgIdx_def addConfigurationAtIndex_def addActualConfiguration_def default_stream_def cfg_rank_def
      getFreeIdx_def sort_key_def insort_key.simps hasConfigurationAtIndex_def unat_minus_one_u32
      Let_def)

end
