(* ===== verification/Media_Desc.thy ===== *)
theory Media_Desc
  imports Stream_Desc
begin

text \<open>
  \<open>SalMediaDescription\<close> (\<open>src/sal/sal_media_description.h\<close> and \<open>.cpp\<close>) and its parameters
  (\<open>src/sal/params/sal_media_description_params.cpp\<close>): a session with its streams and bundles; searches
  for streams, comparison, bundle ownership, and the capabilities of the session.  The conversions
  from and to a belle-sip session description are not part of this theory.
\<close>

section \<open>Data\<close>

record md_params =
  capabilityNegotiation :: bool
  mergeTcapLines :: bool
  mergeCfgLines :: bool

definition cfgLinesMerged :: "md_params \<Rightarrow> bool" where
  "cfgLinesMerged p = (if capabilityNegotiation p then mergeCfgLines p else False)"

definition tcapLinesMerged :: "md_params \<Rightarrow> bool" where
  "tcapLinesMerged p = (if capabilityNegotiation p then mergeTcapLines p else False)"

definition params_assign :: "md_params \<Rightarrow> md_params \<Rightarrow> md_params" where
  "params_assign this other =
     this\<lparr>capabilityNegotiation := capabilityNegotiation other, mergeTcapLines := mergeTcapLines other,
          mergeCfgLines := mergeCfgLines other\<rparr>"

definition default_params :: md_params where
  "default_params = \<lparr>capabilityNegotiation = False, mergeTcapLines = False, mergeCfgLines = False\<rparr>"

record media_desc =
  md_name :: string
  md_addr :: string
  md_username :: string
  md_bandwidth :: int
  md_origin_addr :: string
  md_session_ver :: u32
  md_session_id :: u32
  md_dir :: SalStreamDir
  md_streams :: "stream list"
  md_custom_sdp_attributes :: "nat option"
  md_rtcp_xr :: rtcp_xr_config
  md_ice_ufrag :: string
  md_ice_pwd :: string
  md_bundles :: "SalStreamBundle list"
  md_ice_lite :: bool
  md_set_nortpproxy :: bool
  md_accept_bundles :: bool
  md_haveLimeIk :: bool
  md_record :: SalMediaRecord
  md_times :: "(int \<times> int) list"
  md_acaps :: acap_map
  md_tcaps :: tcap_map
  md_params :: md_params

definition new_media_desc :: "md_params \<Rightarrow> media_desc" where
  "new_media_desc p =
     \<lparr>md_name = '''', md_addr = '''', md_username = '''', md_bandwidth = 0, md_origin_addr = '''',
      md_session_ver = 0, md_session_id = 0, md_dir = SalStreamSendRecv, md_streams = [],
      md_custom_sdp_attributes = None, md_rtcp_xr = no_rtcp_xr, md_ice_ufrag = '''', md_ice_pwd = '''',
      md_bundles = [], md_ice_lite = False, md_set_nortpproxy = False, md_accept_bundles = False,
      md_haveLimeIk = False, md_record = SalMediaRecordNone, md_times = [], md_acaps = [], md_tcaps = [],
      md_params = p\<rparr>"

section \<open>Copying\<close>

text \<open>The copy constructor: the members it does not name keep their default values.\<close>

definition md_copy :: "ortp_api \<Rightarrow> media_desc \<Rightarrow> media_desc" where
  "md_copy api other =
     (new_media_desc default_params)\<lparr>md_name := md_name other, md_username := md_username other, md_addr := md_addr other,
        md_bandwidth := md_bandwidth other, md_session_ver := md_session_ver other,
        md_session_id := md_session_id other, md_dir := md_dir other,
        md_streams := map (stream_copy api) (md_streams other),
        md_custom_sdp_attributes := md_custom_sdp_attributes other, md_rtcp_xr := md_rtcp_xr other,
        md_ice_ufrag := md_ice_ufrag other, md_ice_pwd := md_ice_pwd other, md_ice_lite := md_ice_lite other,
        md_accept_bundles := md_accept_bundles other, md_bundles := md_bundles other,
        md_set_nortpproxy := md_set_nortpproxy other\<rparr>"

text \<open>
  Assignment of a \<open>std::vector\<close>: when the target's storage is kept, the elements it has are assigned
  and the rest is copied; when new storage is allocated, all are copied.
\<close>

definition streams_assign :: "ortp_api \<Rightarrow> bool \<Rightarrow> stream list \<Rightarrow> stream list \<Rightarrow> stream list" where
  "streams_assign api keep_storage this other =
     (if keep_storage
      then map (\<lambda>(s, t). stream_assign api s t) (zip this other) @ map (stream_copy api) (drop (length this) other)
      else map (stream_copy api) other)"

definition md_assign :: "ortp_api \<Rightarrow> bool \<Rightarrow> media_desc \<Rightarrow> media_desc \<Rightarrow> media_desc" where
  "md_assign api keep_storage this other =
     this\<lparr>md_name := md_name other, md_username := md_username other, md_addr := md_addr other,
        md_bandwidth := md_bandwidth other, md_session_ver := md_session_ver other,
        md_session_id := md_session_id other, md_origin_addr := md_origin_addr other, md_dir := md_dir other,
        md_streams := streams_assign api keep_storage (md_streams this) (md_streams other),
        md_custom_sdp_attributes := md_custom_sdp_attributes other, md_rtcp_xr := md_rtcp_xr other,
        md_ice_ufrag := md_ice_ufrag other, md_ice_pwd := md_ice_pwd other, md_ice_lite := md_ice_lite other,
        md_accept_bundles := md_accept_bundles other, md_bundles := md_bundles other,
        md_record := md_record other, md_set_nortpproxy := md_set_nortpproxy other,
        md_params := params_assign (md_params this) (md_params other), md_haveLimeIk := md_haveLimeIk other,
        md_times := md_times other\<rparr>"

section \<open>Directions\<close>

definition isNullAddress :: "string \<Rightarrow> bool" where
  "isNullAddress a \<longleftrightarrow> a = ''0.0.0.0'' \<or> a = ''::0''"

definition containsStreamWithDir :: "media_desc \<Rightarrow> SalStreamDir \<Rightarrow> bool" where
  "containsStreamWithDir md stream_dir =
     list_ex (\<lambda>s. enabled s \<and> (getDirection s = stream_dir \<or>
       (getDirection s = SalStreamSendRecv \<and> stream_dir = SalStreamSendOnly \<and>
        (isNullAddress (md_addr md) \<or> isNullAddress (s_rtp_addr s))))) (md_streams md)"

definition containsStreamWithDirAndType :: "media_desc \<Rightarrow> SalStreamDir \<Rightarrow> SalStreamType \<Rightarrow> bool" where
  "containsStreamWithDirAndType md stream_dir type =
     list_ex (\<lambda>s. enabled s \<and> ((s_type s = type \<and> getDirection s = stream_dir) \<or>
       (s_type s = type \<and> getDirection s = SalStreamSendRecv \<and> stream_dir = SalStreamSendOnly \<and>
        (isNullAddress (md_addr md) \<or> isNullAddress (s_rtp_addr s))))) (md_streams md)"

definition hasDir :: "media_desc \<Rightarrow> SalStreamDir \<Rightarrow> bool" where
  "hasDir md stream_dir =
     (if stream_dir = SalStreamRecvOnly
        then containsStreamWithDir md SalStreamRecvOnly \<and>
             \<not> (containsStreamWithDir md SalStreamSendOnly \<or> containsStreamWithDir md SalStreamSendRecv)
      else if stream_dir = SalStreamSendOnly
        then containsStreamWithDir md SalStreamSendOnly \<and>
             \<not> (containsStreamWithDir md SalStreamRecvOnly \<or> containsStreamWithDir md SalStreamSendRecv)
      else if stream_dir = SalStreamSendRecv then containsStreamWithDir md SalStreamSendRecv
      else if containsStreamWithDir md SalStreamSendOnly \<or> containsStreamWithDir md SalStreamSendRecv \<or>
              containsStreamWithDir md SalStreamRecvOnly then False
      else True)"

definition setDir :: "SalStreamDir \<Rightarrow> media_desc \<Rightarrow> media_desc" where
  "setDir stream_dir md =
     md\<lparr>md_streams := map (\<lambda>s. if enabled s then setDirection stream_dir s else s) (md_streams md)\<rparr>"

section \<open>Bundles\<close>

definition addNewBundle :: "SalStreamBundle \<Rightarrow> media_desc \<Rightarrow> media_desc" where
  "addNewBundle b md = md\<lparr>md_bundles := md_bundles md @ [b]\<rparr>"

definition lookupMid :: "media_desc \<Rightarrow> string \<Rightarrow> int" where
  "lookupMid md mid = index_or_minus1 (find_index (\<lambda>s. getMid s = mid) (md_streams md))"

definition getBundleFromMid :: "media_desc \<Rightarrow> string \<Rightarrow> SalStreamBundle" where
  "getBundleFromMid md mid =
     (case find (\<lambda>b. hasMid b mid) (md_bundles md) of Some b \<Rightarrow> b | None \<Rightarrow> empty_bundle)"

definition getIndexOfTransportOwner :: "media_desc \<Rightarrow> stream \<Rightarrow> int" where
  "getIndexOfTransportOwner md sd =
     (if getMid sd = '''' then -1
      else (let bundle = getBundleFromMid md (getMid sd)
            in if bundle = empty_bundle then -2
               else (let master_mid = getMidOfTransportOwner bundle
                     in if master_mid = '''' then -2 else lookupMid md master_mid)))"

definition getTransportOwnerIndexes :: "media_desc \<Rightarrow> int list" where
  "getTransportOwnerIndexes md =
     foldl (\<lambda>owners sd. let ownerIdx = getIndexOfTransportOwner md sd
        in if ownerIdx \<ge> 0 \<and> (owners = [] \<or> ownerIdx \<notin> set owners) then owners @ [ownerIdx] else owners)
       [] (md_streams md)"

section \<open>Searches\<close>

definition stream_or_empty :: "media_desc \<Rightarrow> nat option \<Rightarrow> stream" where
  "stream_or_empty md it = (case it of Some i \<Rightarrow> md_streams md ! i | None \<Rightarrow> default_stream)"

definition findStreamIt :: "media_desc \<Rightarrow> SalMediaProto \<Rightarrow> SalStreamType \<Rightarrow> nat option" where
  "findStreamIt md proto type =
     find_index (\<lambda>s. enabled s \<and> getProto s = proto \<and> s_type s = type) (md_streams md)"

definition findStream :: "media_desc \<Rightarrow> SalMediaProto \<Rightarrow> SalStreamType \<Rightarrow> stream" where
  "findStream md proto type = stream_or_empty md (findStreamIt md proto type)"

definition findIdxStream :: "media_desc \<Rightarrow> SalMediaProto \<Rightarrow> SalStreamType \<Rightarrow> int" where
  "findIdxStream md proto type = index_or_minus1 (findStreamIt md proto type)"

definition findStreamItWithLabel :: "media_desc \<Rightarrow> SalStreamType \<Rightarrow> string \<Rightarrow> nat option" where
  "findStreamItWithLabel md type label = find_index (\<lambda>s. s_label s = label \<and> s_type s = type) (md_streams md)"

definition findStreamWithLabel :: "media_desc \<Rightarrow> SalStreamType \<Rightarrow> string \<Rightarrow> stream" where
  "findStreamWithLabel md type label = stream_or_empty md (findStreamItWithLabel md type label)"

definition findIdxStreamWithLabel :: "media_desc \<Rightarrow> SalStreamType \<Rightarrow> string \<Rightarrow> int" where
  "findIdxStreamWithLabel md type label = index_or_minus1 (findStreamItWithLabel md type label)"

definition findStreamItWithContent :: "media_desc \<Rightarrow> string \<Rightarrow> nat option" where
  "findStreamItWithContent md content = find_index (\<lambda>s. s_content s = content) (md_streams md)"

definition findStreamWithContent :: "media_desc \<Rightarrow> string \<Rightarrow> stream" where
  "findStreamWithContent md content = stream_or_empty md (findStreamItWithContent md content)"

definition findIdxStreamWithContent :: "media_desc \<Rightarrow> string \<Rightarrow> int" where
  "findIdxStreamWithContent md content = index_or_minus1 (findStreamItWithContent md content)"

definition findStreamItWithContentDir :: "media_desc \<Rightarrow> string \<Rightarrow> SalStreamDir \<Rightarrow> nat option" where
  "findStreamItWithContentDir md content direction =
     find_index (\<lambda>s. enabled s \<and> s_content s = content \<and> getDirection s = direction) (md_streams md)"

definition findStreamWithContentDir :: "media_desc \<Rightarrow> string \<Rightarrow> SalStreamDir \<Rightarrow> stream" where
  "findStreamWithContentDir md content direction = stream_or_empty md (findStreamItWithContentDir md content direction)"

definition findIdxStreamWithContentDir :: "media_desc \<Rightarrow> string \<Rightarrow> SalStreamDir \<Rightarrow> int" where
  "findIdxStreamWithContentDir md content direction = index_or_minus1 (findStreamItWithContentDir md content direction)"

definition findStreamItWithContentLabel :: "media_desc \<Rightarrow> string \<Rightarrow> string \<Rightarrow> nat option" where
  "findStreamItWithContentLabel md content label =
     find_index (\<lambda>s. ((content = '''' \<and> s_content s = '''') \<or> s_content s = content) \<and>
                     ((label = '''' \<and> s_label s = '''') \<or> s_label s = label)) (md_streams md)"

definition findStreamWithContentLabel :: "media_desc \<Rightarrow> string \<Rightarrow> string \<Rightarrow> stream" where
  "findStreamWithContentLabel md content label = stream_or_empty md (findStreamItWithContentLabel md content label)"

definition findIdxStreamWithContentLabel :: "media_desc \<Rightarrow> string \<Rightarrow> string \<Rightarrow> int" where
  "findIdxStreamWithContentLabel md content label = index_or_minus1 (findStreamItWithContentLabel md content label)"

definition nbStreamsOfType :: "media_desc \<Rightarrow> SalStreamType \<Rightarrow> nat" where
  "nbStreamsOfType md type = length (filter (\<lambda>s. s_type s = type) (md_streams md))"

definition nbActiveStreamsOfType :: "media_desc \<Rightarrow> SalStreamType \<Rightarrow> nat" where
  "nbActiveStreamsOfType md type = length (filter (\<lambda>s. enabled s \<and> s_type s = type) (md_streams md))"

text \<open>The predicate decrements its unsigned counter at every enabled stream, whatever its type.\<close>

primrec active_stream_loop :: "SalStreamType \<Rightarrow> stream list \<Rightarrow> u32 \<Rightarrow> stream option" where
  "active_stream_loop type [] idx = None"
| "active_stream_loop type (s # ss) idx =
     (if enabled s
      then (if idx = 0 \<and> s_type s = type then Some s else active_stream_loop type ss (idx - 1))
      else active_stream_loop type ss idx)"

definition getActiveStreamOfType :: "media_desc \<Rightarrow> SalStreamType \<Rightarrow> u32 \<Rightarrow> stream" where
  "getActiveStreamOfType md type idx =
     (case active_stream_loop type (md_streams md) idx of Some s \<Rightarrow> s | None \<Rightarrow> default_stream)"

definition getStreamAtIdx :: "media_desc \<Rightarrow> nat \<Rightarrow> stream" where
  "getStreamAtIdx md idx = (if idx < length (md_streams md) then md_streams md ! idx else default_stream)"

definition findSecureStreamOfType :: "media_desc \<Rightarrow> SalStreamType \<Rightarrow> stream" where
  "findSecureStreamOfType md type =
     (let idx0 = findIdxStream md SalProtoRtpSavpf type;
          idx = (if idx0 = -1 then findIdxStream md SalProtoRtpSavp type else idx0)
      in if idx \<noteq> -1 then getStreamAtIdx md (nat idx) else default_stream)"

definition findIdxBestStream :: "media_desc \<Rightarrow> SalStreamType \<Rightarrow> int" where
  "findIdxBestStream md type =
     (let idx1 = findIdxStream md SalProtoUdpTlsRtpSavpf type;
          idx2 = (if idx1 = -1 then findIdxStream md SalProtoUdpTlsRtpSavp type else idx1);
          idx3 = (if idx2 = -1 then findIdxStream md SalProtoRtpSavpf type else idx2);
          idx4 = (if idx3 = -1 then findIdxStream md SalProtoRtpSavp type else idx3);
          idx5 = (if idx4 = -1 then findIdxStream md SalProtoRtpAvpf type else idx4)
      in if idx5 = -1 then findIdxStream md SalProtoRtpAvp type else idx5)"

definition findBestStream :: "media_desc \<Rightarrow> SalStreamType \<Rightarrow> stream" where
  "findBestStream md type =
     (let idx = findIdxBestStream md type in if idx \<noteq> -1 then getStreamAtIdx md (nat idx) else default_stream)"

text \<open>
  The custom attributes of a stream are looked up by belle-sip: \<open>csa_find\<close> gives the value of an
  attribute of a handle, \<open>csa_present\<close> whether it has it.
\<close>

definition matches_attributes ::
  "(nat option \<Rightarrow> string \<Rightarrow> bool) \<Rightarrow> (nat option \<Rightarrow> string \<Rightarrow> string option) \<Rightarrow> stream \<Rightarrow> (string \<times> string) list \<Rightarrow> bool" where
  "matches_attributes csa_present csa_find s attributes =
     foldl (\<lambda>found (attrName, attrValue).
        if attrValue = '''' then found \<and> csa_present (s_custom_sdp_attributes s) attrName
        else (case csa_find (s_custom_sdp_attributes s) attrName of
                Some v \<Rightarrow> found \<and> v = attrValue
              | None \<Rightarrow> False)) True attributes"

definition findStreamItWithSdpAttribute ::
  "(nat option \<Rightarrow> string \<Rightarrow> bool) \<Rightarrow> (nat option \<Rightarrow> string \<Rightarrow> string option) \<Rightarrow> media_desc \<Rightarrow> (string \<times> string) list \<Rightarrow> nat option" where
  "findStreamItWithSdpAttribute csa_present csa_find md attributes =
     find_index (\<lambda>s. matches_attributes csa_present csa_find s attributes) (md_streams md)"

definition findStreamItOfTypeWithSdpAttribute ::
  "(nat option \<Rightarrow> string \<Rightarrow> bool) \<Rightarrow> (nat option \<Rightarrow> string \<Rightarrow> string option) \<Rightarrow> media_desc \<Rightarrow> SalStreamType \<Rightarrow>
   (string \<times> string) list \<Rightarrow> nat option" where
  "findStreamItOfTypeWithSdpAttribute csa_present csa_find md type attributes =
     find_index (\<lambda>s. if type \<noteq> s_type s then False else matches_attributes csa_present csa_find s attributes) (md_streams md)"

text \<open>The search starts at a clamped index; on an empty description a non-negative start has no result.\<close>

definition findFirstStreamItOfType :: "media_desc \<Rightarrow> SalStreamType \<Rightarrow> int \<Rightarrow> nat option res" where
  "findFirstStreamItOfType md type startingIdx =
     (let streamSize = int (length (md_streams md));
          idx = (if startingIdx < 0 then 0 else if startingIdx \<ge> streamSize then streamSize - 1 else startingIdx)
      in if idx < 0 then Inl Index_out_of_range
         else Inr (map_option (\<lambda>i. nat idx + i) (find_index (\<lambda>s. s_type s = type) (drop (nat idx) (md_streams md)))))"

definition findFirstStreamIdxOfType :: "media_desc \<Rightarrow> SalStreamType \<Rightarrow> int \<Rightarrow> int res" where
  "findFirstStreamIdxOfType md type startingIdx =
     bindR (findFirstStreamItOfType md type startingIdx) (\<lambda>it. Inr (index_or_minus1 it))"

definition findFirstStreamOfType :: "media_desc \<Rightarrow> SalStreamType \<Rightarrow> int \<Rightarrow> stream res" where
  "findFirstStreamOfType md type startingIdx =
     bindR (findFirstStreamItOfType md type startingIdx) (\<lambda>it. Inr (stream_or_empty md it))"

definition findAllStreamsOfType :: "media_desc \<Rightarrow> SalStreamType \<Rightarrow> stream list" where
  "findAllStreamsOfType md type = filter (\<lambda>s. s_type s = type) (md_streams md)"

section \<open>State of the session\<close>

definition getNbActiveStreams :: "media_desc \<Rightarrow> nat" where
  "getNbActiveStreams md = length (filter enabled (md_streams md))"

definition md_isEmpty :: "media_desc \<Rightarrow> bool" where
  "md_isEmpty md = (if getNbActiveStreams md > 0 then False else True)"

definition md_isAcceptable :: "media_desc \<Rightarrow> bool" where
  "md_isAcceptable md = list_all stream_isAcceptable (md_streams md)"

definition md_hasIceParams :: "media_desc \<Rightarrow> bool" where
  "md_hasIceParams md =
     (let foundIceMediaDescParams = md_ice_ufrag md \<noteq> '''' \<and> md_ice_pwd md \<noteq> '''';
          (foundIceCandidates, foundIceStreamDescParams) =
            foldl (\<lambda>(c, p) s. if \<not> enabled s then (c, p) else (c \<and> stream_hasIceCandidates s, p \<and> stream_hasIceParams s))
              (True, True) (md_streams md)
      in foundIceStreamDescParams \<or> (foundIceMediaDescParams \<and> foundIceCandidates))"

text \<open>The five encryption tests have the same shape: every enabled stream satisfies the test.\<close>

definition all_enabled :: "(stream \<Rightarrow> bool) \<Rightarrow> media_desc \<Rightarrow> bool" where
  "all_enabled P md = (if md_streams md = [] then False else list_all (\<lambda>s. \<not> enabled s \<or> P s) (md_streams md))"

definition md_hasAvpf :: "media_desc \<Rightarrow> bool" where "md_hasAvpf md = all_enabled stream_hasAvpf md"
definition md_hasImplicitAvpf :: "media_desc \<Rightarrow> bool" where "md_hasImplicitAvpf md = all_enabled stream_hasImplicitAvpf md"
definition md_hasSrtp :: "media_desc \<Rightarrow> bool" where "md_hasSrtp md = all_enabled stream_hasSrtp md"
definition md_hasDtls :: "media_desc \<Rightarrow> bool" where "md_hasDtls md = all_enabled stream_hasDtls md"
definition md_hasZrtp :: "media_desc \<Rightarrow> bool" where "md_hasZrtp md = all_enabled stream_hasZrtp md"
definition md_hasIpv6 :: "media_desc \<Rightarrow> bool" where
  "md_hasIpv6 md = all_enabled (\<lambda>s. if s_rtp_addr s \<noteq> '''' then stream_hasIpv6 s else CHR '':'' \<in> set (md_addr md)) md"

section \<open>Comparison\<close>

definition md_globalEqual :: "(string \<Rightarrow> bool) \<Rightarrow> media_desc \<Rightarrow> media_desc \<Rightarrow> changes" where
  "md_globalEqual is_multicast m n =
     flag_if (md_addr m \<noteq> md_addr n) NETWORK_CHANGED
     \<union> flag_if (md_addr m \<noteq> '''' \<and> md_addr n \<noteq> '''' \<and> is_multicast (md_addr m) \<noteq> is_multicast (md_addr n)) NETWORK_XXXCAST_CHANGED
     \<union> flag_if (length (md_streams m) \<noteq> length (md_streams n)) STREAMS_CHANGED
     \<union> flag_if (md_bandwidth m \<noteq> md_bandwidth n) BANDWIDTH_CHANGED
     \<union> flag_if (md_ice_ufrag m \<noteq> md_ice_ufrag n \<and> md_ice_ufrag n \<noteq> '''') ICE_RESTART_DETECTED
     \<union> flag_if (md_ice_pwd m \<noteq> md_ice_pwd n \<and> md_ice_pwd n \<noteq> '''') ICE_RESTART_DETECTED"

text \<open>The walk over the two lists of streams, with the comparison of two streams as an argument.\<close>

definition md_compare_streams ::
  "(stream \<Rightarrow> stream \<Rightarrow> changes res) \<Rightarrow> changes \<Rightarrow> stream list \<Rightarrow> stream list \<Rightarrow> changes res" where
  "md_compare_streams cmp r ss ts =
     foldR (\<lambda>r (s, t). if \<not> enabled s \<and> \<not> enabled t then Inr r else bindR (cmp s t) (\<lambda>x. Inr (r \<union> x))) r (zip ss ts)"

definition md_compareToActualConfiguration :: "ortp_api \<Rightarrow> (string \<Rightarrow> bool) \<Rightarrow> media_desc \<Rightarrow> media_desc \<Rightarrow> changes res" where
  "md_compareToActualConfiguration api is_multicast m n =
     md_compare_streams (compareToActualConfiguration api is_multicast) (md_globalEqual is_multicast m n) (md_streams m) (md_streams n)"

definition md_compareToChosenConfiguration :: "ortp_api \<Rightarrow> (string \<Rightarrow> bool) \<Rightarrow> media_desc \<Rightarrow> media_desc \<Rightarrow> changes res" where
  "md_compareToChosenConfiguration api is_multicast m n =
     md_compare_streams (compareToChosenConfiguration api is_multicast) (md_globalEqual is_multicast m n) (md_streams m) (md_streams n)"

definition md_equal :: "ortp_api \<Rightarrow> (string \<Rightarrow> bool) \<Rightarrow> media_desc \<Rightarrow> media_desc \<Rightarrow> changes res" where
  "md_equal api is_multicast m n =
     md_compare_streams (stream_equal api is_multicast) (md_globalEqual is_multicast m n) (md_streams m) (md_streams n)"

definition md_eq :: "ortp_api \<Rightarrow> (string \<Rightarrow> bool) \<Rightarrow> media_desc \<Rightarrow> media_desc \<Rightarrow> bool res" where
  "md_eq api is_multicast m n = bindR (md_equal api is_multicast m n) (\<lambda>r. Inr (r = UNCHANGED))"

text \<open>The sequence of tests of \<open>printDifferences\<close>: the bit and the text it appends.\<close>

definition difference_names :: "(sal_change \<times> string) list" where
  "difference_names =
     [(DIRECTION_CHANGED, ''DIRECTION_CHANGED ''), (CODEC_CHANGED, ''CODEC_CHANGED ''),
      (NETWORK_CHANGED, ''NETWORK_CHANGED ''), (ICE_RESTART_DETECTED, ''ICE_RESTART_DETECTED ''),
      (CRYPTO_KEYS_CHANGED, ''CRYPTO_KEYS_CHANGED ''), (NETWORK_XXXCAST_CHANGED, ''NETWORK_XXXCAST_CHANGED ''),
      (CRYPTO_TYPE_CHANGED, ''CRYPTO_TYPE_CHANGED ''), (CRYPTO_POLICY_CHANGED, ''CRYPTO_POLICY_CHANGED ''),
      (STREAMS_CHANGED, ''STREAMS_CHANGED ''), (FORCE_STREAM_RECONSTRUCTION, ''FORCE_STREAM_RECONSTRUCTION ''),
      (CONFIGURATION_CHANGED, ''STREAM_CONFIGURATION_CHANGED ''),
      (MIXER_TO_CLIENT_EXTENSION_CHANGED, ''MIXER_TO_CLIENT_CHANGED ''),
      (CLIENT_TO_MIXER_EXTENSION_CHANGED, ''CLIENT_TO_MIXER_CHANGED ''),
      (FRAME_MARKING_EXTENSION_CHANGED, ''FRAME_MARKING_CHANGED ''), (PTIME_CHANGED, ''PTIME_CHANGED ''),
      (BANDWIDTH_CHANGED, ''BANDWIDTH_CHANGED ''), (CONTENT_CHANGED, ''CONTENT_CHANGED'')]"

text \<open>The result is \<open>None\<close> when bits are left over and \<open>ms_fatal\<close> ends the program.\<close>

definition printDifferences :: "changes \<Rightarrow> string option" where
  "printDifferences result =
     (let (out, left) = foldl (\<lambda>(out, r) (c, name). if c \<in> r then (out @ name, r - {c}) else (out, r))
                          ('''', result) difference_names
      in if left \<noteq> UNCHANGED then None else Some (if out = '''' then ''NONE'' else out))"

section \<open>Capabilities\<close>

definition md_addTcap :: "u32 \<Rightarrow> string \<Rightarrow> media_desc \<Rightarrow> media_desc" where
  "md_addTcap idx value md = md\<lparr>md_tcaps := map_set unat idx value (md_tcaps md)\<rparr>"

definition md_getTcap :: "media_desc \<Rightarrow> u32 \<Rightarrow> string" where
  "md_getTcap md idx = (case map_of (md_tcaps md) idx of Some v \<Rightarrow> v | None \<Rightarrow> '''')"

definition md_addAcap :: "u32 \<Rightarrow> string \<Rightarrow> string \<Rightarrow> media_desc \<Rightarrow> media_desc" where
  "md_addAcap idx name value md = md\<lparr>md_acaps := map_set unat idx (name, value) (md_acaps md)\<rparr>"

definition md_getAcap :: "media_desc \<Rightarrow> u32 \<Rightarrow> string \<times> string" where
  "md_getAcap md idx = (case map_of (md_acaps md) idx of Some v \<Rightarrow> v | None \<Rightarrow> ('''', ''''))"

text \<open>\<open>stream != empty\<close>: the stream at the index is compared with a default one.\<close>

definition stream_present :: "ortp_api \<Rightarrow> (string \<Rightarrow> bool) \<Rightarrow> media_desc \<Rightarrow> nat \<Rightarrow> bool res" where
  "stream_present api is_multicast md idx =
     bindR (stream_eq api is_multicast (getStreamAtIdx md idx) default_stream) (\<lambda>same. Inr (\<not> same))"

definition getCfgsForStream :: "ortp_api \<Rightarrow> (string \<Rightarrow> bool) \<Rightarrow> media_desc \<Rightarrow> nat \<Rightarrow> cfg_map res" where
  "getCfgsForStream api is_multicast md idx =
     bindR (stream_present api is_multicast md idx) (\<lambda>p. Inr (if p then s_cfgs (getStreamAtIdx md idx) else []))"

definition md_getAllAcapForStream :: "ortp_api \<Rightarrow> (string \<Rightarrow> bool) \<Rightarrow> media_desc \<Rightarrow> nat \<Rightarrow> acap_map res" where
  "md_getAllAcapForStream api is_multicast md idx =
     bindR (stream_present api is_multicast md idx) (\<lambda>p.
       Inr (if p then map_insert_range unat (s_acaps (getStreamAtIdx md idx)) (md_acaps md) else []))"

definition md_getAllTcapForStream :: "ortp_api \<Rightarrow> (string \<Rightarrow> bool) \<Rightarrow> media_desc \<Rightarrow> nat \<Rightarrow> tcap_map res" where
  "md_getAllTcapForStream api is_multicast md idx =
     bindR (stream_present api is_multicast md idx) (\<lambda>p.
       Inr (if p then map_insert_range unat (s_tcaps (getStreamAtIdx md idx)) (md_tcaps md) else []))"

definition md_addTcapToStream :: "nat \<Rightarrow> u32 \<Rightarrow> string \<Rightarrow> media_desc \<Rightarrow> media_desc" where
  "md_addTcapToStream streamIdx idx value md =
     (if streamIdx < length (md_streams md)
      then md\<lparr>md_streams := (md_streams md)[streamIdx := stream_addTcap idx value (md_streams md ! streamIdx)]\<rparr>
      else md)"

definition md_addAcapToStream :: "nat \<Rightarrow> u32 \<Rightarrow> string \<Rightarrow> string \<Rightarrow> media_desc \<Rightarrow> media_desc" where
  "md_addAcapToStream streamIdx idx name value md =
     (if streamIdx < length (md_streams md)
      then md\<lparr>md_streams := (md_streams md)[streamIdx := stream_addAcap idx name value (md_streams md ! streamIdx)]\<rparr>
      else md)"

definition createPotentialConfigurationsForStream ::
  "ortp_api \<Rightarrow> (string \<Rightarrow> bool) \<Rightarrow> (string \<Rightarrow> string option \<Rightarrow> ms_crypto_suite) \<Rightarrow> nat \<Rightarrow> bool \<Rightarrow> bool \<Rightarrow> media_desc \<Rightarrow> media_desc res" where
  "createPotentialConfigurationsForStream api is_multicast suite_from_name streamIdx delete_session delete_media md =
     (if streamIdx < length (md_streams md)
      then bindR (md_getAllAcapForStream api is_multicast md streamIdx) (\<lambda>acaps.
           bindR (md_getAllTcapForStream api is_multicast md streamIdx) (\<lambda>tcaps.
             if acaps \<noteq> [] \<or> tcaps \<noteq> []
             then bindR (foldR (\<lambda>s proto. createPotentialConfiguration api suite_from_name proto [acaps]
                                  delete_session delete_media (cfgLinesMerged (md_params md)) s)
                           (md_streams md ! streamIdx) (if tcaps = [] then [[]] else map (\<lambda>protoPair. [protoPair]) tcaps))
                    (\<lambda>s. Inr (md\<lparr>md_streams := (md_streams md)[streamIdx := s]\<rparr>))
             else Inr md))
      else Inr md)"

definition md_getFreeTcapIdx :: "media_desc \<Rightarrow> u32" where
  "md_getFreeTcapIdx md = getFreeIdx (map fst (md_tcaps md) @ concat (map (\<lambda>s. map fst (s_tcaps s)) (md_streams md)))"

definition md_getFreeAcapIdx :: "media_desc \<Rightarrow> u32" where
  "md_getFreeAcapIdx md = getFreeIdx (map fst (md_acaps md) @ concat (map (\<lambda>s. map fst (s_acaps s)) (md_streams md)))"

section \<open>Differences\<close>

lemma print_fold:
  "foldl (\<lambda>(out, r) (c, name). if c \<in> r then (out @ name, r - {c}) else (out, r)) (out, r) names =
     (out @ concat (map snd (filter (\<lambda>(c, _). c \<in> r) names)), r - fst ` set names)"
  if "distinct (map fst names)"
  using that
proof (induction names arbitrary: out r)
  case (Cons x names)
  obtain c n where x: "x = (c, n)" by fastforce
  have "filter (\<lambda>(d, _). d \<in> r \<and> d \<noteq> c) names = filter (\<lambda>(d, _). d \<in> r) names"
    using Cons.prems x by (intro filter_cong) force+
  with Cons x show ?case by auto
qed simp

lemma difference_names_all: "c \<in> fst ` set difference_names"
  by (cases c) (simp_all add: difference_names_def)

lemma difference_names_distinct: "distinct (map fst difference_names)"
  by (simp add: difference_names_def)

lemma difference_names_nonempty: "\<forall>(c, n) \<in> set difference_names. n \<noteq> ''''"
  by (simp add: difference_names_def)

text \<open>
  \<open>printDifferences\<close> knows every bit of the change mask: it never ends the program, it lists the
  names of exactly the bits that are set in the order of its tests, and it answers \<open>NONE\<close> exactly for the
  unchanged mask.
\<close>

theorem printDifferences_complete:
  "printDifferences r = Some (if r = UNCHANGED then ''NONE''
     else concat (map snd (filter (\<lambda>(c, _). c \<in> r) difference_names)))"
proof -
  have "fst ` set difference_names = UNIV" using difference_names_all by blast
  then have left: "r - fst ` set difference_names = {}" by simp
  have "concat (map snd (filter (\<lambda>(c, _). c \<in> r) difference_names)) = '''' \<longleftrightarrow> r = {}"
  proof
    assume e: "concat (map snd (filter (\<lambda>(c, _). c \<in> r) difference_names)) = ''''"
    have "c \<notin> r" for c
    proof
      assume "c \<in> r"
      moreover obtain n where "(c, n) \<in> set difference_names" using difference_names_all [of c] by auto
      ultimately have "n \<in> set (map snd (filter (\<lambda>(c, _). c \<in> r) difference_names))" by force
      with e have "n = ''''" by force
      with \<open>(c, n) \<in> set difference_names\<close> difference_names_nonempty show False by blast
    qed
    then show "r = {}" by blast
  qed simp
  with left show ?thesis
    by (simp add: printDifferences_def print_fold [OF difference_names_distinct])
qed

section \<open>Searches\<close>

text \<open>The profiles in the order of preference of \<open>findIdxBestStream\<close>.\<close>

definition best_order :: "SalMediaProto list" where
  "best_order = [SalProtoUdpTlsRtpSavpf, SalProtoUdpTlsRtpSavp, SalProtoRtpSavpf, SalProtoRtpSavp,
     SalProtoRtpAvpf, SalProtoRtpAvp]"

lemma findIdxBestStream_first:
  "findIdxBestStream md type =
     (case find (\<lambda>p. findIdxStream md p type \<noteq> -1) best_order of None \<Rightarrow> -1 | Some p \<Rightarrow> findIdxStream md p type)"
  by (simp add: findIdxBestStream_def best_order_def Let_def)

lemma findIdxStream_found:
  assumes "findIdxStream md p type \<noteq> -1"
  shows "0 \<le> findIdxStream md p type \<and> nat (findIdxStream md p type) < length (md_streams md) \<and>
    enabled (md_streams md ! nat (findIdxStream md p type)) \<and>
    getProto (md_streams md ! nat (findIdxStream md p type)) = p \<and>
    s_type (md_streams md ! nat (findIdxStream md p type)) = type"
proof -
  obtain i where "findStreamIt md p type = Some i" using assms by (auto simp: findIdxStream_def)
  with find_index_SomeD [of _ "md_streams md" i] show ?thesis
    by (auto simp: findIdxStream_def findStreamIt_def)
qed

lemma findIdxStream_none:
  "findIdxStream md p type = -1 \<longleftrightarrow> (\<forall>s \<in> set (md_streams md). \<not> (enabled s \<and> getProto s = p \<and> s_type s = type))"
  by (simp add: findIdxStream_def findStreamIt_def find_index_None)

text \<open>
  The best stream.  \<open>findIdxBestStream\<close> answers \<open>-1\<close> exactly when no enabled stream of the type uses an RTP
  profile; otherwise it is the index of an enabled stream of the type, and no enabled stream of the
  type uses a profile that comes earlier in the order DTLS, SRTP, plain, feedback first.
\<close>

theorem findIdxBestStream_best:
  "(findIdxBestStream md type = -1 \<and>
      filter (\<lambda>s. enabled s \<and> s_type s = type \<and> getProto s \<in> set best_order) (md_streams md) = []) \<or>
   (\<exists>p better i. findIdxBestStream md type = int i \<and> i < length (md_streams md) \<and>
      enabled (md_streams md ! i) \<and> s_type (md_streams md ! i) = type \<and> getProto (md_streams md ! i) = p \<and>
      (\<exists>rest. best_order = better @ p # rest) \<and>
      filter (\<lambda>s. enabled s \<and> s_type s = type \<and> getProto s \<in> set better) (md_streams md) = [])"
proof (cases "find (\<lambda>p. findIdxStream md p type \<noteq> -1) best_order")
  case None
  then have "\<forall>p \<in> set best_order. findIdxStream md p type = -1" by (simp add: find_None_iff)
  then have "filter (\<lambda>s. enabled s \<and> s_type s = type \<and> getProto s \<in> set best_order) (md_streams md) = []"
    unfolding findIdxStream_none filter_empty_conv by blast
  with None show ?thesis by (simp add: findIdxBestStream_first)
next
  case (Some p)
  then obtain k where k: "k < length best_order" "best_order ! k = p" "findIdxStream md p type \<noteq> -1"
    "\<forall>j < k. findIdxStream md (best_order ! j) type = -1"
    by (auto simp: find_Some_iff)
  let ?better = "take k best_order"
  have "\<forall>q \<in> set ?better. findIdxStream md q type = -1"
    using k(1,4) by (auto simp: in_set_conv_nth)
  then have "filter (\<lambda>s. enabled s \<and> s_type s = type \<and> getProto s \<in> set ?better) (md_streams md) = []"
    unfolding findIdxStream_none filter_empty_conv by blast
  moreover have "best_order = ?better @ p # drop (Suc k) best_order" using k(1,2) by (metis id_take_nth_drop)
  moreover have "findIdxBestStream md type = int (nat (findIdxStream md p type))"
    using Some findIdxStream_found [OF k(3)] by (simp add: findIdxBestStream_first)
  ultimately show ?thesis using findIdxStream_found [OF k(3)] by blast
qed

text \<open>
  The counter of \<open>getActiveStreamOfType\<close> runs over all enabled streams, so the first video stream behind an
  audio stream is not found under index 0, although one active video stream is counted.
\<close>

theorem getActiveStreamOfType_miscounts:
  assumes "enabled a" and "s_type a = SalAudio" and "enabled v" and "s_type v = SalVideo" and "md_streams md = [a, v]"
  shows "nbActiveStreamsOfType md SalVideo = 1 \<and> getActiveStreamOfType md SalVideo 0 = default_stream \<and>
    getActiveStreamOfType md SalVideo 1 = v"
  using assms by (simp add: nbActiveStreamsOfType_def getActiveStreamOfType_def)

definition sample_md :: media_desc where
  "sample_md = (new_media_desc default_params)\<lparr>md_addr := ''10.0.0.1'',
     md_streams := [sample_stream, sample_stream\<lparr>s_type := SalVideo, s_rtp_port := 9078\<rparr>]\<rparr>"

lemma sample_stream_fields [simp]: "s_rtp_port sample_stream = 7078" "s_type sample_stream = SalAudio"
  "s_rtp_addr sample_stream = ''10.0.0.1''" "s_cfgIndex sample_stream = 0" "s_cfgs sample_stream = [(0, sample_cfg)]"
  by (simp_all add: sample_stream_def addActualConfiguration_def addConfigurationAtIndex_def default_stream_def)

theorem getActiveStreamOfType_miscounts_witness:
  "nbActiveStreamsOfType sample_md SalVideo = 1 \<and> getActiveStreamOfType sample_md SalVideo 0 = default_stream"
  using getActiveStreamOfType_miscounts [of sample_stream "sample_stream\<lparr>s_type := SalVideo, s_rtp_port := 9078\<rparr>" sample_md]
  by (simp add: sample_md_def enabled_def)

section \<open>Bundles\<close>

text \<open>
  Ownership of a transport.  A non-negative answer of \<open>getIndexOfTransportOwner\<close> is the index of the first
  stream whose identifier is the owner of the first bundle that has the stream's identifier.
\<close>

theorem getIndexOfTransportOwner_owner:
  assumes "getIndexOfTransportOwner md sd = int i"
  shows "\<exists>b \<in> set (md_bundles md). hasMid b (getMid sd) \<and> i < length (md_streams md) \<and>
    getMid (md_streams md ! i) = getMidOfTransportOwner b \<and>
    (\<forall>j < i. getMid (md_streams md ! j) \<noteq> getMidOfTransportOwner b)"
proof -
  let ?b = "getBundleFromMid md (getMid sd)"
  from assms have ne: "?b \<noteq> empty_bundle" and l: "lookupMid md (getMidOfTransportOwner ?b) = int i"
    by (auto simp: getIndexOfTransportOwner_def Let_def split: if_splits)
  from ne have "find (\<lambda>b. hasMid b (getMid sd)) (md_bundles md) = Some ?b"
    by (auto simp: getBundleFromMid_def split: option.splits)
  then have b: "?b \<in> set (md_bundles md)" "hasMid ?b (getMid sd)" by (metis find_Some_iff nth_mem)+
  from l have "find_index (\<lambda>s. getMid s = getMidOfTransportOwner ?b) (md_streams md) = Some i"
    by (auto simp: lookupMid_def index_or_minus1_def split: option.splits)
  from find_index_SomeD [OF this] b show ?thesis by blast
qed

definition audio_line :: stream where
  "audio_line = update_chosen (\<lambda>c. c\<lparr>cfg_mid := ''as''\<rparr>) sample_stream"

definition video_line :: stream where
  "video_line = update_chosen (\<lambda>c. c\<lparr>cfg_mid := ''vs''\<rparr>) (sample_stream\<lparr>s_type := SalVideo\<rparr>)"

lemma line_mids [simp]: "getMid audio_line = ''as''" "getMid video_line = ''vs''"
proof -
  have "stream_wf (sample_stream\<lparr>s_type := SalVideo\<rparr>)" using sample_stream_wf by (simp add: stream_wf_def)
  then show "getMid audio_line = ''as''" "getMid video_line = ''vs''"
    by (simp_all add: audio_line_def video_line_def getMid_def)
qed

definition bundled_md :: media_desc where
  "bundled_md = sample_md\<lparr>md_bundles := [\<lparr>mids = [''as'', ''vs'']\<rparr>], md_streams := [audio_line, video_line]\<rparr>"

theorem getIndexOfTransportOwner_owner_witness:
  "getIndexOfTransportOwner bundled_md video_line = 0 \<and>
   (\<exists>b. hasMid b ''vs'' \<and> getMid (md_streams bundled_md ! 0) = getMidOfTransportOwner b)"
proof -
  have "getIndexOfTransportOwner bundled_md video_line = int 0"
    by (simp add: getIndexOfTransportOwner_def lookupMid_def Let_def getBundleFromMid_def hasMid_iff
        getMidOfTransportOwner_def empty_bundle_def bundled_md_def)
  from getIndexOfTransportOwner_owner [OF this] this show ?thesis by auto
qed

text \<open>
  A stream of a bundle whose owner has no media line answers \<open>-1\<close>, the answer for a stream outside
  any bundle, where the documentation of the function announces \<open>-2\<close>.
\<close>

theorem missing_owner_reported_as_unbundled:
  assumes "getMid sd \<noteq> ''''" and "find (\<lambda>b. hasMid b (getMid sd)) (md_bundles md) = Some b"
    and "getMidOfTransportOwner b \<noteq> ''''"
    and "\<forall>s \<in> set (md_streams md). getMid s \<noteq> getMidOfTransportOwner b"
  shows "getIndexOfTransportOwner md sd = -1"
proof -
  have "b \<noteq> empty_bundle" using assms(3) by (auto simp: getMidOfTransportOwner_def empty_bundle_def)
  with assms show ?thesis
    by (simp add: getIndexOfTransportOwner_def getBundleFromMid_def lookupMid_def find_index_None Let_def)
qed

theorem missing_owner_reported_as_unbundled_witness:
  "getIndexOfTransportOwner (bundled_md\<lparr>md_streams := [video_line]\<rparr>) video_line = -1"
  by (rule missing_owner_reported_as_unbundled [where b = "\<lparr>mids = [''as'', ''vs'']\<rparr>"])
    (simp_all add: bundled_md_def hasMid_iff getMidOfTransportOwner_def)

section \<open>Directions\<close>

lemma direction_setDirection:
  "stream_wf s \<Longrightarrow> getDirection (setDirection d s) = d \<and>
     (enabled (setDirection d s) \<longleftrightarrow> s_rtp_port s > 0 \<or> isBundleOnly s \<and> d \<noteq> SalStreamInactive)"
  by (simp add: setDirection_def getDirection_def enabled_def isBundleOnly_def)

lemma setDir_streams:
  assumes "\<forall>s \<in> set (md_streams md). stream_wf s" and "t \<in> set (md_streams (setDir d md))" and "enabled t"
  shows "getDirection t = d"
proof -
  obtain s where s: "s \<in> set (md_streams md)" "t = (if enabled s then setDirection d s else s)"
    using assms(2) by (auto simp: setDir_def)
  with assms(1,3) direction_setDirection [of s d] show ?thesis by (cases "enabled s") auto
qed

text \<open>
  \<open>setDir\<close> imposes its direction: afterwards the session has that direction, when it has an active
  stream (or the direction is inactive), and no enabled stream has another one.
\<close>

theorem setDir_hasDir:
  assumes wf: "\<forall>s \<in> set (md_streams md). stream_wf s"
    and act: "d = SalStreamInactive \<or> getNbActiveStreams md > 0"
  shows "hasDir (setDir d md) d \<and> (\<forall>t \<in> set (md_streams (setDir d md)). enabled t \<longrightarrow> getDirection t = d)"
proof -
  have all: "getDirection t = d" if "t \<in> set (md_streams (setDir d md))" "enabled t" for t
    using setDir_streams [OF wf that] .
  have no: "\<not> containsStreamWithDir (setDir d md) e" if "e \<noteq> d" "d \<noteq> SalStreamSendRecv" for e
    using all that by (auto simp: containsStreamWithDir_def list_ex_iff)
  have yes: "containsStreamWithDir (setDir d md) d" if nd: "d \<noteq> SalStreamInactive"
  proof -
    obtain s where s: "s \<in> set (md_streams md)" "enabled s"
      using act nd by (auto simp: getNbActiveStreams_def filter_empty_conv)
    then have "setDirection d s \<in> set (md_streams (setDir d md))" by (force simp: setDir_def)
    moreover have "enabled (setDirection d s) \<and> getDirection (setDirection d s) = d"
      using s wf direction_setDirection [of s d] nd by (auto simp: enabled_def [of s])
    ultimately show ?thesis by (auto simp: containsStreamWithDir_def list_ex_iff)
  qed
  from no yes all show ?thesis by (cases d) (auto simp: hasDir_def)
qed

theorem setDir_hasDir_witness: "hasDir (setDir SalStreamSendOnly sample_md) SalStreamSendOnly"
proof -
  have "stream_wf (sample_stream\<lparr>s_type := SalVideo, s_rtp_port := 9078\<rparr>)"
    using sample_stream_wf by (simp add: stream_wf_def)
  then show ?thesis
    using setDir_hasDir [of sample_md SalStreamSendOnly]
    by (simp add: sample_md_def getNbActiveStreams_def enabled_def)
qed

section \<open>Copies\<close>

lemma stream_copy_id:
  assumes "ortp_contract api" and "stream_wf s"
  shows "stream_copy api s = s"
  using assms(2) by (cases s) (simp add: stream_copy_def clone_map [OF assms(1)] stream_wf_def overwrite_empty_id
      overwrite_empty_id_u32)

text \<open>
  The copy constructor of a session keeps its streams and bundles but not its capabilities,
  parameters, origin address, recording state, times and LIME flag: these are reset.
\<close>

theorem md_copy_drops:
  assumes api: "ortp_contract api" and wf: "\<forall>s \<in> set (md_streams md). stream_wf s"
  shows "md_copy api md = md\<lparr>md_acaps := [], md_tcaps := [], md_params := default_params, md_origin_addr := '''',
     md_record := SalMediaRecordNone, md_times := [], md_haveLimeIk := False\<rparr>"
proof -
  have "map (stream_copy api) (md_streams md) = md_streams md"
    using wf stream_copy_id [OF api] by (simp add: map_idI)
  then show ?thesis by (cases md) (simp add: md_copy_def new_media_desc_def)
qed

theorem md_copy_drops_witness:
  "md_copy sample_ortp (md_addTcap 1 ''RTP/SAVP'' ((new_media_desc default_params)\<lparr>md_streams := [sample_stream]\<rparr>)) =
     (new_media_desc default_params)\<lparr>md_streams := [sample_stream]\<rparr>"
  using md_copy_drops [OF sample_ortp_contract, of "md_addTcap 1 ''RTP/SAVP'' ((new_media_desc default_params)\<lparr>md_streams := [sample_stream]\<rparr>)"]
  by (simp add: md_addTcap_def new_media_desc_def)

end
