(* ===== verification/Codec_Match.thy ===== *)
theory Codec_Match
  imports Media_Desc
begin

text \<open>
  Codec, key, direction and transport matching of \<open>OfferAnswerEngine\<close> (first half of
  \<open>src/sal/offeranswer.cpp\<close>).  The media factory that finds a codec-specific matcher by its mime type
  belongs to mediastreamer2; it is the member \<open>mMsFactory\<close> of the engine, a function from a mime type
  to a matcher.  The three matchers that the library registers are defined here.  A matcher may
  write into the local payload list (\<open>red_match\<close> does), so it returns that list too.
\<close>

section \<open>Codec-specific matchers\<close>

type_synonym matcher =
  "payloads \<Rightarrow> payload_type \<Rightarrow> payloads \<Rightarrow> bool \<Rightarrow> (payload_type option \<times> payloads) res"

primrec opus_loop :: "ortp_api \<Rightarrow> payload_type \<Rightarrow> payloads \<Rightarrow> payload_type option \<Rightarrow> payload_type option res" where
  "opus_loop api refpt [] legacy_opus =
     Inr (map_option (\<lambda>p. (payload_type_clone api p)\<lparr>channels := 1\<rparr>) legacy_opus)"
| "opus_loop api refpt (pt # elems) legacy_opus =
     bindR (mime_caseeq pt ''opus'') (\<lambda>is_opus.
       if is_opus \<and> channels refpt = 1 then opus_loop api refpt elems (Some pt)
       else if is_opus \<and> channels refpt = 2 then Inr (Some (payload_type_clone api pt))
       else opus_loop api refpt elems legacy_opus)"

definition opus_match :: "ortp_api \<Rightarrow> matcher" where
  "opus_match api local_payloads refpt remote_payloads reading_response =
     bindR (opus_loop api refpt local_payloads None) (\<lambda>r. Inr (r, local_payloads))"

definition g729A_match :: "ortp_api \<Rightarrow> matcher" where
  "g729A_match api local_payloads refpt remote_payloads reading_response =
     bindR (foldR (\<lambda>candidate pt. bindR (mime_caseeq pt ''G729'') (\<lambda>is_g729.
              Inr (if is_g729 \<and> channels refpt = channels pt then Some pt else candidate))) None local_payloads)
       (\<lambda>candidate. Inr (map_option (payload_type_clone api) candidate, local_payloads))"

text \<open>The redundancy matcher: \<open>done\<close> are the local payloads before the current one.\<close>

primrec red_loop :: "ortp_api \<Rightarrow> payloads \<Rightarrow> payloads \<Rightarrow> payloads \<Rightarrow> (payload_type option \<times> payloads) res" where
  "red_loop api remote_payloads [] done' = Inr (None, done')"
| "red_loop api remote_payloads (pt # elems) done' =
     bindR (mime_caseeq pt (t140_red_mime api)) (\<lambda>is_red.
       if is_red
       then (let red = payload_type_clone api pt
             in bindR (find_ifR (\<lambda>pt2. mime_caseeq pt2 (t140_mime api)) remote_payloads) (\<lambda>found.
                  Inr (case found of
                         Some pt2 \<Rightarrow>
                           (let n = int_to_string (payload_type_get_number api pt2);
                                red_fmtp = n @ ''/'' @ n @ ''/'' @ n
                            in (Some (payload_type_set_recv_fmtp api red red_fmtp),
                                done' @ payload_type_set_recv_fmtp api pt red_fmtp # elems))
                       | None \<Rightarrow> (Some red, done' @ pt # elems))))
       else red_loop api remote_payloads elems (done' @ [pt]))"

definition red_match :: "ortp_api \<Rightarrow> matcher" where
  "red_match api local_payloads refpt remote_payloads reading_response =
     red_loop api remote_payloads local_payloads []"

text \<open>The providers, in the order of their registration.\<close>

definition linphone_core_register_offer_answer_providers :: "ortp_api \<Rightarrow> (string \<times> matcher) list" where
  "linphone_core_register_offer_answer_providers api =
     [(''red'', red_match api), (''G729A'', g729A_match api), (''opus'', opus_match api)]"

section \<open>The engine\<close>

record engine =
  mMsFactory :: "string \<Rightarrow> matcher option"
  mUseOneMatchingCodec :: bool
  mAnswerWithOwnNumbering :: bool

definition new_engine :: "(string \<Rightarrow> matcher option) \<Rightarrow> engine" where
  "new_engine factory = \<lparr>mMsFactory = factory, mUseOneMatchingCodec = False, mAnswerWithOwnNumbering = False\<rparr>"

definition setOneMatchingCodecPolicy :: "bool \<Rightarrow> engine \<Rightarrow> engine" where
  "setOneMatchingCodecPolicy value e = e\<lparr>mUseOneMatchingCodec := value\<rparr>"

definition setAnswerWithOwnNumberingPolicy :: "bool \<Rightarrow> engine \<Rightarrow> engine" where
  "setAnswerWithOwnNumberingPolicy value e = e\<lparr>mAnswerWithOwnNumbering := value\<rparr>"

primrec onlyTelephoneEvent :: "payloads \<Rightarrow> bool res" where
  "onlyTelephoneEvent [] = Inr True"
| "onlyTelephoneEvent (p # l) = bindR (mime_caseeq p ''telephone-event'') (\<lambda>tev.
     if \<not> tev then Inr False else onlyTelephoneEvent l)"

text \<open>The test of \<open>genericMatch\<close>: mime types up to case, both present, same rate and channels.\<close>

definition generic_same :: "payload_type \<Rightarrow> payload_type \<Rightarrow> bool" where
  "generic_same refpt pt \<longleftrightarrow>
     (case (mime_type pt, mime_type refpt) of (Some a, Some b) \<Rightarrow> strcaseeq a b | _ \<Rightarrow> False) \<and>
     clock_rate pt = clock_rate refpt \<and> channels pt = channels refpt"

definition genericMatch :: "ortp_api \<Rightarrow> payloads \<Rightarrow> payload_type \<Rightarrow> payload_type option" where
  "genericMatch api local_payloads refpt =
     map_option (payload_type_clone api) (find (generic_same refpt) local_payloads)"

definition findPayloadTypeBestMatch :: "engine \<Rightarrow> ortp_api \<Rightarrow> matcher" where
  "findPayloadTypeBestMatch eng api local_payloads refpt remote_payloads reading_response =
     (case Option.bind (mime_type refpt) (mMsFactory eng) of
        Some ctx \<Rightarrow> ctx local_payloads refpt remote_payloads reading_response
      | None \<Rightarrow> Inr (genericMatch api local_payloads refpt, local_payloads))"

section \<open>Matching of codec lists\<close>

text \<open>The attributes of the matched codec: parameters, direction flags and AVPF features.\<close>

definition merge_matched :: "ortp_api \<Rightarrow> payload_type \<Rightarrow> payload_type \<Rightarrow> payload_type" where
  "merge_matched api matched p2 =
     (let m1 = (case send_fmtp p2 of Some f \<Rightarrow> payload_type_append_send_fmtp api matched f | None \<Rightarrow> matched);
          m2 = payload_type_set_flag api m1 {PAYLOAD_TYPE_FLAG_CAN_RECV, PAYLOAD_TYPE_FLAG_CAN_SEND}
      in if PAYLOAD_TYPE_RTCP_FEEDBACK_ENABLED \<in> pt_flags m2 \<and> PAYLOAD_TYPE_RTCP_FEEDBACK_ENABLED \<in> pt_flags p2
         then (let m3 = payload_type_set_flag api m2 {PAYLOAD_TYPE_RTCP_FEEDBACK_ENABLED};
                   a1 = (pt_avpf m3)\<lparr>features := and (features (pt_avpf m3)) (features (pt_avpf p2)),
                                  rpsi_compatibility := rpsi_compatibility (pt_avpf p2)\<rparr>;
                   a2 = (if trr_interval (pt_avpf p2) > trr_interval a1
                         then a1\<lparr>trr_interval := trr_interval (pt_avpf p2)\<rparr> else a1)
               in m3\<lparr>pt_avpf := a2\<rparr>)
         else payload_type_unset_flag api m2 {PAYLOAD_TYPE_RTCP_FEEDBACK_ENABLED})"

text \<open>What one matched codec adds to the result.\<close>

definition numbered_matches :: "engine \<Rightarrow> ortp_api \<Rightarrow> bool \<Rightarrow> int \<Rightarrow> int \<Rightarrow> payload_type \<Rightarrow> payloads" where
  "numbered_matches eng api reading_response local_number remote_number m =
     (let number = (if \<not> reading_response \<and> mAnswerWithOwnNumbering eng then local_number else remote_number);
          m1 = payload_type_set_flag api (payload_type_set_number api m number) {PAYLOAD_TYPE_FROZEN_NUMBER};
          c1 = payload_type_set_number api (payload_type_clone api m1) local_number;
          c2 = payload_type_set_flag api c1 {PAYLOAD_TYPE_FLAG_CAN_RECV};
          c3 = payload_type_unset_flag api c2 {PAYLOAD_TYPE_FLAG_CAN_SEND};
          c4 = payload_type_set_flag api c3 {PAYLOAD_TYPE_FROZEN_NUMBER}
      in if reading_response \<and> remote_number \<noteq> local_number then [m1, c4] else [m1])"

text \<open>
  One iteration over the remote codecs.  The state is the local list, \<open>found_codec\<close> and the result
  so far; the two \<open>continue\<close> statements leave the result as it is.
\<close>

definition match_step ::
  "engine \<Rightarrow> ortp_api \<Rightarrow> payloads \<Rightarrow> bool \<Rightarrow> bool \<Rightarrow> payloads \<times> bool \<times> payloads \<Rightarrow> payload_type \<Rightarrow>
   (payloads \<times> bool \<times> payloads) res" where
  "match_step eng api remote reading_response bundle_enabled st p2 =
     (case st of (loc, found_codec, acc) \<Rightarrow>
      bindR (findPayloadTypeBestMatch eng api loc p2 remote reading_response) (\<lambda>(match, loc').
      case match of
        None \<Rightarrow> Inr (loc', found_codec, acc)
      | Some matched \<Rightarrow>
          bindR (if mUseOneMatchingCodec eng
                 then bindR (mime_caseeq matched ''telephone-event'') (\<lambda>tev. Inr (\<not> tev)) else Inr False) (\<lambda>real_codec.
          if real_codec \<and> found_codec then Inr (loc', found_codec, acc)
          else (let found' = (found_codec \<or> real_codec)
                in bindR (mime_caseeq matched ''flexfec'') (\<lambda>fec.
                   if fec \<and> \<not> bundle_enabled then Inr (loc', found', acc)
                   else Inr (loc', found', acc @ numbered_matches eng api reading_response
                          (payload_type_get_number api matched) (payload_type_get_number api p2)
                          (merge_matched api matched p2)))))))"

definition bonus_first :: "payload_type \<Rightarrow> payload_type \<Rightarrow> bool" where
  "bonus_first p1 p2 \<longleftrightarrow>
     PAYLOAD_TYPE_PRIORITY_BONUS \<in> pt_flags p1 \<and> PAYLOAD_TYPE_PRIORITY_BONUS \<notin> pt_flags p2"

text \<open>The compatibility codec of a response: only when no local number appears in the answer.\<close>

definition add_compatibility :: "ortp_api \<Rightarrow> payloads \<Rightarrow> payloads \<Rightarrow> payloads \<Rightarrow> payloads res" where
  "add_compatibility api loc remote acc =
     (if list_ex (\<lambda>p1. list_ex (\<lambda>p2. payload_type_get_number api p2 = payload_type_get_number api p1) remote) loc
      then Inr acc
      else (case loc of
              [] \<Rightarrow> Inl Front_of_empty_list
            | p1 # _ \<Rightarrow> Inr (acc @ [payload_type_set_flag api
                (payload_type_set_flag api (payload_type_clone api p1) {PAYLOAD_TYPE_FLAG_CAN_RECV})
                {PAYLOAD_TYPE_FROZEN_NUMBER}])))"

definition matchPayloads ::
  "engine \<Rightarrow> ortp_api \<Rightarrow> payloads \<Rightarrow> payloads \<Rightarrow> bool \<Rightarrow> bool \<Rightarrow> (payloads \<times> payloads) res" where
  "matchPayloads eng api loc remote reading_response bundle_enabled =
     bindR (foldR (match_step eng api remote reading_response bundle_enabled) (loc, False, []) remote)
       (\<lambda>(loc', found_codec, acc).
         if reading_response then bindR (add_compatibility api loc' remote acc) (\<lambda>r. Inr (r, loc'))
         else Inr (stable_sort_by bonus_first acc, loc'))"

section \<open>Keys\<close>

text \<open>The result parameter is set exactly when the function returns true.\<close>

fun matchCryptoAlgo :: "SalSrtpCryptoAlgo list \<Rightarrow> SalSrtpCryptoAlgo list \<Rightarrow> bool \<Rightarrow> SalSrtpCryptoAlgo option" where
  "matchCryptoAlgo loc [] use_local_key = None"
| "matchCryptoAlgo loc (rc # remote) use_local_key =
     (if algo rc = MS_CRYPTO_SUITE_INVALID then None
      else case find (\<lambda>lc. algo rc = algo lc) loc of
             Some lc \<Rightarrow> Some (if use_local_key then \<lparr>tag = tag rc, algo = algo rc, master_key = master_key lc\<rparr>
                              else \<lparr>tag = tag lc, algo = algo rc, master_key = master_key rc\<rparr>)
           | None \<Rightarrow> matchCryptoAlgo loc remote use_local_key)"

section \<open>Directions\<close>

definition computeDirOutgoing :: "SalStreamDir \<Rightarrow> SalStreamDir \<Rightarrow> SalStreamDir" where
  "computeDirOutgoing loc answered =
     (let res = (if loc = SalStreamSendRecv
                 then (if answered = SalStreamRecvOnly then SalStreamSendOnly
                       else if answered = SalStreamSendOnly then SalStreamRecvOnly else loc)
                 else loc)
      in if answered = SalStreamInactive then SalStreamInactive else res)"

definition computeDirIncoming :: "SalStreamDir \<Rightarrow> SalStreamDir \<Rightarrow> SalStreamDir" where
  "computeDirIncoming loc offered =
     (if loc = SalStreamSendRecv
      then (if offered = SalStreamSendOnly then SalStreamRecvOnly
            else if offered = SalStreamRecvOnly then SalStreamSendOnly
            else if offered = SalStreamInactive then SalStreamInactive else SalStreamSendRecv)
      else if loc = SalStreamSendOnly
      then (if offered = SalStreamRecvOnly \<or> offered = SalStreamSendRecv then SalStreamSendOnly else SalStreamInactive)
      else if loc = SalStreamRecvOnly
      then (if offered = SalStreamSendOnly \<or> offered = SalStreamSendRecv then SalStreamRecvOnly else SalStreamInactive)
      else SalStreamInactive)"

fun computeConferenceStreamDir :: "SalStreamDir \<Rightarrow> SalStreamDir" where
  "computeConferenceStreamDir SalStreamSendRecv = SalStreamSendRecv"
| "computeConferenceStreamDir SalStreamSendOnly = SalStreamRecvOnly"
| "computeConferenceStreamDir SalStreamRecvOnly = SalStreamSendOnly"
| "computeConferenceStreamDir SalStreamInactive = SalStreamInactive"

section \<open>Extensions and transports\<close>

definition getExtensionId :: "int \<Rightarrow> int \<Rightarrow> int" where
  "getExtensionId localExtensionId remoteExtensionId =
     (if localExtensionId = 0 \<or> remoteExtensionId = 0 then 0
      else if localExtensionId \<noteq> remoteExtensionId then remoteExtensionId
      else localExtensionId)"

definition areProtoCompatibles :: "SalMediaProto \<Rightarrow> SalMediaProto \<Rightarrow> bool" where
  "areProtoCompatibles localProto otherProto =
     (case localProto of
        SalProtoRtpAvp \<Rightarrow> otherProto = SalProtoRtpAvp \<or> otherProto = SalProtoRtpAvpf
      | SalProtoRtpAvpf \<Rightarrow> otherProto = SalProtoRtpAvp \<or> otherProto = SalProtoRtpAvpf
      | SalProtoRtpSavp \<Rightarrow> otherProto = SalProtoRtpSavp \<or> otherProto = SalProtoRtpSavpf
      | SalProtoRtpSavpf \<Rightarrow> otherProto = SalProtoRtpSavp \<or> otherProto = SalProtoRtpSavpf
      | SalProtoUdpTlsRtpSavp \<Rightarrow> otherProto = SalProtoUdpTlsRtpSavp \<or> otherProto = SalProtoUdpTlsRtpSavpf
      | SalProtoUdpTlsRtpSavpf \<Rightarrow> otherProto = SalProtoUdpTlsRtpSavp \<or> otherProto = SalProtoUdpTlsRtpSavpf
      | SalProtoOther \<Rightarrow> otherProto = localProto)"

definition areProtoInStreamCompatibles :: "stream \<Rightarrow> stream \<Rightarrow> bool" where
  "areProtoInStreamCompatibles localStream otherStream =
     list_ex (\<lambda>(_, otherCfg). list_ex (\<lambda>(_, localCfg).
       areProtoCompatibles (cfg_proto localCfg) (cfg_proto otherCfg)) (s_cfgs localStream)) (s_cfgs otherStream)"


section \<open>Directions of the two ends\<close>

definition sends :: "SalStreamDir \<Rightarrow> bool" where
  "sends d \<longleftrightarrow> d = SalStreamSendRecv \<or> d = SalStreamSendOnly"

definition receives :: "SalStreamDir \<Rightarrow> bool" where
  "receives d \<longleftrightarrow> d = SalStreamSendRecv \<or> d = SalStreamRecvOnly"

lemmas dir_defs = computeDirIncoming_def computeDirOutgoing_def sends_def receives_def

text \<open>
  The answerer's direction is the largest one both ends allow: it sends exactly when it is able to and the
  offerer wants to receive, and receives exactly when it is able to and the offerer wants to send.
\<close>

theorem computeDirIncoming_meet:
  "(sends (computeDirIncoming loc offered) \<longleftrightarrow> sends loc \<and> receives offered) \<and>
   (receives (computeDirIncoming loc offered) \<longleftrightarrow> receives loc \<and> sends offered)"
  by (cases loc; cases offered) (simp_all add: dir_defs)

text \<open>
  C30: The two ends agree: when the answerer computes its direction from the offer and the offerer computes
  its own from that answer, each end receives exactly when the other one sends, and the offerer's
  direction is the mirror that \<open>computeConferenceStreamDir\<close> computes of the answerer's.
\<close>

theorem offer_answer_directions_agree:
  "let answered = computeDirIncoming capability offered; final = computeDirOutgoing offered answered
   in final = computeConferenceStreamDir answered \<and> (sends final \<longleftrightarrow> receives answered) \<and>
      (receives final \<longleftrightarrow> sends answered)"
  by (cases capability; cases offered) (simp_all add: dir_defs Let_def)

text \<open>
  An answer that does not respect the offer is not corrected: when a send-only offer is answered with
  send-only, the offerer still sends to a peer that does not receive (and likewise for receive-only).
\<close>

theorem computeDirOutgoing_trusts_answer:
  "computeDirOutgoing offered answered = computeConferenceStreamDir answered \<longleftrightarrow>
     \<not> (offered \<noteq> SalStreamSendRecv \<and> answered \<noteq> SalStreamInactive \<and> offered \<noteq> computeConferenceStreamDir answered)"
  by (cases offered; cases answered) (simp_all add: dir_defs)

section \<open>Transports\<close>

text \<open>
  C31: Transport compatibility is an equivalence that separates the kinds of protection: compatible transports
  are both SRTP, both DTLS-SRTP, both plain RTP or both unknown, so accepting a compatible
  transport changes at most the feedback profile.
\<close>

theorem areProtoCompatibles_class:
  "areProtoCompatibles p q \<longleftrightarrow>
     sal_media_proto_to_linphone_media_encryption p False = sal_media_proto_to_linphone_media_encryption q False \<and>
     (p = SalProtoOther \<longleftrightarrow> q = SalProtoOther)"
  by (cases p; cases q) (simp_all add: areProtoCompatibles_def sal_media_proto_to_linphone_media_encryption_def)

section \<open>Keys\<close>

lemma matchCryptoAlgo_Some:
  "matchCryptoAlgo loc remote ul = Some k \<Longrightarrow>
     \<exists>rc \<in> set remote. \<exists>lc \<in> set loc. algo rc = algo k \<and> algo lc = algo k \<and> algo k \<noteq> MS_CRYPTO_SUITE_INVALID \<and>
       (if ul then master_key k = master_key lc \<and> tag k = tag rc
        else master_key k = master_key rc \<and> tag k = tag lc)"
proof (induction loc remote ul rule: matchCryptoAlgo.induct)
  case (2 loc rc remote ul)
  show ?case
  proof (cases "find (\<lambda>lc. algo rc = algo lc) loc")
    case None
    with 2 show ?thesis by (fastforce split: if_splits)
  next
    case (Some lc)
    then have "lc \<in> set loc" "algo rc = algo lc" by (auto simp: find_Some_iff)
    with Some 2(2) show ?thesis by (auto split: if_splits)
  qed
qed simp


text \<open>
  Key selection.  The chosen key has a suite that both ends support; when answering it is the local
  key under the tag of the offer, and when reading an answer it is the remote key under the tag
  that was offered.  The suite is the first one of the remote list that is available locally, and there is no result
  exactly when no suite before the first invalid one is available.
\<close>

theorem matchCryptoAlgo_first:
  "(case matchCryptoAlgo loc remote use_local_key of
      None \<Rightarrow> list_all (\<lambda>rc. algo rc \<notin> algo ` set loc)
        (takeWhile (\<lambda>rc. algo rc \<noteq> MS_CRYPTO_SUITE_INVALID) remote)
    | Some k \<Rightarrow> \<exists>before rc after lc. remote = before @ rc # after \<and> lc \<in> set loc \<and>
        list_all (\<lambda>r. algo r \<noteq> MS_CRYPTO_SUITE_INVALID \<and> algo r \<notin> algo ` set loc) before \<and>
        algo rc \<noteq> MS_CRYPTO_SUITE_INVALID \<and> algo k = algo rc \<and> algo lc = algo rc \<and>
        (if use_local_key then master_key k = master_key lc \<and> tag k = tag rc
         else master_key k = master_key rc \<and> tag k = tag lc))"
proof (induction loc remote use_local_key rule: matchCryptoAlgo.induct)
  case (2 loc rc remote ul)
  let ?m = "find (\<lambda>lc. algo rc = algo lc) loc"
  consider (inv) "algo rc = MS_CRYPTO_SUITE_INVALID"
    | (miss) "algo rc \<noteq> MS_CRYPTO_SUITE_INVALID" "?m = None"
    | (hit) lc where "algo rc \<noteq> MS_CRYPTO_SUITE_INVALID" "?m = Some lc" by fastforce
  then show ?case
  proof cases
    case inv
    then show ?thesis by simp
  next
    case miss
    then have no: "algo rc \<notin> algo ` set loc" by (auto simp: find_None_iff)
    show ?thesis
    proof (cases "matchCryptoAlgo loc remote ul")
      case None
      with 2 miss no show ?thesis by simp
    next
      case (Some k)
      with 2 miss obtain before r after lc where
        split: "remote = before @ r # after" "lc \<in> set loc"
          "list_all (\<lambda>r. algo r \<noteq> MS_CRYPTO_SUITE_INVALID \<and> algo r \<notin> algo ` set loc) before"
          "algo r \<noteq> MS_CRYPTO_SUITE_INVALID" "algo k = algo r" "algo lc = algo r"
          "if ul then master_key k = master_key lc \<and> tag k = tag r else master_key k = master_key r \<and> tag k = tag lc"
        by (simp, blast)
      have "rc # remote = (rc # before) @ r # after" using split(1) by simp
      moreover have "list_all (\<lambda>r. algo r \<noteq> MS_CRYPTO_SUITE_INVALID \<and> algo r \<notin> algo ` set loc) (rc # before)"
        using split(3) miss(1) no by simp
      ultimately show ?thesis using Some miss split(2,4-) by (simp, blast)
    qed
  next
    case (hit lc)
    then have lc: "lc \<in> set loc" "algo lc = algo rc" by (auto simp: find_Some_iff)
    have "rc # remote = [] @ rc # remote" by simp
    with hit lc show ?thesis by (auto intro!: exI [of _ "[]"] bexI [of _ lc])
  qed
qed simp

section \<open>Codecs\<close>

lemma generic_same_mime: "generic_same refpt pt \<Longrightarrow> \<exists>m. mime_type pt = Some m"
  by (auto simp: generic_same_def split: option.splits)

lemma genericMatch_Some:
  assumes "ortp_contract api" and "genericMatch api loc refpt = Some m"
  shows "m \<in> set loc \<and> generic_same refpt m"
  using assms by (auto simp: genericMatch_def ortp_eqs find_Some_iff)

text \<open>The fields of a merged codec.\<close>

lemma merge_matched_fields:
  assumes "ortp_contract api"
  shows "mime_type (merge_matched api m p2) = mime_type m"
    and "clock_rate (merge_matched api m p2) = clock_rate m"
    and "channels (merge_matched api m p2) = channels m"
    and "pt_type (merge_matched api m p2) = pt_type m"
    and "recv_fmtp (merge_matched api m p2) = recv_fmtp m"
    and "pt_flags (merge_matched api m p2) =
      (pt_flags m \<union> {PAYLOAD_TYPE_FLAG_CAN_RECV, PAYLOAD_TYPE_FLAG_CAN_SEND}) -
      (if PAYLOAD_TYPE_RTCP_FEEDBACK_ENABLED \<in> pt_flags p2 then {} else {PAYLOAD_TYPE_RTCP_FEEDBACK_ENABLED})"
  by (auto simp: merge_matched_def Let_def ortp_eqs [OF assms] ortp_append_fields [OF assms] split: option.splits)



text \<open>
  The reference description of what an offered or answered codec contributes: the first local codec of
  the same name, rate and channels, if there is one (forward error correction needs a bundle).
\<close>

definition codec_result :: "engine \<Rightarrow> ortp_api \<Rightarrow> bool \<Rightarrow> payloads \<Rightarrow> bool \<Rightarrow> payload_type \<Rightarrow> payloads" where
  "codec_result eng api reading_response loc bundle_enabled p2 =
     (case find (generic_same p2) loc of
        None \<Rightarrow> []
      | Some m \<Rightarrow> if mime_caseeq m ''flexfec'' = Inr True \<and> \<not> bundle_enabled then []
                  else numbered_matches eng api reading_response (pt_number m) (pt_number p2) (merge_matched api m p2))"

definition generic_codecs :: "engine \<Rightarrow> payloads \<Rightarrow> bool" where
  "generic_codecs eng remote \<longleftrightarrow> list_all (\<lambda>p. Option.bind (mime_type p) (mMsFactory eng) = None) remote"

lemma match_step_generic:
  assumes api: "ortp_contract api" and one: "\<not> mUseOneMatchingCodec eng"
    and gen: "Option.bind (mime_type p2) (mMsFactory eng) = None"
  shows "match_step eng api remote rr bundle_enabled (loc, found, acc) p2 =
    Inr (loc, found, acc @ codec_result eng api rr loc bundle_enabled p2)"
proof (cases "find (generic_same p2) loc")
  case None
  with gen show ?thesis
    by (simp add: match_step_def findPayloadTypeBestMatch_def genericMatch_def codec_result_def)
next
  case (Some m)
  then obtain s where "mime_type m = Some s"
    using generic_same_mime [of p2 m] find_SomeD [OF Some] by blast
  with Some gen one show ?thesis
    by (simp add: match_step_def findPayloadTypeBestMatch_def genericMatch_def codec_result_def ortp_eqs [OF api]
        mime_caseeq_def)
qed

lemma match_loop_generic:
  assumes api: "ortp_contract api" and one: "\<not> mUseOneMatchingCodec eng" and gen: "generic_codecs eng ps"
  shows "foldR (match_step eng api remote rr bundle_enabled) (loc, found, acc) ps =
    Inr (loc, found, acc @ concat (map (codec_result eng api rr loc bundle_enabled) ps))"
  using gen
proof (induction ps arbitrary: acc)
  case (Cons p ps)
  then have "Option.bind (mime_type p) (mMsFactory eng) = None" "generic_codecs eng ps"
    by (simp_all add: generic_codecs_def)
  with Cons.IH show ?case
    by (simp add: match_step_generic [OF api one])
qed simp












text \<open>
  An empty local list is read past its end: when no codec was offered, reading any answer takes the front of
  an empty list.
\<close>

theorem matchPayloads_response_empty:
  assumes "ortp_contract api" and "\<not> mUseOneMatchingCodec eng" and "generic_codecs eng remote"
  shows "matchPayloads eng api [] remote True bundle_enabled = Inl Front_of_empty_list"
  by (simp add: matchPayloads_def match_loop_generic [OF assms] add_compatibility_def)

theorem matchPayloads_response_empty_witness:
  "matchPayloads (new_engine (\<lambda>_. None)) sample_ortp [] [sample_pt ''speex'' 16000 1 112] True False = Inl Front_of_empty_list"
  by (rule matchPayloads_response_empty [OF sample_ortp_contract])
    (simp_all add: new_engine_def generic_codecs_def bind_eq_None_conv)

section \<open>The interface of a codec-specific matcher\<close>

text \<open>
  What the engine relies on: on lists whose codecs have a mime type, a matcher returns, its result has a
  mime type, and the local list keeps its codecs.
\<close>

locale codec_matcher =
  fixes api :: ortp_api and mtch :: matcher
  assumes matches: "ortp_contract api \<Longrightarrow> named_payloads loc \<Longrightarrow> named_payloads remote \<Longrightarrow>
    \<exists>m loc'. mtch loc refpt remote reading_response = Inr (m, loc') \<and> map mime_type loc' = map mime_type loc \<and>
      (\<forall>p. m = Some p \<longrightarrow> mime_type p \<noteq> None)"

lemma named_map: "map mime_type l = map mime_type m \<Longrightarrow> named_payloads l = named_payloads m"
  unfolding named_payloads_def by (metis (no_types, lifting) image_iff list.set_map)

lemma named_caseeq: "mime_type p \<noteq> None \<Longrightarrow> \<exists>b. mime_caseeq p s = Inr b"
  by (auto simp: mime_caseeq_def)

lemma opus_loop_total:
  assumes "ortp_contract api" and "named_payloads l" and "\<forall>p. legacy = Some p \<longrightarrow> mime_type p \<noteq> None"
  shows "\<exists>r. opus_loop api refpt l legacy = Inr r \<and> (\<forall>p. r = Some p \<longrightarrow> mime_type p \<noteq> None)"
  using assms(2,3)
proof (induction l arbitrary: legacy)
  case Nil
  then show ?case by (auto simp: ortp_eqs [OF assms(1)])
next
  case (Cons pt l)
  then obtain b where "mime_caseeq pt ''opus'' = Inr b" "mime_type pt \<noteq> None" "named_payloads l"
    by (auto simp: named_payloads_def mime_caseeq_def)
  with Cons.IH Cons.prems(2) show ?case by (auto simp: ortp_eqs [OF assms(1)])
qed

interpretation opus: codec_matcher api "opus_match api" for api
proof
  fix loc remote :: payloads and refpt :: payload_type and rr :: bool
  assume "ortp_contract api" "named_payloads loc"
  then obtain r where "opus_loop api refpt loc None = Inr r" "\<forall>p. r = Some p \<longrightarrow> mime_type p \<noteq> None"
    using opus_loop_total [of api loc None refpt] by auto
  then show "\<exists>m loc'. opus_match api loc refpt remote rr = Inr (m, loc') \<and> map mime_type loc' = map mime_type loc \<and>
      (\<forall>p. m = Some p \<longrightarrow> mime_type p \<noteq> None)"
    by (simp add: opus_match_def)
qed

interpretation g729A: codec_matcher api "g729A_match api" for api
proof
  fix loc remote :: payloads and refpt :: payload_type and rr :: bool
  assume api: "ortp_contract api" and named: "named_payloads loc"
  let ?f = "\<lambda>candidate pt. bindR (mime_caseeq pt ''G729'') (\<lambda>is_g729.
     Inr (if is_g729 \<and> channels refpt = channels pt then Some pt else candidate))"
  have "\<exists>r. foldR ?f None loc = Inr r \<and> (\<forall>p. r = Some p \<longrightarrow> mime_type p \<noteq> None)"
    by (rule foldR_ex) (use named in \<open>auto simp: named_payloads_def mime_caseeq_def split: option.splits\<close>)
  then show "\<exists>m loc'. g729A_match api loc refpt remote rr = Inr (m, loc') \<and> map mime_type loc' = map mime_type loc \<and>
      (\<forall>p. m = Some p \<longrightarrow> mime_type p \<noteq> None)"
    by (auto simp: g729A_match_def ortp_eqs [OF api])
qed

lemma red_loop_total:
  assumes api: "ortp_contract api" and named: "named_payloads l" "named_payloads remote"
  shows "\<exists>m l'. red_loop api remote l d = Inr (m, l') \<and> map mime_type l' = map mime_type (d @ l) \<and>
    (\<forall>p. m = Some p \<longrightarrow> mime_type p \<noteq> None)"
  using named(1)
proof (induction l arbitrary: d)
  case (Cons pt l)
  have "find_ifR (\<lambda>pt2. mime_caseeq pt2 (t140_mime api)) remote =
      Inr (find (\<lambda>pt2. mime_caseeq pt2 (t140_mime api) = Inr True) remote)"
    by (rule find_ifR_total) (use named(2) in \<open>auto simp: named_payloads_def mime_caseeq_def\<close>)
  moreover obtain b where "mime_caseeq pt (t140_red_mime api) = Inr b" "mime_type pt \<noteq> None" "named_payloads l"
    using Cons.prems by (auto simp: named_payloads_def mime_caseeq_def)
  moreover obtain m l' where "red_loop api remote l (d @ [pt]) = Inr (m, l')" "map mime_type l' = map mime_type ((d @ [pt]) @ l)"
    "\<forall>p. m = Some p \<longrightarrow> mime_type p \<noteq> None"
    using Cons.IH calculation(4) by blast
  ultimately show ?case
    by (cases b) (auto simp: Let_def ortp_eqs [OF api] split: option.splits)
qed simp

interpretation red: codec_matcher api "red_match api" for api
  by unfold_locales (use red_loop_total [where d = "[]"] in \<open>auto simp: red_match_def\<close>)

definition engine_wf :: "ortp_api \<Rightarrow> engine \<Rightarrow> bool" where
  "engine_wf api eng \<longleftrightarrow> (\<forall>mime f. mMsFactory eng mime = Some f \<longrightarrow> codec_matcher api f)"

text \<open>A factory that looks a provider up by its mime type, up to case, in the registered ones.\<close>

definition lookup_provider :: "(string \<times> matcher) list \<Rightarrow> string \<Rightarrow> matcher option" where
  "lookup_provider providers mime = map_option snd (find (\<lambda>(m, _). strcaseeq m mime) providers)"

lemma registered_engine_wf:
  "engine_wf api (new_engine (lookup_provider (linphone_core_register_offer_answer_providers api)))"
  by (auto simp: engine_wf_def new_engine_def lookup_provider_def linphone_core_register_offer_answer_providers_def
      intro: opus.codec_matcher_axioms g729A.codec_matcher_axioms red.codec_matcher_axioms)

lemma findPayloadTypeBestMatch_total:
  assumes "ortp_contract api" and "engine_wf api eng" and "named_payloads loc" and "named_payloads remote"
  shows "\<exists>m loc'. findPayloadTypeBestMatch eng api loc refpt remote rr = Inr (m, loc') \<and>
    map mime_type loc' = map mime_type loc \<and> (\<forall>p. m = Some p \<longrightarrow> mime_type p \<noteq> None)"
proof (cases "Option.bind (mime_type refpt) (mMsFactory eng)")
  case None
  then show ?thesis
    using genericMatch_Some [OF assms(1)] generic_same_mime by (fastforce simp: findPayloadTypeBestMatch_def)
next
  case (Some f)
  then have "codec_matcher api f" using assms(2) by (auto simp: engine_wf_def bind_eq_Some_conv)
  from codec_matcher.matches [OF this assms(1,3,4)] Some show ?thesis by (simp add: findPayloadTypeBestMatch_def)
qed


lemma numbered_named:
  assumes "ortp_contract api" and "mime_type m \<noteq> None"
  shows "named_payloads (numbered_matches eng api rr ln rn (merge_matched api m p2))"
  using assms(2)
  by (simp add: named_payloads_def numbered_matches_def Let_def ortp_eqs [OF assms(1)] merge_matched_fields [OF assms(1)])

lemma match_step_total:
  assumes api: "ortp_contract api" and eng: "engine_wf api eng" and named: "named_payloads loc" "named_payloads remote"
    "named_payloads acc"
  shows "\<exists>loc' found' acc'. match_step eng api remote rr bundle (loc, found, acc) p2 = Inr (loc', found', acc') \<and>
    map mime_type loc' = map mime_type loc \<and> named_payloads acc'"
proof -
  obtain m loc' where f: "findPayloadTypeBestMatch eng api loc p2 remote rr = Inr (m, loc')"
    "map mime_type loc' = map mime_type loc" "\<forall>p. m = Some p \<longrightarrow> mime_type p \<noteq> None"
    using findPayloadTypeBestMatch_total [OF api eng named(1,2)] by blast
  show ?thesis
  proof (cases m)
    case None
    with f named(3) show ?thesis by (simp add: match_step_def)
  next
    case (Some p)
    with f(3) obtain b c where bc: "mime_caseeq p ''telephone-event'' = Inr b" "mime_caseeq p ''flexfec'' = Inr c"
      using named_caseeq by blast
    have "named_payloads (acc @ numbered_matches eng api rr (payload_type_get_number api p) (payload_type_get_number api p2)
        (merge_matched api p p2))"
      using named(3) numbered_named [OF api] f(3) Some by (simp add: named_payloads_def ball_Un)
    with f Some bc named(3) show ?thesis by (auto simp: match_step_def Let_def)
  qed
qed

lemma add_compatibility_total:
  assumes api: "ortp_contract api" and "loc \<noteq> []" and "named_payloads loc" and "named_payloads acc"
  shows "\<exists>ps. add_compatibility api loc remote acc = Inr ps \<and> named_payloads ps"
  using assms(2-4) by (cases loc) (auto simp: add_compatibility_def ortp_eqs [OF api] named_payloads_def)

text \<open>Matching always returns, except when an answer is read against an empty local list.\<close>

lemma matchPayloads_total:
  assumes api: "ortp_contract api" and eng: "engine_wf api eng" and named: "named_payloads loc" "named_payloads remote"
    and ne: "rr \<longrightarrow> loc \<noteq> []"
  shows "\<exists>ps loc'. matchPayloads eng api loc remote rr bundle = Inr (ps, loc') \<and> named_payloads ps \<and>
    map mime_type loc' = map mime_type loc"
proof -
  let ?I = "\<lambda>(l :: payloads, f :: bool, acc). map mime_type l = map mime_type loc \<and> named_payloads acc"
  have "\<exists>st. foldR (match_step eng api remote rr bundle) (loc, False, []) remote = Inr st \<and> ?I st"
  proof (rule foldR_ex)
    fix st p assume "?I st"
    then obtain l :: payloads and f acc where st: "st = (l, f, acc)" "map mime_type l = map mime_type loc" "named_payloads acc"
      by (cases st) auto
    then have "named_payloads l" using named(1) named_map by blast
    from match_step_total [OF api eng this named(2) st(3), of rr _ f p] st(1,2)
    show "\<exists>st'. match_step eng api remote rr bundle st p = Inr st' \<and> ?I st'" by fastforce
  qed (simp add: named_payloads_def)
  then obtain l :: payloads and f acc where fold: "foldR (match_step eng api remote rr bundle) (loc, False, []) remote = Inr (l, f, acc)"
    "map mime_type l = map mime_type loc" "named_payloads acc" by auto
  have "named_payloads l" using named_map [OF fold(2)] named(1) by simp
  moreover have "rr \<longrightarrow> l \<noteq> []" using fold(2) ne by auto
  ultimately show ?thesis
    using add_compatibility_total [OF api _ _ fold(3), of l remote] fold
    by (cases rr) (auto simp: matchPayloads_def named_payloads_def)
qed

lemma onlyTelephoneEvent_total:
  "named_payloads l \<Longrightarrow> onlyTelephoneEvent l = Inr (list_all (\<lambda>p. mime_caseeq p ''telephone-event'' = Inr True) l)"
  by (induction l) (auto simp: named_payloads_def mime_caseeq_def)

end
