(* ===== verification/Offer_Answer.thy ===== *)
theory Offer_Answer
  imports Codec_Match
begin

text \<open>
  The negotiation of streams and sessions by \<open>OfferAnswerEngine\<close> (second half of
  \<open>src/sal/offeranswer.cpp\<close>).  The code changes its inputs: the chosen configuration index of both streams
  (a mutable member), the transport of a configuration when the feedback profile is downgraded (a
  \<open>const_cast\<close>), and the local codecs (by a matcher).  Every function that does so returns the changed
  inputs with its result.  \<open>ms_is_multicast\<close> belongs to mediastreamer2 and is the argument
  \<open>is_multicast\<close>.
\<close>

section \<open>Configurations\<close>

text \<open>An assignment through the reference to the configuration at an index.\<close>

definition update_cfg_at :: "u32 \<Rightarrow> (cfg \<Rightarrow> cfg) \<Rightarrow> stream \<Rightarrow> stream" where
  "update_cfg_at idx f s = s\<lparr>s_cfgs := map_update_at idx f (s_cfgs s)\<rparr>"

definition is_multicast_addr :: "(string \<Rightarrow> bool) \<Rightarrow> string \<Rightarrow> bool" where
  "is_multicast_addr is_multicast a \<longleftrightarrow> a \<noteq> '''' \<and> is_multicast a"

text \<open>\<open>strncpy\<close> of a whole array: up to the terminator, then zeroes.\<close>

definition strncpy_array :: "string \<Rightarrow> string" where
  "strncpy_array src =
     (let t = takeWhile (\<lambda>c. c \<noteq> CHR 0x00) (take 128 src) in t @ replicate (128 - length t) (CHR 0x00))"

definition zrtphash_set :: "cfg \<Rightarrow> bool" where
  "zrtphash_set c \<longleftrightarrow> cfg_zrtphash c \<noteq> [] \<and> hd (cfg_zrtphash c) \<noteq> CHR 0x00"

definition fillZrtpAttributes :: "stream \<Rightarrow> u32 \<Rightarrow> stream \<Rightarrow> u32 \<Rightarrow> cfg \<Rightarrow> cfg option" where
  "fillZrtpAttributes localStream localCfgIdx remoteStream remoteCfgIdx resultCfg =
     (let localCfg = getConfigurationAtIndex localStream localCfgIdx;
          remoteCfg = getConfigurationAtIndex remoteStream remoteCfgIdx;
          isLocalActualCfg = (actualConfigurationIndex = localCfgIdx);
          isRemoteActualCfg = (actualConfigurationIndex = remoteCfgIdx);
          potential = (\<not> isLocalActualCfg \<or> \<not> isRemoteActualCfg)
      in if potential \<and> cfg_haveZrtpHash localCfg \<noteq> cfg_haveZrtpHash remoteCfg then None
         else if cfg_haveZrtpHash remoteCfg = 1 \<or> cfg_haveZrtpHash localCfg = 1
         then (if potential \<and> LinphoneMediaEncryptionZRTP \<notin> set (s_supportedEncryption localStream) then None
               else (let r1 = (if zrtphash_set localCfg
                               then resultCfg\<lparr>cfg_zrtphash := strncpy_array (cfg_zrtphash localCfg)\<rparr> else resultCfg)
                     in Some (r1\<lparr>cfg_haveZrtpHash := (if zrtphash_set localCfg \<or> zrtphash_set remoteCfg then 1 else 0)\<rparr>)))
         else Some resultCfg)"

text \<open>The selection of the SRTP key, the same in both directions.\<close>

definition select_srtp :: "LinphoneMediaEncryption list \<Rightarrow> cfg \<Rightarrow> cfg \<Rightarrow> bool \<Rightarrow> cfg \<Rightarrow> cfg option" where
  "select_srtp availableEncs localCfg remoteCfg use_local_key resultCfg =
     (if cfg_hasSrtp resultCfg
      then (if LinphoneMediaEncryptionSRTP \<notin> set availableEncs then None
            else map_option (\<lambda>k. resultCfg\<lparr>cfg_crypto := [k]\<rparr>)
                   (matchCryptoAlgo (cfg_crypto localCfg) (cfg_crypto remoteCfg) use_local_key))
      else Some resultCfg)"

definition set_extension_ids :: "cfg \<Rightarrow> cfg \<Rightarrow> cfg \<Rightarrow> cfg" where
  "set_extension_ids localCfg remoteCfg resultCfg =
     resultCfg\<lparr>cfg_mixer_to_client_extension_id :=
                 getExtensionId (cfg_mixer_to_client_extension_id localCfg) (cfg_mixer_to_client_extension_id remoteCfg),
               cfg_client_to_mixer_extension_id :=
                 getExtensionId (cfg_client_to_mixer_extension_id localCfg) (cfg_client_to_mixer_extension_id remoteCfg),
               cfg_frame_marking_extension_id :=
                 getExtensionId (cfg_frame_marking_extension_id localCfg) (cfg_frame_marking_extension_id remoteCfg)\<rparr>"

text \<open>Both ends have a role and a fingerprint.\<close>

definition both_dtls :: "cfg \<Rightarrow> cfg \<Rightarrow> bool" where
  "both_dtls localCfg remoteCfg \<longleftrightarrow>
     cfg_dtls_role localCfg \<noteq> SalDtlsRoleInvalid \<and> cfg_dtls_role remoteCfg \<noteq> SalDtlsRoleInvalid \<and>
     cfg_dtls_fingerprint localCfg \<noteq> '''' \<and> cfg_dtls_fingerprint remoteCfg \<noteq> ''''"

text \<open>
  The downgrade of a feedback profile: the configuration at the index takes the transport of the other side,
  when it differs and the configuration has the feedback profile.
\<close>

definition downgrade :: "SalMediaProto \<Rightarrow> u32 \<Rightarrow> stream \<Rightarrow> stream" where
  "downgrade p idx s =
     (if p \<noteq> cfg_proto (getConfigurationAtIndex s idx) \<and> cfg_hasAvpf (getConfigurationAtIndex s idx)
      then update_cfg_at idx (\<lambda>c. c\<lparr>cfg_proto := p\<rparr>) s else s)"

section \<open>Reading an answer: one configuration\<close>

definition outgoing_bundle :: "cfg \<Rightarrow> cfg \<Rightarrow> cfg \<Rightarrow> cfg" where
  "outgoing_bundle localCfg remoteCfg resultCfg =
     (let r1 = resultCfg\<lparr>cfg_rtcp_mux := (cfg_rtcp_mux remoteCfg \<and> cfg_rtcp_mux localCfg)\<rparr>
      in if cfg_mid remoteCfg \<noteq> '''' \<and> cfg_mid localCfg \<noteq> ''''
         then r1\<lparr>cfg_mid := cfg_mid remoteCfg, cfg_mid_rtp_ext_header_id := cfg_mid_rtp_ext_header_id remoteCfg,
                 cfg_bundle_only := cfg_bundle_only remoteCfg, cfg_rtcp_mux := True\<rparr>
         else r1)"

definition outgoing_dtls :: "LinphoneMediaEncryption list \<Rightarrow> cfg \<Rightarrow> cfg \<Rightarrow> cfg \<Rightarrow> cfg option" where
  "outgoing_dtls availableEncs localCfg remoteCfg resultCfg =
     (if both_dtls localCfg remoteCfg
      then (if LinphoneMediaEncryptionDTLS \<notin> set availableEncs then None
            else Some (resultCfg\<lparr>cfg_dtls_fingerprint := cfg_dtls_fingerprint remoteCfg,
                   cfg_dtls_role := (if cfg_dtls_role remoteCfg = SalDtlsRoleIsClient then SalDtlsRoleIsServer
                                     else SalDtlsRoleIsClient)\<rparr>))
      else Some (resultCfg\<lparr>cfg_dtls_fingerprint := '''', cfg_dtls_role := SalDtlsRoleInvalid\<rparr>))"

text \<open>The multicast checks and the direction.\<close>

definition outgoing_dir :: "bool \<Rightarrow> cfg \<Rightarrow> cfg \<Rightarrow> cfg \<Rightarrow> cfg option" where
  "outgoing_dir multicast localCfg remoteCfg resultCfg =
     (if multicast
      then (if cfg_ptime localCfg > 0 \<and> cfg_ptime localCfg \<noteq> cfg_ptime remoteCfg then None
            else if cfg_ttl localCfg > 0 \<and> cfg_ttl localCfg \<noteq> cfg_ttl remoteCfg then None
            else Some (resultCfg\<lparr>cfg_ttl := cfg_ttl localCfg, cfg_dir := cfg_dir localCfg\<rparr>))
      else Some (resultCfg\<lparr>cfg_dir := computeDirOutgoing (cfg_dir localCfg) (cfg_dir remoteCfg)\<rparr>))"

definition outgoing_attributes :: "cfg \<Rightarrow> cfg \<Rightarrow> cfg \<Rightarrow> cfg" where
  "outgoing_attributes localCfg remoteCfg resultCfg =
     (set_extension_ids localCfg remoteCfg (outgoing_bundle localCfg remoteCfg resultCfg))
       \<lparr>cfg_conference_ssrc := cfg_conference_ssrc remoteCfg\<rparr>"

text \<open>The protection of the media: SRTP keys, ZRTP hash and DTLS fingerprint, in this order.\<close>

definition outgoing_crypto :: "stream \<Rightarrow> stream \<Rightarrow> u32 \<Rightarrow> u32 \<Rightarrow> cfg \<Rightarrow> cfg option" where
  "outgoing_crypto local_offer remote_answer localCfgIdx remoteCfgIdx resultCfg =
     (let localCfg = getConfigurationAtIndex local_offer localCfgIdx;
          remoteCfg = getConfigurationAtIndex remote_answer remoteCfgIdx;
          availableEncs = s_supportedEncryption local_offer
      in Option.bind (select_srtp availableEncs localCfg remoteCfg False resultCfg) (\<lambda>r3.
         Option.bind (fillZrtpAttributes local_offer localCfgIdx remote_answer remoteCfgIdx
            (r3\<lparr>cfg_rtp_ssrc := cfg_rtp_ssrc localCfg, cfg_rtcp_cname := cfg_rtcp_cname localCfg\<rparr>)) (\<lambda>r4.
         outgoing_dtls availableEncs localCfg remoteCfg r4)))"

text \<open>What follows the choice of the transport, up to the return.\<close>

definition outgoing_finish ::
  "(string \<Rightarrow> bool) \<Rightarrow> stream \<Rightarrow> stream \<Rightarrow> u32 \<Rightarrow> u32 \<Rightarrow> cfg \<Rightarrow> cfg option res" where
  "outgoing_finish is_multicast local_offer remote_answer localCfgIdx remoteCfgIdx resultCfg =
     (let localCfg = getConfigurationAtIndex local_offer localCfgIdx;
          remoteCfg = getConfigurationAtIndex remote_answer remoteCfgIdx
      in case outgoing_dir (is_multicast_addr is_multicast (s_rtp_addr local_offer)) localCfg remoteCfg resultCfg of
           None \<Rightarrow> Inr None
         | Some r1 \<Rightarrow>
             (let r2 = outgoing_attributes localCfg remoteCfg r1
              in bindR (if cfg_payloads r2 = [] then Inr True else onlyTelephoneEvent (cfg_payloads r2)) (\<lambda>unusable.
                 Inr (if unusable then None
                      else map_option (\<lambda>r5. r5\<lparr>
                              cfg_implicit_rtcp_fb := (cfg_implicit_rtcp_fb localCfg \<and> cfg_implicit_rtcp_fb remoteCfg),
                              cfg_acapIndexes := cfg_acapIndexes remoteCfg, cfg_tcapIndex := cfg_tcapIndex remoteCfg,
                              cfg_index := cfg_index remoteCfg\<rparr>)
                            (outgoing_crypto local_offer remote_answer localCfgIdx remoteCfgIdx
                              (r2\<lparr>cfg_ptime := cfg_ptime remoteCfg, cfg_maxptime := cfg_maxptime remoteCfg\<rparr>))))))"

text \<open>
  The result is the negotiated configuration, if any, and the local stream: the codecs a matcher wrote
  and the transport of a downgraded profile stay written when the negotiation fails later.
\<close>

definition initiateOutgoingConfiguration ::
  "engine \<Rightarrow> ortp_api \<Rightarrow> (string \<Rightarrow> bool) \<Rightarrow> stream \<Rightarrow> stream \<Rightarrow> stream \<Rightarrow> u32 \<Rightarrow> u32 \<Rightarrow> (cfg option \<times> stream) res" where
  "initiateOutgoingConfiguration eng api is_multicast local_offer remote_answer result localCfgIdx remoteCfgIdx =
     (let localCfg = getConfigurationAtIndex local_offer localCfgIdx;
          remoteCfg = getConfigurationAtIndex remote_answer remoteCfgIdx
      in bindR (cfg_eq api localCfg default_cfg) (\<lambda>noLocal.
         bindR (cfg_eq api remoteCfg default_cfg) (\<lambda>noRemote.
         if noLocal \<or> noRemote then Inr (None, local_offer)
         else (let r0 = (getActualConfiguration result)
                     \<lparr>cfg_delete_media_attributes := cfg_delete_media_attributes localCfg,
                      cfg_delete_session_attributes := cfg_delete_session_attributes localCfg\<rparr>;
                   r1 = outgoing_bundle localCfg remoteCfg r0;
                   bundle_enabled = (cfg_mid remoteCfg \<noteq> '''' \<and> cfg_mid localCfg \<noteq> '''')
               in bindR (matchPayloads eng api (cfg_payloads localCfg) (cfg_payloads remoteCfg) True bundle_enabled)
                   (\<lambda>(ps, localPayloads).
                     let local1 = update_cfg_at localCfgIdx (\<lambda>c. c\<lparr>cfg_payloads := localPayloads\<rparr>) local_offer
                     in if areProtoCompatibles (cfg_proto localCfg) (cfg_proto remoteCfg)
                        then (let local2 = downgrade (cfg_proto remoteCfg) localCfgIdx local1
                              in bindR (outgoing_finish is_multicast local2 remote_answer localCfgIdx remoteCfgIdx
                                          (r1\<lparr>cfg_payloads := ps, cfg_proto := cfg_proto remoteCfg\<rparr>))
                                   (\<lambda>r. Inr (r, local2)))
                        else Inr (None, local1))))))"

section \<open>Reading an answer: one stream\<close>

definition contains_substring :: "string \<Rightarrow> string \<Rightarrow> bool" where
  "contains_substring s t = list_ex (\<lambda>i. take (length t) (drop i s) = t) [0..<Suc (length s)]"

text \<open>The loop over the accepted configurations of the answer stops at the first that works.\<close>

definition try_outgoing ::
  "engine \<Rightarrow> ortp_api \<Rightarrow> (string \<Rightarrow> bool) \<Rightarrow> stream \<Rightarrow> stream \<Rightarrow> cfg option \<times> stream \<times> u32 \<Rightarrow> u32 \<Rightarrow>
   (cfg option \<times> stream \<times> u32) res" where
  "try_outgoing eng api is_multicast remote_answer result st idx =
     (case st of (neg, local_offer, localCfgIdx) \<Rightarrow>
        if neg \<noteq> None then Inr st
        else bindR (initiateOutgoingConfiguration eng api is_multicast local_offer remote_answer result idx
                      actualConfigurationIndex) (\<lambda>(neg', local'). Inr (neg', local', idx)))"

definition negotiate_outgoing ::
  "engine \<Rightarrow> ortp_api \<Rightarrow> (string \<Rightarrow> bool) \<Rightarrow> stream \<Rightarrow> stream \<Rightarrow> stream \<Rightarrow> bool \<Rightarrow> (cfg option \<times> stream \<times> u32) res" where
  "negotiate_outgoing eng api is_multicast local_offer remote_answer result allowCapabilityNegotiation =
     (let acfgs = (if allowCapabilityNegotiation
                   then map fst (filter (\<lambda>(_, cfgLine). contains_substring cfgLine ''acfg'') (s_unparsed_cfgs remote_answer))
                   else [])
      in foldR (try_outgoing eng api is_multicast remote_answer result) (None, local_offer, actualConfigurationIndex)
           (if acfgs = [] then [actualConfigurationIndex] else acfgs))"

text \<open>A multicast stream whose answer does not repeat the offer is refused.\<close>

definition multicast_mismatch :: "stream \<Rightarrow> stream \<Rightarrow> bool" where
  "multicast_mismatch local_offer remote_answer \<longleftrightarrow>
     s_rtp_addr local_offer \<noteq> s_rtp_addr remote_answer \<or> s_rtp_port local_offer \<noteq> s_rtp_port remote_answer \<or>
     getDirection local_offer \<noteq> getDirection remote_answer \<or> s_bandwidth local_offer \<noteq> s_bandwidth remote_answer"

text \<open>The result stream and the two inputs.\<close>

definition initiateOutgoingStream ::
  "engine \<Rightarrow> ortp_api \<Rightarrow> (string \<Rightarrow> bool) \<Rightarrow> stream \<Rightarrow> stream \<Rightarrow> bool \<Rightarrow> (stream \<times> stream \<times> stream) res" where
  "initiateOutgoingStream eng api is_multicast local_offer remote_answer allowCapabilityNegotiation =
     (let res0 = default_stream\<lparr>s_label := s_label local_offer, s_content := s_content local_offer, s_type := s_type local_offer\<rparr>;
          multicast = is_multicast_addr is_multicast (s_rtp_addr local_offer)
      in if multicast \<and> multicast_mismatch local_offer remote_answer
         then Inr (res0\<lparr>s_rtp_port := 0\<rparr>, local_offer, remote_answer)
         else (let res1 = (if multicast then res0\<lparr>s_multicast_role := SalMulticastSender\<rparr> else res0)
               in if enabled remote_answer
                  then bindR (negotiate_outgoing eng api is_multicast local_offer remote_answer res1 allowCapabilityNegotiation)
                    (\<lambda>(neg, local1, localCfgIdx).
                      case neg of
                        None \<Rightarrow> Inr (stream_disable res1, local1, remote_answer)
                      | Some resultCfg \<Rightarrow>
                          (let res2 = addActualConfiguration resultCfg res1;
                               remote1 = remote_answer\<lparr>s_cfgIndex := actualConfigurationIndex\<rparr>;
                               local2 = local1\<lparr>s_cfgIndex := localCfgIdx\<rparr>
                           in bindR (if cfg_payloads resultCfg = [] then Inr True else onlyTelephoneEvent (cfg_payloads resultCfg))
                                (\<lambda>unusable.
                                  Inr (if unusable then stream_disable res2
                                       else res2\<lparr>s_rtp_addr := s_rtp_addr remote1, s_rtp_port := s_rtp_port remote1,
                                                 s_rtcp_addr := s_rtcp_addr remote1, s_rtcp_port := s_rtcp_port remote1,
                                                 s_bandwidth := s_bandwidth remote1\<rparr>, local2, remote1))))
                  else Inr (stream_disable res1, local_offer, remote_answer)))"

section \<open>Generating an answer: one configuration\<close>

definition incoming_bundle :: "cfg \<Rightarrow> cfg \<Rightarrow> string \<Rightarrow> bool" where
  "incoming_bundle localCfg remoteCfg bundle_owner_mid \<longleftrightarrow>
     cfg_mid localCfg \<noteq> '''' \<and> cfg_mid remoteCfg \<noteq> '''' \<and> bundle_owner_mid \<noteq> '''' \<and>
     cfg_mid_rtp_ext_header_id localCfg \<noteq> 0 \<and> cfg_mid_rtp_ext_header_id remoteCfg \<noteq> 0"

definition join_bundle :: "cfg \<Rightarrow> string \<Rightarrow> cfg \<Rightarrow> cfg" where
  "join_bundle remoteCfg bundle_owner_mid resultCfg =
     (let r1 = resultCfg\<lparr>cfg_mid := cfg_mid remoteCfg, cfg_mid_rtp_ext_header_id := cfg_mid_rtp_ext_header_id remoteCfg\<rparr>;
          r2 = (if cfg_mid remoteCfg \<noteq> bundle_owner_mid then r1\<lparr>cfg_bundle_only := True\<rparr> else r1)
      in r2\<lparr>cfg_rtcp_mux := True\<rparr>)"

text \<open>Only an unset role of the offer sets the role of the answer.\<close>

definition incoming_dtls :: "LinphoneMediaEncryption list \<Rightarrow> cfg \<Rightarrow> cfg \<Rightarrow> cfg \<Rightarrow> cfg option" where
  "incoming_dtls availableEncs localCfg remoteCfg resultCfg =
     (if both_dtls localCfg remoteCfg
      then (if LinphoneMediaEncryptionDTLS \<notin> set availableEncs then None
            else (let r1 = resultCfg\<lparr>cfg_dtls_fingerprint := cfg_dtls_fingerprint localCfg\<rparr>
                  in Some (if cfg_dtls_role remoteCfg = SalDtlsRoleUnset then r1\<lparr>cfg_dtls_role := SalDtlsRoleIsClient\<rparr> else r1)))
      else Some (resultCfg\<lparr>cfg_dtls_fingerprint := '''', cfg_dtls_role := SalDtlsRoleInvalid\<rparr>))"

text \<open>Direction, packet times and multicast settings.\<close>

definition incoming_dir :: "bool \<Rightarrow> cfg \<Rightarrow> cfg \<Rightarrow> cfg \<Rightarrow> cfg" where
  "incoming_dir multicast localCfg remoteCfg resultCfg =
     (let r1 = resultCfg\<lparr>cfg_dir := computeDirIncoming (cfg_dir localCfg) (cfg_dir remoteCfg),
                 cfg_delete_media_attributes := cfg_delete_media_attributes localCfg,
                 cfg_delete_session_attributes := cfg_delete_session_attributes localCfg\<rparr>
      in if multicast
         then r1\<lparr>cfg_dir := cfg_dir remoteCfg, cfg_ptime := cfg_ptime remoteCfg,
                 cfg_maxptime := cfg_maxptime remoteCfg, cfg_ttl := cfg_ttl remoteCfg\<rparr>
         else r1\<lparr>cfg_ptime := cfg_ptime localCfg, cfg_maxptime := cfg_maxptime localCfg\<rparr>)"

definition incoming_attributes :: "cfg \<Rightarrow> cfg \<Rightarrow> cfg \<Rightarrow> cfg" where
  "incoming_attributes localCfg remoteCfg resultCfg =
     (set_extension_ids localCfg remoteCfg
        (resultCfg\<lparr>cfg_rtcp_mux := (cfg_rtcp_mux remoteCfg \<and> cfg_rtcp_mux localCfg)\<rparr>))
       \<lparr>cfg_conference_ssrc := cfg_conference_ssrc localCfg\<rparr>"

definition incoming_crypto :: "stream \<Rightarrow> stream \<Rightarrow> u32 \<Rightarrow> u32 \<Rightarrow> cfg \<Rightarrow> cfg option" where
  "incoming_crypto local_cap remote_offer localCfgIdx remoteCfgIdx resultCfg =
     (let localCfg = getConfigurationAtIndex local_cap localCfgIdx;
          remoteCfg = getConfigurationAtIndex remote_offer remoteCfgIdx;
          availableEncs = s_supportedEncryption local_cap
      in Option.bind (select_srtp availableEncs localCfg remoteCfg True resultCfg) (\<lambda>r4.
         Option.bind (fillZrtpAttributes local_cap localCfgIdx remote_offer remoteCfgIdx r4) (\<lambda>r5.
         incoming_dtls availableEncs localCfg remoteCfg
           (r5\<lparr>cfg_set_nortpproxy := cfg_set_nortpproxy localCfg, cfg_rtp_ssrc := cfg_rtp_ssrc localCfg,
               cfg_rtcp_cname := cfg_rtcp_cname localCfg\<rparr>))))"

text \<open>What follows the choice of the transport, up to the return.\<close>

definition incoming_finish ::
  "(string \<Rightarrow> bool) \<Rightarrow> stream \<Rightarrow> stream \<Rightarrow> u32 \<Rightarrow> u32 \<Rightarrow> cfg \<Rightarrow> cfg option res" where
  "incoming_finish is_multicast local_cap remote_offer localCfgIdx remoteCfgIdx resultCfg =
     (let localCfg = getConfigurationAtIndex local_cap localCfgIdx;
          remoteCfg = getConfigurationAtIndex remote_offer remoteCfgIdx;
          multicast = is_multicast_addr is_multicast (s_rtp_addr remote_offer);
          r2 = incoming_dir multicast localCfg remoteCfg resultCfg
      in if multicast \<and> cfg_hasSrtp resultCfg then Inr None
         else bindR (if cfg_payloads r2 = [] then Inr True else onlyTelephoneEvent (cfg_payloads r2)) (\<lambda>unusable.
              Inr (if unusable \<or> \<not> enabled remote_offer then None
                   else map_option (\<lambda>r6. r6\<lparr>
                           cfg_implicit_rtcp_fb := (cfg_implicit_rtcp_fb localCfg \<and> cfg_implicit_rtcp_fb remoteCfg),
                           cfg_tcapIndex := cfg_tcapIndex remoteCfg, cfg_acapIndexes := cfg_acapIndexes remoteCfg,
                           cfg_index := cfg_index remoteCfg\<rparr>)
                         (incoming_crypto local_cap remote_offer localCfgIdx remoteCfgIdx
                           (incoming_attributes localCfg remoteCfg r2)))))"

text \<open>The result is the negotiated configuration, if any, the local and the remote stream.\<close>

definition initiateIncomingConfiguration ::
  "engine \<Rightarrow> ortp_api \<Rightarrow> (string \<Rightarrow> bool) \<Rightarrow> stream \<Rightarrow> stream \<Rightarrow> stream \<Rightarrow> string \<Rightarrow> u32 \<Rightarrow> u32 \<Rightarrow>
   (cfg option \<times> stream \<times> stream) res" where
  "initiateIncomingConfiguration eng api is_multicast local_cap remote_offer result bundle_owner_mid localCfgIdx remoteCfgIdx =
     (let r0 = (if hasConfigurationAtIndex result actualConfigurationIndex then getActualConfiguration result else default_cfg);
          localCfg = getConfigurationAtIndex local_cap localCfgIdx;
          remoteCfg = getConfigurationAtIndex remote_offer remoteCfgIdx
      in bindR (cfg_eq api localCfg default_cfg) (\<lambda>noLocal.
         bindR (cfg_eq api remoteCfg default_cfg) (\<lambda>noRemote.
         if noLocal \<or> noRemote then Inr (None, local_cap, remote_offer)
         else (let bundle_enabled = incoming_bundle localCfg remoteCfg bundle_owner_mid;
                   r1 = (if bundle_enabled then join_bundle remoteCfg bundle_owner_mid r0 else r0)
               in bindR (matchPayloads eng api (cfg_payloads localCfg) (cfg_payloads remoteCfg) False bundle_enabled)
                   (\<lambda>(ps, localPayloads).
                     let local1 = update_cfg_at localCfgIdx (\<lambda>c. c\<lparr>cfg_payloads := localPayloads\<rparr>) local_cap
                     in if areProtoCompatibles (cfg_proto localCfg) (cfg_proto remoteCfg)
                        then (let remote1 = downgrade (cfg_proto localCfg) remoteCfgIdx remote_offer
                              in bindR (incoming_finish is_multicast local1 remote1 localCfgIdx remoteCfgIdx
                                          (r1\<lparr>cfg_payloads := ps,
                                              cfg_proto := cfg_proto (getConfigurationAtIndex remote1 remoteCfgIdx)\<rparr>))
                                   (\<lambda>r. Inr (r, local1, remote1)))
                        else Inr (None, local1, remote_offer))))))"

section \<open>Generating an answer: one stream\<close>

text \<open>The state of the search: the result, the two streams, and the indexes tried last.\<close>

type_synonym incoming_search = "cfg option \<times> stream \<times> stream \<times> u32 \<times> u32"

definition try_incoming ::
  "engine \<Rightarrow> ortp_api \<Rightarrow> (string \<Rightarrow> bool) \<Rightarrow> stream \<Rightarrow> string \<Rightarrow> incoming_search \<Rightarrow> u32 \<times> u32 \<Rightarrow> incoming_search res" where
  "try_incoming eng api is_multicast result bundle_owner_mid st idxs =
     (case st of (neg, local_cap, remote_offer, _, _) \<Rightarrow> case idxs of (remoteCfgIdx, localCfgIdx) \<Rightarrow>
        if neg \<noteq> None then Inr st
        else bindR (initiateIncomingConfiguration eng api is_multicast local_cap remote_offer result bundle_owner_mid
                      localCfgIdx remoteCfgIdx) (\<lambda>(neg', local', remote').
               Inr (neg', local', remote', localCfgIdx, remoteCfgIdx)))"

text \<open>Remote configurations are tried in their order, each against all local ones.\<close>

definition negotiate_incoming ::
  "engine \<Rightarrow> ortp_api \<Rightarrow> (string \<Rightarrow> bool) \<Rightarrow> stream \<Rightarrow> stream \<Rightarrow> stream \<Rightarrow> string \<Rightarrow> bool \<Rightarrow> incoming_search res" where
  "negotiate_incoming eng api is_multicast local_cap remote_offer result bundle_owner_mid allowCapabilityNegotiation =
     foldR (try_incoming eng api is_multicast result bundle_owner_mid)
       (None, local_cap, remote_offer, actualConfigurationIndex, actualConfigurationIndex)
       (if allowCapabilityNegotiation
        then List.product (map fst (s_cfgs remote_offer)) (map fst (s_cfgs local_cap))
        else [(actualConfigurationIndex, actualConfigurationIndex)])"

definition incoming_addresses :: "(string \<Rightarrow> bool) \<Rightarrow> stream \<Rightarrow> stream \<Rightarrow> stream \<Rightarrow> stream" where
  "incoming_addresses is_multicast local_cap remote_offer res =
     (if is_multicast_addr is_multicast (s_rtp_addr remote_offer)
      then res\<lparr>s_rtp_addr := s_rtp_addr remote_offer, s_rtcp_addr := s_rtcp_addr remote_offer,
               s_rtp_port := s_rtp_port remote_offer, s_rtcp_port := 0, s_bandwidth := s_bandwidth remote_offer,
               s_multicast_role := SalMulticastReceiver\<rparr>
      else res\<lparr>s_rtp_addr := s_rtp_addr local_cap, s_rtcp_addr := s_rtcp_addr local_cap,
               s_rtp_port := s_rtp_port local_cap, s_rtcp_port := s_rtcp_port local_cap,
               s_bandwidth := s_bandwidth local_cap\<rparr>)"

definition initiateIncomingStream ::
  "engine \<Rightarrow> ortp_api \<Rightarrow> (string \<Rightarrow> bool) \<Rightarrow> stream \<Rightarrow> stream \<Rightarrow> string \<Rightarrow> bool \<Rightarrow> (stream \<times> stream \<times> stream) res" where
  "initiateIncomingStream eng api is_multicast local_cap remote_offer bundle_owner_mid allowCapabilityNegotiation =
     (let res0 = default_stream\<lparr>s_name := s_name local_cap, s_type := s_type local_cap,
            s_typeother := (if s_type local_cap = SalOther then s_typeother remote_offer else ''''),
            s_ice_pwd := s_ice_pwd local_cap, s_ice_ufrag := s_ice_ufrag local_cap,
            s_ice_mismatch := s_ice_mismatch local_cap, s_ice_candidates := s_ice_candidates local_cap,
            s_ice_remote_candidates := s_ice_remote_candidates local_cap\<rparr>
      in bindR (negotiate_incoming eng api is_multicast local_cap remote_offer res0 bundle_owner_mid allowCapabilityNegotiation)
          (\<lambda>(neg, local1, remote1, localCfgIdx, remoteCfgIdx).
            let res1 = res0\<lparr>s_label := (if s_label remote1 = '''' then s_label local1 else s_label remote1),
                            s_content := s_content local1\<rparr>
            in Inr (case neg of
                 Some resultCfg \<Rightarrow>
                   (let res2 = incoming_addresses is_multicast local1 remote1 (addActualConfiguration resultCfg res1);
                        res3 = (if cfg_bundle_only resultCfg then res2\<lparr>s_rtp_port := 0\<rparr> else res2);
                        res4 = (if cfg_rtcp_mux resultCfg then res3\<lparr>s_rtcp_port := 0\<rparr> else res3)
                    in (res4, local1\<lparr>s_cfgIndex := localCfgIdx\<rparr>, remote1\<lparr>s_cfgIndex := remoteCfgIdx\<rparr>))
               | None \<Rightarrow>
                   (stream_disable (addActualConfiguration
                      ((getActualConfiguration res1)\<lparr>cfg_proto := cfg_proto (getActualConfiguration remote1)\<rparr>) res1),
                    local1, remote1))))"

section \<open>Bundles of the result\<close>

text \<open>
  One stream of the loop that rebuilds the bundles: the stream joins the front bundle, or a new one.
  The access to the chosen configuration creates it when it is missing.
\<close>

definition rebuild_bundle :: "SalStreamBundle list \<times> stream list \<Rightarrow> stream \<Rightarrow> SalStreamBundle list \<times> stream list" where
  "rebuild_bundle st s =
     (case st of (bundles, done') \<Rightarrow>
        let mid = getMid s
        in if mid \<noteq> ''''
           then (let b = (case bundles of [] \<Rightarrow> empty_bundle | front # _ \<Rightarrow> front);
                     (b', c') = addStream b (getChosenConfiguration s) mid
                 in (b' # tl bundles, done' @ [update_chosen (\<lambda>_. c') s]))
           else (bundles, done' @ [update_chosen (\<lambda>c. c) s]))"

definition rebuild_bundles :: "media_desc \<Rightarrow> media_desc" where
  "rebuild_bundles md =
     (let (bundles, ss) = foldl rebuild_bundle (md_bundles md, []) (md_streams md)
      in md\<lparr>md_bundles := bundles, md_streams := ss\<rparr>)"

text \<open>The condition under which a stream is rejected, on the owner indexes in the three descriptions.\<close>

definition bundle_incoherent :: "int \<Rightarrow> int \<Rightarrow> int \<Rightarrow> bool" where
  "bundle_incoherent result_owner_index local_owner_index remote_owner_index \<longleftrightarrow>
     (result_owner_index \<ge> 0 \<and>
        (local_owner_index \<noteq> result_owner_index \<or> remote_owner_index \<noteq> result_owner_index)) \<or>
     (result_owner_index < 0 \<and> local_owner_index \<ge> 0 \<and> remote_owner_index \<ge> 0)"

definition verify_bundle_at :: "media_desc \<Rightarrow> media_desc \<Rightarrow> media_desc \<Rightarrow> nat \<Rightarrow> media_desc res" where
  "verify_bundle_at loc remote result i =
     (if i < length (md_streams loc)
      then (if i < length (md_streams remote)
            then (let s = md_streams result ! i
                  in Inr (if bundle_incoherent (getIndexOfTransportOwner result s)
                               (getIndexOfTransportOwner loc (md_streams loc ! i))
                               (getIndexOfTransportOwner remote (md_streams remote ! i))
                          then result\<lparr>md_streams := (md_streams result)[i := stream_disable s]\<rparr>
                          else result))
            else Inl Index_out_of_range)
      else Inr result)"

definition verifyBundles :: "media_desc \<Rightarrow> media_desc \<Rightarrow> media_desc \<Rightarrow> media_desc res" where
  "verifyBundles loc remote result = foldR (verify_bundle_at loc remote) result [0..<length (md_streams result)]"

section \<open>Reading an answer\<close>

text \<open>The feedback and report settings of a negotiated stream.\<close>

definition outgoing_rtcp :: "stream \<Rightarrow> stream \<Rightarrow> cfg \<Rightarrow> cfg" where
  "outgoing_rtcp ls rs actualCfg =
     (let lc = getChosenConfiguration ls; rc = getChosenConfiguration rs;
          xr = (if xr_enabled (cfg_rtcp_xr lc) \<and> \<not> xr_enabled (cfg_rtcp_xr rc)
                then (cfg_rtcp_xr lc)\<lparr>xr_enabled := False\<rparr> else cfg_rtcp_xr lc)
      in actualCfg\<lparr>cfg_rtcp_xr := xr,
           cfg_rtcp_fb := \<lparr>generic_nack_enabled = (generic_nack_enabled (cfg_rtcp_fb lc) \<and> generic_nack_enabled (cfg_rtcp_fb rc)),
                           tmmbr_enabled = (tmmbr_enabled (cfg_rtcp_fb lc) \<and> tmmbr_enabled (cfg_rtcp_fb rc)),
                           goog_remb_enabled = (goog_remb_enabled (cfg_rtcp_fb lc) \<and> goog_remb_enabled (cfg_rtcp_fb rc))\<rparr>\<rparr>)"

text \<open>
  One media line; the state is the offer, the answer and the result streams so far.  The code binds a reference to
  \<open>remote_answer->streams[i]\<close> before it compares \<open>i\<close> with the size, so a line beyond the end of the answer is an access out of range.
\<close>

definition outgoing_line ::
  "engine \<Rightarrow> ortp_api \<Rightarrow> (string \<Rightarrow> bool) \<Rightarrow> bool \<Rightarrow> media_desc \<times> media_desc \<times> stream list \<Rightarrow> nat \<Rightarrow>
   (media_desc \<times> media_desc \<times> stream list) res" where
  "outgoing_line eng api is_multicast capneg st i =
     (case st of (local_offer, remote_answer, streams) \<Rightarrow>
        if i < length (md_streams remote_answer)
        then (let ls = md_streams local_offer ! i; rs = md_streams remote_answer ! i
              in if s_type rs = s_type ls \<and> areProtoInStreamCompatibles ls rs
                 then bindR (initiateOutgoingStream eng api is_multicast ls rs capneg) (\<lambda>(new, ls', rs').
                        let s1 = stream_assign api default_stream new;
                            s2 = addActualConfiguration (outgoing_rtcp ls' rs' (getActualConfiguration s1)) s1
                        in Inr (local_offer\<lparr>md_streams := (md_streams local_offer)[i := ls']\<rparr>,
                                remote_answer\<lparr>md_streams := (md_streams remote_answer)[i := rs']\<rparr>,
                                streams @ [stream_copy api s2]))
                 else Inr (local_offer, remote_answer, streams @ [stream_copy api default_stream]))
        else Inl Index_out_of_range)"

text \<open>The result and the two descriptions, which the negotiation changes.\<close>

definition initiateOutgoing ::
  "engine \<Rightarrow> ortp_api \<Rightarrow> (string \<Rightarrow> bool) \<Rightarrow> media_desc \<Rightarrow> media_desc \<Rightarrow> (media_desc \<times> media_desc \<times> media_desc) res" where
  "initiateOutgoing eng api is_multicast local_offer remote_answer =
     (let result = new_media_desc (md_params local_offer)
      in bindR (foldR (outgoing_line eng api is_multicast (capabilityNegotiation (md_params result)))
                  (local_offer, remote_answer, []) [0..<length (md_streams local_offer)])
          (\<lambda>(local1, remote1, streams).
            let xr = (if xr_enabled (md_rtcp_xr local1) \<and> \<not> xr_enabled (md_rtcp_xr remote1)
                      then (md_rtcp_xr local1)\<lparr>xr_enabled := False\<rparr> else md_rtcp_xr local1);
                r1 = result\<lparr>md_streams := streams, md_times := md_times local1, md_bandwidth := md_bandwidth remote1,
                       md_origin_addr := md_origin_addr remote1, md_addr := md_addr remote1,
                       md_ice_pwd := md_ice_pwd local1, md_ice_ufrag := md_ice_ufrag local1, md_rtcp_xr := xr\<rparr>;
                r2 = (if md_bundles local1 \<noteq> [] \<and> md_bundles remote1 \<noteq> [] then rebuild_bundles r1 else r1)
            in bindR (verifyBundles local1 remote1 r2) (\<lambda>r3.
                 Inr (if md_record local1 \<noteq> SalMediaRecordNone \<and> md_record remote1 \<noteq> SalMediaRecordNone
                      then r3\<lparr>md_record := md_record remote1\<rparr> else r3, local1, remote1))))"

section \<open>Generating an answer\<close>

definition incoming_rtcp :: "media_desc \<Rightarrow> stream \<Rightarrow> stream \<Rightarrow> cfg \<Rightarrow> cfg" where
  "incoming_rtcp local_capabilities ls rs actualCfg =
     (let lc = getChosenConfiguration ls; rc = getChosenConfiguration rs;
          xr = (if xr_enabled (cfg_rtcp_xr rc)
                then (if xr_enabled (cfg_rtcp_xr lc) then cfg_rtcp_xr lc
                      else if xr_enabled (md_rtcp_xr local_capabilities) then md_rtcp_xr local_capabilities
                      else no_rtcp_xr\<lparr>xr_enabled := False\<rparr>)
                else no_rtcp_xr)
      in actualCfg\<lparr>cfg_rtcp_xr := xr, cfg_rtcp_fb := cfg_rtcp_fb rc\<rparr>)"

text \<open>The line for an offered stream that is declined.\<close>

definition declined_cfg :: "stream \<Rightarrow> cfg" where
  "declined_cfg rs =
     (let c = default_cfg\<lparr>cfg_dir := SalStreamInactive, cfg_proto := getProto rs\<rparr>
      in if getProto rs = SalProtoOther then c\<lparr>cfg_proto_other := cfg_proto_other (getChosenConfiguration rs)\<rparr> else c)"

definition declined_stream :: "stream \<Rightarrow> stream" where
  "declined_stream rs =
     (let s = default_stream\<lparr>s_rtp_port := 0, s_type := s_type rs\<rparr>
      in if s_type rs = SalOther then s\<lparr>s_typeother := s_typeother rs\<rparr> else s)"

text \<open>The identifier of the stream that owns the transport of the offered stream's bundle.\<close>

definition owner_mid :: "media_desc \<Rightarrow> media_desc \<Rightarrow> stream \<Rightarrow> string" where
  "owner_mid local_capabilities remote_offer rs =
     (if md_accept_bundles local_capabilities
      then (let owner_index = getIndexOfTransportOwner remote_offer rs
            in if owner_index \<ge> 0 then getMid (md_streams remote_offer ! nat owner_index) else '''')
      else '''')"

text \<open>
  One offered line.  The code binds a reference to \<open>local_capabilities->streams[i]\<close> before it compares \<open>i\<close> with the size,
  so a line beyond the end of the local description is an access out of range; the later tests of the size are as in the code.
\<close>

definition incoming_line ::
  "engine \<Rightarrow> ortp_api \<Rightarrow> (string \<Rightarrow> bool) \<Rightarrow> bool \<Rightarrow> media_desc \<times> media_desc \<times> stream list \<Rightarrow> nat \<Rightarrow>
   (media_desc \<times> media_desc \<times> stream list) res" where
  "incoming_line eng api is_multicast capneg st i =
     (case st of (local_capabilities, remote_offer, streams) \<Rightarrow>
        let rs = md_streams remote_offer ! i; ls = md_streams local_capabilities ! i;
            has_local = (i < length (md_streams local_capabilities))
        in if \<not> has_local then Inl Index_out_of_range
           else bindR (if has_local \<and> s_type rs = s_type ls \<and> areProtoInStreamCompatibles ls rs
                  then bindR (initiateIncomingStream eng api is_multicast ls rs
                                (owner_mid local_capabilities remote_offer rs) capneg) (\<lambda>(new, ls', rs').
                         let s1 = stream_assign api default_stream new
                         in Inr (s1, incoming_rtcp local_capabilities ls' rs' (getActualConfiguration s1),
                                 local_capabilities\<lparr>md_streams := (md_streams local_capabilities)[i := ls']\<rparr>,
                                 remote_offer\<lparr>md_streams := (md_streams remote_offer)[i := rs']\<rparr>))
                  else Inr (declined_stream rs, declined_cfg rs, local_capabilities, remote_offer))
             (\<lambda>(s1, actualCfg, local1, remote1).
               let s2 = (if has_local
                         then s1\<lparr>s_custom_sdp_attributes := s_custom_sdp_attributes (md_streams local1 ! i)\<rparr> else s1)
               in Inr (local1, remote1, streams @ [stream_copy api (addActualConfiguration actualCfg s2)])))"

definition initiateIncoming ::
  "engine \<Rightarrow> ortp_api \<Rightarrow> (string \<Rightarrow> bool) \<Rightarrow> media_desc \<Rightarrow> media_desc \<Rightarrow> (media_desc \<times> media_desc \<times> media_desc) res" where
  "initiateIncoming eng api is_multicast local_capabilities remote_offer =
     (let result = new_media_desc (md_params local_capabilities);
          r0 = (if md_record remote_offer \<noteq> SalMediaRecordNone \<and> md_record local_capabilities \<noteq> SalMediaRecordNone
                then result\<lparr>md_record := md_record local_capabilities\<rparr> else result)
      in bindR (foldR (incoming_line eng api is_multicast (capabilityNegotiation (md_params result)))
                  (local_capabilities, remote_offer, []) [0..<length (md_streams remote_offer)])
          (\<lambda>(local1, remote1, streams).
            let xr = (if xr_enabled (md_rtcp_xr remote1)
                      then (if xr_enabled (md_rtcp_xr local1) \<and> md_dir local1 = SalStreamSendRecv then md_rtcp_xr local1
                            else no_rtcp_xr\<lparr>xr_enabled := False\<rparr>)
                      else no_rtcp_xr);
                r1 = r0\<lparr>md_streams := streams, md_username := md_username local1, md_addr := md_addr local1,
                       md_times := md_times remote1, md_bandwidth := md_bandwidth local1,
                       md_origin_addr := md_origin_addr local1, md_session_ver := md_session_ver local1,
                       md_session_id := md_session_id local1, md_ice_pwd := md_ice_pwd local1,
                       md_ice_ufrag := md_ice_ufrag local1, md_ice_lite := md_ice_lite local1,
                       md_set_nortpproxy := md_set_nortpproxy local1,
                       md_custom_sdp_attributes := md_custom_sdp_attributes local1, md_name := md_name local1,
                       md_rtcp_xr := xr\<rparr>
            in bindR (verifyBundles local1 remote1 (rebuild_bundles r1)) (\<lambda>r2. Inr (r2, local1, remote1))))"

section \<open>Steps of a configuration\<close>

lemma cfg_eq_default_total: "\<exists>b. cfg_eq api c default_cfg = Inr b"
proof -
  have "\<exists>b. isSamePayloadList api (cfg_payloads c) [] = Inr b" by (cases "cfg_payloads c") auto
  then show ?thesis by (auto simp: cfg_eq_def cfg_equal_def zrtpChanges_def default_cfg_def)
qed

lemma getConfigurationAtIndex_update:
  "getConfigurationAtIndex (update_cfg_at i f s) j =
     (if j = i \<and> hasConfigurationAtIndex s i then f (getConfigurationAtIndex s j) else getConfigurationAtIndex s j)"
  by (auto simp: getConfigurationAtIndex_def hasConfigurationAtIndex_def update_cfg_at_def map_of_map_update_at
      split: option.splits)

lemma update_cfg_at_fields [simp]:
  "s_supportedEncryption (update_cfg_at i f s) = s_supportedEncryption s"
  "s_rtp_addr (update_cfg_at i f s) = s_rtp_addr s"
  "s_rtp_port (update_cfg_at i f s) = s_rtp_port s"
  "s_cfgIndex (update_cfg_at i f s) = s_cfgIndex s"
  "s_type (update_cfg_at i f s) = s_type s"
  "map fst (s_cfgs (update_cfg_at i f s)) = map fst (s_cfgs s)"
  by (simp_all add: update_cfg_at_def)

text \<open>Writing a member that a reader of the configuration does not look at changes nothing for it.\<close>

lemma update_cfg_at_proj:
  assumes "\<And>c. g (f c) = g c"
  shows "g (getConfigurationAtIndex (update_cfg_at i f s) j) = g (getConfigurationAtIndex s j)"
  using assms by (simp add: getConfigurationAtIndex_update)

lemma enabled_update_cfg_at:
  assumes "\<And>c. cfg_bundle_only (f c) = cfg_bundle_only c" and "\<And>c. cfg_dir (f c) = cfg_dir c"
  shows "enabled (update_cfg_at i f s) = enabled s"
  using assms by (simp add: enabled_def isBundleOnly_def getDirection_def getChosenConfiguration_def update_cfg_at_proj)

lemma select_srtp_Some:
  assumes "select_srtp encs lc rc ul c = Some d"
  shows "\<exists>ks. d = c\<lparr>cfg_crypto := ks\<rparr> \<and>
    (if cfg_hasSrtp c then LinphoneMediaEncryptionSRTP \<in> set encs \<and>
        (\<exists>k. matchCryptoAlgo (cfg_crypto lc) (cfg_crypto rc) ul = Some k \<and> ks = [k])
     else ks = cfg_crypto c)"
  using assms by (cases c) (auto simp: select_srtp_def split: if_splits)

lemma fillZrtpAttributes_Some:
  assumes "fillZrtpAttributes l li r ri c = Some d"
  shows "\<exists>h n. d = c\<lparr>cfg_zrtphash := h, cfg_haveZrtpHash := n\<rparr>"
  using assms by (cases c) (auto simp: fillZrtpAttributes_def Let_def split: if_splits)

lemma incoming_dtls_Some:
  assumes "incoming_dtls encs lc rc c = Some d"
  shows "d = c\<lparr>cfg_dtls_fingerprint := (if both_dtls lc rc then cfg_dtls_fingerprint lc else ''''),
     cfg_dtls_role := (if \<not> both_dtls lc rc then SalDtlsRoleInvalid
                       else if cfg_dtls_role rc = SalDtlsRoleUnset then SalDtlsRoleIsClient else cfg_dtls_role c)\<rparr> \<and>
    (both_dtls lc rc \<longrightarrow> LinphoneMediaEncryptionDTLS \<in> set encs)"
  using assms by (cases c) (auto simp: incoming_dtls_def Let_def split: if_splits)

lemma outgoing_dtls_Some:
  assumes "outgoing_dtls encs lc rc c = Some d"
  shows "d = c\<lparr>cfg_dtls_fingerprint := (if both_dtls lc rc then cfg_dtls_fingerprint rc else ''''),
     cfg_dtls_role := (if \<not> both_dtls lc rc then SalDtlsRoleInvalid
                       else if cfg_dtls_role rc = SalDtlsRoleIsClient then SalDtlsRoleIsServer else SalDtlsRoleIsClient)\<rparr> \<and>
    (both_dtls lc rc \<longrightarrow> LinphoneMediaEncryptionDTLS \<in> set encs)"
  using assms by (cases c) (auto simp: outgoing_dtls_def split: if_splits)

lemma incoming_dir_fields [simp]:
  "cfg_payloads (incoming_dir m lc rc c) = cfg_payloads c" "cfg_proto (incoming_dir m lc rc c) = cfg_proto c"
  "cfg_mid (incoming_dir m lc rc c) = cfg_mid c" "cfg_bundle_only (incoming_dir m lc rc c) = cfg_bundle_only c"
  "cfg_dir (incoming_dir m lc rc c) = (if m then cfg_dir rc else computeDirIncoming (cfg_dir lc) (cfg_dir rc))"
  "cfg_crypto (incoming_dir m lc rc c) = cfg_crypto c" "cfg_dtls_role (incoming_dir m lc rc c) = cfg_dtls_role c"
  by (simp_all add: incoming_dir_def Let_def)

lemma incoming_attributes_fields [simp]:
  "cfg_payloads (incoming_attributes lc rc c) = cfg_payloads c" "cfg_proto (incoming_attributes lc rc c) = cfg_proto c"
  "cfg_mid (incoming_attributes lc rc c) = cfg_mid c" "cfg_bundle_only (incoming_attributes lc rc c) = cfg_bundle_only c"
  "cfg_dir (incoming_attributes lc rc c) = cfg_dir c" "cfg_crypto (incoming_attributes lc rc c) = cfg_crypto c"
  "cfg_dtls_role (incoming_attributes lc rc c) = cfg_dtls_role c"
  "cfg_rtcp_mux (incoming_attributes lc rc c) = (cfg_rtcp_mux rc \<and> cfg_rtcp_mux lc)"
  by (simp_all add: incoming_attributes_def set_extension_ids_def)

lemma outgoing_attributes_fields [simp]:
  "cfg_payloads (outgoing_attributes lc rc c) = cfg_payloads c" "cfg_proto (outgoing_attributes lc rc c) = cfg_proto c"
  "cfg_dir (outgoing_attributes lc rc c) = cfg_dir c" "cfg_crypto (outgoing_attributes lc rc c) = cfg_crypto c"
  "cfg_rtcp_mux (outgoing_attributes lc rc c) =
     (cfg_mid rc \<noteq> '''' \<and> cfg_mid lc \<noteq> '''' \<or> cfg_rtcp_mux rc \<and> cfg_rtcp_mux lc)"
  by (simp_all add: outgoing_attributes_def set_extension_ids_def outgoing_bundle_def Let_def)

text \<open>What the protection steps guarantee of a configuration they let through, and what they leave alone.\<close>

definition protected_by :: "LinphoneMediaEncryption list \<Rightarrow> cfg \<Rightarrow> cfg \<Rightarrow> bool \<Rightarrow> cfg \<Rightarrow> cfg \<Rightarrow> bool" where
  "protected_by encs lc rc use_local_key c0 c \<longleftrightarrow>
     (if cfg_hasSrtp c0 then LinphoneMediaEncryptionSRTP \<in> set encs \<and>
        (\<exists>k. matchCryptoAlgo (cfg_crypto lc) (cfg_crypto rc) use_local_key = Some k \<and> cfg_crypto c = [k])
      else cfg_crypto c = cfg_crypto c0) \<and>
     (if both_dtls lc rc
      then LinphoneMediaEncryptionDTLS \<in> set encs \<and> cfg_dtls_fingerprint c = cfg_dtls_fingerprint (if use_local_key then lc else rc)
      else cfg_dtls_fingerprint c = '''' \<and> cfg_dtls_role c = SalDtlsRoleInvalid)"

definition same_media :: "cfg \<Rightarrow> cfg \<Rightarrow> bool" where
  "same_media c d \<longleftrightarrow> cfg_payloads c = cfg_payloads d \<and> cfg_proto c = cfg_proto d \<and> cfg_mid c = cfg_mid d \<and>
     cfg_bundle_only c = cfg_bundle_only d \<and> cfg_dir c = cfg_dir d \<and> cfg_rtcp_mux c = cfg_rtcp_mux d \<and>
     cfg_ptime c = cfg_ptime d"

lemma incoming_crypto_Some:
  assumes "incoming_crypto l r li ri c0 = Some c"
  shows "protected_by (s_supportedEncryption l) (getConfigurationAtIndex l li) (getConfigurationAtIndex r ri) True c0 c"
    and "same_media c c0"
    and "both_dtls (getConfigurationAtIndex l li) (getConfigurationAtIndex r ri) \<Longrightarrow>
      cfg_dtls_role c = (if cfg_dtls_role (getConfigurationAtIndex r ri) = SalDtlsRoleUnset then SalDtlsRoleIsClient
                         else cfg_dtls_role c0)"
proof -
  let ?lc = "getConfigurationAtIndex l li" and ?rc = "getConfigurationAtIndex r ri"
  obtain r4 r5 where r4: "select_srtp (s_supportedEncryption l) ?lc ?rc True c0 = Some r4"
    and r5: "fillZrtpAttributes l li r ri r4 = Some r5"
    and c: "incoming_dtls (s_supportedEncryption l) ?lc ?rc
           (r5\<lparr>cfg_set_nortpproxy := cfg_set_nortpproxy ?lc, cfg_rtp_ssrc := cfg_rtp_ssrc ?lc,
               cfg_rtcp_cname := cfg_rtcp_cname ?lc\<rparr>) = Some c"
    using assms by (auto simp: incoming_crypto_def Let_def bind_eq_Some_conv)
  from select_srtp_Some [OF r4] fillZrtpAttributes_Some [OF r5] incoming_dtls_Some [OF c]
  show "protected_by (s_supportedEncryption l) ?lc ?rc True c0 c" "same_media c c0"
    "both_dtls ?lc ?rc \<Longrightarrow> cfg_dtls_role c = (if cfg_dtls_role ?rc = SalDtlsRoleUnset then SalDtlsRoleIsClient else cfg_dtls_role c0)"
    by (auto simp: protected_by_def same_media_def)
qed

lemma outgoing_crypto_Some:
  assumes "outgoing_crypto l r li ri c0 = Some c"
  shows "protected_by (s_supportedEncryption l) (getConfigurationAtIndex l li) (getConfigurationAtIndex r ri) False c0 c"
    and "same_media c c0"
    and "both_dtls (getConfigurationAtIndex l li) (getConfigurationAtIndex r ri) \<Longrightarrow>
      cfg_dtls_role c = (if cfg_dtls_role (getConfigurationAtIndex r ri) = SalDtlsRoleIsClient then SalDtlsRoleIsServer
                         else SalDtlsRoleIsClient)"
proof -
  let ?lc = "getConfigurationAtIndex l li" and ?rc = "getConfigurationAtIndex r ri"
  obtain r3 r4 where r3: "select_srtp (s_supportedEncryption l) ?lc ?rc False c0 = Some r3"
    and r4: "fillZrtpAttributes l li r ri (r3\<lparr>cfg_rtp_ssrc := cfg_rtp_ssrc ?lc, cfg_rtcp_cname := cfg_rtcp_cname ?lc\<rparr>) = Some r4"
    and c: "outgoing_dtls (s_supportedEncryption l) ?lc ?rc r4 = Some c"
    using assms by (auto simp: outgoing_crypto_def Let_def bind_eq_Some_conv)
  from select_srtp_Some [OF r3] fillZrtpAttributes_Some [OF r4] outgoing_dtls_Some [OF c]
  show "protected_by (s_supportedEncryption l) ?lc ?rc False c0 c" "same_media c c0"
    "both_dtls ?lc ?rc \<Longrightarrow> cfg_dtls_role c = (if cfg_dtls_role ?rc = SalDtlsRoleIsClient then SalDtlsRoleIsServer else SalDtlsRoleIsClient)"
    by (auto simp: protected_by_def same_media_def)
qed

lemma incoming_finish_Some:
  assumes "incoming_finish mc l r li ri c0 = Inr (Some c)"
  obtains c2 where
    "incoming_crypto l r li ri (incoming_attributes (getConfigurationAtIndex l li) (getConfigurationAtIndex r ri)
       (incoming_dir (is_multicast_addr mc (s_rtp_addr r)) (getConfigurationAtIndex l li) (getConfigurationAtIndex r ri) c0)) = Some c2"
    "same_media c c2" "cfg_crypto c = cfg_crypto c2" "cfg_dtls_fingerprint c = cfg_dtls_fingerprint c2"
    "cfg_dtls_role c = cfg_dtls_role c2" "enabled r" "cfg_payloads c0 \<noteq> []" "onlyTelephoneEvent (cfg_payloads c0) = Inr False"
    "\<not> (is_multicast_addr mc (s_rtp_addr r) \<and> cfg_hasSrtp c0)"
proof -
  from assms have pay: "cfg_payloads c0 \<noteq> []" "onlyTelephoneEvent (cfg_payloads c0) = Inr False" "enabled r"
    "\<not> (is_multicast_addr mc (s_rtp_addr r) \<and> cfg_hasSrtp c0)"
    unfolding incoming_finish_def Let_def by (auto simp: bindR_eq_Inr split: if_splits)
  with assms show ?thesis
    unfolding incoming_finish_def Let_def by (auto simp: same_media_def intro: that)
qed

lemma outgoing_finish_Some:
  assumes "outgoing_finish mc l r li ri c0 = Inr (Some c)"
  obtains c1 c2 where
    "outgoing_dir (is_multicast_addr mc (s_rtp_addr l)) (getConfigurationAtIndex l li) (getConfigurationAtIndex r ri) c0 = Some c1"
    "outgoing_crypto l r li ri ((outgoing_attributes (getConfigurationAtIndex l li) (getConfigurationAtIndex r ri) c1)
       \<lparr>cfg_ptime := cfg_ptime (getConfigurationAtIndex r ri), cfg_maxptime := cfg_maxptime (getConfigurationAtIndex r ri)\<rparr>) = Some c2"
    "same_media c c2" "cfg_crypto c = cfg_crypto c2" "cfg_dtls_fingerprint c = cfg_dtls_fingerprint c2"
    "cfg_dtls_role c = cfg_dtls_role c2" "cfg_payloads c1 \<noteq> []" "onlyTelephoneEvent (cfg_payloads c1) = Inr False"
proof -
  from assms obtain c1 where c1: "outgoing_dir (is_multicast_addr mc (s_rtp_addr l)) (getConfigurationAtIndex l li) (getConfigurationAtIndex r ri) c0 = Some c1"
    unfolding outgoing_finish_def Let_def by (auto split: option.splits)
  with assms have "cfg_payloads c1 \<noteq> []" "onlyTelephoneEvent (cfg_payloads c1) = Inr False"
    unfolding outgoing_finish_def Let_def by (auto simp: bindR_eq_Inr split: if_splits)
  with assms c1 show ?thesis
    unfolding outgoing_finish_def Let_def by (auto simp: same_media_def intro: that)
qed

section \<open>Negotiated configurations\<close>

lemma areProtoCompatibles_sym: "areProtoCompatibles p q = areProtoCompatibles q p"
  by (cases p; cases q) (simp_all add: areProtoCompatibles_def)

lemma areProtoCompatibles_trans: "areProtoCompatibles p q \<Longrightarrow> areProtoCompatibles q r \<Longrightarrow> areProtoCompatibles p r"
  by (cases p; cases q; cases r) (simp_all add: areProtoCompatibles_def)

lemma areProtoCompatibles_refl [simp]: "areProtoCompatibles p p"
  by (cases p) (simp_all add: areProtoCompatibles_def)

lemma compatible_srtp: "areProtoCompatibles (cfg_proto c) (cfg_proto d) \<Longrightarrow> cfg_hasSrtp c = cfg_hasSrtp d"
  by (cases "cfg_proto c"; cases "cfg_proto d") (simp_all add: areProtoCompatibles_def cfg_hasSrtp_def)

lemma hasSrtp_cong: "cfg_proto c = cfg_proto d \<Longrightarrow> cfg_hasSrtp c = cfg_hasSrtp d"
  by (simp add: cfg_hasSrtp_def)

lemma both_dtls_cong:
  "cfg_dtls_role a = cfg_dtls_role c \<Longrightarrow> cfg_dtls_fingerprint a = cfg_dtls_fingerprint c \<Longrightarrow>
   cfg_dtls_role b = cfg_dtls_role d \<Longrightarrow> cfg_dtls_fingerprint b = cfg_dtls_fingerprint d \<Longrightarrow> both_dtls a b = both_dtls c d"
  by (simp add: both_dtls_def)

lemma downgrade_proj:
  "(\<And>c. g (c\<lparr>cfg_proto := p\<rparr>) = g c) \<Longrightarrow> g (getConfigurationAtIndex (downgrade p i s) j) = g (getConfigurationAtIndex s j)"
  by (simp add: downgrade_def update_cfg_at_proj)

lemma default_no_avpf: "\<not> cfg_hasAvpf default_cfg"
  by (simp add: cfg_hasAvpf_def default_cfg_def)

lemma downgrade_proto:
  assumes "areProtoCompatibles p (cfg_proto (getConfigurationAtIndex s i))"
  shows "areProtoCompatibles p (cfg_proto (getConfigurationAtIndex (downgrade p i s) i))"
proof (cases "p \<noteq> cfg_proto (getConfigurationAtIndex s i) \<and> cfg_hasAvpf (getConfigurationAtIndex s i)")
  case True
  then have "hasConfigurationAtIndex s i"
    using default_no_avpf by (auto simp: hasConfigurationAtIndex_def getConfigurationAtIndex_def split: option.splits)
  with True show ?thesis by (simp add: downgrade_def getConfigurationAtIndex_update)
qed (use assms in \<open>auto simp: downgrade_def\<close>)

lemma incoming_configuration_Some:
  assumes "initiateIncomingConfiguration eng api mc l r res owner li ri = Inr (Some c, l', r')"
  obtains ps lp c0 where
    "matchPayloads eng api (cfg_payloads (getConfigurationAtIndex l li)) (cfg_payloads (getConfigurationAtIndex r ri)) False
       (incoming_bundle (getConfigurationAtIndex l li) (getConfigurationAtIndex r ri) owner) = Inr (ps, lp)"
    "areProtoCompatibles (cfg_proto (getConfigurationAtIndex l li)) (cfg_proto (getConfigurationAtIndex r ri))"
    "l' = update_cfg_at li (\<lambda>c. c\<lparr>cfg_payloads := lp\<rparr>) l"
    "r' = downgrade (cfg_proto (getConfigurationAtIndex l li)) ri r"
    "incoming_finish mc l' r' li ri c0 = Inr (Some c)" "cfg_payloads c0 = ps"
    "cfg_proto c0 = cfg_proto (getConfigurationAtIndex r' ri)"
    "incoming_bundle (getConfigurationAtIndex l li) (getConfigurationAtIndex r ri) owner \<longrightarrow>
       cfg_mid c0 = cfg_mid (getConfigurationAtIndex r ri)"
    "\<not> hasConfigurationAtIndex res actualConfigurationIndex \<longrightarrow> cfg_dtls_role c0 = SalDtlsRoleInvalid"
proof -
  let ?lc = "getConfigurationAtIndex l li" and ?rc = "getConfigurationAtIndex r ri"
  obtain a b where ab: "cfg_eq api ?lc default_cfg = Inr a" "cfg_eq api ?rc default_cfg = Inr b"
    using cfg_eq_default_total by metis
  have "\<not> a" "\<not> b"
    using assms ab by (auto simp: initiateIncomingConfiguration_def Let_def split: if_splits)
  with assms ab obtain ps lp where match: "matchPayloads eng api (cfg_payloads ?lc) (cfg_payloads ?rc) False (incoming_bundle ?lc ?rc owner) = Inr (ps, lp)"
    and rest: "areProtoCompatibles (cfg_proto ?lc) (cfg_proto ?rc)" "l' = update_cfg_at li (\<lambda>c. c\<lparr>cfg_payloads := lp\<rparr>) l"
      "r' = downgrade (cfg_proto ?lc) ri r"
      "incoming_finish mc l' r' li ri
        ((if incoming_bundle ?lc ?rc owner
          then join_bundle ?rc owner (if hasConfigurationAtIndex res actualConfigurationIndex then getActualConfiguration res else default_cfg)
          else (if hasConfigurationAtIndex res actualConfigurationIndex then getActualConfiguration res else default_cfg))
         \<lparr>cfg_payloads := ps, cfg_proto := cfg_proto (getConfigurationAtIndex r' ri)\<rparr>) = Inr (Some c)"
    unfolding initiateIncomingConfiguration_def Let_def
    by (auto simp: bindR_eq_Inr split: if_splits)
  show ?thesis
    by (rule that [OF match rest]) (simp_all add: join_bundle_def Let_def default_cfg_def)
qed

lemma incoming_configuration_enabled:
  assumes "initiateIncomingConfiguration eng api mc l r res owner li ri = Inr (Some c, l', r')"
  shows "enabled r"
proof -
  from assms obtain c0 where "r' = downgrade (cfg_proto (getConfigurationAtIndex l li)) ri r" "incoming_finish mc l' r' li ri c0 = Inr (Some c)"
    by (rule incoming_configuration_Some)
  moreover from this(2) have "enabled r'" by (rule incoming_finish_Some)
  ultimately show ?thesis by (simp add: downgrade_def enabled_update_cfg_at split: if_splits)
qed

text \<open>
  C1: An answered configuration keeps the protection of the offer.  Its transport is of the same kind as the offered and the
  local one, so protection is never dropped or invented.  SRTP is only answered when the stream supports it, with exactly one key:
  a suite both ends listed, the local master key under the tag of the offer.  DTLS is only answered when the stream
  supports it.  The answer has a codec besides telephone events and the offered stream was enabled.  Off
  multicast the direction is the largest one both ends allow: the answerer sends exactly when its own configuration sends and the offered one receives, and receives
  exactly when its own receives and the offered one sends; on multicast it is the offered direction.
\<close>

theorem incoming_configuration_protected:
  assumes ok: "initiateIncomingConfiguration eng api mc l r res owner li ri = Inr (Some c, l', r')"
    and lc: "lc = getConfigurationAtIndex l li" and rc: "rc = getConfigurationAtIndex r ri"
  shows "areProtoCompatibles (cfg_proto lc) (cfg_proto c) \<and> areProtoCompatibles (cfg_proto rc) (cfg_proto c) \<and>
    (cfg_hasSrtp rc \<longrightarrow> LinphoneMediaEncryptionSRTP \<in> set (s_supportedEncryption l) \<and>
       (\<exists>k. cfg_crypto c = [k] \<and> algo k \<noteq> MS_CRYPTO_SUITE_INVALID \<and>
         (\<exists>rk \<in> set (cfg_crypto rc). \<exists>lk \<in> set (cfg_crypto lc). algo rk = algo k \<and> algo lk = algo k \<and>
            master_key k = master_key lk \<and> tag k = tag rk))) \<and>
    (both_dtls lc rc \<longrightarrow> LinphoneMediaEncryptionDTLS \<in> set (s_supportedEncryption l)) \<and>
    cfg_payloads c \<noteq> [] \<and> onlyTelephoneEvent (cfg_payloads c) = Inr False \<and> enabled r \<and>
    (if is_multicast_addr mc (s_rtp_addr r) then cfg_dir c = cfg_dir rc
     else (sends (cfg_dir c) \<longleftrightarrow> sends (cfg_dir lc) \<and> receives (cfg_dir rc)) \<and> (receives (cfg_dir c) \<longleftrightarrow> receives (cfg_dir lc) \<and> sends (cfg_dir rc)))"
proof -
  from ok obtain ps lp c0 where
    compat: "areProtoCompatibles (cfg_proto lc) (cfg_proto rc)" and
    l': "l' = update_cfg_at li (\<lambda>c. c\<lparr>cfg_payloads := lp\<rparr>) l" and
    r': "r' = downgrade (cfg_proto lc) ri r" and
    fin: "incoming_finish mc l' r' li ri c0 = Inr (Some c)" and
    c0: "cfg_payloads c0 = ps" "cfg_proto c0 = cfg_proto (getConfigurationAtIndex r' ri)"
    by (rule incoming_configuration_Some) (simp add: lc rc)
  let ?lc = "getConfigurationAtIndex l' li" and ?rc = "getConfigurationAtIndex r' ri"
  have le: "cfg_crypto ?lc = cfg_crypto lc" "cfg_dir ?lc = cfg_dir lc" "cfg_dtls_role ?lc = cfg_dtls_role lc"
    "cfg_dtls_fingerprint ?lc = cfg_dtls_fingerprint lc" "cfg_proto ?lc = cfg_proto lc"
    unfolding l' lc by (rule update_cfg_at_proj; simp)+
  have re: "cfg_crypto ?rc = cfg_crypto rc" "cfg_dir ?rc = cfg_dir rc" "cfg_dtls_role ?rc = cfg_dtls_role rc"
    "cfg_dtls_fingerprint ?rc = cfg_dtls_fingerprint rc"
    unfolding r' rc by (rule downgrade_proj; simp)+
  have addr: "s_rtp_addr r' = s_rtp_addr r" "enabled r' = enabled r" "s_supportedEncryption l' = s_supportedEncryption l"
    unfolding r' l' downgrade_def by (simp_all add: enabled_update_cfg_at)
  have dtls: "both_dtls ?lc ?rc = both_dtls lc rc" using le re by (intro both_dtls_cong)
  from fin obtain c2 where
    c2: "incoming_crypto l' r' li ri (incoming_attributes ?lc ?rc (incoming_dir (is_multicast_addr mc (s_rtp_addr r')) ?lc ?rc c0)) = Some c2" and
    media: "same_media c c2" "cfg_crypto c = cfg_crypto c2" and
    usable: "enabled r'" "cfg_payloads c0 \<noteq> []" "onlyTelephoneEvent (cfg_payloads c0) = Inr False"
    by (rule incoming_finish_Some)
  note crypto = incoming_crypto_Some(1,2) [OF c2]
  have proto: "areProtoCompatibles (cfg_proto lc) (cfg_proto c)"
    using media crypto(2) c0(2) downgrade_proto [of "cfg_proto lc" r ri] compat unfolding rc r' by (simp add: same_media_def)
  with compat have proto': "areProtoCompatibles (cfg_proto rc) (cfg_proto c)"
    by (blast intro: areProtoCompatibles_trans areProtoCompatibles_sym [THEN iffD1])
  have srtp: "cfg_hasSrtp (incoming_attributes ?lc ?rc (incoming_dir (is_multicast_addr mc (s_rtp_addr r')) ?lc ?rc c0)) = cfg_hasSrtp rc"
    using proto' media crypto(2) by (intro compatible_srtp) (simp add: same_media_def areProtoCompatibles_sym)
  have pay: "cfg_payloads c = cfg_payloads c0" "cfg_dir c = (if is_multicast_addr mc (s_rtp_addr r) then cfg_dir rc else computeDirIncoming (cfg_dir lc) (cfg_dir rc))"
    using media crypto(2) le re addr by (simp_all add: same_media_def)
  from crypto(1) have keys: "cfg_hasSrtp rc \<longrightarrow> LinphoneMediaEncryptionSRTP \<in> set (s_supportedEncryption l) \<and>
      (\<exists>k. matchCryptoAlgo (cfg_crypto lc) (cfg_crypto rc) True = Some k \<and> cfg_crypto c = [k])"
    "both_dtls lc rc \<longrightarrow> LinphoneMediaEncryptionDTLS \<in> set (s_supportedEncryption l)"
    unfolding protected_by_def srtp [unfolded addr] dtls le re addr media(2) by (auto split: if_splits)
  have "\<exists>k. cfg_crypto c = [k] \<and> algo k \<noteq> MS_CRYPTO_SUITE_INVALID \<and>
         (\<exists>rk \<in> set (cfg_crypto rc). \<exists>lk \<in> set (cfg_crypto lc). algo rk = algo k \<and> algo lk = algo k \<and>
            master_key k = master_key lk \<and> tag k = tag rk)" if "cfg_hasSrtp rc"
    using keys(1) that matchCryptoAlgo_Some [of "cfg_crypto lc" "cfg_crypto rc" True] by fastforce
  with keys proto proto' pay usable addr show ?thesis using computeDirIncoming_meet [of "cfg_dir lc" "cfg_dir rc"] by auto
qed

definition srtp_line :: "string \<Rightarrow> u32 \<Rightarrow> stream" where
  "srtp_line key t = default_stream\<lparr>s_rtp_addr := ''10.0.0.1'', s_rtp_port := 7078,
     s_supportedEncryption := [LinphoneMediaEncryptionSRTP],
     s_cfgs := [(0, default_cfg\<lparr>cfg_proto := SalProtoRtpSavp, cfg_dir := SalStreamSendRecv,
        cfg_payloads := [sample_pt ''pcmu'' 8000 1 0],
        cfg_crypto := [\<lparr>tag = t, algo = MS_CRYPTO_SUITE 1, master_key = key\<rparr>]\<rparr>)]\<rparr>"

lemma srtp_line_answered:
  "\<exists>c l' r'. initiateIncomingConfiguration (new_engine (\<lambda>_. None)) sample_ortp (\<lambda>_. False)
     (srtp_line ''local'' 1) (srtp_line ''remote'' 7) default_stream '''' 0 0 = Inr (Some c, l', r')"
proof -
  have "case initiateIncomingConfiguration (new_engine (\<lambda>_. None)) sample_ortp (\<lambda>_. False)
     (srtp_line ''local'' 1) (srtp_line ''remote'' 7) default_stream '''' 0 0 of Inr (Some c, l', r') \<Rightarrow> True | _ \<Rightarrow> False"
    by code_simp
  then show ?thesis by (auto split: sum.splits prod.splits option.splits)
qed

theorem incoming_configuration_protected_witness:
  "\<exists>c l' r'. initiateIncomingConfiguration (new_engine (\<lambda>_. None)) sample_ortp (\<lambda>_. False)
     (srtp_line ''local'' 1) (srtp_line ''remote'' 7) default_stream '''' 0 0 = Inr (Some c, l', r') \<and>
     (\<exists>k. cfg_crypto c = [k] \<and> master_key k = ''local'' \<and> tag k = 7)"
proof -
  from srtp_line_answered obtain c l' r' where ok: "initiateIncomingConfiguration (new_engine (\<lambda>_. None)) sample_ortp (\<lambda>_. False)
     (srtp_line ''local'' 1) (srtp_line ''remote'' 7) default_stream '''' 0 0 = Inr (Some c, l', r')" by blast
  have line: "cfg_hasSrtp (getConfigurationAtIndex (srtp_line k t) 0)"
    "cfg_crypto (getConfigurationAtIndex (srtp_line k t) 0) = [\<lparr>tag = t, algo = MS_CRYPTO_SUITE 1, master_key = k\<rparr>]" for k t
    by (simp_all add: srtp_line_def getConfigurationAtIndex_def cfg_hasSrtp_def)
  from incoming_configuration_protected [OF ok refl refl] line show ?thesis
    using ok by auto
qed

text \<open>
  C2: A negotiated configuration, on the side of the offerer.  Its transport is of the same kind as the offered
  and the answered one.  SRTP is only accepted when the stream supports it, with exactly one key: a suite both ends listed, the remote master key
  under the tag that was offered.  DTLS is only accepted when the stream supports it, with the fingerprint
  of the answer and the role opposite to an answering client.  A bundled stream multiplexes RTCP, and the answer has a codec besides telephone events.
\<close>

theorem outgoing_configuration_protected:
  assumes ok: "initiateOutgoingConfiguration eng api mc l r res li ri = Inr (Some c, l')"
    and lc: "lc = getConfigurationAtIndex l li" and rc: "rc = getConfigurationAtIndex r ri"
  shows "areProtoCompatibles (cfg_proto lc) (cfg_proto c) \<and> cfg_proto c = cfg_proto rc \<and>
    (cfg_hasSrtp lc \<longrightarrow> LinphoneMediaEncryptionSRTP \<in> set (s_supportedEncryption l) \<and>
       (\<exists>k. cfg_crypto c = [k] \<and> algo k \<noteq> MS_CRYPTO_SUITE_INVALID \<and>
         (\<exists>rk \<in> set (cfg_crypto rc). \<exists>lk \<in> set (cfg_crypto lc). algo rk = algo k \<and> algo lk = algo k \<and>
            master_key k = master_key rk \<and> tag k = tag lk))) \<and>
    (both_dtls lc rc \<longrightarrow> LinphoneMediaEncryptionDTLS \<in> set (s_supportedEncryption l) \<and>
       cfg_dtls_fingerprint c = cfg_dtls_fingerprint rc \<and>
       cfg_dtls_role c = (if cfg_dtls_role rc = SalDtlsRoleIsClient then SalDtlsRoleIsServer else SalDtlsRoleIsClient)) \<and>
    (cfg_mid rc \<noteq> '''' \<and> cfg_mid lc \<noteq> '''' \<longrightarrow> cfg_rtcp_mux c) \<and>
    cfg_payloads c \<noteq> [] \<and> onlyTelephoneEvent (cfg_payloads c) = Inr False \<and>
    (is_multicast_addr mc (s_rtp_addr l) \<or> cfg_dir c = computeDirOutgoing (cfg_dir lc) (cfg_dir rc))"
proof -
  from ok obtain c0 ps lp where
    compat: "areProtoCompatibles (cfg_proto lc) (cfg_proto rc)" and
    l': "l' = downgrade (cfg_proto rc) li (update_cfg_at li (\<lambda>c. c\<lparr>cfg_payloads := lp\<rparr>) l)" and
    fin: "outgoing_finish mc l' r li ri (c0\<lparr>cfg_payloads := ps, cfg_proto := cfg_proto rc\<rparr>) = Inr (Some c)"
    unfolding initiateOutgoingConfiguration_def Let_def lc rc by (auto simp: bindR_eq_Inr split: if_splits)
  let ?lc = "getConfigurationAtIndex l' li" and ?c0 = "c0\<lparr>cfg_payloads := ps, cfg_proto := cfg_proto rc\<rparr>"
  have proj: "g ?lc = g lc" if "\<And>c p. g (c\<lparr>cfg_payloads := p\<rparr>) = g c" "\<And>c p. g (c\<lparr>cfg_proto := p\<rparr>) = g c"
    for g :: "cfg \<Rightarrow> 'b"
    unfolding l' lc by (simp add: downgrade_proj update_cfg_at_proj that)
  have le: "cfg_crypto ?lc = cfg_crypto lc" "cfg_dir ?lc = cfg_dir lc" "cfg_dtls_role ?lc = cfg_dtls_role lc"
    "cfg_dtls_fingerprint ?lc = cfg_dtls_fingerprint lc" "cfg_mid ?lc = cfg_mid lc"
    by (rule proj; simp)+
  have addr: "s_rtp_addr l' = s_rtp_addr l" "s_supportedEncryption l' = s_supportedEncryption l"
    unfolding l' by (simp_all add: downgrade_def)
  have dtls: "both_dtls ?lc rc = both_dtls lc rc" using le by (intro both_dtls_cong) simp_all
  from fin obtain c1 c2 where
    c1: "outgoing_dir (is_multicast_addr mc (s_rtp_addr l')) ?lc rc ?c0 = Some c1" and
    c2: "outgoing_crypto l' r li ri ((outgoing_attributes ?lc rc c1)\<lparr>cfg_ptime := cfg_ptime rc, cfg_maxptime := cfg_maxptime rc\<rparr>) = Some c2" and
    media: "same_media c c2" "cfg_crypto c = cfg_crypto c2" "cfg_dtls_fingerprint c = cfg_dtls_fingerprint c2" "cfg_dtls_role c = cfg_dtls_role c2" and
    usable: "cfg_payloads c1 \<noteq> []" "onlyTelephoneEvent (cfg_payloads c1) = Inr False"
    unfolding rc by (rule outgoing_finish_Some)
  let ?c2 = "(outgoing_attributes ?lc rc c1)\<lparr>cfg_ptime := cfg_ptime rc, cfg_maxptime := cfg_maxptime rc\<rparr>"
  note crypto = outgoing_crypto_Some [OF c2, folded rc]
  from c1 have c1e: "cfg_proto c1 = cfg_proto rc" "is_multicast_addr mc (s_rtp_addr l) \<or> cfg_dir c1 = computeDirOutgoing (cfg_dir lc) (cfg_dir rc)"
    using le addr by (auto simp: outgoing_dir_def split: if_splits)
  have srtp: "cfg_hasSrtp ?c2 = cfg_hasSrtp lc"
    using compat c1e by (intro compatible_srtp) (simp add: areProtoCompatibles_sym)
  from crypto(1) have keys: "cfg_hasSrtp lc \<longrightarrow> LinphoneMediaEncryptionSRTP \<in> set (s_supportedEncryption l) \<and>
      (\<exists>k. matchCryptoAlgo (cfg_crypto lc) (cfg_crypto rc) False = Some k \<and> cfg_crypto c = [k])"
    "both_dtls lc rc \<longrightarrow> LinphoneMediaEncryptionDTLS \<in> set (s_supportedEncryption l) \<and> cfg_dtls_fingerprint c = cfg_dtls_fingerprint rc"
    unfolding protected_by_def srtp dtls le addr media by (auto split: if_splits)
  have "\<exists>k. cfg_crypto c = [k] \<and> algo k \<noteq> MS_CRYPTO_SUITE_INVALID \<and>
         (\<exists>rk \<in> set (cfg_crypto rc). \<exists>lk \<in> set (cfg_crypto lc). algo rk = algo k \<and> algo lk = algo k \<and>
            master_key k = master_key rk \<and> tag k = tag lk)" if "cfg_hasSrtp lc"
    using keys(1) that matchCryptoAlgo_Some [of "cfg_crypto lc" "cfg_crypto rc" False] by fastforce
  moreover have "cfg_proto c = cfg_proto rc" "cfg_payloads c = cfg_payloads c1" "cfg_dir c = cfg_dir c1"
    "cfg_mid rc \<noteq> '''' \<and> cfg_mid lc \<noteq> '''' \<longrightarrow> cfg_rtcp_mux c"
    using media(1) crypto(2) c1e le by (simp_all add: same_media_def)
  ultimately show ?thesis using keys compat c1e usable crypto(3) media(4) dtls by auto
qed

lemma srtp_line_accepted:
  "\<exists>c l'. initiateOutgoingConfiguration (new_engine (\<lambda>_. None)) sample_ortp (\<lambda>_. False)
     (srtp_line ''local'' 1) (srtp_line ''remote'' 7) default_stream 0 0 = Inr (Some c, l')"
proof -
  have "case initiateOutgoingConfiguration (new_engine (\<lambda>_. None)) sample_ortp (\<lambda>_. False)
     (srtp_line ''local'' 1) (srtp_line ''remote'' 7) default_stream 0 0 of Inr (Some c, l') \<Rightarrow> True | _ \<Rightarrow> False"
    by code_simp
  then show ?thesis by (auto split: sum.splits prod.splits option.splits)
qed

theorem outgoing_configuration_protected_witness:
  "\<exists>c l'. initiateOutgoingConfiguration (new_engine (\<lambda>_. None)) sample_ortp (\<lambda>_. False)
     (srtp_line ''local'' 1) (srtp_line ''remote'' 7) default_stream 0 0 = Inr (Some c, l') \<and>
     (\<exists>k. cfg_crypto c = [k] \<and> master_key k = ''remote'' \<and> tag k = 1)"
proof -
  from srtp_line_accepted obtain c l' where ok: "initiateOutgoingConfiguration (new_engine (\<lambda>_. None)) sample_ortp (\<lambda>_. False)
     (srtp_line ''local'' 1) (srtp_line ''remote'' 7) default_stream 0 0 = Inr (Some c, l')" by blast
  have line: "cfg_hasSrtp (getConfigurationAtIndex (srtp_line k t) 0)"
    "cfg_crypto (getConfigurationAtIndex (srtp_line k t) 0) = [\<lparr>tag = t, algo = MS_CRYPTO_SUITE 1, master_key = k\<rparr>]" for k t
    by (simp_all add: srtp_line_def getConfigurationAtIndex_def cfg_hasSrtp_def)
  from outgoing_configuration_protected [OF ok refl refl] line show ?thesis
    using ok by auto
qed


text \<open>What the last steps read of the two streams is what the negotiation started from.\<close>

lemma incoming_configuration_steps:
  assumes ok: "initiateIncomingConfiguration eng api mc l r res owner li ri = Inr (Some c, l', r')"
    and lc: "lc = getConfigurationAtIndex l li" and rc: "rc = getConfigurationAtIndex r ri"
  shows "cfg_rtcp_mux c = (cfg_rtcp_mux rc \<and> cfg_rtcp_mux lc)"
    and "incoming_bundle lc rc owner \<Longrightarrow> cfg_mid c = cfg_mid rc"
    and "both_dtls lc rc \<Longrightarrow> \<not> hasConfigurationAtIndex res actualConfigurationIndex \<Longrightarrow>
      cfg_dtls_fingerprint c = cfg_dtls_fingerprint lc \<and>
      cfg_dtls_role c = (if cfg_dtls_role rc = SalDtlsRoleUnset then SalDtlsRoleIsClient else SalDtlsRoleInvalid)"
proof -
  from ok obtain lp c0 where
    l': "l' = update_cfg_at li (\<lambda>c. c\<lparr>cfg_payloads := lp\<rparr>) l" and
    r': "r' = downgrade (cfg_proto lc) ri r" and
    fin: "incoming_finish mc l' r' li ri c0 = Inr (Some c)" and
    mid: "incoming_bundle lc rc owner \<longrightarrow> cfg_mid c0 = cfg_mid rc" and
    role: "\<not> hasConfigurationAtIndex res actualConfigurationIndex \<longrightarrow> cfg_dtls_role c0 = SalDtlsRoleInvalid"
    by (rule incoming_configuration_Some) (simp add: lc rc)
  let ?lc = "getConfigurationAtIndex l' li" and ?rc = "getConfigurationAtIndex r' ri"
  have le: "cfg_rtcp_mux ?lc = cfg_rtcp_mux lc" "cfg_dtls_role ?lc = cfg_dtls_role lc" "cfg_dtls_fingerprint ?lc = cfg_dtls_fingerprint lc"
    unfolding l' lc by (rule update_cfg_at_proj; simp)+
  have re: "cfg_rtcp_mux ?rc = cfg_rtcp_mux rc" "cfg_dtls_role ?rc = cfg_dtls_role rc" "cfg_dtls_fingerprint ?rc = cfg_dtls_fingerprint rc"
    unfolding r' rc by (rule downgrade_proj; simp)+
  have dtls: "both_dtls ?lc ?rc = both_dtls lc rc" using le re by (intro both_dtls_cong)
  from fin obtain c2 where
    c2: "incoming_crypto l' r' li ri (incoming_attributes ?lc ?rc (incoming_dir (is_multicast_addr mc (s_rtp_addr r')) ?lc ?rc c0)) = Some c2" and
    media: "same_media c c2" "cfg_dtls_fingerprint c = cfg_dtls_fingerprint c2" "cfg_dtls_role c = cfg_dtls_role c2"
    by (rule incoming_finish_Some)
  note crypto = incoming_crypto_Some [OF c2]
  show "cfg_rtcp_mux c = (cfg_rtcp_mux rc \<and> cfg_rtcp_mux lc)" "incoming_bundle lc rc owner \<Longrightarrow> cfg_mid c = cfg_mid rc"
    using media(1) crypto(2) le re mid by (simp_all add: same_media_def)
  show "cfg_dtls_fingerprint c = cfg_dtls_fingerprint lc \<and>
      cfg_dtls_role c = (if cfg_dtls_role rc = SalDtlsRoleUnset then SalDtlsRoleIsClient else SalDtlsRoleInvalid)"
    if "both_dtls lc rc" "\<not> hasConfigurationAtIndex res actualConfigurationIndex"
    using crypto(1,3) that media(2,3) role le re dtls by (simp add: protected_by_def)
qed

text \<open>
  The answer to a bundled stream can lack RTCP multiplexing: the step that joins the bundle sets
  the flag, because bundled streams must multiplex, but a later step overwrites it, so the answer joins the bundle without it
  whenever one of the two sides did not set it.
\<close>

theorem incoming_bundle_without_rtcp_mux:
  assumes ok: "initiateIncomingConfiguration eng api mc l r res owner li ri = Inr (Some c, l', r')"
    and "incoming_bundle (getConfigurationAtIndex l li) (getConfigurationAtIndex r ri) owner"
    and "\<not> (cfg_rtcp_mux (getConfigurationAtIndex l li) \<and> cfg_rtcp_mux (getConfigurationAtIndex r ri))"
  shows "cfg_mid c = cfg_mid (getConfigurationAtIndex r ri) \<and> cfg_mid c \<noteq> '''' \<and> \<not> cfg_rtcp_mux c"
  using incoming_configuration_steps(1,2) [OF ok refl refl] assms(2,3) by (auto simp: incoming_bundle_def)

definition bundled_line :: stream where
  "bundled_line = default_stream\<lparr>s_rtp_addr := ''10.0.0.1'', s_rtp_port := 7078,
     s_supportedEncryption := [LinphoneMediaEncryptionDTLS],
     s_cfgs := [(0, default_cfg\<lparr>cfg_dir := SalStreamSendRecv, cfg_payloads := [sample_pt ''pcmu'' 8000 1 0],
        cfg_mid := ''as'', cfg_mid_rtp_ext_header_id := 1, cfg_dtls_role := SalDtlsRoleIsServer,
        cfg_dtls_fingerprint := ''sha-256''\<rparr>)]\<rparr>"

lemma bundled_line_answered:
  "\<exists>c l' r'. initiateIncomingConfiguration (new_engine (\<lambda>_. None)) sample_ortp (\<lambda>_. False)
     bundled_line bundled_line default_stream ''as'' 0 0 = Inr (Some c, l', r')"
proof -
  have "case initiateIncomingConfiguration (new_engine (\<lambda>_. None)) sample_ortp (\<lambda>_. False)
     bundled_line bundled_line default_stream ''as'' 0 0 of Inr (Some c, l', r') \<Rightarrow> True | _ \<Rightarrow> False"
    by code_simp
  then show ?thesis by (auto split: sum.splits prod.splits option.splits)
qed

lemma bundled_line_cfg: "getConfigurationAtIndex bundled_line 0 =
  default_cfg\<lparr>cfg_dir := SalStreamSendRecv, cfg_payloads := [sample_pt ''pcmu'' 8000 1 0],
        cfg_mid := ''as'', cfg_mid_rtp_ext_header_id := 1, cfg_dtls_role := SalDtlsRoleIsServer, cfg_dtls_fingerprint := ''sha-256''\<rparr>"
  by (simp add: bundled_line_def getConfigurationAtIndex_def)

theorem incoming_bundle_without_rtcp_mux_witness:
  "\<exists>c l' r'. initiateIncomingConfiguration (new_engine (\<lambda>_. None)) sample_ortp (\<lambda>_. False)
     bundled_line bundled_line default_stream ''as'' 0 0 = Inr (Some c, l', r') \<and> cfg_mid c = ''as'' \<and> \<not> cfg_rtcp_mux c"
  using bundled_line_answered incoming_bundle_without_rtcp_mux
  by (fastforce simp: bundled_line_cfg incoming_bundle_def default_cfg_def)

text \<open>
  The answer to an offer that already chose its DTLS role has a fingerprint without a role: only an offer with an unset role sets
  the role of the answer.
\<close>

theorem incoming_dtls_without_role:
  assumes ok: "initiateIncomingConfiguration eng api mc l r res owner li ri = Inr (Some c, l', r')"
    and "both_dtls (getConfigurationAtIndex l li) (getConfigurationAtIndex r ri)"
    and "cfg_dtls_role (getConfigurationAtIndex r ri) \<noteq> SalDtlsRoleUnset"
    and "\<not> hasConfigurationAtIndex res actualConfigurationIndex"
  shows "cfg_dtls_fingerprint c \<noteq> '''' \<and> cfg_dtls_role c = SalDtlsRoleInvalid"
  using incoming_configuration_steps(3) [OF ok refl refl] assms(2-4) by (simp add: both_dtls_def)

theorem incoming_dtls_without_role_witness:
  "\<exists>c l' r'. initiateIncomingConfiguration (new_engine (\<lambda>_. None)) sample_ortp (\<lambda>_. False)
     bundled_line bundled_line default_stream ''as'' 0 0 = Inr (Some c, l', r') \<and>
     cfg_dtls_fingerprint c \<noteq> '''' \<and> cfg_dtls_role c = SalDtlsRoleInvalid"
proof -
  obtain c l' r' where ok: "initiateIncomingConfiguration (new_engine (\<lambda>_. None)) sample_ortp (\<lambda>_. False)
     bundled_line bundled_line default_stream ''as'' 0 0 = Inr (Some c, l', r')"
    using bundled_line_answered by blast
  have "\<not> hasConfigurationAtIndex default_stream 0" by (simp add: hasConfigurationAtIndex_def default_stream_def)
  with incoming_dtls_without_role [OF ok] ok show ?thesis by (simp add: bundled_line_cfg both_dtls_def default_cfg_def)
qed


section \<open>Negotiation always returns\<close>

text \<open>
  The streams of a running program: their codecs have mime types, and in an offer no configuration is without codecs.
\<close>

definition negotiable :: "bool \<Rightarrow> stream \<Rightarrow> bool" where
  "negotiable offer s \<longleftrightarrow> list_all (\<lambda>(_, c). named_payloads (cfg_payloads c) \<and> (offer \<longrightarrow> cfg_payloads c \<noteq> [])) (s_cfgs s)"

lemma negotiable_iff:
  "negotiable offer s \<longleftrightarrow>
     (\<forall>k c. (k, c) \<in> set (s_cfgs s) \<longrightarrow> named_payloads (cfg_payloads c) \<and> (offer \<longrightarrow> cfg_payloads c \<noteq> []))"
  by (auto simp: negotiable_def list_all_iff)

lemma negotiable_cfg:
  assumes "negotiable offer s"
  shows "named_payloads (cfg_payloads (getConfigurationAtIndex s i))"
proof (cases "map_of (s_cfgs s) i")
  case None
  then show ?thesis by (simp add: getConfigurationAtIndex_def named_payloads_def default_cfg_def)
next
  case (Some c)
  with assms map_of_SomeD [OF Some] show ?thesis by (auto simp: getConfigurationAtIndex_def negotiable_iff)
qed

lemma negotiable_nonempty:
  "negotiable True s \<Longrightarrow> hasConfigurationAtIndex s i \<Longrightarrow> cfg_payloads (getConfigurationAtIndex s i) \<noteq> []"
  unfolding negotiable_iff getConfigurationAtIndex_def hasConfigurationAtIndex_def
  using map_of_SomeD [of "s_cfgs s" i] by fastforce

lemma negotiable_update:
  assumes "negotiable offer s" and "\<And>c. (i, c) \<in> set (s_cfgs s) \<Longrightarrow> named_payloads (cfg_payloads (f c)) \<and> (offer \<longrightarrow> cfg_payloads (f c) \<noteq> [])"
  shows "negotiable offer (update_cfg_at i f s)"
  using assms unfolding negotiable_iff update_cfg_at_def map_update_at_def by (fastforce split: if_splits)

lemma negotiable_downgrade: "negotiable offer s \<Longrightarrow> negotiable offer (downgrade p i s)"
  unfolding downgrade_def using negotiable_update [of offer s i "\<lambda>c. c\<lparr>cfg_proto := p\<rparr>"] by (simp add: negotiable_iff)

lemma negotiable_payloads:
  assumes "negotiable offer s" and "map mime_type lp = map mime_type (cfg_payloads (getConfigurationAtIndex s i))"
  shows "negotiable offer (update_cfg_at i (\<lambda>c. c\<lparr>cfg_payloads := lp\<rparr>) s)"
proof (rule negotiable_update [OF assms(1)])
  fix c assume c: "(i, c) \<in> set (s_cfgs s)"
  have "named_payloads lp" using named_map [OF assms(2)] negotiable_cfg [OF assms(1)] by simp
  moreover have "lp \<noteq> []" if offer
  proof -
    have "hasConfigurationAtIndex s i" using c by (force simp: hasConfigurationAtIndex_def map_of_eq_None_iff)
    with negotiable_nonempty assms that show ?thesis by fastforce
  qed
  ultimately show "named_payloads (cfg_payloads (c\<lparr>cfg_payloads := lp\<rparr>)) \<and> (offer \<longrightarrow> cfg_payloads (c\<lparr>cfg_payloads := lp\<rparr>) \<noteq> [])" by simp
qed

text \<open>What the negotiation of a configuration keeps of a stream.\<close>

definition same_line :: "bool \<Rightarrow> stream \<Rightarrow> stream \<Rightarrow> bool" where
  "same_line offer s t \<longleftrightarrow> negotiable offer t \<and> s_type t = s_type s \<and> map fst (s_cfgs t) = map fst (s_cfgs s) \<and>
     s_cfgIndex t = s_cfgIndex s \<and> enabled t = enabled s"

lemma same_line_refl [simp]: "same_line offer s s = negotiable offer s"
  by (simp add: same_line_def)

lemma same_line_trans: "same_line offer s t \<Longrightarrow> same_line offer t u \<Longrightarrow> same_line offer s u"
  by (simp add: same_line_def)

lemma same_line_payloads:
  "negotiable offer s \<Longrightarrow> map mime_type lp = map mime_type (cfg_payloads (getConfigurationAtIndex s i)) \<Longrightarrow>
   same_line offer s (update_cfg_at i (\<lambda>c. c\<lparr>cfg_payloads := lp\<rparr>) s)"
  by (simp add: same_line_def negotiable_payloads enabled_update_cfg_at)

lemma same_line_downgrade: "negotiable offer s \<Longrightarrow> same_line offer s (downgrade p i s)"
  by (simp add: same_line_def negotiable_downgrade) (simp add: downgrade_def enabled_update_cfg_at)

lemma incoming_finish_total:
  "named_payloads (cfg_payloads c0) \<Longrightarrow> \<exists>c. incoming_finish mc l r li ri c0 = Inr c"
  by (simp add: incoming_finish_def Let_def onlyTelephoneEvent_total)

lemma outgoing_finish_total:
  assumes "named_payloads (cfg_payloads c0)"
  shows "\<exists>c. outgoing_finish mc l r li ri c0 = Inr c \<and> (\<forall>d. c = Some d \<longrightarrow> named_payloads (cfg_payloads d))"
proof (cases "outgoing_dir (is_multicast_addr mc (s_rtp_addr l)) (getConfigurationAtIndex l li) (getConfigurationAtIndex r ri) c0")
  case None
  then show ?thesis by (simp add: outgoing_finish_def)
next
  case (Some c1)
  then have "cfg_payloads c1 = cfg_payloads c0" by (auto simp: outgoing_dir_def split: if_splits)
  with assms have named: "named_payloads (cfg_payloads c1)" by simp
  with Some show ?thesis
    using outgoing_crypto_Some(2) [of l r li ri]
    by (fastforce simp: outgoing_finish_def Let_def onlyTelephoneEvent_total same_media_def)
qed

lemma incoming_configuration_total:
  assumes api: "ortp_contract api" and eng: "engine_wf api eng" and l: "negotiable False l" and r: "negotiable False r"
  shows "\<exists>c l' r'. initiateIncomingConfiguration eng api mc l r res owner li ri = Inr (c, l', r') \<and>
    same_line False l l' \<and> same_line False r r'"
proof -
  let ?lc = "getConfigurationAtIndex l li" and ?rc = "getConfigurationAtIndex r ri"
  obtain a b where ab: "cfg_eq api ?lc default_cfg = Inr a" "cfg_eq api ?rc default_cfg = Inr b"
    using cfg_eq_default_total by metis
  obtain ps lp where ps: "matchPayloads eng api (cfg_payloads ?lc) (cfg_payloads ?rc) False (incoming_bundle ?lc ?rc owner) = Inr (ps, lp)"
    "named_payloads ps" "map mime_type lp = map mime_type (cfg_payloads ?lc)"
    using matchPayloads_total [OF api eng negotiable_cfg [OF l] negotiable_cfg [OF r]] by blast
  have fin: "\<exists>c. incoming_finish mc l1 r1 li ri (c0\<lparr>cfg_payloads := ps, cfg_proto := p\<rparr>) = Inr c" for l1 r1 c0 p
    using ps(2) by (intro incoming_finish_total) simp
  show ?thesis
  proof (cases "a \<or> b")
    case True
    with ab l r show ?thesis by (simp add: initiateIncomingConfiguration_def)
  next
    case False
    let ?l1 = "update_cfg_at li (\<lambda>c. c\<lparr>cfg_payloads := lp\<rparr>) l" and ?r1 = "downgrade (cfg_proto ?lc) ri r"
    have "same_line False l ?l1" "same_line False r ?r1"
      using same_line_payloads [OF l ps(3)] same_line_downgrade [OF r] by simp_all
    moreover have "\<exists>c r'. initiateIncomingConfiguration eng api mc l r res owner li ri = Inr (c, ?l1, r') \<and> (r' = ?r1 \<or> r' = r)"
      using False ab ps(1) fin unfolding initiateIncomingConfiguration_def Let_def
      by (cases "areProtoCompatibles (cfg_proto ?lc) (cfg_proto ?rc)"; fastforce simp: bindR_eq_Inr)
    ultimately show ?thesis using r by auto
  qed
qed


lemma negotiate_incoming_total:
  assumes api: "ortp_contract api" and eng: "engine_wf api eng" and l: "negotiable False l" and r: "negotiable False r"
  shows "\<exists>neg l' r' li ri. negotiate_incoming eng api mc l r res owner capneg = Inr (neg, l', r', li, ri) \<and>
    same_line False l l' \<and> same_line False r r' \<and> (neg \<noteq> None \<longrightarrow> enabled r)"
proof -
  let ?I = "\<lambda>(neg, l', r', _, _). same_line False l l' \<and> same_line False r r' \<and> (neg \<noteq> (None :: cfg option) \<longrightarrow> enabled r)"
  have "\<exists>st. negotiate_incoming eng api mc l r res owner capneg = Inr st \<and> ?I st"
    unfolding negotiate_incoming_def
  proof (rule foldR_ex)
    fix st :: incoming_search and idxs :: "u32 \<times> u32" assume I: "?I st"
    obtain neg l1 r1 a b where st: "st = (neg, l1, r1, a, b)" by (cases st)
    obtain ri li where idxs: "idxs = (ri, li)" by (cases idxs)
    have n: "negotiable False l1" "negotiable False r1" using I by (auto simp: st same_line_def)
    obtain c l' r' where c: "initiateIncomingConfiguration eng api mc l1 r1 res owner li ri = Inr (c, l', r')"
      "same_line False l1 l'" "same_line False r1 r'"
      using incoming_configuration_total [OF api eng n] by blast
    have "enabled r" if "c = Some d" for d
      using incoming_configuration_enabled [OF c(1) [unfolded that]] I by (simp add: st same_line_def)
    with I c show "\<exists>st'. try_incoming eng api mc res owner st idxs = Inr st' \<and> ?I st'"
      by (cases neg) (auto simp: try_incoming_def st idxs same_line_def)
  qed (use l r in simp)
  then show ?thesis by auto
qed

lemma stream_disable_type [simp]: "s_type (stream_disable s) = s_type s"
  by (simp add: stream_disable_def update_chosen_def addConfigurationAtIndex_def)

lemma addActual_fields [simp]:
  "s_type (addActualConfiguration c s) = s_type s" "s_rtp_port (addActualConfiguration c s) = s_rtp_port s"
  "s_cfgIndex (addActualConfiguration c s) = s_cfgIndex s"
  by (simp_all add: addActualConfiguration_def addConfigurationAtIndex_def)

lemma stream_wf_addActual [simp]: "stream_wf s \<Longrightarrow> stream_wf (addActualConfiguration c s)"
  by (simp add: addActualConfiguration_def addConfigurationAtIndex_def stream_wf_def)

lemma disable_not_enabled: "stream_wf s \<Longrightarrow> \<not> enabled (stream_disable s)"
proof -
  assume "stream_wf s"
  then have "stream_wf (s\<lparr>s_rtp_port := 0\<rparr>)" by (simp add: stream_wf_def)
  then show ?thesis by (simp add: stream_disable_def enabled_def getDirection_def cfg_disable_def)
qed

lemma stream_wf_disable [simp]: "stream_wf s \<Longrightarrow> stream_wf (stream_disable s)"
  by (simp add: stream_disable_def update_chosen_def addConfigurationAtIndex_def stream_wf_def)

lemma stream_wf_default [simp]: "stream_wf default_stream"
  by (simp add: stream_wf_def default_stream_def)

lemma stream_wf_fields:
  "s_cfgs s = s_cfgs t \<Longrightarrow> s_unparsed_cfgs s = s_unparsed_cfgs t \<Longrightarrow> stream_wf s = stream_wf t"
  by (simp add: stream_wf_def)

lemma negotiable_cfgIndex [simp]: "negotiable offer (s\<lparr>s_cfgIndex := i\<rparr>) = negotiable offer s"
  by (simp add: negotiable_def)

text \<open>The answer of one stream: well-formed, of the same type, at the actual configuration, and enabled only when the offer is.\<close>

lemma incoming_stream_total:
  assumes api: "ortp_contract api" and eng: "engine_wf api eng" and l: "negotiable False l" and r: "negotiable False r"
  shows "\<exists>s l' r'. initiateIncomingStream eng api mc l r owner capneg = Inr (s, l', r') \<and> stream_wf s \<and>
    s_type s = s_type l \<and> s_cfgIndex s = actualConfigurationIndex \<and> (enabled s \<longrightarrow> enabled r) \<and>
    negotiable False l' \<and> s_type l' = s_type l \<and> negotiable False r' \<and> s_type r' = s_type r"
proof -
  define res0 where "res0 = default_stream\<lparr>s_name := s_name l, s_type := s_type l,
            s_typeother := (if s_type l = SalOther then s_typeother r else ''''),
            s_ice_pwd := s_ice_pwd l, s_ice_ufrag := s_ice_ufrag l, s_ice_mismatch := s_ice_mismatch l,
            s_ice_candidates := s_ice_candidates l, s_ice_remote_candidates := s_ice_remote_candidates l\<rparr>"
  obtain neg l1 r1 li ri where n: "negotiate_incoming eng api mc l r res0 owner capneg = Inr (neg, l1, r1, li, ri)"
    "same_line False l l1" "same_line False r r1" "neg \<noteq> None \<longrightarrow> enabled r"
    using negotiate_incoming_total [OF assms] by blast
  define res1 where "res1 = res0\<lparr>s_label := (if s_label r1 = '''' then s_label l1 else s_label r1), s_content := s_content l1\<rparr>"
  have res: "stream_wf res1" "s_type res1 = s_type l" "s_cfgIndex res1 = actualConfigurationIndex"
    by (simp_all add: res1_def res0_def stream_wf_def default_stream_def)
  show ?thesis
  proof (cases neg)
    case None
    let ?d = "stream_disable (addActualConfiguration ((getActualConfiguration res1)\<lparr>cfg_proto := cfg_proto (getActualConfiguration r1)\<rparr>) res1)"
    have "s_cfgIndex ?d = actualConfigurationIndex" by (simp add: stream_disable_def res)
    with n None res disable_not_enabled show ?thesis
      by (simp add: initiateIncomingStream_def Let_def res0_def [symmetric] res1_def [symmetric] same_line_def)
  next
    case (Some c)
    let ?s = "incoming_addresses mc l1 r1 (addActualConfiguration c res1)"
    have wf: "stream_wf ?s" "s_type ?s = s_type l" "s_cfgIndex ?s = actualConfigurationIndex"
      using stream_wf_addActual [OF res(1), of c] res by (simp_all add: incoming_addresses_def stream_wf_def)
    have wf': "stream_wf (?s\<lparr>s_rtp_port := 0\<rparr>)" "stream_wf (?s\<lparr>s_rtcp_port := 0\<rparr>)" "stream_wf (?s\<lparr>s_rtp_port := 0, s_rtcp_port := 0\<rparr>)"
      using wf(1) by (simp_all add: stream_wf_def)
    from n Some wf wf' show ?thesis
      by (simp add: initiateIncomingStream_def Let_def res0_def [symmetric] res1_def [symmetric] same_line_def)
  qed
qed


section \<open>Bundles only take streams away\<close>

definition weaker :: "stream \<Rightarrow> stream \<Rightarrow> bool" where
  "weaker s t \<longleftrightarrow> s_type t = s_type s \<and> (enabled t \<longrightarrow> enabled s) \<and> stream_wf t"

lemma weaker_trans: "weaker s t \<Longrightarrow> weaker t u \<Longrightarrow> weaker s u"
  by (simp add: weaker_def)

lemma weaker_disable: "stream_wf s \<Longrightarrow> weaker s (stream_disable s)"
  by (simp add: weaker_def disable_not_enabled)

lemma weaker_touch: "stream_wf s \<Longrightarrow> weaker s (update_chosen (\<lambda>c. getChosenConfiguration s) s)"
  by (simp add: weaker_def enabled_def isBundleOnly_def getDirection_def)
    (simp add: update_chosen_def addConfigurationAtIndex_def)

lemma rebuild_bundle_weaker:
  assumes "stream_wf s"
  shows "\<exists>bs' t. rebuild_bundle (bs, d) s = (bs', d @ [t]) \<and> weaker s t"
proof -
  have same: "update_chosen (\<lambda>c. c) s = update_chosen (\<lambda>c. getChosenConfiguration s) s"
    by (simp add: update_chosen_def)
  have add: "snd (addStream b (getChosenConfiguration s) (getMid s)) = getChosenConfiguration s" for b
    by (simp add: addStream_cfg getMid_def)
  show ?thesis
    using weaker_touch [OF assms] add same
    by (auto simp: rebuild_bundle_def Let_def split: prod.splits list.splits) (metis snd_conv)+
qed

lemma rebuild_loop_weaker:
  "list_all stream_wf ss \<Longrightarrow> \<exists>bs' ts. foldl rebuild_bundle (bs, d) ss = (bs', d @ ts) \<and> list_all2 weaker ss ts"
proof (induction ss arbitrary: bs d)
  case (Cons s ss)
  then obtain b1 t where "rebuild_bundle (bs, d) s = (b1, d @ [t])" "weaker s t"
    using rebuild_bundle_weaker [of s bs d] by auto
  with Cons.IH [of b1 "d @ [t]"] Cons.prems show ?case by fastforce
qed simp

lemma rebuild_bundles_weaker:
  assumes "list_all stream_wf (md_streams md)"
  shows "list_all2 weaker (md_streams md) (md_streams (rebuild_bundles md))"
    and "md_times (rebuild_bundles md) = md_times md"
  using rebuild_loop_weaker [OF assms, of "md_bundles md" "[]"] by (auto simp: rebuild_bundles_def)

lemma list_all2_weaker_wf: "list_all2 weaker ss ts \<Longrightarrow> i < length ts \<Longrightarrow> stream_wf (ts ! i)"
  by (simp add: list_all2_conv_all_nth weaker_def)

lemma verifyBundles_total:
  assumes wf: "list_all stream_wf (md_streams md)" and len: "length (md_streams md) \<le> length (md_streams remote)"
  shows "\<exists>md'. verifyBundles loc remote md = Inr md' \<and> list_all2 weaker (md_streams md) (md_streams md') \<and>
    md_times md' = md_times md"
proof -
  let ?I = "\<lambda>m :: media_desc. list_all2 weaker (md_streams md) (md_streams m) \<and> md_times m = md_times md"
  have refl: "list_all2 weaker (md_streams md) (md_streams md)"
    using wf by (simp add: list_all2_conv_all_nth list_all_length weaker_def)
  have "\<exists>md'. foldR (verify_bundle_at loc remote) md [0..<length (md_streams md)] = Inr md' \<and> ?I md'"
  proof (rule foldR_ex)
    fix m :: media_desc and i assume I: "?I m" and i: "i \<in> set [0..<length (md_streams md)]"
    have lm: "length (md_streams m) = length (md_streams md)" using I list_all2_lengthD by metis
    have "list_all2 weaker (md_streams md) ((md_streams m)[i := stream_disable (md_streams m ! i)])"
    proof (rule list_all2_all_nthI)
      fix j assume j: "j < length (md_streams md)"
      have w: "weaker (md_streams md ! j) (md_streams m ! j)" using I j by (simp add: list_all2_conv_all_nth)
      then have "weaker (md_streams md ! j) (stream_disable (md_streams m ! j))"
        using weaker_trans weaker_disable weaker_def by metis
      with w j lm show "weaker (md_streams md ! j) ((md_streams m)[i := stream_disable (md_streams m ! i)] ! j)"
        by (cases "j = i") simp_all
    qed (simp add: lm)
    with I i len show "\<exists>m'. verify_bundle_at loc remote m i = Inr m' \<and> ?I m'"
      by (simp add: verify_bundle_at_def Let_def)
  qed (simp add: refl)
  then show ?thesis by (simp add: verifyBundles_def)
qed

section \<open>The answer to an offer\<close>

lemma stream_assign_default:
  assumes "ortp_contract api" and "stream_wf s"
  shows "stream_assign api default_stream s = s"
  using assms by (cases s) (simp add: stream_assign_def default_stream_def clone_map stream_wf_def overwrite_empty_id
      overwrite_empty_id_u32)

lemma getActual_of_chosen: "s_cfgIndex s = actualConfigurationIndex \<Longrightarrow> getChosenConfiguration s = getActualConfiguration s"
  by (simp add: getChosenConfiguration_def getActualConfiguration_def)

lemma getActual_addActual [simp]: "stream_wf s \<Longrightarrow> getActualConfiguration (addActualConfiguration c s) = c"
  by (simp add: getActualConfiguration_def addActualConfiguration_def addConfigurationAtIndex_def getConfigurationAtIndex_def
      stream_wf_def cfg_order.map_of_map_set)

text \<open>Whether a stream is enabled only depends on its port and two members of the chosen configuration.\<close>

lemma enabled_addActual:
  assumes "stream_wf s" and "s_cfgIndex s = actualConfigurationIndex"
  shows "enabled (addActualConfiguration c s) \<longleftrightarrow>
    s_rtp_port s > 0 \<or> (cfg_bundle_only c \<and> cfg_dir c \<noteq> SalStreamInactive)"
  using assms by (simp add: enabled_def isBundleOnly_def getDirection_def getActual_of_chosen)

lemma declined_not_enabled:
  "\<not> enabled (addActualConfiguration (declined_cfg rs) (declined_stream rs\<lparr>s_custom_sdp_attributes := a\<rparr>))"
  "\<not> enabled (addActualConfiguration (declined_cfg rs) (declined_stream rs))"
  "s_type (declined_stream rs) = s_type rs" "stream_wf (declined_stream rs)"
proof -
  have d: "stream_wf (declined_stream rs)" "stream_wf (declined_stream rs\<lparr>s_custom_sdp_attributes := a\<rparr>)"
    "s_cfgIndex (declined_stream rs) = actualConfigurationIndex" "s_rtp_port (declined_stream rs) = 0"
    "cfg_bundle_only (declined_cfg rs) = False"
    by (simp_all add: declined_stream_def declined_cfg_def Let_def stream_wf_def default_stream_def default_cfg_def)
  then show "\<not> enabled (addActualConfiguration (declined_cfg rs) (declined_stream rs\<lparr>s_custom_sdp_attributes := a\<rparr>))"
    "\<not> enabled (addActualConfiguration (declined_cfg rs) (declined_stream rs))" "stream_wf (declined_stream rs)"
    by (simp_all add: enabled_addActual)
  show "s_type (declined_stream rs) = s_type rs" by (simp add: declined_stream_def Let_def)
qed

lemma incoming_rtcp_fields [simp]:
  "cfg_bundle_only (incoming_rtcp md ls rs c) = cfg_bundle_only c" "cfg_dir (incoming_rtcp md ls rs c) = cfg_dir c"
  by (simp_all add: incoming_rtcp_def Let_def)

text \<open>One line of the answer: the stream has the type of the offer and is only enabled when the offer has it enabled and there is a local stream of that type.\<close>

definition answers :: "stream list \<Rightarrow> stream list \<Rightarrow> nat \<Rightarrow> stream \<Rightarrow> bool" where
  "answers locs offers i s \<longleftrightarrow> stream_wf s \<and> s_type s = s_type (offers ! i) \<and>
     (enabled s \<longrightarrow> enabled (offers ! i) \<and> s_type (locs ! i) = s_type (offers ! i))"

definition all_negotiable :: "bool \<Rightarrow> media_desc \<Rightarrow> bool" where
  "all_negotiable offer md \<longleftrightarrow> list_all (negotiable offer) (md_streams md)"

lemma incoming_line_total:
  assumes api: "ortp_contract api" and eng: "engine_wf api eng" and l: "all_negotiable False loc" and r: "all_negotiable False remote"
    and i: "i < length (md_streams remote)" "i < length (md_streams loc)"
  shows "\<exists>ls' rs' s. incoming_line eng api mc capneg (loc, remote, acc) i =
      Inr (loc\<lparr>md_streams := (md_streams loc)[i := ls']\<rparr>, remote\<lparr>md_streams := (md_streams remote)[i := rs']\<rparr>, acc @ [s]) \<and>
    negotiable False ls' \<and> s_type ls' = s_type (md_streams loc ! i) \<and> negotiable False rs' \<and> s_type rs' = s_type (md_streams remote ! i) \<and> answers (md_streams loc) (md_streams remote) i s"
proof -
  let ?ls = "md_streams loc ! i" and ?rs = "md_streams remote ! i"
  have nr: "negotiable False ?rs" and nl: "negotiable False ?ls" using l r i by (simp_all add: all_negotiable_def list_all_length)
  have copy: "stream_copy api s = s" if "stream_wf s" for s using stream_copy_id [OF api that] .
  have locs: "loc\<lparr>md_streams := (md_streams loc)[i := ?ls]\<rparr> = loc" "remote\<lparr>md_streams := (md_streams remote)[i := ?rs]\<rparr> = remote"
    by simp_all
  show ?thesis
  proof (cases "s_type ?rs = s_type ?ls \<and> areProtoInStreamCompatibles ?ls ?rs")
    case True
    obtain new ls' rs' where new: "initiateIncomingStream eng api mc ?ls ?rs (owner_mid loc remote ?rs) capneg = Inr (new, ls', rs')"
      "stream_wf new" "s_type new = s_type ?ls" "s_cfgIndex new = actualConfigurationIndex" "enabled new \<longrightarrow> enabled ?rs"
      "negotiable False ls'" "s_type ls' = s_type ?ls" "negotiable False rs'" "s_type rs' = s_type ?rs"
      using incoming_stream_total [OF api eng nl nr] by blast
    let ?c = "incoming_rtcp loc ls' rs' (getActualConfiguration new)"
    let ?s = "addActualConfiguration ?c (new\<lparr>s_custom_sdp_attributes := s_custom_sdp_attributes ls'\<rparr>)"
    have wf: "stream_wf (new\<lparr>s_custom_sdp_attributes := s_custom_sdp_attributes ls'\<rparr>)" using new(2) by (simp add: stream_wf_def)
    have "enabled ?s = enabled new"
      using wf new(4) by (simp add: enabled_addActual enabled_def [of new] isBundleOnly_def getDirection_def getActual_of_chosen)
    then have "answers (md_streams loc) (md_streams remote) i ?s" using True new wf by (simp add: answers_def)
    with True new wf copy i show ?thesis
      by - (rule exI [of _ ls'], rule exI [of _ rs'], rule exI [of _ ?s],
      simp add: incoming_line_def Let_def stream_assign_default [OF api])
  next
    case False
    let ?d = "declined_stream ?rs\<lparr>s_custom_sdp_attributes := s_custom_sdp_attributes ?ls\<rparr>"
    have wf: "stream_wf (declined_stream ?rs\<lparr>s_custom_sdp_attributes := s_custom_sdp_attributes ?ls\<rparr>)"
      using declined_not_enabled(4) by (simp add: stream_wf_def)
    have ans: "answers (md_streams loc) (md_streams remote) i (addActualConfiguration (declined_cfg ?rs) ?d)"
      using wf declined_not_enabled by (simp add: answers_def)
    have line: "incoming_line eng api mc capneg (loc, remote, acc) i = Inr (loc, remote, acc @ [addActualConfiguration (declined_cfg ?rs) ?d])"
      using False wf declined_not_enabled(4) copy i by (auto simp: incoming_line_def Let_def)
    with line ans nr nl locs show ?thesis
      by - (rule exI [of _ ?ls], rule exI [of _ ?rs], rule exI [of _ "addActualConfiguration (declined_cfg ?rs) ?d"], simp)
  qed
qed

lemma list_all_update: "list_all P xs \<Longrightarrow> (k < length xs \<longrightarrow> P x) \<Longrightarrow> list_all P (xs[k := x])"
  by (cases "k < length xs") (auto simp: list_all_length nth_list_update)

text \<open>The last two steps of both directions: the bundles of the result, built again or not, are verified.\<close>

lemma verified_weaker:
  assumes wf: "list_all stream_wf (md_streams md)" and len: "length (md_streams md) \<le> length (md_streams remote)"
  shows "\<exists>md'. verifyBundles loc remote (if b then rebuild_bundles md else md) = Inr md' \<and>
    list_all2 weaker (md_streams md) (md_streams md') \<and> md_times md' = md_times md"
proof (cases b)
  case True
  have w: "list_all2 weaker (md_streams md) (md_streams (rebuild_bundles md))" using rebuild_bundles_weaker(1) [OF wf] .
  then have "list_all stream_wf (md_streams (rebuild_bundles md))" "length (md_streams (rebuild_bundles md)) \<le> length (md_streams remote)"
    using len by (simp_all add: list_all_length list_all2_conv_all_nth weaker_def)
  from verifyBundles_total [OF this, of loc] obtain md' where "verifyBundles loc remote (rebuild_bundles md) = Inr md'"
    "list_all2 weaker (md_streams (rebuild_bundles md)) (md_streams md')" "md_times md' = md_times (rebuild_bundles md)" by blast
  with True list_all2_trans [OF weaker_trans w] rebuild_bundles_weaker(2) [OF wf] show ?thesis by auto
qed (use verifyBundles_total [OF assms] in simp)

text \<open>The loop over the lines: what is not processed yet is as it was, and the processed lines answer the offer.\<close>

lemma incoming_loop:
  assumes api: "ortp_contract api" and eng: "engine_wf api eng" and l: "all_negotiable False loc" and r: "all_negotiable False remote"
    and k: "k \<le> length (md_streams remote)" "k \<le> length (md_streams loc)"
  shows "\<exists>ls rs ss. foldR (incoming_line eng api mc capneg) (loc, remote, []) [0..<k] =
      Inr (loc\<lparr>md_streams := ls\<rparr>, remote\<lparr>md_streams := rs\<rparr>, ss) \<and>
    length ls = length (md_streams loc) \<and> length rs = length (md_streams remote) \<and> length ss = k \<and>
    list_all (negotiable False) ls \<and> list_all (negotiable False) rs \<and>
    (\<forall>i. k \<le> i \<longrightarrow> ls ! i = md_streams loc ! i \<and> rs ! i = md_streams remote ! i) \<and>
    (\<forall>i < k. answers (md_streams loc) (md_streams remote) i (ss ! i))"
  using k
proof (induction k)
  case 0
  have "loc\<lparr>md_streams := md_streams loc\<rparr> = loc" "remote\<lparr>md_streams := md_streams remote\<rparr> = remote" by simp_all
  with l r show ?case
    by - (rule exI [of _ "md_streams loc"], rule exI [of _ "md_streams remote"], rule exI [of _ "[]"],
      simp add: all_negotiable_def)
next
  case (Suc k)
  then obtain ls rs ss where IH: "foldR (incoming_line eng api mc capneg) (loc, remote, []) [0..<k] =
      Inr (loc\<lparr>md_streams := ls\<rparr>, remote\<lparr>md_streams := rs\<rparr>, ss)"
    "length ls = length (md_streams loc)" "length rs = length (md_streams remote)" "length ss = k"
    "list_all (negotiable False) ls" "list_all (negotiable False) rs"
    "\<forall>i. k \<le> i \<longrightarrow> ls ! i = md_streams loc ! i \<and> rs ! i = md_streams remote ! i"
    "\<forall>i < k. answers (md_streams loc) (md_streams remote) i (ss ! i)" by auto
  have n: "all_negotiable False (loc\<lparr>md_streams := ls\<rparr>)" "all_negotiable False (remote\<lparr>md_streams := rs\<rparr>)"
    "k < length (md_streams (remote\<lparr>md_streams := rs\<rparr>))" "k < length (md_streams (loc\<lparr>md_streams := ls\<rparr>))"
    using IH Suc.prems by (simp_all add: all_negotiable_def)
  obtain l' r' s where line: "incoming_line eng api mc capneg (loc\<lparr>md_streams := ls\<rparr>, remote\<lparr>md_streams := rs\<rparr>, ss) k =
      Inr (loc\<lparr>md_streams := ls[k := l']\<rparr>, remote\<lparr>md_streams := rs[k := r']\<rparr>, ss @ [s])"
    "negotiable False l'" "negotiable False r'" "answers ls rs k s"
    using incoming_line_total [OF api eng n, of mc capneg ss] by auto
  have "answers (md_streams loc) (md_streams remote) k s"
    using line(4) IH(2,7) by (simp add: answers_def)
  then have ans: "\<forall>i < Suc k. answers (md_streams loc) (md_streams remote) i ((ss @ [s]) ! i)"
    using IH(4,8) by (simp add: nth_append less_Suc_eq)
  have neg: "list_all (negotiable False) (ls[k := l'])" "list_all (negotiable False) (rs[k := r'])"
    using IH(5,6) line(2,3) by (simp_all add: list_all_update)
  have rest: "\<forall>i. Suc k \<le> i \<longrightarrow> ls ! i = md_streams loc ! i \<and> rs ! i = md_streams remote ! i"
    using IH(7) by simp
  show ?case
    by - (rule exI [of _ "ls[k := l']"], rule exI [of _ "rs[k := r']"], rule exI [of _ "ss @ [s]"],
      simp add: foldR_append IH(1-4) line(1) neg rest ans)
qed

text \<open>A loop over indexes fails as soon as the body fails at the first index that it cannot handle.\<close>

lemma foldR_upt_fails:
  assumes "foldR f s [0..<k] = Inr s'" "f s' k = Inl e" "k < n"
  shows "foldR f s [0..<n] = Inl e"
proof -
  have "[0..<n] = [0..<k] @ k # [Suc k..<n]" using assms(3) upt_add_eq_append [of 0 k "n - k"] by (simp add: upt_conv_Cons)
  then show ?thesis using assms(1,2) by (simp add: foldR_append)
qed

lemma incoming_too_many_lines:
  assumes api: "ortp_contract api" and eng: "engine_wf api eng" and l: "all_negotiable False loc" and r: "all_negotiable False remote"
    and more: "length (md_streams loc) < length (md_streams remote)"
  shows "initiateIncoming eng api mc loc remote = Inl Index_out_of_range"
proof -
  let ?k = "length (md_streams loc)" and ?capneg = "capabilityNegotiation (md_params loc)"
  obtain ls rs ss where "foldR (incoming_line eng api mc ?capneg) (loc, remote, []) [0..<?k] = Inr (loc\<lparr>md_streams := ls\<rparr>, remote\<lparr>md_streams := rs\<rparr>, ss)"
    "length ls = ?k" using incoming_loop [OF api eng l r, of ?k mc ?capneg] more by auto
  from foldR_upt_fails [OF this(1) _ more] this(2) show ?thesis
    by (simp add: initiateIncoming_def Let_def new_media_desc_def incoming_line_def)
qed

lemma incoming_answers:
  assumes api: "ortp_contract api" and eng: "engine_wf api eng" and l: "all_negotiable False loc" and r: "all_negotiable False remote"
    and enough: "length (md_streams remote) \<le> length (md_streams loc)"
  shows "\<exists>res loc' remote'. initiateIncoming eng api mc loc remote = Inr (res, loc', remote') \<and>
    map s_type (md_streams res) = map s_type (md_streams remote) \<and> md_times res = md_times remote \<and>
    (\<forall>i < length (md_streams remote). enabled (md_streams res ! i) \<longrightarrow>
       enabled (md_streams remote ! i) \<and> s_type (md_streams loc ! i) = s_type (md_streams remote ! i))"
proof -
  let ?n = "length (md_streams remote)"
  obtain ls rs ss where loop: "foldR (incoming_line eng api mc (capabilityNegotiation (md_params loc))) (loc, remote, []) [0..<?n] =
      Inr (loc\<lparr>md_streams := ls\<rparr>, remote\<lparr>md_streams := rs\<rparr>, ss)"
    "length rs = ?n" "length ss = ?n" "\<forall>i < ?n. answers (md_streams loc) (md_streams remote) i (ss ! i)"
    using incoming_loop [OF api eng l r order_refl enough, of mc "capabilityNegotiation (md_params loc)"] by blast
  have wf: "list_all stream_wf ss" using loop(3,4) by (simp add: list_all_length answers_def)
  have verified: "\<exists>md'. verifyBundles (loc\<lparr>md_streams := ls\<rparr>) (remote\<lparr>md_streams := rs\<rparr>) (rebuild_bundles md) = Inr md' \<and>
      list_all2 weaker ss (md_streams md') \<and> md_times md' = md_times md" if "md_streams md = ss" for md
    using verified_weaker [of md "remote\<lparr>md_streams := rs\<rparr>" "loc\<lparr>md_streams := ls\<rparr>" True] wf loop(2,3) that by simp
  have "\<exists>res loc' remote'. initiateIncoming eng api mc loc remote = Inr (res, loc', remote') \<and>
      list_all2 weaker ss (md_streams res) \<and> md_times res = md_times remote"
  proof -
    define r1 where "r1 = (if md_record remote \<noteq> SalMediaRecordNone \<and> md_record loc \<noteq> SalMediaRecordNone
        then (new_media_desc (md_params loc))\<lparr>md_record := md_record loc\<rparr> else new_media_desc (md_params loc))
      \<lparr>md_streams := ss, md_username := md_username loc, md_addr := md_addr loc, md_times := md_times remote,
       md_bandwidth := md_bandwidth loc, md_origin_addr := md_origin_addr loc, md_session_ver := md_session_ver loc,
       md_session_id := md_session_id loc, md_ice_pwd := md_ice_pwd loc, md_ice_ufrag := md_ice_ufrag loc,
       md_ice_lite := md_ice_lite loc, md_set_nortpproxy := md_set_nortpproxy loc,
       md_custom_sdp_attributes := md_custom_sdp_attributes loc, md_name := md_name loc,
       md_rtcp_xr := (if xr_enabled (md_rtcp_xr remote)
                      then (if xr_enabled (md_rtcp_xr loc) \<and> md_dir loc = SalStreamSendRecv then md_rtcp_xr loc
                            else no_rtcp_xr\<lparr>xr_enabled := False\<rparr>)
                      else no_rtcp_xr)\<rparr>"
    have "initiateIncoming eng api mc loc remote =
        bindR (verifyBundles (loc\<lparr>md_streams := ls\<rparr>) (remote\<lparr>md_streams := rs\<rparr>) (rebuild_bundles r1))
          (\<lambda>r2. Inr (r2, loc\<lparr>md_streams := ls\<rparr>, remote\<lparr>md_streams := rs\<rparr>))"
      by (simp add: initiateIncoming_def Let_def r1_def loop(1) new_media_desc_def)
    with verified [of r1] show ?thesis by (auto simp: r1_def)
  qed
  then obtain res loc' remote' where res: "initiateIncoming eng api mc loc remote = Inr (res, loc', remote')"
    "list_all2 weaker ss (md_streams res)" "md_times res = md_times remote" by blast
  have len: "length (md_streams res) = ?n" using res(2) loop(3) list_all2_lengthD by metis
  have line: "s_type (md_streams res ! i) = s_type (md_streams remote ! i) \<and> (enabled (md_streams res ! i) \<longrightarrow>
       enabled (md_streams remote ! i) \<and> s_type (md_streams loc ! i) = s_type (md_streams remote ! i))"
    if "i < ?n" for i
    using loop(3,4) res(2) that by (auto simp: list_all2_conv_all_nth weaker_def answers_def)
  have "map s_type (md_streams res) = map s_type (md_streams remote)"
    by (rule nth_equalityI) (use len line in auto)
  with res(1,3) line show ?thesis by blast
qed

text \<open>
  C3: Answering an offer (for sessions whose codecs have mime types).  When the local description has a stream for every offered line, as
  the callers provide, an answer is returned: one line per offered line, in the same order and
  of the same type, with the times of the offer; a line of the answer is enabled only when the offered line is, and the
  local stream at its position has that type.  An offer with more lines than local streams is not declined line by line, as the code means to:
  the stream is accessed out of range before the size is tested.
\<close>

theorem initiateIncoming_answers:
  assumes "ortp_contract api" and "engine_wf api eng" and "all_negotiable False loc" and "all_negotiable False remote"
  shows "if length (md_streams remote) \<le> length (md_streams loc)
    then \<exists>res loc' remote'. initiateIncoming eng api mc loc remote = Inr (res, loc', remote') \<and>
      map s_type (md_streams res) = map s_type (md_streams remote) \<and> md_times res = md_times remote \<and>
      (\<forall>i < length (md_streams remote). enabled (md_streams res ! i) \<longrightarrow>
         enabled (md_streams remote ! i) \<and> s_type (md_streams loc ! i) = s_type (md_streams remote ! i))
    else initiateIncoming eng api mc loc remote = Inl Index_out_of_range"
  using incoming_answers [OF assms] incoming_too_many_lines [OF assms] by simp

definition audio_offer :: media_desc where
  "audio_offer = (new_media_desc default_params)\<lparr>md_streams := [srtp_line ''key'' 1], md_times := [(0, 0)]\<rparr>"

theorem initiateIncoming_answers_witness:
  "\<exists>res loc' remote'. initiateIncoming (new_engine (lookup_provider (linphone_core_register_offer_answer_providers sample_ortp)))
      sample_ortp (\<lambda>_. False) audio_offer audio_offer = Inr (res, loc', remote') \<and>
    map s_type (md_streams res) = [SalAudio] \<and> md_times res = [(0, 0)]"
proof -
  have "all_negotiable False audio_offer"
    by (simp add: all_negotiable_def audio_offer_def negotiable_def srtp_line_def named_payloads_def sample_pt_def)
  from initiateIncoming_answers [OF sample_ortp_contract registered_engine_wf this this, of "\<lambda>_. False"]
  show ?thesis by (auto simp: audio_offer_def srtp_line_def default_stream_def)
qed


section \<open>The reading of an answer\<close>

lemma cfg_eq_default_refl: "cfg_eq api default_cfg default_cfg = Inr True"
  by (simp add: cfg_eq_def cfg_equal_def zrtpChanges_def default_cfg_def cryptoChanges_def)

lemma outgoing_configuration_total:
  assumes api: "ortp_contract api" and eng: "engine_wf api eng" and l: "negotiable True l" and r: "negotiable False r"
  shows "\<exists>c l'. initiateOutgoingConfiguration eng api mc l r res li ri = Inr (c, l') \<and> same_line True l l' \<and>
    (\<forall>d. c = Some d \<longrightarrow> named_payloads (cfg_payloads d))"
proof -
  let ?lc = "getConfigurationAtIndex l li" and ?rc = "getConfigurationAtIndex r ri"
  let ?b = "cfg_mid ?rc \<noteq> '''' \<and> cfg_mid ?lc \<noteq> ''''"
  obtain a b where ab: "cfg_eq api ?lc default_cfg = Inr a" "cfg_eq api ?rc default_cfg = Inr b"
    using cfg_eq_default_total by metis
  show ?thesis
  proof (cases "a \<or> b")
    case True
    with ab l show ?thesis by (simp add: initiateOutgoingConfiguration_def)
  next
    case False
    then have "hasConfigurationAtIndex l li"
      using ab(1) cfg_eq_default_refl [of api]
      by (auto simp: hasConfigurationAtIndex_def getConfigurationAtIndex_def split: option.splits)
    with l have "cfg_payloads ?lc \<noteq> []" by (rule negotiable_nonempty)
    then obtain ps lp where ps: "matchPayloads eng api (cfg_payloads ?lc) (cfg_payloads ?rc) True ?b = Inr (ps, lp)"
      "named_payloads ps" "map mime_type lp = map mime_type (cfg_payloads ?lc)"
      using matchPayloads_total [OF api eng negotiable_cfg [OF l] negotiable_cfg [OF r], of True] by blast
    let ?l1 = "update_cfg_at li (\<lambda>c. c\<lparr>cfg_payloads := lp\<rparr>) l"
    have l1: "same_line True l ?l1" by (rule same_line_payloads [OF l ps(3)])
    then have "negotiable True ?l1" by (simp add: same_line_def)
    then have l2: "same_line True l (downgrade p li ?l1)" for p
      using same_line_downgrade same_line_trans [OF l1] by blast
    have fin: "\<exists>c. outgoing_finish mc l2 r li ri (c0\<lparr>cfg_payloads := ps, cfg_proto := p\<rparr>) = Inr c \<and>
        (\<forall>d. c = Some d \<longrightarrow> named_payloads (cfg_payloads d))" for l2 c0 p
      by (rule outgoing_finish_total) (simp add: ps(2))
    have "\<exists>c l'. initiateOutgoingConfiguration eng api mc l r res li ri = Inr (c, l') \<and>
        (l' = ?l1 \<or> l' = downgrade (cfg_proto ?rc) li ?l1) \<and> (\<forall>d. c = Some d \<longrightarrow> named_payloads (cfg_payloads d))"
    proof (cases "areProtoCompatibles (cfg_proto ?lc) (cfg_proto ?rc)")
      case True
      with False ab ps(1) fin [of "downgrade (cfg_proto ?rc) li ?l1"] show ?thesis
        unfolding initiateOutgoingConfiguration_def Let_def by (fastforce simp: bindR_eq_Inr)
    next
      case no: False
      with False ab ps(1) show ?thesis unfolding initiateOutgoingConfiguration_def Let_def by simp
    qed
    with l1 l2 show ?thesis by blast
  qed
qed

lemma negotiate_outgoing_total:
  assumes api: "ortp_contract api" and eng: "engine_wf api eng" and l: "negotiable True l" and r: "negotiable False r"
  shows "\<exists>neg l' li. negotiate_outgoing eng api mc l r res capneg = Inr (neg, l', li) \<and> same_line True l l' \<and>
    (\<forall>d. neg = Some d \<longrightarrow> named_payloads (cfg_payloads d))"
proof -
  let ?I = "\<lambda>(neg, l', _ :: u32). same_line True l l' \<and> (\<forall>d. neg = Some d \<longrightarrow> named_payloads (cfg_payloads d))"
  have "\<exists>st. negotiate_outgoing eng api mc l r res capneg = Inr st \<and> ?I st"
    unfolding negotiate_outgoing_def Let_def
  proof (rule foldR_ex)
    fix st :: "cfg option \<times> stream \<times> u32" and idx :: u32 assume I: "?I st"
    obtain neg l1 a where st: "st = (neg, l1, a)" by (cases st)
    have n: "negotiable True l1" using I by (simp add: st same_line_def)
    obtain c l' where "initiateOutgoingConfiguration eng api mc l1 r res idx actualConfigurationIndex = Inr (c, l')"
      "same_line True l1 l'" "\<forall>d. c = Some d \<longrightarrow> named_payloads (cfg_payloads d)"
      using outgoing_configuration_total [OF api eng n r] by blast
    with I show "\<exists>st'. try_outgoing eng api mc r res st idx = Inr st' \<and> ?I st'"
      by (cases neg) (auto simp: try_outgoing_def st intro: same_line_trans)
  qed (use l in simp)
  then show ?thesis by auto
qed

text \<open>Reading the answer of one stream: well-formed, at the actual configuration, and enabled only when the answer is.\<close>

lemma outgoing_stream_total:
  assumes api: "ortp_contract api" and eng: "engine_wf api eng" and l: "negotiable True l" and r: "negotiable False r"
  shows "\<exists>s l' r'. initiateOutgoingStream eng api mc l r capneg = Inr (s, l', r') \<and> stream_wf s \<and>
    s_cfgIndex s = actualConfigurationIndex \<and> s_type s = s_type l \<and> (enabled s \<longrightarrow> enabled r) \<and>
    negotiable True l' \<and> negotiable False r'"
proof -
  define m where "m = is_multicast_addr mc (s_rtp_addr l)"
  define res0 where "res0 = default_stream\<lparr>s_label := s_label l, s_content := s_content l, s_type := s_type l\<rparr>"
  define res1 where "res1 = (if m then res0\<lparr>s_multicast_role := SalMulticastSender\<rparr> else res0)"
  have r0: "stream_wf res0" "s_cfgIndex res0 = actualConfigurationIndex" "s_type res0 = s_type l" "\<not> enabled (res0\<lparr>s_rtp_port := 0\<rparr>)"
    by (simp_all add: res0_def default_stream_def stream_wf_def enabled_def isBundleOnly_def getChosenConfiguration_def
        getConfigurationAtIndex_def default_cfg_def)
  then have r1: "stream_wf res1" "s_cfgIndex res1 = actualConfigurationIndex" "s_type res1 = s_type l"
    by (simp_all add: res1_def stream_wf_def)
  have dis: "s_cfgIndex (stream_disable s) = s_cfgIndex s" for s by (simp add: stream_disable_def)
  note defs = initiateOutgoingStream_def Let_def m_def [symmetric] res0_def [symmetric] res1_def [symmetric]
  consider (mismatch) "m \<and> multicast_mismatch l r" | (off) "\<not> (m \<and> multicast_mismatch l r)" "\<not> enabled r"
    | (on) "\<not> (m \<and> multicast_mismatch l r)" "enabled r" by blast
  then show ?thesis
  proof cases
    case mismatch
    with r0 l r show ?thesis unfolding defs by (simp add: stream_wf_def)
  next
    case off
    with r1 l r dis disable_not_enabled show ?thesis unfolding defs if_not_P [OF off(1)] by simp
  next
    case on
    obtain neg l1 li where n: "negotiate_outgoing eng api mc l r res1 capneg = Inr (neg, l1, li)" "same_line True l l1"
      "\<forall>d. neg = Some d \<longrightarrow> named_payloads (cfg_payloads d)"
      using negotiate_outgoing_total [OF assms] by blast
    show ?thesis
    proof (cases neg)
      case None
      with on n r1 r dis show ?thesis unfolding defs if_not_P [OF on(1)] by (simp add: same_line_def)
    next
      case (Some c)
      have wf: "stream_wf (addActualConfiguration c res1)" "s_cfgIndex (addActualConfiguration c res1) = actualConfigurationIndex"
        using r1 by simp_all
      note wf' = wf(1) [unfolded stream_wf_def]
      from wf on n Some r1 r dis show ?thesis unfolding defs if_not_P [OF on(1)]
        by (simp add: same_line_def onlyTelephoneEvent_total) (simp add: stream_wf_def wf')
    qed
  qed
qed

lemma outgoing_rtcp_fields [simp]:
  "cfg_bundle_only (outgoing_rtcp ls rs c) = cfg_bundle_only c" "cfg_dir (outgoing_rtcp ls rs c) = cfg_dir c"
  by (simp_all add: outgoing_rtcp_def Let_def)

definition accepts :: "stream list \<Rightarrow> stream list \<Rightarrow> nat \<Rightarrow> stream \<Rightarrow> bool" where
  "accepts offers answers' i s \<longleftrightarrow> stream_wf s \<and>
     (enabled s \<longrightarrow> enabled (answers' ! i) \<and> s_type s = s_type (offers ! i) \<and> s_type (answers' ! i) = s_type (offers ! i))"

lemma outgoing_line_total:
  assumes api: "ortp_contract api" and eng: "engine_wf api eng" and l: "all_negotiable True loc" and r: "all_negotiable False remote"
    and i: "i < length (md_streams loc)" "i < length (md_streams remote)"
  shows "\<exists>ls' rs' s. outgoing_line eng api mc capneg (loc, remote, acc) i =
      Inr (loc\<lparr>md_streams := (md_streams loc)[i := ls']\<rparr>, remote\<lparr>md_streams := (md_streams remote)[i := rs']\<rparr>, acc @ [s]) \<and>
    negotiable True ls' \<and> negotiable False rs' \<and> accepts (md_streams loc) (md_streams remote) i s"
proof -
  let ?ls = "md_streams loc ! i" and ?rs = "md_streams remote ! i"
  have n: "negotiable True ?ls" "negotiable False ?rs" using l r i by (simp_all add: all_negotiable_def list_all_length)
  have copy: "stream_copy api s = s" if "stream_wf s" for s using stream_copy_id [OF api that] .
  have locs: "loc\<lparr>md_streams := (md_streams loc)[i := ?ls]\<rparr> = loc" "remote\<lparr>md_streams := (md_streams remote)[i := ?rs]\<rparr> = remote"
    by simp_all
  show ?thesis
  proof (cases "s_type ?rs = s_type ?ls \<and> areProtoInStreamCompatibles ?ls ?rs")
    case True
    obtain new ls' rs' where new: "initiateOutgoingStream eng api mc ?ls ?rs capneg = Inr (new, ls', rs')" "stream_wf new"
      "s_cfgIndex new = actualConfigurationIndex" "s_type new = s_type ?ls" "enabled new \<longrightarrow> enabled ?rs"
      "negotiable True ls'" "negotiable False rs'"
      using outgoing_stream_total [OF api eng n] by blast
    let ?s = "addActualConfiguration (outgoing_rtcp ls' rs' (getActualConfiguration new)) new"
    have "enabled ?s = enabled new"
      using new(2,3) by (simp add: enabled_addActual enabled_def [of new] isBundleOnly_def getDirection_def getActual_of_chosen)
    then have "accepts (md_streams loc) (md_streams remote) i ?s" using True new by (simp add: accepts_def)
    with True i new copy show ?thesis
      by - (rule exI [of _ ls'], rule exI [of _ rs'], rule exI [of _ ?s], simp add: outgoing_line_def Let_def stream_assign_default [OF api])
  next
    case False
    have "\<not> enabled default_stream"
      by (simp add: default_stream_def enabled_def isBundleOnly_def getChosenConfiguration_def getConfigurationAtIndex_def default_cfg_def)
    then have acc: "accepts (md_streams loc) (md_streams remote) i default_stream" by (simp add: accepts_def)
    have "outgoing_line eng api mc capneg (loc, remote, acc) i = Inr (loc, remote, acc @ [default_stream])"
      unfolding outgoing_line_def Let_def prod.case if_not_P [OF False] using i copy by simp
    with acc n locs show ?thesis
      by - (rule exI [of _ ?ls], rule exI [of _ ?rs], rule exI [of _ default_stream], simp)
  qed
qed

text \<open>The loop over the offered lines that the answer has.\<close>

lemma outgoing_loop:
  assumes api: "ortp_contract api" and eng: "engine_wf api eng" and l: "all_negotiable True loc" and r: "all_negotiable False remote"
    and k: "k \<le> length (md_streams loc)" "k \<le> length (md_streams remote)"
  shows "\<exists>ls rs ss. foldR (outgoing_line eng api mc capneg) (loc, remote, []) [0..<k] =
      Inr (loc\<lparr>md_streams := ls\<rparr>, remote\<lparr>md_streams := rs\<rparr>, ss) \<and>
    length ls = length (md_streams loc) \<and> length rs = length (md_streams remote) \<and> length ss = k \<and>
    list_all (negotiable True) ls \<and> list_all (negotiable False) rs \<and>
    (\<forall>i. k \<le> i \<longrightarrow> ls ! i = md_streams loc ! i \<and> rs ! i = md_streams remote ! i) \<and>
    (\<forall>i < length ss. accepts (md_streams loc) (md_streams remote) i (ss ! i))"
  using k
proof (induction k)
  case 0
  have "loc\<lparr>md_streams := md_streams loc\<rparr> = loc" "remote\<lparr>md_streams := md_streams remote\<rparr> = remote" by simp_all
  with l r show ?case
    by - (rule exI [of _ "md_streams loc"], rule exI [of _ "md_streams remote"], rule exI [of _ "[]"],
      simp add: all_negotiable_def)
next
  case (Suc k)
  from Suc obtain ls rs ss where IH: "foldR (outgoing_line eng api mc capneg) (loc, remote, []) [0..<k] =
      Inr (loc\<lparr>md_streams := ls\<rparr>, remote\<lparr>md_streams := rs\<rparr>, ss)"
    "length ls = length (md_streams loc)" "length rs = length (md_streams remote)" "length ss = k"
    "list_all (negotiable True) ls" "list_all (negotiable False) rs"
    "\<forall>i. k \<le> i \<longrightarrow> ls ! i = md_streams loc ! i \<and> rs ! i = md_streams remote ! i"
    "\<forall>i < length ss. accepts (md_streams loc) (md_streams remote) i (ss ! i)" by auto
  have rest: "\<forall>i. Suc k \<le> i \<longrightarrow> ls ! i = md_streams loc ! i \<and> rs ! i = md_streams remote ! i" using IH(7) by simp
  have n: "all_negotiable True (loc\<lparr>md_streams := ls\<rparr>)" "all_negotiable False (remote\<lparr>md_streams := rs\<rparr>)"
    "k < length (md_streams (loc\<lparr>md_streams := ls\<rparr>))" "k < length (md_streams (remote\<lparr>md_streams := rs\<rparr>))"
    using IH Suc.prems by (simp_all add: all_negotiable_def)
  obtain l' r' s where line: "outgoing_line eng api mc capneg (loc\<lparr>md_streams := ls\<rparr>, remote\<lparr>md_streams := rs\<rparr>, ss) k =
      Inr (loc\<lparr>md_streams := ls[k := l']\<rparr>, remote\<lparr>md_streams := rs[k := r']\<rparr>, ss @ [s])"
    "negotiable True l'" "negotiable False r'" "accepts ls rs k s"
    using outgoing_line_total [OF api eng n, of mc capneg ss] by auto
  have "accepts (md_streams loc) (md_streams remote) k s" using line(4) IH(7) by (simp add: accepts_def)
  then have acc: "\<forall>i < Suc k. accepts (md_streams loc) (md_streams remote) i ((ss @ [s]) ! i)"
    using IH(4,8) by (simp add: nth_append less_Suc_eq)
  show ?case
    by - (rule exI [of _ "ls[k := l']"], rule exI [of _ "rs[k := r']"], rule exI [of _ "ss @ [s]"],
      simp add: foldR_append IH(1-4) line(1) list_all_update IH(5,6) line(2,3) rest acc)
qed

lemma md_params_new: "md_params (new_media_desc p) = p"
  by (simp add: new_media_desc_def)

lemma outgoing_too_few_lines:
  assumes api: "ortp_contract api" and eng: "engine_wf api eng" and l: "all_negotiable True loc" and r: "all_negotiable False remote"
    and more: "length (md_streams remote) < length (md_streams loc)"
  shows "initiateOutgoing eng api mc loc remote = Inl Index_out_of_range"
proof -
  let ?k = "length (md_streams remote)" and ?capneg = "capabilityNegotiation (md_params loc)"
  obtain ls rs ss where "foldR (outgoing_line eng api mc ?capneg) (loc, remote, []) [0..<?k] = Inr (loc\<lparr>md_streams := ls\<rparr>, remote\<lparr>md_streams := rs\<rparr>, ss)"
    "length rs = ?k" using outgoing_loop [OF api eng l r, of ?k mc ?capneg] more by auto
  from foldR_upt_fails [OF this(1) _ more] this(2) show ?thesis
    by (simp add: initiateOutgoing_def Let_def md_params_new outgoing_line_def)
qed

lemma outgoing_returns:
  assumes api: "ortp_contract api" and eng: "engine_wf api eng" and l: "all_negotiable True loc" and r: "all_negotiable False remote"
    and enough: "length (md_streams loc) \<le> length (md_streams remote)"
  shows "\<exists>res loc' remote'. initiateOutgoing eng api mc loc remote = Inr (res, loc', remote') \<and>
    length (md_streams res) = length (md_streams loc) \<and> md_times res = md_times loc \<and>
    (\<forall>i < length (md_streams res). enabled (md_streams res ! i) \<longrightarrow> enabled (md_streams remote ! i) \<and>
       s_type (md_streams res ! i) = s_type (md_streams loc ! i) \<and> s_type (md_streams remote ! i) = s_type (md_streams loc ! i))"
proof -
  let ?n = "length (md_streams loc)"
  obtain ls rs ss where loop: "foldR (outgoing_line eng api mc (capabilityNegotiation (md_params loc))) (loc, remote, [])
        [0..<length (md_streams loc)] = Inr (loc\<lparr>md_streams := ls\<rparr>, remote\<lparr>md_streams := rs\<rparr>, ss)"
    "length rs = length (md_streams remote)" "length ss = ?n" "\<forall>i < length ss. accepts (md_streams loc) (md_streams remote) i (ss ! i)"
    using outgoing_loop [OF api eng l r order_refl enough, of mc "capabilityNegotiation (md_params loc)"] by blast
  have wf: "list_all stream_wf ss" using loop(3,4) by (simp add: list_all_length accepts_def)
  define r1 where "r1 = (new_media_desc (md_params loc))\<lparr>md_streams := ss, md_times := md_times loc, md_bandwidth := md_bandwidth remote,
      md_origin_addr := md_origin_addr remote, md_addr := md_addr remote, md_ice_pwd := md_ice_pwd loc, md_ice_ufrag := md_ice_ufrag loc,
      md_rtcp_xr := (if xr_enabled (md_rtcp_xr loc) \<and> \<not> xr_enabled (md_rtcp_xr remote)
                     then (md_rtcp_xr loc)\<lparr>xr_enabled := False\<rparr> else md_rtcp_xr loc)\<rparr>"
  define b where "b \<longleftrightarrow> md_bundles loc \<noteq> [] \<and> md_bundles remote \<noteq> []"
  have "list_all stream_wf (md_streams r1)" "length (md_streams r1) \<le> length (md_streams (remote\<lparr>md_streams := rs\<rparr>))"
    using wf loop(2,3) enough by (simp_all add: r1_def)
  from verified_weaker [OF this, of "loc\<lparr>md_streams := ls\<rparr>" b] obtain r3 where
    r3: "verifyBundles (loc\<lparr>md_streams := ls\<rparr>) (remote\<lparr>md_streams := rs\<rparr>) (if b then rebuild_bundles r1 else r1) = Inr r3"
      "list_all2 weaker ss (md_streams r3)" "md_times r3 = md_times loc" by (auto simp: r1_def)
  define res where "res = (if md_record loc \<noteq> SalMediaRecordNone \<and> md_record remote \<noteq> SalMediaRecordNone
      then r3\<lparr>md_record := md_record remote\<rparr> else r3)"
  have "initiateOutgoing eng api mc loc remote = Inr (res, loc\<lparr>md_streams := ls\<rparr>, remote\<lparr>md_streams := rs\<rparr>)"
  proof -
    have "initiateOutgoing eng api mc loc remote =
        bindR (verifyBundles (loc\<lparr>md_streams := ls\<rparr>) (remote\<lparr>md_streams := rs\<rparr>) (if b then rebuild_bundles r1 else r1))
          (\<lambda>r. Inr (if md_record loc \<noteq> SalMediaRecordNone \<and> md_record remote \<noteq> SalMediaRecordNone
                     then r\<lparr>md_record := md_record remote\<rparr> else r, loc\<lparr>md_streams := ls\<rparr>, remote\<lparr>md_streams := rs\<rparr>))"
      by (simp add: initiateOutgoing_def Let_def r1_def b_def loop(1) md_params_new cong: if_cong)
    then show ?thesis by (simp add: r3(1) res_def)
  qed
  moreover have res: "list_all2 weaker ss (md_streams res)" "md_times res = md_times loc" using r3 by (simp_all add: res_def)
  moreover from res(1) loop(3) have len: "length (md_streams res) = ?n" using list_all2_lengthD by metis
  moreover have "enabled (md_streams remote ! i) \<and> s_type (md_streams res ! i) = s_type (md_streams loc ! i) \<and>
      s_type (md_streams remote ! i) = s_type (md_streams loc ! i)"
    if "i < length (md_streams res)" and "enabled (md_streams res ! i)" for i
    using loop(3,4) res(1) len that by (auto simp: list_all2_conv_all_nth weaker_def accepts_def)
  ultimately show ?thesis by blast
qed

text \<open>
  C4: Reading an answer (for sessions whose codecs have mime types and whose offered configurations have a codec).  When the answer has a
  line for every offered line, as the protocol demands, a session is returned: one line per offered line, with the times of the offer; a line is enabled only
  when the answered line is and has the offered type.  A shorter answer is not skipped line by line, as the code means to: the line is accessed out of
  range before the size is tested.
\<close>

theorem initiateOutgoing_returns:
  assumes "ortp_contract api" and "engine_wf api eng" and "all_negotiable True loc" and "all_negotiable False remote"
  shows "if length (md_streams loc) \<le> length (md_streams remote)
    then \<exists>res loc' remote'. initiateOutgoing eng api mc loc remote = Inr (res, loc', remote') \<and>
      length (md_streams res) = length (md_streams loc) \<and> md_times res = md_times loc \<and>
      (\<forall>i < length (md_streams res). enabled (md_streams res ! i) \<longrightarrow> enabled (md_streams remote ! i) \<and>
         s_type (md_streams res ! i) = s_type (md_streams loc ! i) \<and> s_type (md_streams remote ! i) = s_type (md_streams loc ! i))
    else initiateOutgoing eng api mc loc remote = Inl Index_out_of_range"
  using outgoing_returns [OF assms] outgoing_too_few_lines [OF assms] by simp

theorem initiateOutgoing_returns_witness:
  "\<exists>res loc' remote'. initiateOutgoing (new_engine (lookup_provider (linphone_core_register_offer_answer_providers sample_ortp)))
      sample_ortp (\<lambda>_. False) audio_offer audio_offer = Inr (res, loc', remote') \<and>
    length (md_streams res) = 1 \<and> md_times res = [(0, 0)]"
proof -
  have n: "all_negotiable False audio_offer" "all_negotiable True audio_offer"
    by (simp_all add: all_negotiable_def audio_offer_def negotiable_def srtp_line_def named_payloads_def sample_pt_def)
  from initiateOutgoing_returns [OF sample_ortp_contract registered_engine_wf n(2) n(1), of "\<lambda>_. False"]
  show ?thesis by (auto simp: audio_offer_def)
qed

end
