(* ===== verification/Lp_Config.thy ===== *)
theory Lp_Config
  imports C_Text
begin

text \<open>
  The configuration store \<open>LpConfig\<close> (\<open>coreapi/lpconfig.c\<close>): sections of \<open>key=value\<close> items, comments and
  section parameters, read from and written to text.  The lists of the code are lists in the same order,
  and a pointer to a section or an item is its position; sections and items are only appended while such
  a pointer is held.  C strings that may be \<open>NULL\<close> are options.  The conversions of floating point
  numbers are parameters.  The first part defines the data and the operations, the second the
  store laws, the third the text format.
\<close>

section \<open>Data\<close>

record LpItem =
  item_key :: "string option"
  item_value :: string
  item_is_comment :: bool
  item_overwrite :: bool
  item_skip :: bool

record LpSectionParam =
  param_key :: string
  param_value :: string

record LpSection =
  sec_name :: string
  sec_items :: "LpItem list"
  sec_params :: "LpSectionParam list"
  sec_overwrite :: bool
  sec_skip :: bool

record LpConfig =
  lp_filename :: "string option"
  lp_tmpfilename :: "string option"
  lp_factory_filename :: "string option"
  lp_sections :: "LpSection list"
  lp_modified :: bool
  lp_readonly :: bool
  lp_abort_sync :: bool

definition lp_item_new :: "string \<Rightarrow> string \<Rightarrow> LpItem" where
  "lp_item_new key value = \<lparr>item_key = Some key, item_value = value, item_is_comment = False,
     item_overwrite = False, item_skip = False\<rparr>"

text \<open>The comment is cut at a carriage return, or else at a line feed.\<close>

definition cut_eol :: "string \<Rightarrow> string" where
  "cut_eol s = (if CHR 0x0D \<in> set s then takeWhile (\<lambda>c. c \<noteq> CHR 0x0D) s else takeWhile (\<lambda>c. c \<noteq> CHR 0x0A) s)"

definition lp_comment_new :: "string \<Rightarrow> LpItem" where
  "lp_comment_new comment = \<lparr>item_key = None, item_value = cut_eol comment, item_is_comment = True,
     item_overwrite = False, item_skip = False\<rparr>"

definition lp_section_param_new :: "string \<Rightarrow> string \<Rightarrow> LpSectionParam" where
  "lp_section_param_new key value = \<lparr>param_key = key, param_value = value\<rparr>"

definition lp_section_new :: "string \<Rightarrow> LpSection" where
  "lp_section_new name = \<lparr>sec_name = name, sec_items = [], sec_params = [], sec_overwrite = False, sec_skip = False\<rparr>"

definition empty_lpconfig :: LpConfig where
  "empty_lpconfig = \<lparr>lp_filename = None, lp_tmpfilename = None, lp_factory_filename = None, lp_sections = [],
     lp_modified = False, lp_readonly = False, lp_abort_sync = False\<rparr>"

section \<open>Lists of sections and items\<close>

definition remove_nth :: "nat \<Rightarrow> 'a list \<Rightarrow> 'a list" where
  "remove_nth i xs = take i xs @ drop (Suc i) xs"

definition lp_section_add_item :: "LpItem \<Rightarrow> LpSection \<Rightarrow> LpSection" where
  "lp_section_add_item item sec = sec\<lparr>sec_items := sec_items sec @ [item]\<rparr>"

definition linphone_config_add_section :: "LpSection \<Rightarrow> LpConfig \<Rightarrow> LpConfig" where
  "linphone_config_add_section section conf = conf\<lparr>lp_sections := lp_sections conf @ [section]\<rparr>"

definition linphone_config_add_section_param :: "LpSectionParam \<Rightarrow> LpSection \<Rightarrow> LpSection" where
  "linphone_config_add_section_param param section = section\<lparr>sec_params := sec_params section @ [param]\<rparr>"

definition linphone_config_remove_section :: "nat \<Rightarrow> LpConfig \<Rightarrow> LpConfig" where
  "linphone_config_remove_section i conf = conf\<lparr>lp_sections := remove_nth i (lp_sections conf)\<rparr>"

definition lp_section_remove_item :: "nat \<Rightarrow> LpSection \<Rightarrow> LpSection" where
  "lp_section_remove_item i sec = sec\<lparr>sec_items := remove_nth i (sec_items sec)\<rparr>"

definition lp_item_set_value :: "string \<Rightarrow> LpItem \<Rightarrow> LpItem" where
  "lp_item_set_value value item = item\<lparr>item_value := value\<rparr>"

definition linphone_config_find_section :: "LpConfig \<Rightarrow> string \<Rightarrow> nat option" where
  "linphone_config_find_section conf name = find_index (\<lambda>s. sec_name s = name) (lp_sections conf)"

definition lp_section_find_param :: "LpSection \<Rightarrow> string \<Rightarrow> LpSectionParam option" where
  "lp_section_find_param sec key = find (\<lambda>p. param_key p = key) (sec_params sec)"

definition lp_section_find_comment :: "LpSection \<Rightarrow> string \<Rightarrow> nat option" where
  "lp_section_find_comment sec comment = find_index (\<lambda>i. item_is_comment i \<and> item_value i = comment) (sec_items sec)"

definition lp_section_find_item :: "LpSection \<Rightarrow> string \<Rightarrow> nat option" where
  "lp_section_find_item sec name = find_index (\<lambda>i. \<not> item_is_comment i \<and> item_key i = Some name) (sec_items sec)"

definition lp_section_get_items :: "LpSection \<Rightarrow> LpItem list" where
  "lp_section_get_items sec = filter (\<lambda>i. \<not> item_is_comment i) (sec_items sec)"

text \<open>An assignment through the pointer to the section or item at a position.\<close>

definition update_section :: "nat \<Rightarrow> (LpSection \<Rightarrow> LpSection) \<Rightarrow> LpConfig \<Rightarrow> LpConfig" where
  "update_section i f conf = conf\<lparr>lp_sections := (lp_sections conf)[i := f (lp_sections conf ! i)]\<rparr>"

definition update_item :: "nat \<Rightarrow> (LpItem \<Rightarrow> LpItem) \<Rightarrow> LpSection \<Rightarrow> LpSection" where
  "update_item i f sec = sec\<lparr>sec_items := (sec_items sec)[i := f (sec_items sec ! i)]\<rparr>"

section \<open>Reading text\<close>

definition is_first_char :: "string \<Rightarrow> bool" where
  "is_first_char before = list_all (\<lambda>c. c = CHR '' '') before"

definition is_a_comment :: "string \<Rightarrow> bool" where
  "is_a_comment str \<longleftrightarrow> (case dropWhile (\<lambda>c. c = CHR '' '') str of c # _ \<Rightarrow> c = CHR ''#'' | [] \<Rightarrow> False)"

text \<open>
  The parameters of a section header.  \<open>buf\<close> is the memory from behind the opening bracket to the terminator of the
  line, with the terminator that replaced the closing bracket; \<open>p\<close> is the position of \<open>pos2\<close>.  The
  replacement of \<open>=\<close> by a blank stays in the buffer.  Reading behind the terminator of the line is a failure.
\<close>

definition cstr_at :: "string \<Rightarrow> nat \<Rightarrow> string" where
  "cstr_at buf p = takeWhile (\<lambda>c. c \<noteq> CHR 0x00) (drop p buf)"

lemma cstr_at_nth:
  assumes "i < length (cstr_at buf p)"
  shows "p + i < length buf \<and> buf ! (p + i) = cstr_at buf p ! i"
proof -
  have "i < length (drop p buf)" using assms length_takeWhile_le unfolding cstr_at_def by (metis order_less_le_trans)
  then show ?thesis using assms by (simp add: cstr_at_def takeWhile_nth)
qed

lemma count_list_update:
  assumes "i < length xs" and "xs ! i = a" and "b \<noteq> a"
  shows "count_list (xs[i := b]) a < count_list xs a"
  using assms by (induction xs arbitrary: i) (auto simp: nth_Cons split: nat.splits)

function parse_params :: "string \<Rightarrow> nat \<Rightarrow> LpSection \<Rightarrow> LpSection res" where
  "parse_params buf p sec =
     (if length buf \<le> p then Inl Index_out_of_range
      else case find_index (\<lambda>c. c = CHR ''='') (cstr_at buf p) of
        None \<Rightarrow> Inr sec
      | Some i \<Rightarrow>
          (let buf' = buf[p + i := CHR '' '']
           in case scan_word (cstr_at buf' p) of
                None \<Rightarrow> Inr sec
              | Some (key, r) \<Rightarrow> (case scan_word r of
                    None \<Rightarrow> Inr sec
                  | Some (value, _) \<Rightarrow> parse_params buf' (p + length key + length value + 2)
                      (linphone_config_add_section_param (lp_section_param_new key value) sec))))"
  by auto

termination
proof (relation "measure (\<lambda>(buf, p, sec). count_list buf (CHR ''=''))", goal_cases)
  case (2 buf p sec i buf' x key r z val w)
  then have i: "i < length (cstr_at buf p)" "cstr_at buf p ! i = CHR ''=''" using find_index_SomeD by blast+
  from cstr_at_nth [OF i(1)] i(2) 2 show ?case by (auto intro: count_list_update)
qed simp

declare parse_params.simps [simp del]

text \<open>A line that starts with an opening bracket and has a closing one.\<close>

definition parse_section_line :: "LpConfig \<Rightarrow> string \<Rightarrow> string \<Rightarrow> nat option \<Rightarrow> (LpConfig \<times> nat option) res" where
  "parse_section_line conf body rest cur =
     (case scan_word body of
        None \<Rightarrow> Inr (conf, cur)
      | Some (secname, _) \<Rightarrow>
          (let (conf1, i) = (case linphone_config_find_section conf secname of
                 Some i \<Rightarrow> (conf, i)
               | None \<Rightarrow> (linphone_config_add_section (lp_section_new secname) conf, length (lp_sections conf)))
           in if length secname < length body
              then bindR (parse_params (body @ CHR 0x00 # rest @ [CHR 0x00]) (length secname + 1) (lp_sections conf1 ! i))
                     (\<lambda>sec. Inr (update_section i (\<lambda>_. sec) conf1, Some i))
              else Inr (conf1, Some i)))"

definition parse_comment_line :: "LpConfig \<Rightarrow> string \<Rightarrow> nat option \<Rightarrow> LpConfig \<times> nat option" where
  "parse_comment_line conf line cur =
     (case cur of None \<Rightarrow> (conf, cur)
      | Some i \<Rightarrow> (update_section i (\<lambda>sec.
            lp_section_add_item (lp_comment_new line)
              (case lp_section_find_comment sec (item_value (lp_comment_new line)) of
                 Some j \<Rightarrow> lp_section_remove_item j sec | None \<Rightarrow> sec)) conf, cur))"

text \<open>The value is cut at the end of the line, then its trailing blanks are removed.\<close>

definition strip_trailing :: "string \<Rightarrow> string" where
  "strip_trailing s = rev (dropWhile (\<lambda>c. c = CHR '' '') (rev s))"

definition store_item :: "string \<Rightarrow> string \<Rightarrow> LpSection \<Rightarrow> LpSection" where
  "store_item key value sec = (case lp_section_find_item sec key of
       None \<Rightarrow> lp_section_add_item (lp_item_new key value) sec
     | Some j \<Rightarrow> update_item j (lp_item_set_value value) sec)"

definition parse_item_line :: "LpConfig \<Rightarrow> string \<Rightarrow> nat option \<Rightarrow> LpConfig \<times> nat option" where
  "parse_item_line conf line cur =
     (case find_index (\<lambda>c. c = CHR ''='') line of
        None \<Rightarrow> (conf, cur)
      | Some e \<Rightarrow> (case scan_word (take e line) of
            None \<Rightarrow> (conf, cur)
          | Some (key, _) \<Rightarrow>
              (let value = strip_trailing (cut_eol (drop (Suc e) line))
               in if value = '''' then (conf, cur)
                  else (case cur of None \<Rightarrow> (conf, cur)
                        | Some i \<Rightarrow> (update_section i (store_item key value) conf, cur)))))"

definition linphone_config_parse_line :: "LpConfig \<Rightarrow> string \<Rightarrow> nat option \<Rightarrow> (LpConfig \<times> nat option) res" where
  "linphone_config_parse_line conf line cur =
     (case find_index (\<lambda>c. c = CHR ''['') line of
        Some i \<Rightarrow>
          (if is_first_char (take i line)
           then (case find_index (\<lambda>c. c = CHR '']'') (drop i line) of
                   Some j \<Rightarrow> parse_section_line conf (take (j - 1) (drop (Suc i) line)) (drop (Suc (i + j)) line) cur
                 | None \<Rightarrow> Inr (conf, cur))
           else Inr (if is_a_comment line then parse_comment_line conf line cur else parse_item_line conf line cur))
      | None \<Rightarrow> Inr (if is_a_comment line then parse_comment_line conf line cur else parse_item_line conf line cur))"

definition parse_lines :: "LpConfig \<times> nat option \<Rightarrow> string list \<Rightarrow> (LpConfig \<times> nat option) res" where
  "parse_lines = foldR (\<lambda>(conf, cur) line. linphone_config_parse_line conf line cur)"

text \<open>
  Reading a file: the sizes and lines that successive calls of \<open>bctbx_file_get_nxtline\<close> give; the loop
  stops at the first size that is not positive.  The result is the store and the total size.
\<close>

definition linphone_config_parse :: "LpConfig \<Rightarrow> (int \<times> string) list option \<Rightarrow> (LpConfig \<times> int) res" where
  "linphone_config_parse conf pFile =
     (case pFile of None \<Rightarrow> Inr (conf, -1)
      | Some reads \<Rightarrow> (let got = takeWhile (\<lambda>(size, _). 0 < size) reads
          in bindR (parse_lines (conf, None) (map snd got)) (\<lambda>(conf', _). Inr (conf', sum_list (map fst got)))))"

definition linphone_config_new_from_buffer :: "string \<Rightarrow> LpConfig res" where
  "linphone_config_new_from_buffer buffer =
     bindR (parse_lines (empty_lpconfig, None) (strtok_all (CHR 0x0A) buffer)) (\<lambda>(conf, _). Inr conf)"


section \<open>Reading entries\<close>

definition linphone_config_get_section_param_string :: "LpConfig \<Rightarrow> string \<Rightarrow> string \<Rightarrow> string option \<Rightarrow> string option" where
  "linphone_config_get_section_param_string conf section key default_value =
     (case linphone_config_find_section conf section of
        Some i \<Rightarrow> (case lp_section_find_param (lp_sections conf ! i) key of Some p \<Rightarrow> Some (param_value p) | None \<Rightarrow> default_value)
      | None \<Rightarrow> default_value)"

text \<open>The item of a key, which most of the functions look up.\<close>

definition find_entry :: "LpConfig \<Rightarrow> string \<Rightarrow> string \<Rightarrow> LpItem option" where
  "find_entry conf section key =
     (case linphone_config_find_section conf section of
        Some i \<Rightarrow> (let sec = lp_sections conf ! i in map_option (\<lambda>j. sec_items sec ! j) (lp_section_find_item sec key))
      | None \<Rightarrow> None)"

definition linphone_config_get_string :: "LpConfig \<Rightarrow> string \<Rightarrow> string \<Rightarrow> string option \<Rightarrow> string option" where
  "linphone_config_get_string conf section key default_string =
     (case find_entry conf section key of Some item \<Rightarrow> Some (item_value item) | None \<Rightarrow> default_string)"

definition linphone_config_get_string_list :: "LpConfig \<Rightarrow> string \<Rightarrow> string \<Rightarrow> string list \<Rightarrow> string list" where
  "linphone_config_get_string_list conf section key default_list =
     (case find_entry conf section key of Some item \<Rightarrow> split_at (CHR '','') (item_value item) | None \<Rightarrow> default_list)"

text \<open>The result is the returned flag with \<open>*min\<close> and \<open>*max\<close>.\<close>

definition decode_range :: "int \<Rightarrow> int \<Rightarrow> string \<Rightarrow> (bool \<times> int \<times> int) res" where
  "decode_range default_min default_max str =
     (case find_index (\<lambda>c. c = CHR ''-'') str of
        None \<Rightarrow> Inr (False, default_min, default_max)
      | Some m \<Rightarrow> (if m = 0 then Inr (False, default_min, default_max)
          else bindR (c_atoi 32 str) (\<lambda>lo. bindR (c_atoi 32 (drop (Suc m) str)) (\<lambda>hi. Inr (True, lo, hi)))))"

definition linphone_config_get_range :: "LpConfig \<Rightarrow> string \<Rightarrow> string \<Rightarrow> int \<Rightarrow> int \<Rightarrow> (bool \<times> int \<times> int) res" where
  "linphone_config_get_range conf section key default_min default_max =
     (case linphone_config_get_string conf section key None of
        Some str \<Rightarrow> decode_range default_min default_max str
      | None \<Rightarrow> Inr (True, default_min, default_max))"

definition decode_int :: "string \<Rightarrow> int res" where
  "decode_int str = (if take 2 str = ''0x'' then scan_x str else scan_i str)"

definition linphone_config_get_int :: "LpConfig \<Rightarrow> string \<Rightarrow> string \<Rightarrow> int \<Rightarrow> int res" where
  "linphone_config_get_int conf section key default_value =
     (case linphone_config_get_string conf section key None of Some str \<Rightarrow> decode_int str | None \<Rightarrow> Inr default_value)"

definition decode_bool :: "string \<Rightarrow> bool res" where
  "decode_bool str = bindR (scan_i str) (\<lambda>ret. Inr (ret \<noteq> 0))"

definition linphone_config_get_bool :: "LpConfig \<Rightarrow> string \<Rightarrow> string \<Rightarrow> bool \<Rightarrow> bool res" where
  "linphone_config_get_bool conf section key default_value =
     (case linphone_config_get_string conf section key None of Some str \<Rightarrow> decode_bool str | None \<Rightarrow> Inr default_value)"

definition linphone_config_get_int64 :: "LpConfig \<Rightarrow> string \<Rightarrow> string \<Rightarrow> int \<Rightarrow> int res" where
  "linphone_config_get_int64 conf section key default_value =
     (case linphone_config_get_string conf section key None of Some str \<Rightarrow> c_atoi 64 str | None \<Rightarrow> Inr default_value)"

text \<open>\<open>scan_f\<close> is \<open>sscanf(str, "%f", &ret)\<close>: \<open>None\<close> when nothing is converted.\<close>

definition linphone_config_get_float :: "(string \<Rightarrow> 'f option) \<Rightarrow> LpConfig \<Rightarrow> string \<Rightarrow> string \<Rightarrow> 'f \<Rightarrow> 'f" where
  "linphone_config_get_float scan_f conf section key default_value =
     (case linphone_config_get_string conf section key None of
        None \<Rightarrow> default_value
      | Some str \<Rightarrow> (case scan_f str of Some v \<Rightarrow> v | None \<Rightarrow> default_value))"

definition linphone_config_get_overwrite_flag_for_entry :: "LpConfig \<Rightarrow> string \<Rightarrow> string \<Rightarrow> bool" where
  "linphone_config_get_overwrite_flag_for_entry conf section key =
     (case find_entry conf section key of Some item \<Rightarrow> item_overwrite item | None \<Rightarrow> False)"

definition linphone_config_get_overwrite_flag_for_section :: "LpConfig \<Rightarrow> string \<Rightarrow> bool" where
  "linphone_config_get_overwrite_flag_for_section conf section =
     (case linphone_config_find_section conf section of Some i \<Rightarrow> sec_overwrite (lp_sections conf ! i) | None \<Rightarrow> False)"

definition linphone_config_get_skip_flag_for_entry :: "LpConfig \<Rightarrow> string \<Rightarrow> string \<Rightarrow> bool" where
  "linphone_config_get_skip_flag_for_entry conf section key =
     (case find_entry conf section key of Some item \<Rightarrow> item_skip item | None \<Rightarrow> False)"

definition linphone_config_get_skip_flag_for_section :: "LpConfig \<Rightarrow> string \<Rightarrow> bool" where
  "linphone_config_get_skip_flag_for_section conf section =
     (case linphone_config_find_section conf section of Some i \<Rightarrow> sec_skip (lp_sections conf ! i) | None \<Rightarrow> False)"

section \<open>Writing entries\<close>

definition null_or_empty :: "string option \<Rightarrow> bool" where
  "null_or_empty value \<longleftrightarrow> (case value of None \<Rightarrow> True | Some v \<Rightarrow> v = '''')"

definition linphone_config_set_string :: "LpConfig \<Rightarrow> string \<Rightarrow> string \<Rightarrow> string option \<Rightarrow> LpConfig" where
  "linphone_config_set_string conf section key value =
     (let commit = (\<lambda>c. c\<lparr>lp_modified := True\<rparr>)
      in case linphone_config_find_section conf section of
           Some i \<Rightarrow>
             (case lp_section_find_item (lp_sections conf ! i) key of
                Some j \<Rightarrow>
                  (if null_or_empty value then commit (update_section i (lp_section_remove_item j) conf)
                   else if item_value (sec_items (lp_sections conf ! i) ! j) = the value then conf
                   else commit (update_section i (update_item j (lp_item_set_value (the value))) conf))
              | None \<Rightarrow>
                  commit (if null_or_empty value then conf
                          else update_section i (lp_section_add_item (lp_item_new key (the value))) conf))
         | None \<Rightarrow>
             commit (if null_or_empty value then conf
                     else linphone_config_add_section
                            (lp_section_add_item (lp_item_new key (the value)) (lp_section_new section)) conf))"

fun join_commas :: "string list \<Rightarrow> string option" where
  "join_commas [] = None"
| "join_commas [x] = Some x"
| "join_commas (x # y # ys) = join_commas ((x @ CHR '','' # y) # ys)"

definition linphone_config_set_string_list :: "LpConfig \<Rightarrow> string \<Rightarrow> string \<Rightarrow> string list \<Rightarrow> LpConfig" where
  "linphone_config_set_string_list conf section key value = linphone_config_set_string conf section key (join_commas value)"

text \<open>The array \<open>tmp\<close> has 30 bytes in all of these.\<close>

definition encode_range :: "int \<Rightarrow> int \<Rightarrow> string" where
  "encode_range min_value max_value = snprintf_into 30 (int_to_string min_value @ CHR ''-'' # int_to_string max_value)"

definition linphone_config_set_range :: "LpConfig \<Rightarrow> string \<Rightarrow> string \<Rightarrow> int \<Rightarrow> int \<Rightarrow> LpConfig" where
  "linphone_config_set_range conf section key min_value max_value =
     linphone_config_set_string conf section key (Some (encode_range min_value max_value))"

definition encode_int :: "int \<Rightarrow> string" where
  "encode_int v = snprintf_into 30 (int_to_string v)"

definition linphone_config_set_int :: "LpConfig \<Rightarrow> string \<Rightarrow> string \<Rightarrow> int \<Rightarrow> LpConfig" where
  "linphone_config_set_int conf section key v = linphone_config_set_string conf section key (Some (encode_int v))"

definition linphone_config_set_bool :: "LpConfig \<Rightarrow> string \<Rightarrow> string \<Rightarrow> bool \<Rightarrow> LpConfig" where
  "linphone_config_set_bool conf section key v = linphone_config_set_int conf section key (if v then 1 else 0)"

definition encode_int_hex :: "int \<Rightarrow> string" where
  "encode_int_hex v = snprintf_into 30 (''0x'' @ int_to_hex v)"

definition linphone_config_set_int_hex :: "LpConfig \<Rightarrow> string \<Rightarrow> string \<Rightarrow> int \<Rightarrow> LpConfig" where
  "linphone_config_set_int_hex conf section key v = linphone_config_set_string conf section key (Some (encode_int_hex v))"

definition linphone_config_set_int64 :: "LpConfig \<Rightarrow> string \<Rightarrow> string \<Rightarrow> int \<Rightarrow> LpConfig" where
  "linphone_config_set_int64 conf section key v = linphone_config_set_string conf section key (Some (encode_int v))"

definition linphone_config_set_float :: "('f \<Rightarrow> string) \<Rightarrow> LpConfig \<Rightarrow> string \<Rightarrow> string \<Rightarrow> 'f \<Rightarrow> LpConfig" where
  "linphone_config_set_float print_f conf section key v =
     linphone_config_set_string conf section key (Some (snprintf_into 30 (print_f v)))"

definition update_entry :: "(LpItem \<Rightarrow> LpItem) \<Rightarrow> LpConfig \<Rightarrow> string \<Rightarrow> string \<Rightarrow> LpConfig" where
  "update_entry f conf section key =
     (case linphone_config_find_section conf section of
        Some i \<Rightarrow> (case lp_section_find_item (lp_sections conf ! i) key of
            Some j \<Rightarrow> update_section i (update_item j f) conf | None \<Rightarrow> conf)
      | None \<Rightarrow> conf)"

definition linphone_config_set_overwrite_flag_for_entry :: "LpConfig \<Rightarrow> string \<Rightarrow> string \<Rightarrow> bool \<Rightarrow> LpConfig" where
  "linphone_config_set_overwrite_flag_for_entry conf section key v = update_entry (\<lambda>i. i\<lparr>item_overwrite := v\<rparr>) conf section key"

definition linphone_config_set_skip_flag_for_entry :: "LpConfig \<Rightarrow> string \<Rightarrow> string \<Rightarrow> bool \<Rightarrow> LpConfig" where
  "linphone_config_set_skip_flag_for_entry conf section key v = update_entry (\<lambda>i. i\<lparr>item_skip := v\<rparr>) conf section key"

definition linphone_config_set_overwrite_flag_for_section :: "LpConfig \<Rightarrow> string \<Rightarrow> bool \<Rightarrow> LpConfig" where
  "linphone_config_set_overwrite_flag_for_section conf section v =
     (case linphone_config_find_section conf section of
        Some i \<Rightarrow> update_section i (\<lambda>s. s\<lparr>sec_overwrite := v\<rparr>) conf | None \<Rightarrow> conf)"

definition linphone_config_set_skip_flag_for_section :: "LpConfig \<Rightarrow> string \<Rightarrow> bool \<Rightarrow> LpConfig" where
  "linphone_config_set_skip_flag_for_section conf section v =
     (case linphone_config_find_section conf section of
        Some i \<Rightarrow> update_section i (\<lambda>s. s\<lparr>sec_skip := v\<rparr>) conf | None \<Rightarrow> conf)"

definition linphone_config_clean_section :: "LpConfig \<Rightarrow> string \<Rightarrow> LpConfig" where
  "linphone_config_clean_section conf section =
     (case linphone_config_find_section conf section of
        Some i \<Rightarrow> linphone_config_remove_section i conf | None \<Rightarrow> conf)\<lparr>lp_modified := True\<rparr>"

definition linphone_config_clean_entry :: "LpConfig \<Rightarrow> string \<Rightarrow> string \<Rightarrow> LpConfig" where
  "linphone_config_clean_entry conf section key =
     (case linphone_config_find_section conf section of
        Some i \<Rightarrow> (case lp_section_find_item (lp_sections conf ! i) key of
            Some j \<Rightarrow> update_section i (lp_section_remove_item j) conf | None \<Rightarrow> conf)
      | None \<Rightarrow> conf)"

section \<open>Queries and dumps\<close>

definition linphone_config_has_section :: "LpConfig \<Rightarrow> string \<Rightarrow> bool" where
  "linphone_config_has_section conf section \<longleftrightarrow> linphone_config_find_section conf section \<noteq> None"

definition linphone_config_has_entry :: "LpConfig \<Rightarrow> string \<Rightarrow> string \<Rightarrow> bool" where
  "linphone_config_has_entry conf section key \<longleftrightarrow> find_entry conf section key \<noteq> None"

definition linphone_config_needs_commit :: "LpConfig \<Rightarrow> bool" where
  "linphone_config_needs_commit conf = lp_modified conf"

definition linphone_config_is_readonly :: "LpConfig \<Rightarrow> bool" where
  "linphone_config_is_readonly conf \<longleftrightarrow> lp_filename conf = None \<or> lp_readonly conf"

definition linphone_config_get_sections_names_list :: "LpConfig \<Rightarrow> string list" where
  "linphone_config_get_sections_names_list conf = map sec_name (lp_sections conf)"

text \<open>Items that are not comments have a key.\<close>

definition linphone_config_get_keys_names_list :: "LpConfig \<Rightarrow> string \<Rightarrow> string list" where
  "linphone_config_get_keys_names_list conf section =
     (case linphone_config_find_section conf section of
        Some i \<Rightarrow> map (\<lambda>it. the (item_key it)) (lp_section_get_items (lp_sections conf ! i)) | None \<Rightarrow> [])"

text \<open>The section name with the suffix is built in an array of \<open>MAX_LEN\<close> bytes.\<close>

definition default_section :: "string \<Rightarrow> string res" where
  "default_section section =
     (if 16384 \<le> length (section @ ''_default_values'') then Inl Buffer_overflow else Inr (section @ ''_default_values''))"

definition linphone_config_get_default_int :: "LpConfig \<Rightarrow> string \<Rightarrow> string \<Rightarrow> int \<Rightarrow> int res" where
  "linphone_config_get_default_int conf section key default_value =
     bindR (default_section section) (\<lambda>s. linphone_config_get_int conf s key default_value)"

definition linphone_config_get_default_int64 :: "LpConfig \<Rightarrow> string \<Rightarrow> string \<Rightarrow> int \<Rightarrow> int res" where
  "linphone_config_get_default_int64 conf section key default_value =
     bindR (default_section section) (\<lambda>s. linphone_config_get_int64 conf s key default_value)"

definition linphone_config_get_default_string :: "LpConfig \<Rightarrow> string \<Rightarrow> string \<Rightarrow> string option \<Rightarrow> string option res" where
  "linphone_config_get_default_string conf section key default_value =
     bindR (default_section section) (\<lambda>s. Inr (linphone_config_get_string conf s key default_value))"

definition linphone_config_get_default_float :: "(string \<Rightarrow> 'f option) \<Rightarrow> LpConfig \<Rightarrow> string \<Rightarrow> string \<Rightarrow> 'f \<Rightarrow> 'f res" where
  "linphone_config_get_default_float scan_f conf section key default_value =
     bindR (default_section section) (\<lambda>s. Inr (linphone_config_get_float scan_f conf s key default_value))"

definition linphone_config_simulate_crash_during_sync :: "LpConfig \<Rightarrow> bool \<Rightarrow> LpConfig" where
  "linphone_config_simulate_crash_during_sync conf v = conf\<lparr>lp_abort_sync := v\<rparr>"

definition dump_entry :: "LpConfig \<Rightarrow> string \<Rightarrow> string \<Rightarrow> string" where
  "dump_entry conf section entry =
     CHR 0x09 # entry @ CHR ''='' # the (linphone_config_get_string conf section entry (Some '''')) @ [CHR 0x0A]"

definition dump_section :: "LpConfig \<Rightarrow> string \<Rightarrow> string" where
  "dump_section conf section = CHR ''['' # section @ [CHR '']'', CHR 0x0A] @
     concat (map (dump_entry conf section) (linphone_config_get_keys_names_list conf section))"

definition linphone_config_dump :: "LpConfig \<Rightarrow> string option" where
  "linphone_config_dump conf =
     (if lp_sections conf = [] then None else Some (concat (map (dump_section conf) (map sec_name (lp_sections conf)))))"

section \<open>Writing text\<close>

definition lp_item_write :: "LpItem \<Rightarrow> string" where
  "lp_item_write item =
     (if item_is_comment item then item_value item @ [CHR 0x0A]
      else if item_value item \<noteq> '''' then the (item_key item) @ CHR ''='' # item_value item @ [CHR 0x0A]
      else '''')"

definition lp_section_param_write :: "LpSectionParam \<Rightarrow> string" where
  "lp_section_param_write param =
     (if param_value param \<noteq> '''' then CHR '' '' # param_key param @ CHR ''='' # param_value param else '''')"

definition lp_section_write :: "LpSection \<Rightarrow> string" where
  "lp_section_write sec = CHR ''['' # sec_name sec @ concat (map lp_section_param_write (sec_params sec)) @
     [CHR '']'', CHR 0x0A] @ concat (map lp_item_write (sec_items sec)) @ [CHR 0x0A]"

definition config_text :: "LpConfig \<Rightarrow> string" where
  "config_text conf = concat (map lp_section_write (lp_sections conf))"


section \<open>Positions in lists\<close>

lemma find_list_update:
  assumes "i < length xs" and "P y = P (xs ! i)" and "\<not> P y"
  shows "find P (xs[i := y]) = find P xs"
  using assms by (induction xs arbitrary: i) (auto simp: nth_Cons split: nat.splits)

lemma find_at_found:
  assumes "find_index P xs = Some i" and "P y"
  shows "find P (xs[i := y]) = Some y"
  using assms by (induction xs arbitrary: i) (auto split: if_splits)

lemma find_append: "find P (xs @ ys) = (case find P xs of None \<Rightarrow> find P ys | Some x \<Rightarrow> Some x)"
  by (induction xs) auto

lemma find_remove_other:
  assumes "i < length xs" and "\<not> P (xs ! i)"
  shows "find P (remove_nth i xs) = find P xs"
  using assms by (induction xs arbitrary: i) (auto simp: remove_nth_def nth_Cons split: nat.splits)

lemma set_remove_nth: "set (remove_nth i xs) \<subseteq> set xs"
  unfolding remove_nth_def using set_take_subset [of i xs] set_drop_subset [of "Suc i" xs] by auto

lemma map_remove_nth: "map f (remove_nth i xs) = remove_nth i (map f xs)"
  by (simp add: remove_nth_def take_map drop_map)

lemma distinct_remove_nth:
  assumes "distinct xs" and "i < length xs"
  shows "distinct (remove_nth i xs) \<and> xs ! i \<notin> set (remove_nth i xs)"
proof -
  have xs: "xs = take i xs @ xs ! i # drop (Suc i) xs" using assms(2) by (rule id_take_nth_drop)
  then have "distinct (take i xs @ xs ! i # drop (Suc i) xs)" using assms(1) by simp
  then show ?thesis by (auto simp: remove_nth_def)
qed

lemma filter_remove_nth:
  assumes "i < length xs" and "Q (xs ! i)"
  shows "\<exists>j. j < length (filter Q xs) \<and> filter Q xs ! j = xs ! i \<and> filter Q (remove_nth i xs) = remove_nth j (filter Q xs)"
proof -
  let ?j = "length (filter Q (take i xs))"
  have "filter Q xs = filter Q (take i xs @ xs ! i # drop (Suc i) xs)" using id_take_nth_drop [OF assms(1)] by simp
  then have "filter Q xs = filter Q (take i xs) @ xs ! i # filter Q (drop (Suc i) xs)" using assms(2) by simp
  then show ?thesis by (intro exI [of _ ?j]) (simp add: remove_nth_def)
qed

section \<open>The store as a map\<close>

text \<open>
  A well-formed store has one section per name and one item per key; items have a key and a value, comments
  have no key.
\<close>

definition item_wf :: "LpItem \<Rightarrow> bool" where
  "item_wf i \<longleftrightarrow> (if item_is_comment i then item_key i = None else item_key i \<noteq> None \<and> item_value i \<noteq> '''')"

definition sec_wf :: "LpSection \<Rightarrow> bool" where
  "sec_wf s \<longleftrightarrow> list_all item_wf (sec_items s) \<and> distinct (map item_key (lp_section_get_items s))"

definition lp_wf :: "LpConfig \<Rightarrow> bool" where
  "lp_wf conf \<longleftrightarrow> list_all sec_wf (lp_sections conf) \<and> distinct (map sec_name (lp_sections conf))"

definition sec_get :: "LpSection \<Rightarrow> string \<Rightarrow> LpItem option" where
  "sec_get sec k = find (\<lambda>i. \<not> item_is_comment i \<and> item_key i = Some k) (sec_items sec)"

lemma find_entry_alt:
  "find_entry conf s k = Option.bind (find (\<lambda>x. sec_name x = s) (lp_sections conf)) (\<lambda>sec. sec_get sec k)"
  unfolding find_entry_def sec_get_def lp_section_find_item_def linphone_config_find_section_def Let_def
  by (simp add: find_index_eq_find [symmetric] split: option.splits)

lemma find_section_Some:
  assumes "linphone_config_find_section conf s = Some i"
  shows "i < length (lp_sections conf)" and "sec_name (lp_sections conf ! i) = s"
    and "find (\<lambda>x. sec_name x = s) (lp_sections conf) = Some (lp_sections conf ! i)"
  using assms find_index_SomeD [of "\<lambda>x. sec_name x = s" "lp_sections conf" i]
    find_index_eq_find [of "lp_sections conf" "\<lambda>x. sec_name x = s", symmetric]
  by (auto simp: linphone_config_find_section_def)

lemma find_section_None: "linphone_config_find_section conf s = None \<longleftrightarrow> s \<notin> sec_name ` set (lp_sections conf)"
  by (auto simp: linphone_config_find_section_def find_index_None)

lemma find_item_Some:
  assumes "lp_section_find_item sec k = Some j"
  shows "j < length (sec_items sec)" and "item_key (sec_items sec ! j) = Some k" and "\<not> item_is_comment (sec_items sec ! j)"
    and "sec_get sec k = Some (sec_items sec ! j)"
  using assms find_index_SomeD [of "\<lambda>i. \<not> item_is_comment i \<and> item_key i = Some k" "sec_items sec" j]
    find_index_eq_find [of "sec_items sec" "\<lambda>i. \<not> item_is_comment i \<and> item_key i = Some k", symmetric]
  by (auto simp: lp_section_find_item_def sec_get_def)

lemma find_item_None: "lp_section_find_item sec k = None \<longleftrightarrow> sec_get sec k = None"
  by (auto simp: lp_section_find_item_def sec_get_def find_index_None find_None_iff)

lemma sec_get_None: "sec_get sec k = None \<longleftrightarrow> Some k \<notin> item_key ` set (lp_section_get_items sec)"
  by (force simp: sec_get_def find_None_iff lp_section_get_items_def)

text \<open>What an item operation does to the lookups of its section.\<close>

lemma sec_get_add: "sec_get (lp_section_add_item it sec) k' = (case sec_get sec k' of Some x \<Rightarrow> Some x
    | None \<Rightarrow> if \<not> item_is_comment it \<and> item_key it = Some k' then Some it else None)"
  by (simp add: sec_get_def lp_section_add_item_def find_append split: option.splits)

lemma sec_get_update:
  assumes j: "lp_section_find_item sec k = Some j"
    and f: "item_is_comment (f (sec_items sec ! j)) = item_is_comment (sec_items sec ! j)"
      "item_key (f (sec_items sec ! j)) = item_key (sec_items sec ! j)"
  shows "sec_get (update_item j f sec) k' = (if k' = k then Some (f (sec_items sec ! j)) else sec_get sec k')"
proof (cases "k' = k")
  case True
  then show ?thesis using j f find_item_Some [OF j]
    by (simp add: sec_get_def update_item_def lp_section_find_item_def find_at_found)
next
  case False
  then show ?thesis using f find_item_Some [OF j] by (simp add: sec_get_def update_item_def find_list_update)
qed

lemma sec_get_remove:
  assumes wf: "sec_wf sec" and j: "lp_section_find_item sec k = Some j"
  shows "sec_get (lp_section_remove_item j sec) k' = (if k' = k then None else sec_get sec k')"
proof (cases "k' = k")
  case True
  note item = find_item_Some [OF j]
  obtain m where m: "m < length (lp_section_get_items sec)" "lp_section_get_items sec ! m = sec_items sec ! j"
    "lp_section_get_items (lp_section_remove_item j sec) = remove_nth m (lp_section_get_items sec)"
    using filter_remove_nth [OF item(1), of "\<lambda>i. \<not> item_is_comment i"] item(3)
    by (auto simp: lp_section_get_items_def lp_section_remove_item_def)
  have "Some k \<notin> set (remove_nth m (map item_key (lp_section_get_items sec)))"
    using distinct_remove_nth [of "map item_key (lp_section_get_items sec)" m] wf m(1,2) item(2) by (simp add: sec_wf_def)
  with True m(3) show ?thesis by (simp add: sec_get_None map_remove_nth flip: set_map)
next
  case False
  then show ?thesis using find_item_Some [OF j] by (simp add: sec_get_def lp_section_remove_item_def find_remove_other)
qed

text \<open>What a section operation does to the lookups of the store.\<close>

lemma find_entry_update_section:
  assumes i: "linphone_config_find_section conf s = Some i" and f: "sec_name (f (lp_sections conf ! i)) = s"
  shows "find_entry (update_section i f conf) s' k = (if s' = s then sec_get (f (lp_sections conf ! i)) k else find_entry conf s' k)"
proof (cases "s' = s")
  case True
  then show ?thesis using i f
    by (simp add: find_entry_alt update_section_def linphone_config_find_section_def find_at_found)
next
  case False
  then show ?thesis using f find_section_Some [OF i] by (simp add: find_entry_alt update_section_def find_list_update)
qed

lemma find_entry_add_section:
  assumes "linphone_config_find_section conf (sec_name sec) = None"
  shows "find_entry (linphone_config_add_section sec conf) s k = (if s = sec_name sec then sec_get sec k else find_entry conf s k)"
proof -
  have "find (\<lambda>x. sec_name x = sec_name sec) (lp_sections conf) = None"
    using assms unfolding find_section_None find_None_iff by (metis imageI)
  then show ?thesis by (auto simp: find_entry_alt linphone_config_add_section_def find_append split: option.splits)
qed

lemma find_entry_remove_section:
  assumes wf: "lp_wf conf" and i: "linphone_config_find_section conf s = Some i"
  shows "find_entry (linphone_config_remove_section i conf) s' k = (if s' = s then None else find_entry conf s' k)"
proof (cases "s' = s")
  case True
  have "s \<notin> set (remove_nth i (map sec_name (lp_sections conf)))"
    using distinct_remove_nth [of "map sec_name (lp_sections conf)" i] wf find_section_Some [OF i] by (simp add: lp_wf_def)
  then have "find (\<lambda>x. sec_name x = s) (remove_nth i (lp_sections conf)) = None"
    unfolding find_None_iff map_remove_nth [symmetric] by auto
  with True show ?thesis by (simp add: find_entry_alt linphone_config_remove_section_def)
next
  case False
  then show ?thesis using find_section_Some [OF i] by (simp add: find_entry_alt linphone_config_remove_section_def find_remove_other)
qed

text \<open>The operations keep the store well-formed.\<close>

lemma item_wf_new [simp]: "item_wf (lp_item_new k v) \<longleftrightarrow> v \<noteq> ''''"
  by (simp add: item_wf_def lp_item_new_def)

lemma lp_item_new_fields [simp]:
  "item_key (lp_item_new k v) = Some k" "item_value (lp_item_new k v) = v" "\<not> item_is_comment (lp_item_new k v)"
  by (simp_all add: lp_item_new_def)

lemma lp_section_new_fields [simp]:
  "sec_name (lp_section_new n) = n" "sec_items (lp_section_new n) = []" "sec_wf (lp_section_new n)"
  by (simp_all add: lp_section_new_def sec_wf_def lp_section_get_items_def)

lemma section_names [simp]:
  "sec_name (lp_section_add_item it sec) = sec_name sec" "sec_name (lp_section_remove_item j sec) = sec_name sec"
  "sec_name (update_item j f sec) = sec_name sec"
  by (simp_all add: lp_section_add_item_def lp_section_remove_item_def update_item_def)

lemma sec_wf_add:
  "sec_wf sec \<Longrightarrow> sec_get sec k = None \<Longrightarrow> v \<noteq> '''' \<Longrightarrow> sec_wf (lp_section_add_item (lp_item_new k v) sec)"
  by (simp add: sec_wf_def lp_section_add_item_def lp_section_get_items_def sec_get_None)

lemma sec_wf_add_comment: "sec_wf sec \<Longrightarrow> sec_wf (lp_section_add_item (lp_comment_new c) sec)"
  by (simp add: sec_wf_def lp_section_add_item_def lp_section_get_items_def item_wf_def lp_comment_new_def)

lemma sec_wf_remove:
  assumes "sec_wf sec" and "j < length (sec_items sec)"
  shows "sec_wf (lp_section_remove_item j sec)"
proof -
  let ?Q = "\<lambda>i. \<not> item_is_comment i"
  have items: "list_all item_wf (remove_nth j (sec_items sec))"
    using assms(1) set_remove_nth [of j "sec_items sec"] by (auto simp: sec_wf_def list_all_iff)
  have "distinct (map item_key (filter ?Q (remove_nth j (sec_items sec))))"
  proof (cases "?Q (sec_items sec ! j)")
    case True
    then obtain m where m: "m < length (filter ?Q (sec_items sec))"
      "filter ?Q (remove_nth j (sec_items sec)) = remove_nth m (filter ?Q (sec_items sec))"
      using filter_remove_nth [OF assms(2), of ?Q] by blast
    then show ?thesis using distinct_remove_nth [of "map item_key (filter ?Q (sec_items sec))" m] assms(1)
      by (simp add: map_remove_nth sec_wf_def lp_section_get_items_def)
  next
    case False
    have "filter ?Q (sec_items sec) = filter ?Q (take j (sec_items sec) @ sec_items sec ! j # drop (Suc j) (sec_items sec))"
      using id_take_nth_drop [OF assms(2)] by simp
    then have "filter ?Q (remove_nth j (sec_items sec)) = filter ?Q (sec_items sec)" using False by (simp add: remove_nth_def)
    then show ?thesis using assms(1) by (simp add: sec_wf_def lp_section_get_items_def)
  qed
  with items show ?thesis by (simp add: sec_wf_def lp_section_remove_item_def lp_section_get_items_def)
qed

lemma filter_list_update:
  assumes "i < length xs" and "f y = f (xs ! i)" and "Q y = Q (xs ! i)"
  shows "map f (filter Q (xs[i := y])) = map f (filter Q xs)"
  using assms by (induction xs arbitrary: i) (auto simp: nth_Cons split: nat.splits)

lemma sec_wf_update:
  assumes wf: "sec_wf sec" and j: "j < length (sec_items sec)" and f: "item_wf (f (sec_items sec ! j))"
    "item_key (f (sec_items sec ! j)) = item_key (sec_items sec ! j)"
    "item_is_comment (f (sec_items sec ! j)) = item_is_comment (sec_items sec ! j)"
  shows "sec_wf (update_item j f sec)"
proof -
  have "list_all item_wf ((sec_items sec)[j := f (sec_items sec ! j)])"
    using wf f(1) set_update_subset_insert [of "sec_items sec" j] by (auto simp: sec_wf_def list_all_iff)
  moreover have "map item_key (filter (\<lambda>i. \<not> item_is_comment i) ((sec_items sec)[j := f (sec_items sec ! j)])) =
      map item_key (filter (\<lambda>i. \<not> item_is_comment i) (sec_items sec))"
    by (rule filter_list_update [OF j]) (use f in auto)
  ultimately show ?thesis using wf by (simp add: sec_wf_def update_item_def lp_section_get_items_def)
qed

lemma lp_wf_update_section:
  assumes "lp_wf conf" and "i < length (lp_sections conf)" and "sec_wf (f (lp_sections conf ! i))"
    and "sec_name (f (lp_sections conf ! i)) = sec_name (lp_sections conf ! i)"
  shows "lp_wf (update_section i f conf)"
proof -
  have "map sec_name ((lp_sections conf)[i := f (lp_sections conf ! i)]) = map sec_name (lp_sections conf)"
    using assms(2,4) by (metis list_update_id map_update nth_map)
  moreover have "list_all sec_wf ((lp_sections conf)[i := f (lp_sections conf ! i)])"
    using assms(1,3) set_update_subset_insert [of "lp_sections conf" i] by (auto simp: lp_wf_def list_all_iff)
  ultimately show ?thesis using assms(1) by (simp add: lp_wf_def update_section_def)
qed

lemma lp_wf_add_section:
  "lp_wf conf \<Longrightarrow> linphone_config_find_section conf (sec_name sec) = None \<Longrightarrow> sec_wf sec \<Longrightarrow> lp_wf (linphone_config_add_section sec conf)"
  by (simp add: lp_wf_def linphone_config_add_section_def find_section_None)

lemma lp_wf_remove_section:
  assumes "lp_wf conf" and "i < length (lp_sections conf)"
  shows "lp_wf (linphone_config_remove_section i conf)"
  using assms distinct_remove_nth [of "map sec_name (lp_sections conf)" i] set_remove_nth [of i "lp_sections conf"]
  by (auto simp: lp_wf_def linphone_config_remove_section_def map_remove_nth list_all_iff)

lemma lp_wf_sec: "lp_wf conf \<Longrightarrow> i < length (lp_sections conf) \<Longrightarrow> sec_wf (lp_sections conf ! i)"
  by (simp add: lp_wf_def list_all_length)

lemma lp_wf_modified [simp]: "lp_wf (conf\<lparr>lp_modified := b\<rparr>) = lp_wf conf"
  by (simp add: lp_wf_def)

lemma find_entry_modified [simp]: "find_entry (conf\<lparr>lp_modified := b\<rparr>) s k = find_entry conf s k"
  by (simp add: find_entry_alt)

section \<open>The interface of a store\<close>

text \<open>
  What the clients of a configuration rely on: entries are read back as written, an empty or absent value removes the
  entry, and other entries are not affected.
\<close>

definition norm_value :: "string option \<Rightarrow> string option" where
  "norm_value v = (if null_or_empty v then None else v)"

locale kv_store =
  fixes inv :: "'c \<Rightarrow> bool"
    and get :: "'c \<Rightarrow> string \<Rightarrow> string \<Rightarrow> string option"
    and put :: "'c \<Rightarrow> string \<Rightarrow> string \<Rightarrow> string option \<Rightarrow> 'c"
  assumes put_inv: "inv c \<Longrightarrow> inv (put c s k v)"
    and get_put: "inv c \<Longrightarrow> get (put c s k v) s' k' = (if s' = s \<and> k' = k then norm_value v else get c s' k')"
begin

definition puts :: "'c \<Rightarrow> (string \<times> string \<times> string option) list \<Rightarrow> 'c" where
  "puts = foldl (\<lambda>c (s, k, v). put c s k v)"

text \<open>After any sequence of writes, an entry holds the last value written to it.\<close>

lemma puts_last_write:
  assumes "inv c"
  shows "inv (puts c ops) \<and> get (puts c ops) s k =
    (case find (\<lambda>(s', k', _). s' = s \<and> k' = k) (rev ops) of Some (_, _, v) \<Rightarrow> norm_value v | None \<Rightarrow> get c s k)"
proof (induction ops rule: rev_induct)
  case Nil
  then show ?case using assms by (simp add: puts_def)
next
  case (snoc x ops)
  obtain s' k' v where x: "x = (s', k', v)" by (cases x)
  with snoc put_inv get_put show ?case by (auto simp: puts_def split: option.splits)
qed

end

text \<open>Values of other types, through an encoding that can be decoded.\<close>

locale typed_entry = kv_store +
  fixes encode :: "'v \<Rightarrow> string" and decode :: "string \<Rightarrow> 'w res" and valid :: "'v \<Rightarrow> bool" and decoded :: "'v \<Rightarrow> 'w"
  assumes decode_encode: "valid v \<Longrightarrow> encode v \<noteq> '''' \<and> decode (encode v) = Inr (decoded v)"
begin

lemma typed_get_put:
  assumes "inv c" and "valid v"
  shows "(case get (put c s k (Some (encode v))) s k of Some str \<Rightarrow> decode str | None \<Rightarrow> Inr d) = Inr (decoded v)"
  using get_put [OF assms(1)] decode_encode [OF assms(2)] by (simp add: norm_value_def null_or_empty_def)

end

definition lp_get :: "LpConfig \<Rightarrow> string \<Rightarrow> string \<Rightarrow> string option" where
  "lp_get conf s k = linphone_config_get_string conf s k None"

lemma lp_get_alt: "lp_get conf s k = map_option item_value (find_entry conf s k)"
  by (simp add: lp_get_def linphone_config_get_string_def split: option.splits)

lemma lp_item_set_value_fields [simp]:
  "item_key (lp_item_set_value v i) = item_key i" "item_is_comment (lp_item_set_value v i) = item_is_comment i"
  "item_value (lp_item_set_value v i) = v"
  by (simp_all add: lp_item_set_value_def)

lemma set_string_wf:
  assumes wf: "lp_wf conf"
  shows "lp_wf (linphone_config_set_string conf s k v)"
proof (cases "linphone_config_find_section conf s")
  case None
  then show ?thesis using wf
    by (auto simp: linphone_config_set_string_def Let_def null_or_empty_def split: option.splits
        intro!: lp_wf_add_section sec_wf_add) (simp add: sec_get_def)
next
  case (Some i)
  note sec = find_section_Some [OF Some]
  have swf: "sec_wf (lp_sections conf ! i)" using lp_wf_sec [OF wf sec(1)] .
  show ?thesis
  proof (cases "lp_section_find_item (lp_sections conf ! i) k")
    case None
    then have "sec_get (lp_sections conf ! i) k = None" by (simp add: find_item_None)
    with None show ?thesis using wf Some swf sec(1)
      by (auto simp: linphone_config_set_string_def Let_def null_or_empty_def split: option.splits
          intro!: lp_wf_update_section sec_wf_add)
  next
    case item: (Some j)
    note it = find_item_Some [OF item]
    have "item_wf (lp_item_set_value x (sec_items (lp_sections conf ! i) ! j))" if "x \<noteq> ''''" for x
      using it that by (simp add: item_wf_def)
    then show ?thesis using wf Some item swf sec(1) it
      by (auto simp: linphone_config_set_string_def Let_def null_or_empty_def split: option.splits
          intro!: lp_wf_update_section sec_wf_remove sec_wf_update)
  qed
qed

lemma set_string_get:
  assumes wf: "lp_wf conf"
  shows "lp_get (linphone_config_set_string conf s k v) s' k' = (if s' = s \<and> k' = k then norm_value v else lp_get conf s' k')"
proof (cases "linphone_config_find_section conf s")
  case None
  then have "find_entry conf s k' = None" by (simp add: find_entry_def)
  with None show ?thesis
    by (auto simp: lp_get_alt linphone_config_set_string_def Let_def norm_value_def find_entry_add_section sec_get_add
        null_or_empty_def split: option.splits) (simp add: sec_get_def)+
next
  case (Some i)
  let ?sec = "lp_sections conf ! i"
  note sec = find_section_Some [OF Some]
  have swf: "sec_wf ?sec" using lp_wf_sec [OF wf sec(1)] .
  have entry: "find_entry conf s k' = sec_get ?sec k'" using sec(3) by (simp add: find_entry_alt)
  show ?thesis
  proof (cases "lp_section_find_item ?sec k")
    case None
    then have "sec_get ?sec k = None" by (simp add: find_item_None)
    with None Some sec entry show ?thesis
      by (auto simp: lp_get_alt linphone_config_set_string_def Let_def norm_value_def null_or_empty_def
          find_entry_update_section sec_get_add split: option.splits)
  next
    case item: (Some j)
    note it = find_item_Some [OF item]
    from it Some item sec entry swf show ?thesis
      by (auto simp: lp_get_alt linphone_config_set_string_def Let_def norm_value_def null_or_empty_def
          find_entry_update_section sec_get_update [OF item] sec_get_remove [OF swf item] split: option.splits)
  qed
qed

interpretation lp: kv_store lp_wf lp_get linphone_config_set_string
  by unfold_locales (simp_all add: set_string_wf set_string_get)


section \<open>Values of other types\<close>

lemma length_fits32: "fits 32 v \<Longrightarrow> length (int_to_string v) \<le> 11"
  using length_int_to_string [of 9 v] by (simp add: fits_def)

lemma length_fits64: "fits 64 v \<Longrightarrow> length (int_to_string v) \<le> 20"
  using length_int_to_string [of 18 v] by (simp add: fits_def)

lemma int_to_string_nonempty [simp]: "int_to_string v \<noteq> ''''"
  by (simp add: int_to_string_def)

lemma encode_int_exact: "fits 32 v \<or> fits 64 v \<Longrightarrow> encode_int v = int_to_string v"
  using length_fits32 [of v] length_fits64 [of v] by (auto simp: encode_int_def snprintf_into_def)

lemma int_to_string_not_hex: "take 2 (int_to_string v) \<noteq> ''0x''"
proof
  assume "take 2 (int_to_string v) = ''0x''"
  then have "CHR ''x'' \<in> set (int_to_string v)" by (metis in_set_takeD list.set_intros(1,2))
  then show False using nat_to_string_digits [of "nat v"] nat_to_string_digits [of "nat (- v)"]
    by (auto simp: int_to_string_def list_all_iff is_digit_c_def split: if_splits)
qed

lemma decode_encode_int: "fits 32 v \<Longrightarrow> encode_int v \<noteq> '''' \<and> decode_int (encode_int v) = Inr v"
  by (simp add: encode_int_exact decode_int_def int_to_string_not_hex scan_i_int_to_string)

lemma decode_encode_bool: "decode_bool (encode_int (if b then 1 else 0)) = Inr b"
  by (simp add: encode_int_exact decode_bool_def scan_i_int_to_string fits_def)

lemma decode_encode_int64: "fits 64 v \<Longrightarrow> encode_int v \<noteq> '''' \<and> c_atoi 64 (encode_int v) = Inr v"
  using c_atoi_int_to_string [of 64 v "[]"] by (simp add: encode_int_exact)

lemma decode_encode_hex: "fits 32 v \<Longrightarrow> encode_int_hex v \<noteq> '''' \<and> decode_int (encode_int_hex v) = Inr v"
proof -
  assume v: "fits 32 v"
  have "unat (word_of_int v :: u32) < 16 ^ Suc 7" using unsigned_less [of "word_of_int v :: u32", where 'a = nat] by simp
  then have "length (int_to_hex v) \<le> 8" using length_nat_to_hex [of _ 7] by (simp add: int_to_hex_def)
  then have "encode_int_hex v = ''0x'' @ int_to_hex v" by (simp add: encode_int_hex_def snprintf_into_def)
  with scan_x_int_to_hex [OF v] show ?thesis by (simp add: decode_int_def)
qed

lemma minus_not_digit: "\<not> is_digit_c (CHR ''-'')"
  by (simp add: is_digit_c_def)

lemma find_minus: "0 \<le> a \<Longrightarrow> find_index (\<lambda>c. c = CHR ''-'') (int_to_string a @ CHR ''-'' # r) = Some (length (int_to_string a))"
proof (rule find_index_SomeI)
  fix j assume "0 \<le> a" and j: "j < length (int_to_string a)"
  then have "is_digit_c (int_to_string a ! j)" using nat_to_string_digits [of "nat a"] by (simp add: int_to_string_def list_all_length)
  then show "(int_to_string a @ CHR ''-'' # r) ! j \<noteq> CHR ''-''" using j minus_not_digit by (auto simp: nth_append)
qed (simp_all add: nth_append)

lemma encode_range_exact: "fits 32 a \<Longrightarrow> fits 32 b \<Longrightarrow> encode_range a b = int_to_string a @ CHR ''-'' # int_to_string b"
  using length_fits32 [of a] length_fits32 [of b] by (simp add: encode_range_def snprintf_into_def)

lemma decode_encode_range:
  assumes "0 \<le> a" and "fits 32 a" and "fits 32 b"
  shows "encode_range a b \<noteq> '''' \<and> decode_range x y (encode_range a b) = Inr (True, a, b)"
proof -
  have "c_atoi 32 (int_to_string a @ CHR ''-'' # int_to_string b) = Inr a"
    using c_atoi_int_to_string [OF assms(2), of "CHR ''-'' # int_to_string b"] by (simp add: minus_not_digit)
  moreover have "c_atoi 32 (int_to_string b) = Inr b" using c_atoi_int_to_string [OF assms(3), of "[]"] by simp
  ultimately show ?thesis using assms(2,3) find_minus [OF assms(1)] by (simp add: encode_range_exact decode_range_def)
qed

lemma join_commas_Cons: "join_commas (x # xs) = Some (x @ concat (map ((#) (CHR '','')) xs))"
  by (induction xs arbitrary: x) simp_all

lemma split_join:
  assumes "list_all (\<lambda>x. CHR '','' \<notin> set x) (x # xs)"
  shows "split_at (CHR '','') (x @ concat (map ((#) (CHR '','')) xs)) = x # xs"
  using assms by (induction xs arbitrary: x) (simp_all add: split_at_no_sep split_at_append)

definition listable :: "string list \<Rightarrow> bool" where
  "listable xs \<longleftrightarrow> xs \<noteq> [] \<and> xs \<noteq> [''''] \<and> list_all (\<lambda>x. CHR '','' \<notin> set x) xs"

lemma decode_encode_list:
  assumes "listable xs"
  shows "\<exists>s. join_commas xs = Some s \<and> s \<noteq> '''' \<and> split_at (CHR '','') s = xs"
proof -
  obtain y ys where xs: "xs = y # ys" using assms by (cases xs) (auto simp: listable_def)
  have "split_at (CHR '','') (y @ concat (map ((#) (CHR '','')) ys)) = y # ys"
    using assms by (intro split_join) (simp add: listable_def xs)
  then show ?thesis using assms by (cases ys) (auto simp: join_commas_Cons xs listable_def)
qed

interpretation lp_int: typed_entry lp_wf lp_get linphone_config_set_string encode_int decode_int "fits 32" "\<lambda>v. v"
  by unfold_locales (rule decode_encode_int)

interpretation lp_hex: typed_entry lp_wf lp_get linphone_config_set_string encode_int_hex decode_int "fits 32" "\<lambda>v. v"
  by unfold_locales (rule decode_encode_hex)

interpretation lp_int64: typed_entry lp_wf lp_get linphone_config_set_string encode_int "c_atoi 64" "fits 64" "\<lambda>v. v"
  by unfold_locales (rule decode_encode_int64)

interpretation lp_bool: typed_entry lp_wf lp_get linphone_config_set_string "\<lambda>b. encode_int (if b then 1 else 0)" decode_bool "\<lambda>_. True" "\<lambda>b. b"
  by unfold_locales (use decode_encode_int [of 0] decode_encode_int [of 1] decode_encode_bool in \<open>auto simp: fits_def\<close>)

interpretation lp_range: typed_entry lp_wf lp_get linphone_config_set_string "\<lambda>(a, b). encode_range a b" "decode_range x y"
    "\<lambda>(a, b). 0 \<le> a \<and> fits 32 a \<and> fits 32 b" "\<lambda>(a, b). (True, a, b)" for x y
  by unfold_locales (use decode_encode_range in auto)

interpretation lp_list: typed_entry lp_wf lp_get linphone_config_set_string "\<lambda>xs. the (join_commas xs)"
    "\<lambda>s. Inr (split_at (CHR '','') s)" listable "\<lambda>xs. xs"
  by unfold_locales (use decode_encode_list in fastforce)

lemmas typed_getters = linphone_config_get_int_def linphone_config_get_bool_def linphone_config_get_int64_def
  linphone_config_get_range_def linphone_config_set_int_def linphone_config_set_bool_def linphone_config_set_int_hex_def
  linphone_config_set_int64_def linphone_config_set_range_def lp_get_def [symmetric]

section \<open>Properties of the store\<close>

text \<open>
  Numbers are read back as they were written: every 32-bit value through the decimal and the hexadecimal setter,
  every 64-bit value and every flag.  The 30 bytes of the conversion buffer are enough for all of them.
\<close>

theorem typed_numbers_roundtrip:
  assumes wf: "lp_wf conf" and v: "fits 32 v" and w: "fits 64 w"
  shows "linphone_config_get_int (linphone_config_set_int conf s k v) s k d = Inr v \<and>
    linphone_config_get_int (linphone_config_set_int_hex conf s k v) s k d = Inr v \<and>
    linphone_config_get_int64 (linphone_config_set_int64 conf s k w) s k d = Inr w \<and>
    linphone_config_get_bool (linphone_config_set_bool conf s k b) s k c = Inr b"
  using lp_int.typed_get_put [OF wf v, where s = s and k = k and d = d] lp_hex.typed_get_put [OF wf v, where s = s and k = k and d = d]
    lp_int64.typed_get_put [OF wf w, where s = s and k = k and d = d] lp_bool.typed_get_put [OF wf TrueI, where s = s and k = k and d = c and v = b]
  by (simp add: typed_getters)

theorem typed_numbers_roundtrip_witness:
  "linphone_config_get_int (linphone_config_set_int empty_lpconfig ''net'' ''mtu'' (- 2147483648)) ''net'' ''mtu'' 0 = Inr (- 2147483648)"
  using typed_numbers_roundtrip [of empty_lpconfig "- 2147483648" 0 "''net''" "''mtu''" 0]
  by (simp add: lp_wf_def empty_lpconfig_def fits_def)

text \<open>
  Ranges with a non-negative minimum and lists of texts without commas (other than the list of one empty text) are
  read back as written.
\<close>

theorem range_and_list_roundtrip:
  assumes wf: "lp_wf conf" and r: "0 \<le> lo" "fits 32 lo" "fits 32 hi" and l: "listable xs"
  shows "linphone_config_get_range (linphone_config_set_range conf s k lo hi) s k x y = Inr (True, lo, hi) \<and>
    linphone_config_get_string_list (linphone_config_set_string_list conf s k xs) s k ds = xs"
proof -
  have "lp_get (linphone_config_set_string_list conf s k xs) s k = join_commas xs"
    using decode_encode_list [OF l] by (auto simp: linphone_config_set_string_list_def set_string_get [OF wf] norm_value_def null_or_empty_def)
  then have "linphone_config_get_string_list (linphone_config_set_string_list conf s k xs) s k ds = xs"
    using decode_encode_list [OF l] by (auto simp: lp_get_alt linphone_config_get_string_list_def split: option.splits)
  with lp_range.typed_get_put [OF wf, where v = "(lo, hi)" and s = s and k = k and x = x and y = y and d = "(True, x, y)"] r show ?thesis by (simp add: typed_getters)
qed

theorem range_and_list_roundtrip_witness:
  "linphone_config_get_range (linphone_config_set_range empty_lpconfig ''sip'' ''ports'' 5060 5080) ''sip'' ''ports'' 0 0 = Inr (True, 5060, 5080)"
  using range_and_list_roundtrip [of empty_lpconfig 5060 5080 "[''a'', ''b'']" "''sip''" "''ports''" 0 0 "[]"]
  by (simp add: lp_wf_def empty_lpconfig_def fits_def listable_def)

text \<open>
  A range with a negative minimum is not read back: the reader takes the sign for the separator, answers the
  default values and reports a failure.
\<close>

theorem negative_range_lost:
  assumes wf: "lp_wf conf" and lo: "lo < 0" "fits 32 lo" and hi: "fits 32 hi"
  shows "linphone_config_get_range (linphone_config_set_range conf s k lo hi) s k x y = Inr (False, x, y)"
proof -
  have "encode_range lo hi = CHR ''-'' # nat_to_string (nat (- lo)) @ CHR ''-'' # int_to_string hi"
    using lo hi by (simp add: encode_range_exact int_to_string_def)
  then show ?thesis using set_string_get [OF wf]
    by (simp add: typed_getters norm_value_def null_or_empty_def decode_range_def)
qed

theorem negative_range_lost_witness:
  "linphone_config_get_range (linphone_config_set_range empty_lpconfig ''a'' ''b'' (- 5) 10) ''a'' ''b'' 1 2 = Inr (False, 1, 2)"
  by (rule negative_range_lost) (simp_all add: lp_wf_def empty_lpconfig_def fits_def)


text \<open>The abstract store: a map from section and key to the value.\<close>

definition lp_map :: "LpConfig \<Rightarrow> string \<times> string \<Rightarrow> string option" where
  "lp_map conf = (\<lambda>(s, k). lp_get conf s k)"

lemma clean_entry_refines:
  assumes wf: "lp_wf conf"
  shows "lp_wf (linphone_config_clean_entry conf s k) \<and> lp_map (linphone_config_clean_entry conf s k) = (lp_map conf)((s, k) := None)"
proof (cases "find_entry conf s k")
  case None
  then have "linphone_config_clean_entry conf s k = conf"
    by (auto simp: linphone_config_clean_entry_def find_entry_def Let_def split: option.splits)
  with wf None show ?thesis by (auto simp: lp_map_def lp_get_alt fun_eq_iff)
next
  case (Some it)
  then obtain i j where ij: "linphone_config_find_section conf s = Some i" "lp_section_find_item (lp_sections conf ! i) k = Some j"
    by (auto simp: find_entry_def Let_def split: option.splits)
  note sec = find_section_Some [OF ij(1)] and item = find_item_Some [OF ij(2)]
  have swf: "sec_wf (lp_sections conf ! i)" using lp_wf_sec [OF wf sec(1)] .
  have c: "linphone_config_clean_entry conf s k = update_section i (lp_section_remove_item j) conf"
    using ij by (simp add: linphone_config_clean_entry_def)
  have "find_entry conf s k' = sec_get (lp_sections conf ! i) k'" for k' using sec(3) by (simp add: find_entry_alt)
  then have "lp_map (update_section i (lp_section_remove_item j) conf) = (lp_map conf)((s, k) := None)"
    using sec(2) by (auto simp: lp_map_def lp_get_alt fun_eq_iff find_entry_update_section [OF ij(1)] sec_get_remove [OF swf ij(2)])
  with c lp_wf_update_section [where f = "lp_section_remove_item j", OF wf sec(1) sec_wf_remove [OF swf item(1)]] show ?thesis by simp
qed

lemma clean_section_refines:
  assumes wf: "lp_wf conf"
  shows "lp_wf (linphone_config_clean_section conf s) \<and>
    lp_map (linphone_config_clean_section conf s) = (\<lambda>(s', k). if s' = s then None else lp_map conf (s', k))"
proof (cases "linphone_config_find_section conf s")
  case None
  then have "find_entry conf s k = None" for k by (simp add: find_entry_def)
  with None wf show ?thesis by (auto simp: linphone_config_clean_section_def lp_map_def lp_get_alt fun_eq_iff)
next
  case (Some i)
  with wf find_section_Some [OF Some] find_entry_remove_section [OF wf Some] lp_wf_remove_section [OF wf] show ?thesis
    by (auto simp: linphone_config_clean_section_def lp_map_def lp_get_alt fun_eq_iff)
qed

lemma update_entry_refines:
  assumes wf: "lp_wf conf" and f: "\<And>x. item_key (f x) = item_key x" "\<And>x. item_is_comment (f x) = item_is_comment x"
    "\<And>x. item_value (f x) = item_value x"
  shows "lp_wf (update_entry f conf s k) \<and> lp_map (update_entry f conf s k) = lp_map conf"
proof (cases "find_entry conf s k")
  case None
  then have "update_entry f conf s k = conf" by (auto simp: update_entry_def find_entry_def Let_def split: option.splits)
  with wf show ?thesis by simp
next
  case (Some it)
  then obtain i j where ij: "linphone_config_find_section conf s = Some i" "lp_section_find_item (lp_sections conf ! i) k = Some j"
    by (auto simp: find_entry_def Let_def split: option.splits)
  note sec = find_section_Some [OF ij(1)] and item = find_item_Some [OF ij(2)]
  have swf: "sec_wf (lp_sections conf ! i)" using lp_wf_sec [OF wf sec(1)] .
  have iwf: "item_wf (f (sec_items (lp_sections conf ! i) ! j))"
    using swf item(1) f by (simp add: sec_wf_def list_all_length item_wf_def)
  have c: "update_entry f conf s k = update_section i (update_item j f) conf" using ij by (simp add: update_entry_def)
  have "find_entry conf s k' = sec_get (lp_sections conf ! i) k'" for k' using sec(3) by (simp add: find_entry_alt)
  then have "lp_map (update_section i (update_item j f) conf) = lp_map conf"
    using sec(2) item(4) f by (auto simp: lp_map_def lp_get_alt fun_eq_iff find_entry_update_section [OF ij(1)] sec_get_update [OF ij(2)])
  moreover have "sec_wf (update_item j f (lp_sections conf ! i))"
    using sec_wf_update [where f = f, OF swf item(1) iwf] f by simp
  then have "lp_wf (update_section i (update_item j f) conf)" using lp_wf_update_section [OF wf sec(1)] by simp
  ultimately show ?thesis using c by simp
qed

lemma update_section_flag_refines:
  assumes wf: "lp_wf conf" and i: "linphone_config_find_section conf s = Some i"
    and f: "\<And>x. sec_name (f x) = sec_name x" "\<And>x. sec_items (f x) = sec_items x"
  shows "lp_wf (update_section i f conf) \<and> lp_map (update_section i f conf) = lp_map conf"
proof -
  note sec = find_section_Some [OF i]
  have "sec_wf (f (lp_sections conf ! i))"
    using lp_wf_sec [OF wf sec(1)] f by (simp add: sec_wf_def lp_section_get_items_def)
  moreover have "find_entry conf s k = sec_get (f (lp_sections conf ! i)) k" for k
    using sec(3) f by (simp add: find_entry_alt sec_get_def)
  then have "find_entry (update_section i f conf) s' k = find_entry conf s' k" for s' k
    using find_entry_update_section [OF i, of f s' k] f(1) sec(2) by simp
  ultimately show ?thesis using lp_wf_update_section [OF wf sec(1)] f(1) by (auto simp: lp_map_def lp_get_alt fun_eq_iff)
qed

text \<open>
  C40: The store implements a map from section and key to the value.  Writing updates one entry, and an empty or absent
  value deletes it; cleaning an entry or a section deletes exactly that entry or the section's entries; the
  flags change no value; every operation keeps the store well-formed; the queries answer for the map.
\<close>

theorem lp_refines_map:
  assumes wf: "lp_wf conf"
  shows "lp_wf (linphone_config_set_string conf s k v) \<and>
    lp_map (linphone_config_set_string conf s k v) = (lp_map conf)((s, k) := norm_value v) \<and>
    lp_wf (linphone_config_clean_entry conf s k) \<and> lp_map (linphone_config_clean_entry conf s k) = (lp_map conf)((s, k) := None) \<and>
    lp_wf (linphone_config_clean_section conf s) \<and>
    lp_map (linphone_config_clean_section conf s) = (\<lambda>(s', k). if s' = s then None else lp_map conf (s', k)) \<and>
    lp_wf (linphone_config_set_overwrite_flag_for_entry conf s k b) \<and>
    lp_map (linphone_config_set_overwrite_flag_for_entry conf s k b) = lp_map conf \<and>
    lp_wf (linphone_config_set_skip_flag_for_section conf s b) \<and>
    lp_map (linphone_config_set_skip_flag_for_section conf s b) = lp_map conf \<and>
    linphone_config_has_entry conf s k = (lp_map conf (s, k) \<noteq> None) \<and>
    linphone_config_get_string conf s k d = (case lp_map conf (s, k) of Some x \<Rightarrow> Some x | None \<Rightarrow> d)"
proof -
  have "lp_map (linphone_config_set_string conf s k v) = (lp_map conf)((s, k) := norm_value v)"
    by (auto simp: lp_map_def fun_eq_iff set_string_get [OF wf])
  moreover have "lp_wf (linphone_config_set_overwrite_flag_for_entry conf s k b) \<and>
      lp_map (linphone_config_set_overwrite_flag_for_entry conf s k b) = lp_map conf"
    unfolding linphone_config_set_overwrite_flag_for_entry_def by (rule update_entry_refines [OF wf]) simp_all
  moreover have "lp_wf (linphone_config_set_skip_flag_for_section conf s b) \<and>
      lp_map (linphone_config_set_skip_flag_for_section conf s b) = lp_map conf"
    using wf update_section_flag_refines [OF wf, of s _ "\<lambda>x. x\<lparr>sec_skip := b\<rparr>"]
    by (simp add: linphone_config_set_skip_flag_for_section_def split: option.splits)
  moreover have "linphone_config_has_entry conf s k = (lp_map conf (s, k) \<noteq> None)"
    "linphone_config_get_string conf s k d = (case lp_map conf (s, k) of Some x \<Rightarrow> Some x | None \<Rightarrow> d)"
    by (simp_all add: lp_map_def lp_get_alt linphone_config_has_entry_def linphone_config_get_string_def split: option.splits)
  ultimately show ?thesis using wf clean_entry_refines clean_section_refines set_string_wf by simp
qed

theorem lp_refines_map_witness:
  "lp_map (linphone_config_clean_section (linphone_config_set_string empty_lpconfig ''sip'' ''port'' (Some ''5060'')) ''sip'') (''sip'', ''port'') = None"
proof -
  have "lp_wf empty_lpconfig" by (simp add: lp_wf_def empty_lpconfig_def)
  from lp_refines_map [OF this, of "''sip''" "''port''" "Some ''5060''"]
  have "lp_wf (linphone_config_set_string empty_lpconfig ''sip'' ''port'' (Some ''5060''))" by simp
  from lp_refines_map [OF this, of "''sip''"] show ?thesis by simp
qed

text \<open>
  After any sequence of writes an entry holds the last value written to it, and an entry that was not written
  holds what it held.
\<close>

theorem linphone_config_last_write:
  assumes "lp_wf conf"
  shows "lp_map (foldl (\<lambda>c (s, k, v). linphone_config_set_string c s k v) conf ops) (s, k) =
    (case find (\<lambda>(s', k', _). s' = s \<and> k' = k) (rev ops) of Some (_, _, v) \<Rightarrow> norm_value v | None \<Rightarrow> lp_map conf (s, k))"
  using lp.puts_last_write [OF assms, of ops s k] by (simp add: lp.puts_def lp_map_def cong: option.case_cong)

theorem linphone_config_last_write_witness:
  "lp_map (foldl (\<lambda>c (s, k, v). linphone_config_set_string c s k v) empty_lpconfig
     [(''a'', ''x'', Some ''1''), (''a'', ''y'', Some ''2''), (''a'', ''x'', Some ''3'')]) (''a'', ''x'') = Some ''3''"
  by (subst linphone_config_last_write) (simp_all add: lp_wf_def empty_lpconfig_def norm_value_def null_or_empty_def)

text \<open>
  Deleting an entry with \<open>clean_entry\<close> does not mark the store as modified: the deletion is not
  written by a client that commits only when \<open>needs_commit\<close> holds.  Deleting the same entry by writing an empty value does mark it.
\<close>

theorem clean_entry_not_committed:
  assumes wf: "lp_wf conf" and e: "linphone_config_has_entry conf s k" and m: "\<not> linphone_config_needs_commit conf"
  shows "\<not> linphone_config_has_entry (linphone_config_clean_entry conf s k) s k \<and>
    \<not> linphone_config_needs_commit (linphone_config_clean_entry conf s k) \<and>
    linphone_config_needs_commit (linphone_config_set_string conf s k (Some ''''))"
proof -
  have "lp_map (linphone_config_clean_entry conf s k) (s, k) = None" using clean_entry_refines [OF wf] by simp
  then have "\<not> linphone_config_has_entry (linphone_config_clean_entry conf s k) s k"
    by (simp add: lp_map_def lp_get_alt linphone_config_has_entry_def)
  moreover have "\<not> linphone_config_needs_commit (linphone_config_clean_entry conf s k)"
    using m by (auto simp: linphone_config_needs_commit_def linphone_config_clean_entry_def update_section_def split: option.splits)
  moreover have "linphone_config_needs_commit (linphone_config_set_string conf s k (Some ''''))"
    by (auto simp: linphone_config_needs_commit_def linphone_config_set_string_def null_or_empty_def Let_def split: option.splits)
  ultimately show ?thesis by simp
qed

theorem clean_entry_not_committed_witness:
  "let conf = (linphone_config_set_string empty_lpconfig ''a'' ''x'' (Some ''1''))\<lparr>lp_modified := False\<rparr>
   in \<not> linphone_config_needs_commit (linphone_config_clean_entry conf ''a'' ''x'') \<and>
      \<not> linphone_config_has_entry (linphone_config_clean_entry conf ''a'' ''x'') ''a'' ''x''"
proof -
  let ?c = "(linphone_config_set_string empty_lpconfig ''a'' ''x'' (Some ''1''))\<lparr>lp_modified := False\<rparr>"
  have "lp_wf ?c" using set_string_wf [of empty_lpconfig] by (simp add: lp_wf_def empty_lpconfig_def)
  moreover have "linphone_config_has_entry ?c ''a'' ''x''" "\<not> linphone_config_needs_commit ?c" by code_simp+
  ultimately show ?thesis using clean_entry_not_committed [of ?c "''a''" "''x''"] by simp
qed

end
