(* ===== verification/Lp_Text.thy ===== *)
theory Lp_Text
  imports Lp_Config
begin

text \<open>
  The text format of the configuration store: every text that is read gives a well-formed store, and a
  store whose names and values can be written is read back as it was, from a buffer and from the lines of
  a file.
\<close>

section \<open>Reading keeps the store well-formed\<close>

lemma parse_params_keeps:
  "parse_params buf p sec = Inr sec' \<Longrightarrow> sec_name sec' = sec_name sec \<and> sec_items sec' = sec_items sec"
proof (induction buf p sec rule: parse_params.induct)
  case (1 buf p sec)
  note IH = "1.IH"
  from "1.prems" have "length buf > p" by (auto simp: parse_params.simps [of buf p] split: if_splits)
  show ?case
  proof (cases "find_index (\<lambda>c. c = CHR ''='') (cstr_at buf p)")
    case None
    with "1.prems" \<open>length buf > p\<close> show ?thesis by (simp add: parse_params.simps [of buf p])
  next
    case (Some i)
    let ?b = "buf[p + i := CHR '' '']"
    show ?thesis
    proof (cases "\<exists>k r v w. scan_word (cstr_at ?b p) = Some (k, r) \<and> scan_word r = Some (v, w)")
      case True
      then obtain k r v w where s: "scan_word (cstr_at ?b p) = Some (k, r)" "scan_word r = Some (v, w)" by blast
      from "1.prems" \<open>length buf > p\<close> Some s have
        "parse_params ?b (p + length k + length v + 2) (linphone_config_add_section_param (lp_section_param_new k v) sec) = Inr sec'"
        by (simp add: parse_params.simps [of buf p] Let_def)
      from IH [OF _ Some refl s(1) refl s(2) refl this] \<open>length buf > p\<close> show ?thesis
        by (simp add: linphone_config_add_section_param_def)
    next
      case False
      with "1.prems" \<open>length buf > p\<close> Some show ?thesis
        by (auto simp: parse_params.simps [of buf p] Let_def split: option.splits)
    qed
  qed
qed

lemma sec_wf_cong: "sec_items s = sec_items t \<Longrightarrow> sec_wf s = sec_wf t"
  by (simp add: sec_wf_def lp_section_get_items_def)

lemma store_item_wf:
  assumes "sec_wf sec" and "v \<noteq> ''''"
  shows "sec_wf (store_item k v sec) \<and> sec_name (store_item k v sec) = sec_name sec"
proof (cases "lp_section_find_item sec k")
  case None
  then have "sec_get sec k = None" by (simp add: find_item_None)
  with None assms show ?thesis by (simp add: store_item_def sec_wf_add)
next
  case (Some j)
  note item = find_item_Some [OF Some]
  have "item_wf (lp_item_set_value v (sec_items sec ! j))" using item assms(2) by (simp add: item_wf_def)
  with sec_wf_update [where f = "lp_item_set_value v", OF assms(1) item(1)] Some show ?thesis by (simp add: store_item_def)
qed

definition cur_ok :: "LpConfig \<Rightarrow> nat option \<Rightarrow> bool" where
  "cur_ok conf cur \<longleftrightarrow> (case cur of None \<Rightarrow> True | Some i \<Rightarrow> i < length (lp_sections conf))"

lemma parse_section_line_wf:
  assumes wf: "lp_wf conf" "cur_ok conf cur" and res: "parse_section_line conf body rest cur = Inr (conf', cur')"
  shows "lp_wf conf' \<and> cur_ok conf' cur'"
proof (cases "scan_word body")
  case None
  with assms show ?thesis by (simp add: parse_section_line_def)
next
  case (Some p)
  obtain n r where p: "p = (n, r)" by (cases p)
  obtain conf1 i where c1: "(case linphone_config_find_section conf n of Some i \<Rightarrow> (conf, i)
      | None \<Rightarrow> (linphone_config_add_section (lp_section_new n) conf, length (lp_sections conf))) = (conf1, i)"
    by (cases "case linphone_config_find_section conf n of Some i \<Rightarrow> (conf, i)
      | None \<Rightarrow> (linphone_config_add_section (lp_section_new n) conf, length (lp_sections conf))") auto
  have wf1: "lp_wf conf1" "i < length (lp_sections conf1)"
    using c1 wf find_section_Some(1) lp_wf_add_section [OF wf(1), of "lp_section_new n"]
    by (auto simp: linphone_config_add_section_def split: option.splits)
  show ?thesis
  proof (cases "length n < length body")
    case False
    with res Some p c1 wf1 show ?thesis by (auto simp: parse_section_line_def cur_ok_def)
  next
    case True
    with res Some p c1 obtain sec where sec: "parse_params (body @ CHR 0x00 # rest @ [CHR 0x00]) (length n + 1) (lp_sections conf1 ! i) = Inr sec"
      "conf' = update_section i (\<lambda>_. sec) conf1" "cur' = Some i" by (auto simp: parse_section_line_def bindR_eq_Inr)
    have "sec_wf sec" "sec_name sec = sec_name (lp_sections conf1 ! i)"
      using parse_params_keeps [OF sec(1)] sec_wf_cong lp_wf_sec [OF wf1] by blast+
    then have "lp_wf conf'" using sec(2) lp_wf_update_section [OF wf1, of "\<lambda>_. sec"] by simp
    then show ?thesis using sec wf1(2) by (simp add: cur_ok_def update_section_def)
  qed
qed

lemma parse_comment_line_wf:
  assumes "lp_wf conf" "cur_ok conf cur" "parse_comment_line conf line cur = (conf', cur')"
  shows "lp_wf conf' \<and> cur_ok conf' cur'"
proof (cases cur)
  case (Some i)
  let ?v = "item_value (lp_comment_new line)"
  let ?f = "\<lambda>sec. lp_section_add_item (lp_comment_new line) (case lp_section_find_comment sec ?v of
      Some j \<Rightarrow> lp_section_remove_item j sec | None \<Rightarrow> sec)"
  have i: "i < length (lp_sections conf)" using assms(2) Some by (simp add: cur_ok_def)
  have "sec_wf (?f (lp_sections conf ! i)) \<and> sec_name (?f (lp_sections conf ! i)) = sec_name (lp_sections conf ! i)"
    using lp_wf_sec [OF assms(1) i]
    by (auto split: option.splits intro!: sec_wf_add_comment sec_wf_remove
        simp: lp_section_find_comment_def dest: find_index_SomeD)
  with assms Some i lp_wf_update_section [OF assms(1) i, of ?f] show ?thesis
    by (auto simp: parse_comment_line_def cur_ok_def update_section_def)
qed (use assms in \<open>simp add: parse_comment_line_def\<close>)

lemma parse_item_line_wf:
  assumes "lp_wf conf" "cur_ok conf cur" "parse_item_line conf line cur = (conf', cur')"
  shows "lp_wf conf' \<and> cur_ok conf' cur'"
proof -
  consider "conf' = conf" "cur' = cur" | i k v where "cur = Some i" "v \<noteq> ''''" "conf' = update_section i (store_item k v) conf" "cur' = cur"
    using assms(3) by (auto simp: parse_item_line_def Let_def split: option.splits prod.splits if_splits)
  then show ?thesis
  proof cases
    case 1
    with assms show ?thesis by simp
  next
    case 2
    then have i: "i < length (lp_sections conf)" using assms(2) by (simp add: cur_ok_def)
    from store_item_wf [OF lp_wf_sec [OF assms(1) i] 2(2), of k] lp_wf_update_section [OF assms(1) i, of "store_item k v"]
    have "lp_wf conf'" using 2(3) by simp
    with 2 i show ?thesis by (simp add: cur_ok_def update_section_def)
  qed
qed

lemma parse_line_wf:
  assumes "lp_wf conf" "cur_ok conf cur" "linphone_config_parse_line conf line cur = Inr (conf', cur')"
  shows "lp_wf conf' \<and> cur_ok conf' cur'"
  using assms parse_section_line_wf [OF assms(1,2)] parse_comment_line_wf [OF assms(1,2)] parse_item_line_wf [OF assms(1,2)]
  unfolding linphone_config_parse_line_def by (fastforce split: option.splits if_splits)

lemma parse_lines_wf:
  "lp_wf conf \<Longrightarrow> cur_ok conf cur \<Longrightarrow> parse_lines (conf, cur) ls = Inr (conf', cur') \<Longrightarrow> lp_wf conf' \<and> cur_ok conf' cur'"
proof (induction ls arbitrary: conf cur)
  case (Cons l ls)
  then obtain c1 k1 where "linphone_config_parse_line conf l cur = Inr (c1, k1)" "parse_lines (c1, k1) ls = Inr (conf', cur')"
    by (auto simp: parse_lines_def bindR_eq_Inr)
  with Cons parse_line_wf show ?case by blast
qed (simp add: parse_lines_def)

text \<open>
  Whatever text is read, the store that results is well-formed: one section per name, one item per key, no
  item without a value.  This holds for a buffer, and for a file read on top of a well-formed store.
\<close>

theorem parsed_config_wf:
  assumes "linphone_config_new_from_buffer text = Inr conf \<or>
    lp_wf base \<and> linphone_config_parse base reads = Inr (conf, n)"
  shows "lp_wf conf"
proof -
  have e: "lp_wf empty_lpconfig" "cur_ok c None" for c by (simp_all add: lp_wf_def empty_lpconfig_def cur_ok_def)
  from assms show ?thesis
  proof
    assume "linphone_config_new_from_buffer text = Inr conf"
    then show ?thesis using parse_lines_wf [OF e] by (auto simp: linphone_config_new_from_buffer_def bindR_eq_Inr)
  next
    assume "lp_wf base \<and> linphone_config_parse base reads = Inr (conf, n)"
    then show ?thesis using parse_lines_wf [OF _ e(2)]
      by (auto simp: linphone_config_parse_def Let_def bindR_eq_Inr split: option.splits)
  qed
qed

theorem parsed_config_wf_witness:
  "\<exists>conf. linphone_config_new_from_buffer ''[sip]'' = Inr conf \<and> lp_wf conf"
proof -
  have "case linphone_config_new_from_buffer ''[sip]'' of Inr c \<Rightarrow> True | _ \<Rightarrow> False" by code_simp
  then obtain conf where "linphone_config_new_from_buffer ''[sip]'' = Inr conf" by (auto split: sum.splits)
  with parsed_config_wf [of "''[sip]''" conf] show ?thesis by blast
qed


section \<open>What can be written and read back\<close>

text \<open>
  Names, keys and parameters are words; a key does not look like a section or a comment; a value ends in something
  other than a blank and has no line break; a comment line is one; the flags are those of a store that was read.
\<close>

definition word_ok :: "string \<Rightarrow> bool" where
  "word_ok w \<longleftrightarrow> w \<noteq> '''' \<and> list_all (\<lambda>c. \<not> is_space_c c \<and> c \<noteq> CHR 0x00 \<and> c \<noteq> CHR '']'') w"

definition text_ok :: "string \<Rightarrow> bool" where
  "text_ok s \<longleftrightarrow> list_all (\<lambda>c. c \<noteq> CHR 0x0A \<and> c \<noteq> CHR 0x0D \<and> c \<noteq> CHR 0x00) s"

definition key_ok :: "string \<Rightarrow> bool" where
  "key_ok k \<longleftrightarrow> k \<noteq> '''' \<and> list_all (\<lambda>c. \<not> is_space_c c \<and> c \<noteq> CHR 0x00 \<and> c \<noteq> CHR ''='') k \<and>
     hd k \<noteq> CHR ''['' \<and> hd k \<noteq> CHR ''#''"

definition value_ok :: "string \<Rightarrow> bool" where
  "value_ok v \<longleftrightarrow> v \<noteq> '''' \<and> text_ok v \<and> last v \<noteq> CHR '' ''"

definition param_ok :: "LpSectionParam \<Rightarrow> bool" where
  "param_ok p \<longleftrightarrow> word_ok (param_key p) \<and> CHR ''='' \<notin> set (param_key p) \<and> word_ok (param_value p)"

definition item_ok :: "LpItem \<Rightarrow> bool" where
  "item_ok i \<longleftrightarrow> \<not> item_overwrite i \<and> \<not> item_skip i \<and>
     (if item_is_comment i then item_key i = None \<and> is_a_comment (item_value i) \<and> text_ok (item_value i)
      else (case item_key i of Some k \<Rightarrow> key_ok k | None \<Rightarrow> False) \<and> value_ok (item_value i))"

definition sec_ok :: "LpSection \<Rightarrow> bool" where
  "sec_ok s \<longleftrightarrow> word_ok (sec_name s) \<and> list_all param_ok (sec_params s) \<and> list_all item_ok (sec_items s) \<and>
     \<not> sec_overwrite s \<and> \<not> sec_skip s \<and> distinct (map item_key (lp_section_get_items s)) \<and>
     distinct (map item_value (filter item_is_comment (sec_items s)))"

definition printable :: "LpConfig \<Rightarrow> bool" where
  "printable conf \<longleftrightarrow> list_all sec_ok (lp_sections conf) \<and> distinct (map sec_name (lp_sections conf))"

section \<open>Section headers\<close>

definition params_text :: "LpSectionParam list \<Rightarrow> string" where
  "params_text ps = concat (map (\<lambda>p. CHR '' '' # param_key p @ CHR ''='' # param_value p) ps)"

lemma word_ok_word_of: "word_ok w \<Longrightarrow> word_of (length w) w"
  by (auto simp: word_ok_def word_of_def list_all_iff)

lemma word_ok_no_nul: "word_ok w \<Longrightarrow> CHR 0x00 \<notin> set w \<and> CHR '']'' \<notin> set w"
  by (auto simp: word_ok_def list_all_iff)

lemma params_text_chars:
  "list_all param_ok ps \<Longrightarrow> CHR 0x00 \<notin> set (params_text ps) \<and> CHR '']'' \<notin> set (params_text ps)"
  by (induction ps) (simp_all add: params_text_def param_ok_def word_ok_no_nul)

lemma params_text_space: "params_text ps = [] \<or> is_space_c (hd (params_text ps))"
  by (cases ps) (simp_all add: params_text_def is_space_c_def)

lemma cstr_at_prefix: "CHR 0x00 \<notin> set body \<Longrightarrow> cstr_at (pre @ body @ CHR 0x00 # t) (length pre) = body"
  unfolding cstr_at_def by (induction body) auto

lemma find_index_first: "x \<notin> set k \<Longrightarrow> find_index (\<lambda>c. c = x) (k @ x # r) = Some (length k)"
  by (induction k) auto

lemma parse_params_none:
  assumes "CHR ''='' \<notin> set (cstr_at buf p)" and "p < length buf"
  shows "parse_params buf p sec = Inr sec"
proof -
  have "find_index (\<lambda>c. c = CHR ''='') (cstr_at buf p) = None" using assms(1) by (auto simp: find_index_None)
  then show ?thesis using assms(2) by (simp add: parse_params.simps [of buf p])
qed

lemma parse_params_step:
  assumes k: "word_ok k" "CHR ''='' \<notin> set k" and v: "word_ok v" and r: "CHR 0x00 \<notin> set r" "r = [] \<or> is_space_c (hd r)"
  shows "parse_params (pre @ (k @ CHR ''='' # v @ r) @ CHR 0x00 # t) (length pre) sec =
    parse_params (pre @ (k @ CHR '' '' # v @ r) @ CHR 0x00 # t) (length pre + length k + length v + 2)
      (linphone_config_add_section_param (lp_section_param_new k v) sec)"
proof -
  let ?buf = "pre @ (k @ CHR ''='' # v @ r) @ CHR 0x00 # t" and ?buf' = "pre @ (k @ CHR '' '' # v @ r) @ CHR 0x00 # t"
  note nul = word_ok_no_nul [OF k(1)] word_ok_no_nul [OF v]
  have c: "cstr_at ?buf (length pre) = k @ CHR ''='' # v @ r" using nul r by (intro cstr_at_prefix) simp
  have c': "cstr_at ?buf' (length pre) = k @ CHR '' '' # v @ r" using nul r by (intro cstr_at_prefix) simp
  have upd: "?buf[length pre + length k := CHR '' ''] = ?buf'" by (simp add: list_update_append)
  have w1: "scan_word (k @ CHR '' '' # v @ r) = Some (k, CHR '' '' # v @ r)"
    using scan_word_word(2) [OF word_ok_word_of [OF k(1)], of "CHR '' '' # v @ r"] by (simp add: is_space_c_def)
  have w2: "scan_word (CHR '' '' # v @ r) = Some (v, r)"
    using scan_word_word(1) [OF word_ok_word_of [OF v] r(2)] .
  show ?thesis
    by (subst parse_params.simps) (simp only: c find_index_first [OF k(2)] option.case Let_def upd c' w1 w2 prod.case, simp)
qed

lemma add_params_append:
  "s\<lparr>sec_params := sec_params s @ p # ps\<rparr> = (linphone_config_add_section_param p s)\<lparr>sec_params := sec_params (linphone_config_add_section_param p s) @ ps\<rparr>"
  by (simp add: linphone_config_add_section_param_def)

lemma parse_params_all:
  assumes "list_all param_ok (p # ps)" and t: "CHR ''='' \<notin> set (takeWhile (\<lambda>c. c \<noteq> CHR 0x00) t)" "t \<noteq> []"
  shows "parse_params (pre @ (param_key p @ CHR ''='' # param_value p @ params_text ps) @ CHR 0x00 # t) (length pre) sec =
    Inr (sec\<lparr>sec_params := sec_params sec @ p # ps\<rparr>)"
  using assms(1)
proof (induction ps arbitrary: p pre sec)
  case Nil
  let ?k = "param_key p" and ?v = "param_value p"
  let ?buf = "pre @ (?k @ CHR '' '' # ?v @ []) @ CHR 0x00 # t"
  have new: "lp_section_param_new ?k ?v = p" by (simp add: lp_section_param_new_def)
  have len: "length pre + length ?k + length ?v + 2 < length ?buf" using t(2) by (cases t) simp_all
  have "drop (length pre + length ?k + length ?v + 2) ?buf = t" by simp
  then have "cstr_at ?buf (length pre + length ?k + length ?v + 2) = takeWhile (\<lambda>c. c \<noteq> CHR 0x00) t" by (simp only: cstr_at_def)
  with t(1) have "parse_params ?buf (length pre + length ?k + length ?v + 2) s = Inr s" for s
    using parse_params_none [OF _ len] by simp
  with Nil parse_params_step [of ?k ?v "[]" pre t sec] new show ?case
    by (simp add: param_ok_def params_text_def linphone_config_add_section_param_def)
next
  case (Cons q ps)
  let ?k = "param_key p" and ?v = "param_value p" and ?r = "params_text (q # ps)"
  let ?pre = "pre @ ?k @ CHR '' '' # ?v @ '' ''"
  have new: "lp_section_param_new ?k ?v = p" by (simp add: lp_section_param_new_def)
  have r: "CHR 0x00 \<notin> set ?r" using params_text_chars [of "q # ps"] Cons.prems by simp
  have "parse_params (pre @ (?k @ CHR ''='' # ?v @ ?r) @ CHR 0x00 # t) (length pre) sec =
      parse_params (pre @ (?k @ CHR '' '' # ?v @ ?r) @ CHR 0x00 # t) (length pre + length ?k + length ?v + 2)
        (linphone_config_add_section_param p sec)"
    using parse_params_step [of ?k ?v ?r pre t sec] Cons.prems r params_text_space new by (simp add: param_ok_def)
  also have "pre @ (?k @ CHR '' '' # ?v @ ?r) @ CHR 0x00 # t =
      ?pre @ (param_key q @ CHR ''='' # param_value q @ params_text ps) @ CHR 0x00 # t" by (simp add: params_text_def)
  also have "length pre + length ?k + length ?v + 2 = length ?pre" by simp
  also have "parse_params (?pre @ (param_key q @ CHR ''='' # param_value q @ params_text ps) @ CHR 0x00 # t) (length ?pre)
      (linphone_config_add_section_param p sec) =
      Inr ((linphone_config_add_section_param p sec)\<lparr>sec_params := sec_params (linphone_config_add_section_param p sec) @ q # ps\<rparr>)"
    by (rule Cons.IH) (use Cons.prems in simp)
  finally show ?case unfolding add_params_append .
qed

definition header_line :: "LpSection \<Rightarrow> string" where
  "header_line s = CHR ''['' # sec_name s @ params_text (sec_params s) @ '']''"

text \<open>A line is delivered with its line feed or without it.\<close>

abbreviation eol :: "string \<Rightarrow> bool" where
  "eol e \<equiv> e = [] \<or> e = [CHR 0x0A]"

lemma parse_section_line_new:
  assumes ok: "sec_ok s" and new: "sec_name s \<notin> sec_name ` set (lp_sections conf)" and e: "eol e"
  shows "parse_section_line conf (sec_name s @ params_text (sec_params s)) e cur =
    Inr (conf\<lparr>lp_sections := lp_sections conf @ [s\<lparr>sec_items := []\<rparr>]\<rparr>, Some (length (lp_sections conf)))"
proof -
  let ?n = "sec_name s" and ?ps = "sec_params s"
  have name: "word_ok ?n" and ps: "list_all param_ok ?ps" and flags: "\<not> sec_overwrite s" "\<not> sec_skip s"
    using ok by (simp_all add: sec_ok_def)
  have w: "scan_word (?n @ params_text ?ps) = Some (?n, params_text ?ps)"
    by (rule scan_word_word(2) [OF word_ok_word_of [OF name] params_text_space])
  have f: "linphone_config_find_section conf ?n = None" using new by (simp add: find_section_None)
  let ?c1 = "linphone_config_add_section (lp_section_new ?n) conf"
  have last: "lp_sections ?c1 ! length (lp_sections conf) = lp_section_new ?n" by (simp add: linphone_config_add_section_def)
  have s0: "lp_section_new ?n\<lparr>sec_params := ?ps\<rparr> = s\<lparr>sec_items := []\<rparr>"
    using flags by (simp add: lp_section_new_def)
  have upd: "update_section (length (lp_sections conf)) (\<lambda>_. x) ?c1 = conf\<lparr>lp_sections := lp_sections conf @ [x]\<rparr>" for x
    by (simp add: update_section_def linphone_config_add_section_def)
  show ?thesis
  proof (cases ?ps)
    case Nil
    with w f s0 show ?thesis
      by (simp add: parse_section_line_def params_text_def linphone_config_add_section_def)
        (simp add: lp_section_new_def)
  next
    case (Cons p ps)
    let ?t = "e @ [CHR 0x00]"
    have "parse_params ((?n @ '' '') @ (param_key p @ CHR ''='' # param_value p @ params_text ps) @ CHR 0x00 # ?t)
        (length (?n @ '' '')) (lp_section_new ?n) = Inr (lp_section_new ?n\<lparr>sec_params := sec_params (lp_section_new ?n) @ p # ps\<rparr>)"
      by (rule parse_params_all) (use ps Cons e in auto)
    then have pp: "parse_params ((?n @ params_text ?ps) @ CHR 0x00 # e @ [CHR 0x00]) (length ?n + 1) (lp_section_new ?n) =
        Inr (lp_section_new ?n\<lparr>sec_params := ?ps\<rparr>)"
      using Cons by (simp add: params_text_def lp_section_new_def)
    have "length ?n < length (?n @ params_text ?ps)" using Cons by (simp add: params_text_def)
    then show ?thesis
      unfolding parse_section_line_def w f option.case prod.case Let_def last if_P [OF \<open>length ?n < length (?n @ params_text ?ps)\<close>] pp
      by (simp add: upd s0)
  qed
qed

lemma parse_bracket:
  assumes "CHR '']'' \<notin> set b"
  shows "linphone_config_parse_line conf (CHR ''['' # b @ CHR '']'' # rest) cur = parse_section_line conf b rest cur"
proof -
  have "find_index (\<lambda>c. c = CHR '']'') ((CHR ''['' # b) @ CHR '']'' # rest) = Some (length (CHR ''['' # b))"
    by (rule find_index_first) (use assms in simp)
  then show ?thesis by (simp add: linphone_config_parse_line_def is_first_char_def)
qed

lemma parse_header:
  assumes ok: "sec_ok s" and new: "sec_name s \<notin> sec_name ` set (lp_sections conf)" and e: "eol e"
  shows "linphone_config_parse_line conf (header_line s @ e) cur =
    Inr (conf\<lparr>lp_sections := lp_sections conf @ [s\<lparr>sec_items := []\<rparr>]\<rparr>, Some (length (lp_sections conf)))"
proof -
  have "CHR '']'' \<notin> set (sec_name s @ params_text (sec_params s))" using ok word_ok_no_nul params_text_chars by (simp add: sec_ok_def)
  from parse_bracket [OF this, of conf e cur] parse_section_line_new [OF assms] show ?thesis by (simp add: header_line_def)
qed

section \<open>Items and comments\<close>

definition item_line :: "LpItem \<Rightarrow> string" where
  "item_line i = (if item_is_comment i then item_value i else the (item_key i) @ CHR ''='' # item_value i)"

lemma cut_eol_text: "text_ok s \<Longrightarrow> eol e \<Longrightarrow> cut_eol (s @ e) = s"
proof -
  assume s: "text_ok s" and e: "eol e"
  have no: "CHR 0x0D \<notin> set s" "list_all (\<lambda>c. c \<noteq> CHR 0x0A) s" using s unfolding text_ok_def list_all_iff by blast+
  have "CHR 0x0D \<notin> set (s @ e)" using no(1) e by (elim disjE) simp_all
  moreover have "takeWhile (\<lambda>c. c \<noteq> CHR 0x0A) (s @ e) = s"
    using takeWhile_prefix [OF no(2), of e] e by (elim disjE) simp_all
  ultimately show ?thesis by (simp add: cut_eol_def)
qed

lemma strip_trailing_value: "v \<noteq> '''' \<Longrightarrow> last v \<noteq> CHR '' '' \<Longrightarrow> strip_trailing v = v"
  by (cases v rule: rev_cases) (simp_all add: strip_trailing_def)

text \<open>A line whose first character is neither a bracket nor a blank is not a section.\<close>

lemma parse_line_plain:
  assumes "line \<noteq> []" and "hd line \<noteq> CHR ''[''" and "\<not> list_all (\<lambda>c. c = CHR '' '') (takeWhile (\<lambda>c. c \<noteq> CHR ''['') line)"
  shows "linphone_config_parse_line conf line cur =
    Inr (if is_a_comment line then parse_comment_line conf line cur else parse_item_line conf line cur)"
proof (cases "find_index (\<lambda>c. c = CHR ''['') line")
  case (Some i)
  note D = find_index_SomeD [OF Some]
  then have "takeWhile (\<lambda>c. c \<noteq> CHR ''['') line = take i line"
    by (intro takeWhile_eq_take_P_nth) auto
  with assms(3) have "\<not> is_first_char (take i line)" by (simp add: is_first_char_def)
  with Some show ?thesis by (simp add: linphone_config_parse_line_def)
qed (simp add: linphone_config_parse_line_def)

lemma is_a_comment_append: "is_a_comment s \<Longrightarrow> is_a_comment (s @ e)"
  by (induction s) (auto simp: is_a_comment_def)

lemma comment_not_section:
  "is_a_comment s \<Longrightarrow> s \<noteq> [] \<and> hd s \<noteq> CHR ''['' \<and> \<not> list_all (\<lambda>c. c = CHR '' '') (takeWhile (\<lambda>c. c \<noteq> CHR ''['') (s @ e))"
  by (induction s) (auto simp: is_a_comment_def)

lemma add_item_sections:
  "update_section (length S) (\<lambda>sec. lp_section_add_item it sec) (conf\<lparr>lp_sections := S @ [sec]\<rparr>) =
   conf\<lparr>lp_sections := S @ [sec\<lparr>sec_items := sec_items sec @ [it]\<rparr>]\<rparr>"
  by (simp add: update_section_def lp_section_add_item_def)

text \<open>A written item is appended to the current section, when the section does not have it yet.\<close>

lemma parse_comment:
  assumes ok: "item_ok it" "item_is_comment it" and new: "item_value it \<notin> item_value ` set (filter item_is_comment (sec_items sec))"
    and e: "eol e"
  shows "linphone_config_parse_line (conf\<lparr>lp_sections := S @ [sec]\<rparr>) (item_line it @ e) (Some (length S)) =
    Inr (conf\<lparr>lp_sections := S @ [sec\<lparr>sec_items := sec_items sec @ [it]\<rparr>]\<rparr>, Some (length S))"
proof -
  let ?v = "item_value it"
  have v: "is_a_comment ?v" "text_ok ?v" "item_key it = None" "\<not> item_overwrite it" "\<not> item_skip it"
    using ok by (simp_all add: item_ok_def)
  have c: "lp_comment_new (?v @ e) = it" using v ok(2) cut_eol_text [OF v(2) e] by (simp add: lp_comment_new_def)
  have "lp_section_find_comment sec ?v = None"
    using new unfolding lp_section_find_comment_def find_index_None set_filter by (metis (mono_tags, lifting) imageI mem_Collect_eq)
  then have "parse_comment_line (conf\<lparr>lp_sections := S @ [sec]\<rparr>) (?v @ e) (Some (length S)) =
      (conf\<lparr>lp_sections := S @ [sec\<lparr>sec_items := sec_items sec @ [it]\<rparr>]\<rparr>, Some (length S))"
    by (simp add: parse_comment_line_def c update_section_def lp_section_add_item_def)
  moreover have "linphone_config_parse_line conf' (?v @ e) cur = Inr (parse_comment_line conf' (?v @ e) cur)" for conf' cur
    using parse_line_plain [of "?v @ e"] comment_not_section [OF v(1), of e] is_a_comment_append [OF v(1)] by simp
  ultimately show ?thesis using ok(2) by (simp add: item_line_def)
qed

lemma key_start:
  assumes "key_ok k"
  obtains c cs where "k = c # cs" "c \<noteq> CHR ''[''" "c \<noteq> CHR '' ''" "c \<noteq> CHR ''#''"
  using assms by (cases k) (auto simp: key_ok_def is_space_c_def)

lemma parse_item:
  assumes ok: "item_ok it" "\<not> item_is_comment it" and new: "item_key it \<notin> item_key ` set (lp_section_get_items sec)"
    and e: "eol e"
  shows "linphone_config_parse_line (conf\<lparr>lp_sections := S @ [sec]\<rparr>) (item_line it @ e) (Some (length S)) =
    Inr (conf\<lparr>lp_sections := S @ [sec\<lparr>sec_items := sec_items sec @ [it]\<rparr>]\<rparr>, Some (length S))"
proof -
  let ?v = "item_value it"
  obtain k where k: "item_key it = Some k" "key_ok k" using ok by (auto simp: item_ok_def split: option.splits)
  have v: "value_ok ?v" "\<not> item_overwrite it" "\<not> item_skip it" using ok by (simp_all add: item_ok_def)
  obtain c cs where kc: "k = c # cs" "c \<noteq> CHR ''[''" "c \<noteq> CHR '' ''" "c \<noteq> CHR ''#''" using k(2) by (rule key_start)
  let ?l = "k @ CHR ''='' # ?v @ e"
  have line: "item_line it @ e = ?l" using ok(2) k by (simp add: item_line_def)
  have plain: "linphone_config_parse_line conf' ?l cur = Inr (parse_item_line conf' ?l cur)" for conf' cur
    using parse_line_plain [of ?l conf' cur] kc by (simp add: is_a_comment_def)
  have eq: "find_index (\<lambda>x. x = CHR ''='') ?l = Some (length k)"
    using k(2) by (intro find_index_first) (auto simp: key_ok_def list_all_iff)
  have w: "scan_word k = Some (k, [])"
  proof -
    have "word_of (length k) k" using k(2) by (auto simp: word_of_def key_ok_def list_all_iff)
    from scan_word_word(2) [OF this, of "[]"] show ?thesis by simp
  qed
  have val: "strip_trailing (cut_eol (?v @ e)) = ?v" "?v \<noteq> ''''"
    using v(1) cut_eol_text [OF _ e] strip_trailing_value by (simp_all add: value_ok_def)
  have "lp_section_find_item sec k = None" using new k(1) by (simp add: find_item_None sec_get_None)
  moreover have "lp_item_new k ?v = it" using k(1) v ok(2) by (simp add: lp_item_new_def)
  ultimately have st: "store_item k ?v sec = lp_section_add_item it sec" by (simp add: store_item_def)
  have "parse_item_line (conf\<lparr>lp_sections := S @ [sec]\<rparr>) ?l (Some (length S)) =
      (update_section (length S) (store_item k ?v) (conf\<lparr>lp_sections := S @ [sec]\<rparr>), Some (length S))"
    using eq w val by (simp add: parse_item_line_def)
  also have "update_section (length S) (store_item k ?v) (conf\<lparr>lp_sections := S @ [sec]\<rparr>) =
      conf\<lparr>lp_sections := S @ [sec\<lparr>sec_items := sec_items sec @ [it]\<rparr>]\<rparr>"
    by (simp add: update_section_def st lp_section_add_item_def)
  finally show ?thesis unfolding line plain by simp
qed

lemma parse_blank: "eol e \<Longrightarrow> linphone_config_parse_line conf e cur = Inr (conf, cur)"
  by (auto simp: linphone_config_parse_line_def is_a_comment_def parse_item_line_def)

section \<open>The round trip\<close>

text \<open>
  The ways the lines of a text reach the parser: each line once and in order, with or without its line feed, and empty lines
  possibly left out.  This covers the tokens of a buffer and the lines of a file.
\<close>

inductive delivers :: "string list \<Rightarrow> string list \<Rightarrow> bool" where
  Nothing: "delivers [] []"
| Line: "delivers ls ds \<Longrightarrow> eol e \<Longrightarrow> delivers (l # ls) ((l @ e) # ds)"
| Skipped: "delivers ls ds \<Longrightarrow> delivers ([] # ls) ds"

inductive_cases delivers_NilE: "delivers [] ds"
inductive_cases delivers_ConsE: "delivers (l # ls) ds"

lemma parse_lines_Cons: "linphone_config_parse_line conf l cur = Inr st \<Longrightarrow> parse_lines (conf, cur) (l # ls) = parse_lines st ls"
  by (simp add: parse_lines_def)

definition sec_lines :: "LpSection \<Rightarrow> string list" where
  "sec_lines s = header_line s # map item_line (sec_items s) @ [[]]"

lemma item_line_nonempty: "item_ok it \<Longrightarrow> item_line it \<noteq> []"
  by (auto simp: item_ok_def item_line_def is_a_comment_def)

definition fresh_item :: "LpItem list \<Rightarrow> LpItem \<Rightarrow> bool" where
  "fresh_item its it \<longleftrightarrow> (if item_is_comment it then item_value it \<notin> item_value ` set (filter item_is_comment its)
     else item_key it \<notin> item_key ` set (filter (\<lambda>i. \<not> item_is_comment i) its))"

lemma parse_items:
  assumes "list_all item_ok its" and "\<And>xs y ys. its = xs @ y # ys \<Longrightarrow> fresh_item (sec_items sec @ xs) y"
    and "delivers (map item_line its @ rest) ds"
  shows "\<exists>ds'. delivers rest ds' \<and>
    parse_lines (conf\<lparr>lp_sections := S @ [sec]\<rparr>, Some (length S)) ds =
    parse_lines (conf\<lparr>lp_sections := S @ [sec\<lparr>sec_items := sec_items sec @ its\<rparr>]\<rparr>, Some (length S)) ds'"
  using assms
proof (induction its arbitrary: sec ds)
  case Nil
  then show ?case by (intro exI [of _ ds]) simp
next
  case (Cons it its)
  from Cons.prems(3) item_line_nonempty Cons.prems(1) obtain e ds1 where d: "ds = (item_line it @ e) # ds1" "eol e"
    "delivers (map item_line its @ rest) ds1" by (auto elim: delivers_ConsE)
  have "fresh_item (sec_items sec) it" using Cons.prems(2) [of "[]"] by simp
  then have "linphone_config_parse_line (conf\<lparr>lp_sections := S @ [sec]\<rparr>) (item_line it @ e) (Some (length S)) =
      Inr (conf\<lparr>lp_sections := S @ [sec\<lparr>sec_items := sec_items sec @ [it]\<rparr>]\<rparr>, Some (length S))"
    using parse_comment [OF _ _ _ d(2)] parse_item [OF _ _ _ d(2)] Cons.prems(1)
    by (cases "item_is_comment it") (simp_all add: fresh_item_def lp_section_get_items_def)
  note step = parse_lines_Cons [OF this, of ds1]
  have "\<exists>ds'. delivers rest ds' \<and>
      parse_lines (conf\<lparr>lp_sections := S @ [sec\<lparr>sec_items := sec_items sec @ [it]\<rparr>]\<rparr>, Some (length S)) ds1 =
      parse_lines (conf\<lparr>lp_sections := S @ [(sec\<lparr>sec_items := sec_items sec @ [it]\<rparr>)
        \<lparr>sec_items := sec_items (sec\<lparr>sec_items := sec_items sec @ [it]\<rparr>) @ its\<rparr>]\<rparr>, Some (length S)) ds'"
  proof (rule Cons.IH [OF _ _ d(3)])
    show "list_all item_ok its" using Cons.prems(1) by simp
    fix xs y ys assume "its = xs @ y # ys"
    then show "fresh_item (sec_items (sec\<lparr>sec_items := sec_items sec @ [it]\<rparr>) @ xs) y"
      using Cons.prems(2) [of "it # xs" y ys] by simp
  qed
  with d(1) step show ?case by simp
qed

lemma sec_ok_fresh:
  assumes "sec_ok s" and "sec_items s = xs @ y # ys"
  shows "fresh_item xs y"
  using assms by (auto simp: sec_ok_def fresh_item_def lp_section_get_items_def)

lemma parse_section:
  assumes ok: "sec_ok s" and new: "sec_name s \<notin> sec_name ` set S" and d: "delivers (sec_lines s @ rest) ds"
  shows "\<exists>ds'. delivers rest ds' \<and>
    parse_lines (conf\<lparr>lp_sections := S\<rparr>, cur) ds = parse_lines (conf\<lparr>lp_sections := S @ [s]\<rparr>, Some (length S)) ds'"
proof -
  from d obtain e ds1 where ds1: "ds = (header_line s @ e) # ds1" "eol e" "delivers (map item_line (sec_items s) @ [] # rest) ds1"
    by (auto simp: sec_lines_def header_line_def elim: delivers_ConsE)
  have "parse_lines (conf\<lparr>lp_sections := S\<rparr>, cur) ds =
      parse_lines (conf\<lparr>lp_sections := S @ [s\<lparr>sec_items := []\<rparr>]\<rparr>, Some (length S)) ds1"
    using parse_lines_Cons [OF parse_header [OF ok _ ds1(2), of "conf\<lparr>lp_sections := S\<rparr>" cur]] new ds1(1) by simp
  moreover have "\<exists>ds2. delivers ([] # rest) ds2 \<and>
      parse_lines (conf\<lparr>lp_sections := S @ [s\<lparr>sec_items := []\<rparr>]\<rparr>, Some (length S)) ds1 =
      parse_lines (conf\<lparr>lp_sections := S @ [(s\<lparr>sec_items := []\<rparr>)\<lparr>sec_items := sec_items (s\<lparr>sec_items := []\<rparr>) @ sec_items s\<rparr>]\<rparr>, Some (length S)) ds2"
    by (rule parse_items [OF _ _ ds1(3)]) (use ok sec_ok_fresh [OF ok] in \<open>auto simp: sec_ok_def\<close>)
  ultimately obtain ds2 where ds2: "delivers ([] # rest) ds2"
    "parse_lines (conf\<lparr>lp_sections := S\<rparr>, cur) ds = parse_lines (conf\<lparr>lp_sections := S @ [s]\<rparr>, Some (length S)) ds2" by auto
  from ds2(1) show ?thesis
  proof (rule delivers_ConsE)
    fix ds3 e' assume e': "ds2 = ([] @ e') # ds3" "delivers rest ds3" "eol e'"
    from parse_lines_Cons [OF parse_blank [OF e'(3)]] e' ds2(2) show ?thesis by auto
  qed (use ds2(2) in auto)
qed

lemma parse_sections:
  assumes "list_all sec_ok ss" and "distinct (map sec_name (S @ ss))" and "delivers (concat (map sec_lines ss)) ds"
  shows "\<exists>cur'. parse_lines (conf\<lparr>lp_sections := S\<rparr>, cur) ds = Inr (conf\<lparr>lp_sections := S @ ss\<rparr>, cur')"
  using assms
proof (induction ss arbitrary: S cur ds)
  case Nil
  then have "ds = []" by (auto elim: delivers_NilE)
  then show ?case by (simp add: parse_lines_def)
next
  case (Cons s ss)
  have "delivers (sec_lines s @ concat (map sec_lines ss)) ds" using Cons.prems(3) by simp
  from parse_section [OF _ _ this, of S conf cur] Cons.prems(1,2) obtain ds' where
    "delivers (concat (map sec_lines ss)) ds'"
    "parse_lines (conf\<lparr>lp_sections := S\<rparr>, cur) ds = parse_lines (conf\<lparr>lp_sections := S @ [s]\<rparr>, Some (length S)) ds'" by auto
  with Cons.IH [of "S @ [s]" ds' "Some (length S)"] Cons.prems(1,2) show ?case by auto
qed

definition config_lines :: "LpConfig \<Rightarrow> string list" where
  "config_lines conf = concat (map sec_lines (lp_sections conf))"

lemma config_text_lines:
  assumes "printable conf"
  shows "config_text conf = concat (map (\<lambda>l. l @ [CHR 0x0A]) (config_lines conf))"
proof -
  have item: "lp_item_write it = item_line it @ [CHR 0x0A]" if "item_ok it" for it
    using that by (auto simp: lp_item_write_def item_line_def item_ok_def value_ok_def split: if_splits)
  have param: "concat (map lp_section_param_write ps) = params_text ps" if "list_all param_ok ps" for ps
    using that by (induction ps) (auto simp: params_text_def lp_section_param_write_def param_ok_def word_ok_def)
  have items: "concat (map lp_item_write its) = concat (map (\<lambda>it. item_line it @ [CHR 0x0A]) its)" if "list_all item_ok its" for its
    using that item by (induction its) auto
  have "lp_section_write s = concat (map (\<lambda>l. l @ [CHR 0x0A]) (sec_lines s))" if "sec_ok s" for s
    using that by (simp add: lp_section_write_def sec_lines_def header_line_def param items sec_ok_def comp_def)
  then have "concat (map lp_section_write ss) = concat (map (\<lambda>l. l @ [CHR 0x0A]) (concat (map sec_lines ss)))" if "list_all sec_ok ss" for ss
    using that by (induction ss) auto
  then show ?thesis using assms
    by (simp add: config_text_def config_lines_def printable_def)
qed

lemma space_lf: "\<not> is_space_c c \<Longrightarrow> c \<noteq> CHR 0x0A"
  by (auto simp: is_space_c_def)

lemma word_no_lf: "word_ok w \<Longrightarrow> CHR 0x0A \<notin> set w"
  using space_lf unfolding word_ok_def list_all_iff by blast

lemma params_no_lf: "list_all param_ok ps \<Longrightarrow> CHR 0x0A \<notin> set (params_text ps)"
  by (induction ps) (simp_all add: params_text_def param_ok_def word_no_lf)

lemma item_no_lf: "item_ok it \<Longrightarrow> CHR 0x0A \<notin> set (item_line it)"
proof (cases "item_is_comment it")
  case True
  assume "item_ok it"
  with True have "text_ok (item_value it)" by (simp add: item_ok_def)
  then have "CHR 0x0A \<notin> set (item_value it)" unfolding text_ok_def list_all_iff by blast
  with True show ?thesis by (simp add: item_line_def)
next
  case False
  assume "item_ok it"
  with False obtain k where k: "item_key it = Some k" "key_ok k" "text_ok (item_value it)" by (auto simp: item_ok_def value_ok_def split: option.splits)
  have "CHR 0x0A \<notin> set k" using k(2) space_lf unfolding key_ok_def list_all_iff by blast
  moreover have "CHR 0x0A \<notin> set (item_value it)" using k(3) unfolding text_ok_def list_all_iff by blast
  ultimately show ?thesis using False k(1) by (simp add: item_line_def)
qed

lemma config_lines_no_lf:
  assumes "printable conf"
  shows "list_all (\<lambda>l. CHR 0x0A \<notin> set l) (config_lines conf)"
proof -
  have "\<forall>l \<in> set (sec_lines s). CHR 0x0A \<notin> set l" if "sec_ok s" for s
    using that word_no_lf params_no_lf item_no_lf by (auto simp: sec_lines_def sec_ok_def header_line_def list_all_iff)
  then show ?thesis using assms by (auto simp: list_all_iff config_lines_def printable_def)
qed

lemma delivers_strtok: "delivers ls (filter (\<lambda>l. l \<noteq> []) ls)"
proof (induction ls)
  case (Cons l ls)
  then show ?case using delivers.Line [OF Cons, of "[]" l] delivers.Skipped [OF Cons] by (cases "l = []") auto
qed (simp add: delivers.Nothing)

lemma printable_parse:
  assumes "printable conf" and "delivers (config_lines conf) ds" and "lp_sections base = []"
  shows "\<exists>cur. parse_lines (base, None) ds = Inr (base\<lparr>lp_sections := lp_sections conf\<rparr>, cur)"
proof -
  have "base\<lparr>lp_sections := []\<rparr> = base" using assms(3) by simp
  with parse_sections [of "lp_sections conf" "[]" ds base None] assms show ?thesis
    by (simp add: printable_def config_lines_def)
qed

text \<open>
  C39: A store whose names and values can be written is read back as it was: parsing the text that is written gives the same
  sections, parameters, items and comments, in the same order.
\<close>

theorem config_text_roundtrip:
  assumes "printable conf"
  shows "linphone_config_new_from_buffer (config_text conf) = Inr (empty_lpconfig\<lparr>lp_sections := lp_sections conf\<rparr>)"
proof -
  have "strtok_all (CHR 0x0A) (config_text conf) = filter (\<lambda>l. l \<noteq> []) (config_lines conf)"
    using config_text_lines [OF assms] strtok_all_lines [OF config_lines_no_lf [OF assms]] by simp
  then have "delivers (config_lines conf) (strtok_all (CHR 0x0A) (config_text conf))" using delivers_strtok by simp
  from printable_parse [OF assms this, of empty_lpconfig] show ?thesis
    by (auto simp: linphone_config_new_from_buffer_def empty_lpconfig_def)
qed

definition sample_store :: LpConfig where
  "sample_store = empty_lpconfig\<lparr>lp_sections :=
     [(lp_section_new ''sip'')\<lparr>sec_params := [lp_section_param_new ''overwrite'' ''true'', lp_section_param_new ''v'' ''2''],
        sec_items := [lp_item_new ''port'' ''5060'', lp_comment_new ''# default'', lp_item_new ''contact'' ''sip:a b=c'']\<rparr>,
      lp_section_new ''rtp'']\<rparr>"

theorem config_text_roundtrip_witness:
  "linphone_config_new_from_buffer (config_text sample_store) = Inr (empty_lpconfig\<lparr>lp_sections := lp_sections sample_store\<rparr>)"
  by (rule config_text_roundtrip) code_simp

text \<open>
  A section header followed by further text is read past the end of the line: in \<open>[n k=v]k2=v2\<close> the position behind the second
  pair is behind the terminator of the line, and the search for the next parameter starts there.
\<close>

theorem section_header_read_past_end:
  assumes n: "word_ok n" and k: "word_ok k" "CHR ''='' \<notin> set k" "word_ok v" and k': "word_ok k'" "CHR ''='' \<notin> set k'" "word_ok v'"
  shows "linphone_config_parse_line conf (CHR ''['' # n @ CHR '' '' # k @ CHR ''='' # v @ CHR '']'' # k' @ CHR ''='' # v') cur =
    Inl Index_out_of_range"
proof -
  let ?b = "n @ CHR '' '' # k @ CHR ''='' # v" and ?rest = "k' @ CHR ''='' # v'"
  let ?pre = "n @ '' ''" and ?pre2 = "n @ CHR '' '' # k @ CHR '' '' # v @ [CHR 0x00]"
  have "parse_params ((?b @ CHR 0x00 # ?rest @ [CHR 0x00])) (length n + 1) sec = Inl Index_out_of_range" for sec
  proof -
    have "parse_params (?pre @ (k @ CHR ''='' # v @ []) @ CHR 0x00 # ?rest @ [CHR 0x00]) (length ?pre) sec =
        parse_params (?pre @ (k @ CHR '' '' # v @ []) @ CHR 0x00 # ?rest @ [CHR 0x00]) (length ?pre + length k + length v + 2)
          (linphone_config_add_section_param (lp_section_param_new k v) sec)"
      by (rule parse_params_step) (use k in simp_all)
    also have "?pre @ (k @ CHR '' '' # v @ []) @ CHR 0x00 # ?rest @ [CHR 0x00] = ?pre2 @ (k' @ CHR ''='' # v' @ []) @ CHR 0x00 # []" by simp
    also have "length ?pre + length k + length v + 2 = length ?pre2" by simp
    also have "parse_params (?pre2 @ (k' @ CHR ''='' # v' @ []) @ CHR 0x00 # []) (length ?pre2) s =
        parse_params (?pre2 @ (k' @ CHR '' '' # v' @ []) @ CHR 0x00 # []) (length ?pre2 + length k' + length v' + 2)
          (linphone_config_add_section_param (lp_section_param_new k' v') s)" for s
      by (rule parse_params_step) (use k' in simp_all)
    also have "parse_params (?pre2 @ (k' @ CHR '' '' # v' @ []) @ CHR 0x00 # []) (length ?pre2 + length k' + length v' + 2) s =
        Inl Index_out_of_range" for s by (subst parse_params.simps) simp
    finally show ?thesis by simp
  qed
  moreover have w: "scan_word ?b = Some (n, CHR '' '' # k @ CHR ''='' # v)"
    using scan_word_word(2) [OF word_ok_word_of [OF n], of "CHR '' '' # k @ CHR ''='' # v"] by (simp add: is_space_c_def)
  ultimately have "parse_section_line conf ?b ?rest cur = Inl Index_out_of_range"
    by (simp add: parse_section_line_def split: option.splits)
  moreover have "CHR '']'' \<notin> set ?b" using word_ok_no_nul n k by simp
  ultimately show ?thesis using parse_bracket [of ?b conf ?rest cur] by simp
qed

theorem section_header_read_past_end_witness:
  "linphone_config_parse_line empty_lpconfig ''[s a=b]c=d'' None = Inl Index_out_of_range"
  using section_header_read_past_end [of "''s''" "''a''" "''b''" "''c''" "''d''" empty_lpconfig None]
  by (simp add: word_ok_def is_space_c_def)

end
