(* ===== verification/Lp_File.thy ===== *)
theory Lp_File
  imports Lp_Text
begin

text \<open>
  The files of the configuration store (\<open>coreapi/lpconfig.c\<close>): loading, reloading and the two-step write through a temporary
  file.  A file system is a map from names to contents.  What the operating system and the file library answer is
  the record \<open>file_api\<close>: the real path, the directory of a path, whether a file can be opened in a mode, the sizes and lines that
  \<open>bctbx_file_get_nxtline\<close> gives for a content, what reaches the disk of a text that is written, and whether a rename or
  removal succeeds.  The second part describes the write as steps between which the program may be stopped, and shows that
  \<open>linphone_config_sync\<close> does these steps.
\<close>

type_synonym file_system = "string \<Rightarrow> string option"

record file_api =
  api_realpath :: "string \<Rightarrow> string option"
  api_dirname :: "string \<Rightarrow> string"
  api_can_open :: "string \<Rightarrow> string \<Rightarrow> bool"
  api_lines :: "string \<Rightarrow> (int \<times> string) list"
  api_written :: "string \<Rightarrow> string"
  api_rename_ok :: bool
  api_remove_ok :: bool

section \<open>Loading\<close>

definition open_read :: "file_api \<Rightarrow> file_system \<Rightarrow> string \<Rightarrow> string \<Rightarrow> (int \<times> string) list option" where
  "open_read api fs path mode = (if api_can_open api path mode then map_option (api_lines api) (fs path) else None)"

text \<open>The status is 0 or -1.\<close>

definition linphone_config_read_file :: "file_api \<Rightarrow> file_system \<Rightarrow> LpConfig \<Rightarrow> string \<Rightarrow> (LpConfig \<times> int) res" where
  "linphone_config_read_file api fs conf filename =
     (case Option.bind (api_realpath api filename) (\<lambda>path. open_read api fs path ''r'') of
        Some reads \<Rightarrow> bindR (linphone_config_parse conf (Some reads)) (\<lambda>(conf', _). Inr (conf', 0))
      | None \<Rightarrow> Inr (conf, -1))"

definition apply_factory_config :: "file_api \<Rightarrow> file_system \<Rightarrow> LpConfig \<Rightarrow> LpConfig res" where
  "apply_factory_config api fs conf =
     (case lp_factory_filename conf of
        Some f \<Rightarrow> bindR (linphone_config_read_file api fs conf f) (\<lambda>(conf', _). Inr conf')
      | None \<Rightarrow> Inr conf)"

text \<open>The file that is read: the configuration file, or else the temporary one.\<close>

definition choose_file :: "file_api \<Rightarrow> file_system \<Rightarrow> bool \<Rightarrow> bool \<Rightarrow> string \<Rightarrow> string \<Rightarrow> (int \<times> string) list option" where
  "choose_file api fs simulate_read_failure file_exists filename tmpfilename =
     (if simulate_read_failure then None
      else case (if file_exists then open_read api fs filename ''r+'' else None) of
             Some reads \<Rightarrow> Some reads
           | None \<Rightarrow> open_read api fs tmpfilename ''r'')"

definition init_from_files :: "file_api \<Rightarrow> file_system \<Rightarrow> bool \<Rightarrow> LpConfig \<Rightarrow> string option \<Rightarrow> LpConfig option res" where
  "init_from_files api fs simulate_read_failure conf config_filename =
     (case config_filename of
        None \<Rightarrow> bindR (apply_factory_config api fs conf) (\<lambda>c. Inr (Some c))
      | Some name \<Rightarrow>
          if name = '''' then bindR (apply_factory_config api fs conf) (\<lambda>c. Inr (Some c))
          else (let file_exists = (fs name \<noteq> None)
                in case (if file_exists then api_realpath api name else Some name) of
                     None \<Rightarrow> Inr None
                   | Some filename \<Rightarrow>
                       (let tmpfilename = filename @ ''.tmp'';
                            conf1 = conf\<lparr>lp_filename := Some filename, lp_tmpfilename := Some tmpfilename\<rparr>
                        in case choose_file api fs simulate_read_failure file_exists filename tmpfilename of
                             Some reads \<Rightarrow> bindR (linphone_config_parse conf1 (Some reads)) (\<lambda>(conf2, _).
                               bindR (apply_factory_config api fs (conf2\<lparr>lp_modified := False\<rparr>)) (\<lambda>c. Inr (Some c)))
                           | None \<Rightarrow> if file_exists \<or> fs tmpfilename \<noteq> None then Inr None
                                     else bindR (apply_factory_config api fs conf1) (\<lambda>c. Inr (Some c)))))"

definition linphone_config_new_with_factory ::
  "file_api \<Rightarrow> file_system \<Rightarrow> bool \<Rightarrow> string option \<Rightarrow> string option \<Rightarrow> LpConfig option res" where
  "linphone_config_new_with_factory api fs simulate_read_failure config_filename factory_config_filename =
     init_from_files api fs simulate_read_failure
       (if null_or_empty factory_config_filename then empty_lpconfig
        else empty_lpconfig\<lparr>lp_factory_filename := factory_config_filename\<rparr>) config_filename"

text \<open>Without a file name there is no path to read from, which the file library refuses.\<close>

definition linphone_config_reload :: "file_api \<Rightarrow> file_system \<Rightarrow> LpConfig \<Rightarrow> LpConfig res" where
  "linphone_config_reload api fs conf =
     (let conf0 = conf\<lparr>lp_sections := []\<rparr>
      in case lp_filename conf of
           Some f \<Rightarrow> bindR (linphone_config_read_file api fs conf0 f) (\<lambda>(conf', _). Inr conf')
         | None \<Rightarrow> Inr conf0)"

section \<open>Writing\<close>

text \<open>\<open>replace_first\<close> is the build option for systems whose rename does not replace an existing file.\<close>

definition linphone_config_sync :: "file_api \<Rightarrow> bool \<Rightarrow> LpConfig \<Rightarrow> file_system \<Rightarrow> LpConfig \<times> file_system \<times> int" where
  "linphone_config_sync api replace_first conf fs =
     (case lp_filename conf of
        None \<Rightarrow> (conf, fs, -1)
      | Some filename \<Rightarrow>
          if lp_readonly conf then (conf, fs, 0)
          else case lp_tmpfilename conf of
                 None \<Rightarrow> (conf\<lparr>lp_readonly := True\<rparr>, fs, -1)
               | Some tmp \<Rightarrow>
                   if \<not> api_can_open api tmp ''w'' then (conf\<lparr>lp_readonly := True\<rparr>, fs, -1)
                   else if lp_abort_sync conf then (conf, fs(tmp := Some ''''), -1)
                   else (let written = api_written api (config_text conf);
                             fs1 = fs(tmp := Some written);
                             fs2 = (if replace_first \<and> api_remove_ok api then fs1(filename := None) else fs1);
                             fs3 = (if api_rename_ok api then fs2(filename := Some written, tmp := None) else fs2)
                         in (conf\<lparr>lp_modified := False\<rparr>, fs3, 0)))"

text \<open>
  Loading from XML.  \<open>xml_result\<close> is the result of reading the document and \<open>convert\<close> what \<open>xml2lpc_convert\<close> makes of the store,
  \<open>None\<close> when it fails; the answer is the error message, if any.
\<close>

definition linphone_config_xml_convert ::
  "file_api \<Rightarrow> bool \<Rightarrow> (LpConfig \<Rightarrow> LpConfig option) \<Rightarrow> int \<Rightarrow> LpConfig \<Rightarrow> file_system \<Rightarrow> (LpConfig \<times> file_system \<times> string option) res" where
  "linphone_config_xml_convert api replace_first convert xml_result conf fs =
     (if xml_result \<noteq> 0 then Inr (conf, fs, Some ''invalid xml'')
      else case convert conf of
             None \<Rightarrow> Inr (conf, fs, Some ''xml to lpc failed'')
           | Some conf1 \<Rightarrow>
               bindR (if linphone_config_has_section conf1 ''proxy_0''
                      then linphone_config_get_int conf1 ''sip'' ''default_proxy'' (-1) else Inr 0) (\<lambda>n.
               let conf2 = (if linphone_config_has_section conf1 ''proxy_0'' \<and> n = -1
                            then linphone_config_set_int conf1 ''sip'' ''default_proxy'' 0 else conf1)
               in case linphone_config_sync api replace_first conf2 fs of (conf3, fs', _) \<Rightarrow> Inr (conf3, fs', None)))"

section \<open>Files beside the configuration\<close>

definition relative_path :: "file_api \<Rightarrow> LpConfig \<Rightarrow> string \<Rightarrow> string option" where
  "relative_path api conf filename =
     Option.bind (lp_filename conf) (\<lambda>f. api_realpath api (api_dirname api f @ CHR ''/'' # filename))"

definition linphone_config_relative_file_exists :: "file_api \<Rightarrow> file_system \<Rightarrow> LpConfig \<Rightarrow> string \<Rightarrow> bool" where
  "linphone_config_relative_file_exists api fs conf filename =
     (case relative_path api conf filename of None \<Rightarrow> False | Some path \<Rightarrow> open_read api fs path ''r'' \<noteq> None)"

definition linphone_config_write_relative_file :: "file_api \<Rightarrow> file_system \<Rightarrow> LpConfig \<Rightarrow> string \<Rightarrow> string \<Rightarrow> file_system" where
  "linphone_config_write_relative_file api fs conf filename data =
     (if data = '''' then fs
      else case relative_path api conf filename of None \<Rightarrow> fs
           | Some path \<Rightarrow> if api_can_open api path ''w'' then fs(path := Some (api_written api data)) else fs)"

text \<open>The content that is read, up to the length of the buffer.\<close>

definition linphone_config_read_relative_file :: "file_api \<Rightarrow> file_system \<Rightarrow> LpConfig \<Rightarrow> string \<Rightarrow> nat \<Rightarrow> string option" where
  "linphone_config_read_relative_file api fs conf filename max_length =
     (case relative_path api conf filename of None \<Rightarrow> None
      | Some path \<Rightarrow> if api_can_open api path ''r'' then map_option (take max_length) (fs path) else None)"

section \<open>The write, step by step\<close>

datatype sync_phase = Idle | Writing string | Closed | Removed | Renamed

text \<open>
  Between the steps the program or the machine may stop.  What the file library writes of the text may reach the disk in pieces of any size; a removal or rename that
  fails leaves the files as they are.  The simulated crash stops after the temporary file was opened.
\<close>

inductive sync_step :: "file_api \<Rightarrow> bool \<Rightarrow> LpConfig \<Rightarrow> sync_phase \<times> file_system \<Rightarrow> sync_phase \<times> file_system \<Rightarrow> bool"
  for api replace_first conf where
  Open: "lp_filename conf = Some filename \<Longrightarrow> \<not> lp_readonly conf \<Longrightarrow> lp_tmpfilename conf = Some tmp \<Longrightarrow> api_can_open api tmp ''w'' \<Longrightarrow>
    sync_step api replace_first conf (Idle, fs) (Writing (api_written api (config_text conf)), fs(tmp := Some ''''))"
| Write: "lp_tmpfilename conf = Some tmp \<Longrightarrow> \<not> lp_abort_sync conf \<Longrightarrow> fs tmp = Some t \<Longrightarrow>
    sync_step api replace_first conf (Writing (c @ rest), fs) (Writing rest, fs(tmp := Some (t @ c)))"
| Close: "\<not> lp_abort_sync conf \<Longrightarrow> sync_step api replace_first conf (Writing '''', fs) (Closed, fs)"
| Remove: "replace_first \<Longrightarrow> lp_filename conf = Some filename \<Longrightarrow>
    sync_step api replace_first conf (Closed, fs) (Removed, if api_remove_ok api then fs(filename := None) else fs)"
| Rename: "lp_filename conf = Some filename \<Longrightarrow> lp_tmpfilename conf = Some tmp \<Longrightarrow> ph = (if replace_first then Removed else Closed) \<Longrightarrow>
    sync_step api replace_first conf (ph, fs) (Renamed, if api_rename_ok api then fs(filename := fs tmp, tmp := None) else fs)"

text \<open>What the files are in each phase, with the text that the file library writes.\<close>

definition removed :: "file_api \<Rightarrow> bool \<Rightarrow> string \<Rightarrow> file_system \<Rightarrow> file_system" where
  "removed api replace_first filename fs = (if replace_first \<and> api_remove_ok api then fs(filename := None) else fs)"

definition renamed :: "file_api \<Rightarrow> string \<Rightarrow> string \<Rightarrow> string \<Rightarrow> file_system \<Rightarrow> file_system" where
  "renamed api filename tmp written fs = (if api_rename_ok api then fs(filename := Some written, tmp := None) else fs)"

definition sync_inv :: "file_api \<Rightarrow> bool \<Rightarrow> string \<Rightarrow> string \<Rightarrow> string \<Rightarrow> file_system \<Rightarrow> sync_phase \<times> file_system \<Rightarrow> bool" where
  "sync_inv api replace_first filename tmp written fs0 st \<longleftrightarrow> (case st of
      (Idle, fs) \<Rightarrow> fs = fs0
    | (Writing rest, fs) \<Rightarrow> (\<exists>out. written = out @ rest \<and> fs = fs0(tmp := Some out))
    | (Closed, fs) \<Rightarrow> fs = fs0(tmp := Some written)
    | (Removed, fs) \<Rightarrow> fs = removed api replace_first filename (fs0(tmp := Some written))
    | (Renamed, fs) \<Rightarrow> fs = renamed api filename tmp written (removed api replace_first filename (fs0(tmp := Some written))))"

lemma sync_inv_step:
  assumes names: "lp_filename conf = Some filename" "lp_tmpfilename conf = Some tmp" "filename \<noteq> tmp"
    and step: "sync_step api replace_first conf st st'" and inv: "sync_inv api replace_first filename tmp (api_written api (config_text conf)) fs0 st"
  shows "sync_inv api replace_first filename tmp (api_written api (config_text conf)) fs0 st'"
  using step inv
proof (induction rule: sync_step.induct)
  case (Write tmp' fs t c rest)
  then obtain out where d: "api_written api (config_text conf) = out @ c @ rest" "fs = fs0(tmp := Some out)" by (auto simp: sync_inv_def)
  with Write.hyps names(2) show ?case by (auto simp: sync_inv_def intro!: exI [of _ "out @ c"])
next
  case (Rename f tmp' ph fs)
  then show ?case using names by (auto simp: sync_inv_def removed_def renamed_def split: if_splits)
qed (use names in \<open>auto simp: sync_inv_def removed_def\<close>)

lemma sync_inv_reach:
  assumes "lp_filename conf = Some filename" "lp_tmpfilename conf = Some tmp" "filename \<noteq> tmp" and "(sync_step api replace_first conf)\<^sup>*\<^sup>* (Idle, fs0) st"
  shows "sync_inv api replace_first filename tmp (api_written api (config_text conf)) fs0 st"
  using assms(4)
proof (induction rule: rtranclp_induct)
  case (step y z)
  then show ?case using sync_inv_step [OF assms(1-3)] by blast
qed (simp add: sync_inv_def)

text \<open>A run gets past the opening only when the file was opened, and to the end only without the simulated crash.\<close>

lemma sync_phases:
  assumes "(sync_step api replace_first conf)\<^sup>*\<^sup>* (Idle, fs0) st" and "lp_filename conf = Some filename" "lp_tmpfilename conf = Some tmp"
  shows "(fst st = Idle \<or> \<not> lp_readonly conf \<and> api_can_open api tmp ''w'') \<and> (fst st \<in> {Closed, Removed, Renamed} \<longrightarrow> \<not> lp_abort_sync conf)"
  using assms(1)
proof (induction rule: rtranclp_induct)
  case (step y z)
  from step(2,3) assms(2,3) show ?case by (induction rule: sync_step.induct) (auto split: if_splits)
qed simp

lemma sync_runs:
  assumes conf: "lp_filename conf = Some filename" "\<not> lp_readonly conf" "lp_tmpfilename conf = Some tmp" "api_can_open api tmp ''w''" "\<not> lp_abort_sync conf"
    and names: "filename \<noteq> tmp"
  shows "(sync_step api replace_first conf)\<^sup>*\<^sup>* (Idle, fs)
    (Renamed, renamed api filename tmp (api_written api (config_text conf)) (removed api replace_first filename (fs(tmp := Some (api_written api (config_text conf))))))"
proof -
  let ?step = "sync_step api replace_first conf" and ?t = "api_written api (config_text conf)"
  let ?fs1 = "fs(tmp := Some ?t)" and ?ph = "if replace_first then Removed else Closed"
  let ?fs2 = "removed api replace_first filename ?fs1"
  have 1: "?step (Idle, fs) (Writing (?t @ []), fs(tmp := Some ''''))" using sync_step.Open [OF conf(1-4)] by simp
  have "?step (Writing (?t @ []), fs(tmp := Some '''')) (Writing [], (fs(tmp := Some ''''))(tmp := Some ('''' @ ?t)))"
    by (rule sync_step.Write [OF conf(3,5)]) simp
  then have 2: "?step (Writing (?t @ []), fs(tmp := Some '''')) (Writing [], ?fs1)" by simp
  have 3: "?step (Writing [], ?fs1) (Closed, ?fs1)" by (rule sync_step.Close [OF conf(5)])
  have 4: "?step\<^sup>*\<^sup>* (Closed, ?fs1) (?ph, ?fs2)"
    using sync_step.Remove [of replace_first conf filename api ?fs1] conf(1) by (auto simp: removed_def)
  have "?fs2 tmp = Some ?t" using names by (simp add: removed_def)
  then have ren: "(if api_rename_ok api then ?fs2(filename := ?fs2 tmp, tmp := None) else ?fs2) = renamed api filename tmp ?t ?fs2"
    by (simp add: renamed_def)
  have 5: "?step (?ph, ?fs2) (Renamed, renamed api filename tmp ?t ?fs2)"
    by (rule sync_step.Rename [OF conf(1,3) refl, of api replace_first ?fs2, unfolded ren])
  from 1 2 3 have "?step\<^sup>*\<^sup>* (Idle, fs) (Closed, ?fs1)" by (meson converse_rtranclp_into_rtranclp r_into_rtranclp)
  with 4 5 show ?thesis by (meson rtranclp.rtrancl_into_rtrancl rtranclp_trans)
qed

text \<open>\<open>linphone_config_sync\<close> does these steps: the files it leaves are reached by them, and a run of the steps to the end leaves the files it leaves.\<close>

lemma sync_does_steps:
  assumes conf: "lp_filename conf = Some filename" "lp_tmpfilename conf = Some tmp" "filename \<noteq> tmp"
  shows "case linphone_config_sync api replace_first conf fs of (conf', fs', status) \<Rightarrow>
    (\<exists>ph. (sync_step api replace_first conf)\<^sup>*\<^sup>* (Idle, fs) (ph, fs')) \<and>
    (\<forall>fs''. (sync_step api replace_first conf)\<^sup>*\<^sup>* (Idle, fs) (Renamed, fs'') \<longrightarrow> fs'' = fs')"
proof (cases "\<not> lp_readonly conf \<and> api_can_open api tmp ''w'' \<and> \<not> lp_abort_sync conf")
  case True
  let ?t = "api_written api (config_text conf)"
  let ?last = "renamed api filename tmp ?t (removed api replace_first filename (fs(tmp := Some ?t)))"
  have sync: "linphone_config_sync api replace_first conf fs = (conf\<lparr>lp_modified := False\<rparr>, ?last, 0)"
    using True conf by (simp add: linphone_config_sync_def Let_def renamed_def removed_def)
  have steps: "(sync_step api replace_first conf)\<^sup>*\<^sup>* (Idle, fs) (Renamed, ?last)" using sync_runs conf True by blast
  have ends: "\<forall>fs''. (sync_step api replace_first conf)\<^sup>*\<^sup>* (Idle, fs) (Renamed, fs'') \<longrightarrow> fs'' = ?last"
    using sync_inv_reach [OF conf, of api replace_first fs "(Renamed, _)"] by (simp add: sync_inv_def)
  show ?thesis unfolding sync prod.case by (rule conjI, rule exI [of _ Renamed], rule steps, rule ends)
next
  case False
  have "\<not> (sync_step api replace_first conf)\<^sup>*\<^sup>* (Idle, fs) (Renamed, fs'')" for fs'' using sync_phases [OF _ conf(1,2)] False by fastforce
  moreover have "\<exists>ph. (sync_step api replace_first conf)\<^sup>*\<^sup>* (Idle, fs) (ph, fs(tmp := Some ''''))" if "\<not> lp_readonly conf" "api_can_open api tmp ''w''"
    using sync_step.Open [OF conf(1) that(1) conf(2) that(2)] by blast
  ultimately show ?thesis using False conf by (auto simp: linphone_config_sync_def)
qed

section \<open>Properties\<close>

text \<open>
  What is relied on of the file library: the lines of a text reach the parser one by one, as long as they fit the
  line buffer; and for the properties, that files can be opened and the name is its own real path.
\<close>

definition reader_contract :: "file_api \<Rightarrow> bool" where
  "reader_contract api \<longleftrightarrow> (\<forall>ls. list_all (\<lambda>l. CHR 0x0A \<notin> set l \<and> length l < 16383) ls \<longrightarrow>
     delivers ls (map snd (takeWhile (\<lambda>(n, _). 0 < n) (api_lines api (concat (map (\<lambda>l. l @ [CHR 0x0A]) ls))))))"

definition files_usable :: "file_api \<Rightarrow> string \<Rightarrow> bool" where
  "files_usable api filename \<longleftrightarrow> api_realpath api filename = Some filename \<and> api_can_open api filename ''r+'' \<and>
     api_can_open api filename ''r'' \<and> api_can_open api (filename @ ''.tmp'') ''r'' \<and> api_can_open api (filename @ ''.tmp'') ''w''"

definition short_lines :: "LpConfig \<Rightarrow> bool" where
  "short_lines conf = list_all (\<lambda>l. length l < 16383) (config_lines conf)"

lemma parse_written:
  assumes rd: "reader_contract api" and conf: "printable conf" "short_lines conf" and base: "lp_sections base = []"
  shows "\<exists>n. linphone_config_parse base (Some (api_lines api (config_text conf))) = Inr (base\<lparr>lp_sections := lp_sections conf\<rparr>, n)"
proof -
  let ?reads = "takeWhile (\<lambda>(n, _). 0 < n) (api_lines api (config_text conf))"
  have "list_all (\<lambda>l. CHR 0x0A \<notin> set l \<and> length l < 16383) (config_lines conf)"
    using config_lines_no_lf [OF conf(1)] conf(2) by (auto simp: short_lines_def list_all_iff)
  then have "delivers (config_lines conf) (map snd ?reads)"
    using rd config_text_lines [OF conf(1)] by (simp add: reader_contract_def)
  from printable_parse [OF conf(1) this base] show ?thesis by (auto simp: linphone_config_parse_def Let_def)
qed

lemma tmp_differs: "filename \<noteq> filename @ ''.tmp''"
  by simp

lemma load_written:
  assumes use: "files_usable api filename" "filename \<noteq> ''''" and rd: "reader_contract api"
    and conf: "printable conf" "short_lines conf"
    and fs: "fs filename = Some (config_text conf) \<or> fs filename = None \<and> fs (filename @ ''.tmp'') = Some (config_text conf)"
  shows "\<exists>c. linphone_config_new_with_factory api fs False (Some filename) None = Inr (Some c) \<and> lp_sections c = lp_sections conf \<and>
    \<not> linphone_config_needs_commit c"
proof -
  let ?c1 = "empty_lpconfig\<lparr>lp_filename := Some filename, lp_tmpfilename := Some (filename @ ''.tmp'')\<rparr>"
  obtain n where p: "linphone_config_parse ?c1 (Some (api_lines api (config_text conf))) = Inr (?c1\<lparr>lp_sections := lp_sections conf\<rparr>, n)"
    using parse_written [OF rd conf, of ?c1] by (auto simp: empty_lpconfig_def)
  have "choose_file api fs False (fs filename \<noteq> None) filename (filename @ ''.tmp'') = Some (api_lines api (config_text conf))"
    using fs use(1) by (auto simp: choose_file_def open_read_def files_usable_def)
  moreover have "(if fs filename \<noteq> None then api_realpath api filename else Some filename) = Some filename"
    using use(1) by (simp add: files_usable_def)
  ultimately have "linphone_config_new_with_factory api fs False (Some filename) None =
      bindR (apply_factory_config api fs (?c1\<lparr>lp_sections := lp_sections conf, lp_modified := False\<rparr>)) (\<lambda>c. Inr (Some c))"
    using use(2) p by (simp add: linphone_config_new_with_factory_def init_from_files_def null_or_empty_def)
  then show ?thesis by (simp add: apply_factory_config_def empty_lpconfig_def linphone_config_needs_commit_def)
qed

text \<open>
  C37: The write of the configuration survives a stop at any moment.  When a configuration is on disk already, a new one is
  written through the temporary file and no write error occurs, then after a stop in any phase, with any part of the text written, and also when a removal or rename failed,
  loading gives the old configuration or the new one, on systems with and without an atomic replacing rename.  The phases are those of \<open>linphone_config_sync\<close>: the files it
  leaves are reached by the steps, and a run of the steps to the end leaves exactly these files.
\<close>

theorem sync_crash_safe:
  assumes use: "files_usable api filename" "filename \<noteq> ''''" and rd: "reader_contract api" and ok: "api_written api = (\<lambda>t. t)"
    and old: "printable old" "short_lines old" "fs0 filename = Some (config_text old)"
    and new: "printable new" "short_lines new" "lp_filename new = Some filename" "lp_tmpfilename new = Some (filename @ ''.tmp'')"
  shows "(\<forall>ph fs. (sync_step api replace_first new)\<^sup>*\<^sup>* (Idle, fs0) (ph, fs) \<longrightarrow>
      (\<exists>c. linphone_config_new_with_factory api fs False (Some filename) None = Inr (Some c) \<and>
        (lp_sections c = lp_sections old \<or> lp_sections c = lp_sections new))) \<and>
    (case linphone_config_sync api replace_first new fs0 of (conf', fs', status) \<Rightarrow>
      (\<exists>ph. (sync_step api replace_first new)\<^sup>*\<^sup>* (Idle, fs0) (ph, fs')) \<and>
      (\<forall>fs. (sync_step api replace_first new)\<^sup>*\<^sup>* (Idle, fs0) (Renamed, fs) \<longrightarrow> fs = fs'))"
proof -
  have loads: "\<exists>c. linphone_config_new_with_factory api fs False (Some filename) None = Inr (Some c) \<and>
      (lp_sections c = lp_sections old \<or> lp_sections c = lp_sections new)"
    if run: "(sync_step api replace_first new)\<^sup>*\<^sup>* (Idle, fs0) (ph, fs)" for ph fs
  proof -
    have inv: "sync_inv api replace_first filename (filename @ ''.tmp'') (config_text new) fs0 (ph, fs)"
      using sync_inv_reach [OF new(3,4) tmp_differs run] ok by simp
    have "fs filename = Some (config_text old) \<or> fs filename = Some (config_text new) \<or>
        fs filename = None \<and> fs (filename @ ''.tmp'') = Some (config_text new)"
      using inv old(3) by (cases ph) (auto simp: sync_inv_def removed_def renamed_def)
    then show ?thesis using load_written [OF use rd old(1,2), of fs] load_written [OF use rd new(1,2), of fs] by blast
  qed
  show ?thesis by (intro conjI allI impI loads sync_does_steps [OF new(3,4) tmp_differs])
qed

text \<open>
  C38: A successful write is read back: after \<open>linphone_config_sync\<close> on a usable file, the status is 0, nothing is left to commit,
  the temporary file is gone, and both loading and reloading give the sections that were written.
\<close>

theorem sync_reload_roundtrip:
  assumes use: "files_usable api filename" "filename \<noteq> ''''" and rd: "reader_contract api"
    and ok: "api_written api = (\<lambda>t. t)" "api_rename_ok api"
    and conf: "printable conf" "short_lines conf" "lp_filename conf = Some filename" "lp_tmpfilename conf = Some (filename @ ''.tmp'')"
      "\<not> lp_readonly conf" "\<not> lp_abort_sync conf"
  shows "\<exists>conf' fs' c c'. linphone_config_sync api replace_first conf fs = (conf', fs', 0) \<and>
    \<not> linphone_config_needs_commit conf' \<and> fs' (filename @ ''.tmp'') = None \<and>
    linphone_config_new_with_factory api fs' False (Some filename) None = Inr (Some c) \<and> lp_sections c = lp_sections conf \<and>
    linphone_config_reload api fs' conf' = Inr c' \<and> lp_sections c' = lp_sections conf"
proof -
  define fs' where "fs' = (let fs1 = fs(filename @ ''.tmp'' := Some (config_text conf));
      fs2 = (if replace_first \<and> api_remove_ok api then fs1(filename := None) else fs1)
    in fs2(filename := Some (config_text conf), filename @ ''.tmp'' := None))"
  have sync: "linphone_config_sync api replace_first conf fs = (conf\<lparr>lp_modified := False\<rparr>, fs', 0)"
    using use(1) ok conf by (simp add: linphone_config_sync_def fs'_def files_usable_def Let_def)
  have f: "fs' filename = Some (config_text conf)" "fs' (filename @ ''.tmp'') = None" by (simp_all add: fs'_def Let_def)
  obtain c where c: "linphone_config_new_with_factory api fs' False (Some filename) None = Inr (Some c)" "lp_sections c = lp_sections conf"
    using load_written [OF use rd conf(1,2), of fs'] f(1) by blast
  let ?c0 = "conf\<lparr>lp_modified := False, lp_sections := []\<rparr>"
  obtain n where "linphone_config_parse ?c0 (Some (api_lines api (config_text conf))) = Inr (?c0\<lparr>lp_sections := lp_sections conf\<rparr>, n)"
    using parse_written [OF rd conf(1,2), of ?c0] by auto
  then have "linphone_config_reload api fs' (conf\<lparr>lp_modified := False\<rparr>) = Inr (?c0\<lparr>lp_sections := lp_sections conf\<rparr>)"
    using conf(3) use(1) f(1) by (simp add: linphone_config_reload_def linphone_config_read_file_def open_read_def files_usable_def Let_def)
  with sync c f(2) show ?thesis by (simp add: linphone_config_needs_commit_def)
qed

text \<open>
  Write errors are not noticed: when only a part of the text reaches the disk, \<open>linphone_config_sync\<close> still
  replaces the configuration file by that part, answers 0 and leaves nothing to commit.
\<close>

theorem sync_ignores_write_errors:
  assumes use: "files_usable api filename" and ok: "api_rename_ok api"
    and conf: "lp_filename conf = Some filename" "lp_tmpfilename conf = Some (filename @ ''.tmp'')" "\<not> lp_readonly conf" "\<not> lp_abort_sync conf"
  shows "case linphone_config_sync api replace_first conf fs of (conf', fs', status) \<Rightarrow>
    status = 0 \<and> \<not> linphone_config_needs_commit conf' \<and> fs' filename = Some (api_written api (config_text conf))"
  using assms by (simp add: linphone_config_sync_def files_usable_def Let_def linphone_config_needs_commit_def)

text \<open>
  A stop during the very first write is not covered by the temporary file: with no configuration on disk, every
  beginning of the text can be on disk, and loading takes it for the configuration.
\<close>

theorem first_sync_crash_partial:
  assumes use: "files_usable api filename" and fs0: "fs0 filename = None"
    and conf: "lp_filename conf = Some filename" "lp_tmpfilename conf = Some (filename @ ''.tmp'')" "\<not> lp_readonly conf" "\<not> lp_abort_sync conf"
    and parts: "api_written api (config_text conf) = out @ rest"
  shows "\<exists>fs. (sync_step api replace_first conf)\<^sup>*\<^sup>* (Idle, fs0) (Writing rest, fs) \<and>
    choose_file api fs False (fs filename \<noteq> None) filename (filename @ ''.tmp'') = Some (api_lines api out)"
proof -
  let ?t = "filename @ ''.tmp''"
  let ?step = "sync_step api replace_first conf"
  have "api_can_open api ?t ''w''" using use by (simp add: files_usable_def)
  then have 1: "?step (Idle, fs0) (Writing (out @ rest), fs0(?t := Some []))"
    using sync_step.Open [OF conf(1,3,2), of api replace_first fs0] parts by simp
  have "?step (Writing (out @ rest), fs0(?t := Some [])) (Writing rest, (fs0(?t := Some []))(?t := Some ([] @ out)))"
    by (rule sync_step.Write [OF conf(2,4)]) simp
  then have 2: "?step (Writing (out @ rest), fs0(?t := Some [])) (Writing rest, fs0(?t := Some out))" by simp
  have "?step\<^sup>*\<^sup>* (Idle, fs0) (Writing rest, fs0(?t := Some out))" using 1 2 by (rule converse_rtranclp_into_rtranclp [OF _ r_into_rtranclp])
  moreover have "choose_file api (fs0(?t := Some out)) False ((fs0(?t := Some out)) filename \<noteq> None) filename ?t = Some (api_lines api out)"
    using use fs0 by (simp add: choose_file_def open_read_def files_usable_def)
  ultimately show ?thesis by blast
qed

section \<open>A concrete file library\<close>

text \<open>Every file can be opened, lines are given without their line feed, and writes and renames succeed.\<close>

definition sample_file_api :: file_api where
  "sample_file_api = \<lparr>api_realpath = Some, api_dirname = (\<lambda>_. ''.''), api_can_open = (\<lambda>_ _. True),
     api_lines = (\<lambda>s. map (\<lambda>l. (int (length l) + 1, l)) (butlast (split_at (CHR 0x0A) s))),
     api_written = (\<lambda>t. t), api_rename_ok = True, api_remove_ok = True\<rparr>"

lemma delivers_refl: "delivers ls ls"
proof (induction ls)
  case (Cons l ls)
  then show ?case using delivers.Line [OF Cons, of "[]" l] by simp
qed (rule delivers.Nothing)

lemma sample_reader_contract: "reader_contract sample_file_api"
  unfolding reader_contract_def
proof (intro allI impI)
  fix ls :: "string list" assume "list_all (\<lambda>l. CHR 0x0A \<notin> set l \<and> length l < 16383) ls"
  then have "list_all (\<lambda>l. CHR 0x0A \<notin> set l) ls" by (simp add: list_all_iff)
  then have al: "api_lines sample_file_api (concat (map (\<lambda>l. l @ [CHR 0x0A]) ls)) = map (\<lambda>l. (int (length l) + 1, l)) ls"
    by (simp add: sample_file_api_def split_at_lines)
  have tw: "takeWhile (\<lambda>(n, _). 0 < n) (map (\<lambda>l. (int (length l) + 1, l)) ls) = map (\<lambda>l. (int (length l) + 1, l)) ls"
    by (simp add: takeWhile_eq_all_conv)
  show "delivers ls (map snd (takeWhile (\<lambda>(n, _). 0 < n) (api_lines sample_file_api (concat (map (\<lambda>l. l @ [CHR 0x0A]) ls)))))"
    unfolding al tw by (simp add: comp_def delivers_refl)
qed

lemma sample_files_usable: "files_usable sample_file_api f"
  by (simp add: files_usable_def sample_file_api_def)

lemma sample_store_ok: "printable sample_store" "short_lines sample_store" "printable empty_lpconfig" "short_lines empty_lpconfig"
  by code_simp+

definition sample_sync :: LpConfig where
  "sample_sync = sample_store\<lparr>lp_filename := Some ''rc'', lp_tmpfilename := Some ''rc.tmp''\<rparr>"

lemma sample_sync_simps [simp]:
  "lp_filename sample_sync = Some ''rc''" "lp_tmpfilename sample_sync = Some (''rc'' @ ''.tmp'')" "lp_sections sample_sync = lp_sections sample_store"
  "\<not> lp_readonly sample_sync" "\<not> lp_abort_sync sample_sync"
  by (simp_all add: sample_sync_def sample_store_def empty_lpconfig_def)

lemma sample_sync_ok: "printable sample_sync" "short_lines sample_sync"
  using sample_store_ok(1,2) by (simp_all add: sample_sync_def printable_def short_lines_def config_lines_def)

theorem sync_crash_safe_witness:
  "\<exists>c. linphone_config_new_with_factory sample_file_api
      ((\<lambda>_. None)(''rc'' := Some (config_text empty_lpconfig), ''rc.tmp'' := Some '''')) False (Some ''rc'') None = Inr (Some c) \<and>
    (lp_sections c = [] \<or> lp_sections c = lp_sections sample_store)"
proof -
  let ?fs0 = "(\<lambda>_. None)(''rc'' := Some (config_text empty_lpconfig))"
  have w: "api_written sample_file_api = (\<lambda>t. t)" by (simp add: sample_file_api_def)
  have "sync_step sample_file_api False sample_sync (Idle, ?fs0) (Writing (api_written sample_file_api (config_text sample_sync)), ?fs0(''rc'' @ ''.tmp'' := Some ''''))"
    by (rule sync_step.Open [of _ "''rc''"]) (simp_all add: sample_file_api_def)
  then have run: "(sync_step sample_file_api False sample_sync)\<^sup>*\<^sup>* (Idle, ?fs0)
      (Writing (api_written sample_file_api (config_text sample_sync)), ?fs0(''rc'' @ ''.tmp'' := Some ''''))" by (rule r_into_rtranclp)
  note safe = sync_crash_safe [OF sample_files_usable _ sample_reader_contract w sample_store_ok(3,4) _ sample_sync_ok, where filename = "''rc''" and replace_first = False,
    THEN conjunct1, rule_format, OF _ _ _ _ run]
  have "\<exists>c. linphone_config_new_with_factory sample_file_api (?fs0(''rc'' @ ''.tmp'' := Some '''')) False (Some ''rc'') None = Inr (Some c) \<and>
      (lp_sections c = lp_sections empty_lpconfig \<or> lp_sections c = lp_sections sample_sync)" by (rule safe) simp_all
  then show ?thesis by (simp add: empty_lpconfig_def)
qed

theorem sync_reload_roundtrip_witness:
  "\<exists>conf' fs' c. linphone_config_sync sample_file_api False
      (sample_store\<lparr>lp_filename := Some ''rc'', lp_tmpfilename := Some ''rc.tmp''\<rparr>) (\<lambda>_. None) = (conf', fs', 0) \<and>
    linphone_config_new_with_factory sample_file_api fs' False (Some ''rc'') None = Inr (Some c) \<and> lp_sections c = lp_sections sample_store"
proof -
  let ?c = "sample_store\<lparr>lp_filename := Some ''rc'', lp_tmpfilename := Some ''rc.tmp''\<rparr>"
  have "printable ?c" "short_lines ?c" using sample_store_ok(1,2) by (simp_all add: printable_def short_lines_def config_lines_def)
  with sync_reload_roundtrip [OF sample_files_usable _ sample_reader_contract, of "''rc''" ?c False "\<lambda>_. None"] show ?thesis
    by (auto simp: sample_file_api_def sample_store_def empty_lpconfig_def)
qed

theorem sync_ignores_write_errors_witness:
  "case linphone_config_sync (sample_file_api\<lparr>api_written := (\<lambda>_. '''')\<rparr>) False
      (sample_store\<lparr>lp_filename := Some ''rc'', lp_tmpfilename := Some ''rc.tmp''\<rparr>) (\<lambda>_. Some ''old'') of
    (conf', fs', status) \<Rightarrow> status = 0 \<and> \<not> linphone_config_needs_commit conf' \<and> fs' ''rc'' = Some ''''"
  using sync_ignores_write_errors [of "sample_file_api\<lparr>api_written := (\<lambda>_. '''')\<rparr>" "''rc''"
      "sample_store\<lparr>lp_filename := Some ''rc'', lp_tmpfilename := Some ''rc.tmp''\<rparr>" False "\<lambda>_. Some ''old''"]
  by (simp add: files_usable_def sample_file_api_def sample_store_def empty_lpconfig_def)

theorem first_sync_crash_partial_witness:
  "\<exists>fs. (sync_step sample_file_api False sample_sync)\<^sup>*\<^sup>* (Idle, \<lambda>_. None) (Writing (drop 3 (config_text sample_sync)), fs) \<and>
    choose_file sample_file_api fs False (fs ''rc'' \<noteq> None) ''rc'' (''rc'' @ ''.tmp'') = Some (api_lines sample_file_api (take 3 (config_text sample_sync)))"
proof -
  have "api_written sample_file_api (config_text sample_sync) = take 3 (config_text sample_sync) @ drop 3 (config_text sample_sync)"
    by (simp add: sample_file_api_def)
  then show ?thesis by (intro first_sync_crash_partial [OF sample_files_usable]) simp_all
qed

end
