(* ===== verification/Error_Info.thy ===== *)
theory Error_Info
  imports Prelude
begin

text \<open>
  Reasons and error informations: the reasons of the application interface (\<open>LinphoneReason\<close>) and of the signalling layer (\<open>SalReason\<close>), the SIP codes
  they stand for (\<open>coreapi/misc.c\<close>, \<open>coreapi/error_info.c\<close>, \<open>coreapi/bellesip_sal/sal_op_impl.c\<close>, \<open>src/sal/sal.cpp\<close>), and the objects that carry
  a reason with its code and texts between the two layers.  A C string that may be null is an option.  An error information may have another one
  attached (\<open>sub_ei\<close>, \<open>sub_sei\<close>), which stands for the Reason header of RFC 3326.
\<close>

section \<open>Reasons\<close>

datatype LinphoneReason =
    LinphoneReasonNone | LinphoneReasonNoResponse | LinphoneReasonForbidden | LinphoneReasonDeclined
  | LinphoneReasonNotFound | LinphoneReasonNotAnswered | LinphoneReasonBusy | LinphoneReasonUnsupportedContent
  | LinphoneReasonBadEvent | LinphoneReasonIOError | LinphoneReasonDoNotDisturb | LinphoneReasonUnauthorized
  | LinphoneReasonNotAcceptable | LinphoneReasonNoMatch | LinphoneReasonMovedPermanently | LinphoneReasonGone
  | LinphoneReasonTemporarilyUnavailable | LinphoneReasonAddressIncomplete | LinphoneReasonNotImplemented
  | LinphoneReasonBadGateway | LinphoneReasonSessionIntervalTooSmall | LinphoneReasonServerTimeout
  | LinphoneReasonUnknown | LinphoneReasonTransferred | LinphoneReasonConditionalRequestFailed
  | LinphoneReasonSasCheckRequired

datatype SalReason =
    SalReasonNone | SalReasonDeclined | SalReasonBusy | SalReasonRedirect | SalReasonTemporarilyUnavailable
  | SalReasonRequestTimeout | SalReasonNotFound | SalReasonDoNotDisturb | SalReasonUnsupportedContent | SalReasonBadEvent
  | SalReasonForbidden | SalReasonUnknown | SalReasonServiceUnavailable | SalReasonRequestPending | SalReasonUnauthorized
  | SalReasonNotAcceptable | SalReasonNoMatch | SalReasonMovedPermanently | SalReasonGone | SalReasonAddressIncomplete
  | SalReasonNotImplemented | SalReasonBadGateway | SalReasonServerTimeout | SalReasonSessionIntervalTooSmall
  | SalReasonIOError | SalReasonInternalError | SalReasonConditionalRequestFailed | SalReasonSasCheckRequired

fun linphone_reason_to_sal :: "LinphoneReason \<Rightarrow> SalReason" where
  "linphone_reason_to_sal LinphoneReasonNone = SalReasonNone"
| "linphone_reason_to_sal LinphoneReasonNoResponse = SalReasonRequestTimeout"
| "linphone_reason_to_sal LinphoneReasonForbidden = SalReasonForbidden"
| "linphone_reason_to_sal LinphoneReasonDeclined = SalReasonDeclined"
| "linphone_reason_to_sal LinphoneReasonNotFound = SalReasonNotFound"
| "linphone_reason_to_sal LinphoneReasonTemporarilyUnavailable = SalReasonTemporarilyUnavailable"
| "linphone_reason_to_sal LinphoneReasonBusy = SalReasonBusy"
| "linphone_reason_to_sal LinphoneReasonNotAcceptable = SalReasonNotAcceptable"
| "linphone_reason_to_sal LinphoneReasonIOError = SalReasonServiceUnavailable"
| "linphone_reason_to_sal LinphoneReasonDoNotDisturb = SalReasonDoNotDisturb"
| "linphone_reason_to_sal LinphoneReasonUnauthorized = SalReasonUnauthorized"
| "linphone_reason_to_sal LinphoneReasonConditionalRequestFailed = SalReasonConditionalRequestFailed"
| "linphone_reason_to_sal LinphoneReasonUnsupportedContent = SalReasonUnsupportedContent"
| "linphone_reason_to_sal LinphoneReasonBadEvent = SalReasonBadEvent"
| "linphone_reason_to_sal LinphoneReasonNoMatch = SalReasonNoMatch"
| "linphone_reason_to_sal LinphoneReasonMovedPermanently = SalReasonMovedPermanently"
| "linphone_reason_to_sal LinphoneReasonGone = SalReasonGone"
| "linphone_reason_to_sal LinphoneReasonAddressIncomplete = SalReasonAddressIncomplete"
| "linphone_reason_to_sal LinphoneReasonNotImplemented = SalReasonNotImplemented"
| "linphone_reason_to_sal LinphoneReasonBadGateway = SalReasonBadGateway"
| "linphone_reason_to_sal LinphoneReasonSessionIntervalTooSmall = SalReasonSessionIntervalTooSmall"
| "linphone_reason_to_sal LinphoneReasonServerTimeout = SalReasonServerTimeout"
| "linphone_reason_to_sal LinphoneReasonNotAnswered = SalReasonRequestTimeout"
| "linphone_reason_to_sal LinphoneReasonTransferred = SalReasonNone"
| "linphone_reason_to_sal LinphoneReasonSasCheckRequired = SalReasonSasCheckRequired"
| "linphone_reason_to_sal LinphoneReasonUnknown = SalReasonUnknown"

fun linphone_reason_from_sal :: "SalReason \<Rightarrow> LinphoneReason" where
  "linphone_reason_from_sal SalReasonNone = LinphoneReasonNone"
| "linphone_reason_from_sal SalReasonIOError = LinphoneReasonIOError"
| "linphone_reason_from_sal SalReasonUnknown = LinphoneReasonUnknown"
| "linphone_reason_from_sal SalReasonInternalError = LinphoneReasonUnknown"
| "linphone_reason_from_sal SalReasonBusy = LinphoneReasonBusy"
| "linphone_reason_from_sal SalReasonDeclined = LinphoneReasonDeclined"
| "linphone_reason_from_sal SalReasonDoNotDisturb = LinphoneReasonDoNotDisturb"
| "linphone_reason_from_sal SalReasonForbidden = LinphoneReasonForbidden"
| "linphone_reason_from_sal SalReasonNotAcceptable = LinphoneReasonNotAcceptable"
| "linphone_reason_from_sal SalReasonNotFound = LinphoneReasonNotFound"
| "linphone_reason_from_sal SalReasonRedirect = LinphoneReasonNone"
| "linphone_reason_from_sal SalReasonTemporarilyUnavailable = LinphoneReasonTemporarilyUnavailable"
| "linphone_reason_from_sal SalReasonServiceUnavailable = LinphoneReasonIOError"
| "linphone_reason_from_sal SalReasonRequestPending = LinphoneReasonTemporarilyUnavailable"
| "linphone_reason_from_sal SalReasonUnauthorized = LinphoneReasonUnauthorized"
| "linphone_reason_from_sal SalReasonConditionalRequestFailed = LinphoneReasonConditionalRequestFailed"
| "linphone_reason_from_sal SalReasonUnsupportedContent = LinphoneReasonUnsupportedContent"
| "linphone_reason_from_sal SalReasonBadEvent = LinphoneReasonBadEvent"
| "linphone_reason_from_sal SalReasonNoMatch = LinphoneReasonNoMatch"
| "linphone_reason_from_sal SalReasonRequestTimeout = LinphoneReasonNotAnswered"
| "linphone_reason_from_sal SalReasonMovedPermanently = LinphoneReasonMovedPermanently"
| "linphone_reason_from_sal SalReasonGone = LinphoneReasonGone"
| "linphone_reason_from_sal SalReasonAddressIncomplete = LinphoneReasonAddressIncomplete"
| "linphone_reason_from_sal SalReasonNotImplemented = LinphoneReasonNotImplemented"
| "linphone_reason_from_sal SalReasonBadGateway = LinphoneReasonBadGateway"
| "linphone_reason_from_sal SalReasonSessionIntervalTooSmall = LinphoneReasonSessionIntervalTooSmall"
| "linphone_reason_from_sal SalReasonServerTimeout = LinphoneReasonServerTimeout"
| "linphone_reason_from_sal SalReasonSasCheckRequired = LinphoneReasonSasCheckRequired"

section \<open>SIP codes\<close>

definition sal_reason_from_sip_code :: "int \<Rightarrow> SalReason" where
  "sal_reason_from_sip_code code =
     (if 100 \<le> code \<and> code < 300 then SalReasonNone
      else if code = 0 then SalReasonIOError
      else if code = 301 then SalReasonMovedPermanently
      else if code = 302 then SalReasonRedirect
      else if code = 401 \<or> code = 407 then SalReasonUnauthorized
      else if code = 403 then SalReasonForbidden
      else if code = 404 then SalReasonNotFound
      else if code = 408 then SalReasonRequestTimeout
      else if code = 410 then SalReasonGone
      else if code = 412 then SalReasonConditionalRequestFailed
      else if code = 415 then SalReasonUnsupportedContent
      else if code = 422 then SalReasonSessionIntervalTooSmall
      else if code = 480 then SalReasonTemporarilyUnavailable
      else if code = 481 then SalReasonNoMatch
      else if code = 484 then SalReasonAddressIncomplete
      else if code = 486 then SalReasonBusy
      else if code = 487 then SalReasonNone
      else if code = 488 then SalReasonNotAcceptable
      else if code = 489 then SalReasonBadEvent
      else if code = 491 then SalReasonRequestPending
      else if code = 500 then SalReasonInternalError
      else if code = 501 then SalReasonNotImplemented
      else if code = 502 then SalReasonBadGateway
      else if code = 503 then SalReasonServiceUnavailable
      else if code = 504 then SalReasonServerTimeout
      else if code = 600 then SalReasonDoNotDisturb
      else if code = 603 then SalReasonDeclined
      else SalReasonUnknown)"

fun toSipCode :: "SalReason \<Rightarrow> int" where
  "toSipCode SalReasonNone = 200"
| "toSipCode SalReasonIOError = 503"
| "toSipCode SalReasonUnknown = 400"
| "toSipCode SalReasonBusy = 486"
| "toSipCode SalReasonDeclined = 603"
| "toSipCode SalReasonDoNotDisturb = 600"
| "toSipCode SalReasonForbidden = 403"
| "toSipCode SalReasonConditionalRequestFailed = 412"
| "toSipCode SalReasonUnsupportedContent = 415"
| "toSipCode SalReasonNotFound = 404"
| "toSipCode SalReasonRedirect = 302"
| "toSipCode SalReasonTemporarilyUnavailable = 480"
| "toSipCode SalReasonServiceUnavailable = 503"
| "toSipCode SalReasonRequestPending = 491"
| "toSipCode SalReasonUnauthorized = 401"
| "toSipCode SalReasonNotAcceptable = 488"
| "toSipCode SalReasonNoMatch = 481"
| "toSipCode SalReasonBadEvent = 489"
| "toSipCode SalReasonRequestTimeout = 408"
| "toSipCode SalReasonMovedPermanently = 301"
| "toSipCode SalReasonGone = 410"
| "toSipCode SalReasonAddressIncomplete = 484"
| "toSipCode SalReasonNotImplemented = 501"
| "toSipCode SalReasonServerTimeout = 504"
| "toSipCode SalReasonBadGateway = 502"
| "toSipCode _ = 500"

definition error_code_reason_map :: "(int \<times> LinphoneReason) list" where
  "error_code_reason_map =
     [(200, LinphoneReasonNone), (301, LinphoneReasonMovedPermanently), (400, LinphoneReasonUnknown),
      (401, LinphoneReasonUnauthorized), (403, LinphoneReasonForbidden), (404, LinphoneReasonNotFound), (410, LinphoneReasonGone),
      (412, LinphoneReasonConditionalRequestFailed), (415, LinphoneReasonUnsupportedContent),
      (480, LinphoneReasonTemporarilyUnavailable), (481, LinphoneReasonNoMatch), (484, LinphoneReasonAddressIncomplete),
      (486, LinphoneReasonBusy), (488, LinphoneReasonNotAcceptable), (489, LinphoneReasonBadEvent),
      (501, LinphoneReasonNotImplemented), (502, LinphoneReasonBadGateway), (503, LinphoneReasonIOError),
      (504, LinphoneReasonServerTimeout), (600, LinphoneReasonDoNotDisturb), (603, LinphoneReasonDeclined)]"

definition retry_after_code_reason_map :: "(int \<times> LinphoneReason) list" where
  "retry_after_code_reason_map =
     [(404, LinphoneReasonNotFound), (480, LinphoneReasonTemporarilyUnavailable), (486, LinphoneReasonBusy),
      (503, LinphoneReasonIOError), (600, LinphoneReasonDoNotDisturb), (603, LinphoneReasonDeclined)]"

definition linphone_error_code_is_retry_after :: "int \<Rightarrow> bool" where
  "linphone_error_code_is_retry_after err = list_ex (\<lambda>(c, _). c = err) retry_after_code_reason_map"

definition linphone_error_code_to_reason :: "int \<Rightarrow> LinphoneReason" where
  "linphone_error_code_to_reason err =
     (case find (\<lambda>(c, _). c = err) error_code_reason_map of Some (_, r) \<Rightarrow> r | None \<Rightarrow> LinphoneReasonUnknown)"

definition linphone_reason_to_error_code :: "LinphoneReason \<Rightarrow> int" where
  "linphone_reason_to_error_code reason =
     (case find (\<lambda>(_, r). r = reason) error_code_reason_map of Some (c, _) \<Rightarrow> c | None \<Rightarrow> 400)"

section \<open>Error informations\<close>

text \<open>The fields \<open>SalErrorInfo\<close> and \<open>LinphoneErrorInfo\<close> share; \<open>ef_phrase\<close> is the \<open>status_string\<close> of the former.\<close>

record 'r error_fields =
  ef_reason :: 'r
  ef_phrase :: "string option"
  ef_protocol_code :: int
  ef_warnings :: "string option"
  ef_protocol :: "string option"
  ef_full_string :: "string option"
  ef_retry_after :: int

datatype SalErrorInfo = SalErrorInfo (sei: "SalReason error_fields") (sub_sei: "SalErrorInfo option")

datatype LinphoneErrorInfo = LinphoneErrorInfo (lei: "LinphoneReason error_fields") (sub_ei: "LinphoneErrorInfo option")

text \<open>A structure filled with zeros (\<open>memset\<close>, \<open>linphone_error_info_new\<close>).\<close>

definition zero_sei :: SalErrorInfo where
  "zero_sei = SalErrorInfo \<lparr>ef_reason = SalReasonNone, ef_phrase = None, ef_protocol_code = 0, ef_warnings = None, ef_protocol = None,
     ef_full_string = None, ef_retry_after = 0\<rparr> None"

definition linphone_error_info_new :: LinphoneErrorInfo where
  "linphone_error_info_new = LinphoneErrorInfo \<lparr>ef_reason = LinphoneReasonNone, ef_phrase = None, ef_protocol_code = 0, ef_warnings = None,
     ef_protocol = None, ef_full_string = None, ef_retry_after = 0\<rparr> None"

text \<open>\<open>linphone_error_info_reset\<close> clears everything; \<open>sal_error_info_reset\<close> leaves \<open>retry_after\<close>.\<close>

definition linphone_error_info_reset :: "LinphoneErrorInfo \<Rightarrow> LinphoneErrorInfo" where
  "linphone_error_info_reset e = linphone_error_info_new"

definition sal_error_info_reset :: "SalErrorInfo \<Rightarrow> SalErrorInfo" where
  "sal_error_info_reset e = SalErrorInfo ((sei zero_sei)\<lparr>ef_retry_after := ef_retry_after (sei e)\<rparr>) None"

definition sal_error_info_set ::
  "SalErrorInfo \<Rightarrow> SalReason \<Rightarrow> string option \<Rightarrow> int \<Rightarrow> string option \<Rightarrow> string option \<Rightarrow> SalErrorInfo res" where
  "sal_error_info_set e reason protocol code status_string warning =
     bindR (if reason = SalReasonUnknown
            then (case protocol of None \<Rightarrow> Inl Null_dereference
                  | Some p \<Rightarrow> Inr (p = ''SIP'' \<and> code \<noteq> 0)) else Inr False)
       (\<lambda>from_code.
         let fs = sei (sal_error_info_reset e);
             fs1 = (if from_code then fs\<lparr>ef_reason := sal_reason_from_sip_code code, ef_protocol_code := code\<rparr>
                    else fs\<lparr>ef_reason := reason, ef_protocol_code := (if code = 0 then toSipCode reason else code)\<rparr>);
             full = (case (status_string, warning) of (None, _) \<Rightarrow> None | (Some s, None) \<Rightarrow> Some s | (Some s, Some w) \<Rightarrow> Some (s @ '' '' @ w))
         in Inr (SalErrorInfo (fs1\<lparr>ef_phrase := status_string, ef_warnings := warning, ef_protocol := protocol, ef_full_string := full\<rparr>) None))"

definition linphone_error_info_set ::
  "LinphoneErrorInfo \<Rightarrow> string option \<Rightarrow> LinphoneReason \<Rightarrow> int \<Rightarrow> string option \<Rightarrow> string option \<Rightarrow> LinphoneErrorInfo" where
  "linphone_error_info_set e protocol reason code status_string warning =
     (let r = linphone_error_info_reset e
      in LinphoneErrorInfo ((lei r)\<lparr>ef_reason := reason, ef_protocol_code := code,
           ef_protocol := Some (case protocol of None \<Rightarrow> ''SIP'' | Some p \<Rightarrow> p), ef_phrase := status_string, ef_warnings := warning\<rparr>) (sub_ei r))"

definition linphone_error_info_set_reason :: "LinphoneErrorInfo \<Rightarrow> LinphoneReason \<Rightarrow> LinphoneErrorInfo" where
  "linphone_error_info_set_reason e r = LinphoneErrorInfo ((lei e)\<lparr>ef_reason := r\<rparr>) (sub_ei e)"

definition linphone_error_info_get_reason :: "LinphoneErrorInfo \<Rightarrow> LinphoneReason" where
  "linphone_error_info_get_reason e = ef_reason (lei e)"

definition linphone_error_info_get_protocol_code :: "LinphoneErrorInfo \<Rightarrow> int" where
  "linphone_error_info_get_protocol_code e = ef_protocol_code (lei e)"

definition linphone_error_info_set_sub_error_info :: "LinphoneErrorInfo \<Rightarrow> LinphoneErrorInfo option \<Rightarrow> LinphoneErrorInfo" where
  "linphone_error_info_set_sub_error_info e appended_ei = LinphoneErrorInfo (lei e) appended_ei"

text \<open>\<open>error_info_clone\<close> copies the fields and not the attached information.\<close>

definition error_info_clone :: "LinphoneErrorInfo \<Rightarrow> LinphoneErrorInfo" where
  "error_info_clone other = LinphoneErrorInfo (lei other) None"

definition linphone_error_info_from_sal :: "LinphoneErrorInfo \<Rightarrow> SalErrorInfo \<Rightarrow> LinphoneErrorInfo" where
  "linphone_error_info_from_sal e s =
     LinphoneErrorInfo \<lparr>ef_reason = linphone_reason_from_sal (ef_reason (sei s)), ef_phrase = ef_phrase (sei s),
       ef_protocol_code = ef_protocol_code (sei s), ef_warnings = ef_warnings (sei s), ef_protocol = ef_protocol (sei s),
       ef_full_string = ef_full_string (sei s), ef_retry_after = ef_retry_after (sei s)\<rparr> (sub_ei e)"

definition linphone_error_info_from_sal_reason_ei :: "LinphoneErrorInfo \<Rightarrow> SalErrorInfo \<Rightarrow> LinphoneErrorInfo" where
  "linphone_error_info_from_sal_reason_ei e reason_ei =
     (if ef_reason (lei e) = LinphoneReasonNone then linphone_error_info_from_sal (linphone_error_info_reset e) reason_ei
      else let sub = (case sub_ei e of
                        Some s \<Rightarrow> if ef_reason (sei reason_ei) = SalReasonNone then None else Some s
                      | None \<Rightarrow> if ef_reason (sei reason_ei) \<noteq> SalReasonNone then Some linphone_error_info_new else None)
           in LinphoneErrorInfo (lei e)
                (if ef_reason (sei reason_ei) \<noteq> SalReasonNone
                 then map_option (\<lambda>s. linphone_error_info_from_sal s reason_ei) sub else sub))"

text \<open>The operation is given by its two error informations, \<open>None\<close> is a null pointer.\<close>

definition linphone_error_info_from_sal_op :: "LinphoneErrorInfo \<Rightarrow> (SalErrorInfo \<times> SalErrorInfo) option \<Rightarrow> LinphoneErrorInfo" where
  "linphone_error_info_from_sal_op e op =
     (case op of None \<Rightarrow> e
      | Some (errorInfo, reasonErrorInfo) \<Rightarrow>
          linphone_error_info_from_sal_reason_ei (linphone_error_info_from_sal (linphone_error_info_reset e) errorInfo) reasonErrorInfo)"

definition linphone_error_info_fields_to_sal :: "LinphoneErrorInfo \<Rightarrow> SalErrorInfo \<Rightarrow> SalErrorInfo" where
  "linphone_error_info_fields_to_sal e s =
     SalErrorInfo \<lparr>ef_reason = linphone_reason_to_sal (ef_reason (lei e)), ef_phrase = ef_phrase (lei e),
       ef_protocol_code = ef_protocol_code (lei e), ef_warnings = ef_warnings (lei e), ef_protocol = ef_protocol (lei e),
       ef_full_string = ef_full_string (lei e), ef_retry_after = ef_retry_after (lei e)\<rparr> (sub_sei s)"

text \<open>\<open>linphone_error_info_to_sal\<close> fills the structures that the caller provides; an attached information without one is written through a null pointer.\<close>

fun linphone_error_info_to_sal :: "LinphoneErrorInfo \<Rightarrow> SalErrorInfo option \<Rightarrow> SalErrorInfo res" where
  "linphone_error_info_to_sal e None = Inl Null_dereference"
| "linphone_error_info_to_sal (LinphoneErrorInfo fs sub) (Some s) =
     (let s' = linphone_error_info_fields_to_sal (LinphoneErrorInfo fs sub) s
      in case sub of
           None \<Rightarrow> Inr s'
         | Some e' \<Rightarrow> bindR (linphone_error_info_to_sal e' (sub_sei s')) (\<lambda>s''. Inr (SalErrorInfo (sei s') (Some s''))))"

section \<open>Properties\<close>

text \<open>
  C21: A reason that the application gives survives the way over SIP, to the code of the response and back to the reason at the other
  end, except for four: two are sent as a code that stands for another reason, and two have no code of their own.
\<close>

theorem reason_over_sip:
  "linphone_reason_from_sal (sal_reason_from_sip_code (toSipCode (linphone_reason_to_sal r))) = r \<longleftrightarrow>
     r \<notin> {LinphoneReasonNoResponse, LinphoneReasonTransferred, LinphoneReasonSessionIntervalTooSmall, LinphoneReasonSasCheckRequired}"
  by (cases r) (simp_all add: sal_reason_from_sip_code_def)

text \<open>
  The two tables of codes agree: for every code of the table of the application interface, the reason found there is the one the signalling
  layer finds for that code, and the code found for it is the code itself.
\<close>

theorem code_tables_agree:
  "list_all (\<lambda>(c, r). linphone_error_code_to_reason c = r \<and> linphone_reason_to_error_code r = c \<and>
     linphone_reason_from_sal (sal_reason_from_sip_code c) = r) error_code_reason_map"
  by (simp add: error_code_reason_map_def linphone_error_code_to_reason_def linphone_reason_to_error_code_def sal_reason_from_sip_code_def)

fun ei_depth :: "LinphoneErrorInfo \<Rightarrow> nat" where
  "ei_depth (LinphoneErrorInfo _ sub) = (case sub of None \<Rightarrow> 1 | Some e \<Rightarrow> Suc (ei_depth e))"

fun sei_depth :: "SalErrorInfo \<Rightarrow> nat" where
  "sei_depth (SalErrorInfo _ sub) = (case sub of None \<Rightarrow> 1 | Some s \<Rightarrow> Suc (sei_depth s))"

lemma ei_depth_pos [simp]: "0 < ei_depth e"
  by (cases e) (simp split: option.split)

lemma sei_depth_fields [simp]: "sub_sei (linphone_error_info_fields_to_sal e s) = sub_sei s"
  "sei_depth (linphone_error_info_fields_to_sal e s) = sei_depth s"
  by (cases s; simp add: linphone_error_info_fields_to_sal_def)+

lemma sei_depth_le_1: "sub_sei s = None \<Longrightarrow> sei_depth s = 1"
  by (cases s) simp

text \<open>
  Handing an error information to the signalling layer works exactly when the caller provides as many structures as the information is deep.
\<close>

lemma error_info_to_sal_iff:
  "(\<exists>s'. linphone_error_info_to_sal e (Some s) = Inr s') \<longleftrightarrow> ei_depth e \<le> sei_depth s"
proof (induction e "Some s" arbitrary: s rule: linphone_error_info_to_sal.induct)
  case (2 fs sub s)
  then show ?case
    by (cases s; cases sub; cases "sub_sei s") (auto simp: Let_def bindR_eq_Inr split: option.splits)
qed

lemma to_sal_plain: "sub_ei e = None \<Longrightarrow> linphone_error_info_to_sal e (Some s) = Inr (linphone_error_info_fields_to_sal e s)"
  by (cases e) (simp add: Let_def)

lemma to_sal_attached:
  assumes "sub_ei e \<noteq> None" and "sub_sei s = None"
  shows "linphone_error_info_to_sal e (Some s) = Inl Null_dereference"
  using assms by (cases e) (auto simp: Let_def)

end
