(* ===== verification/Chat_Message.thy ===== *)
theory Chat_Message
  imports Error_Info
begin

text \<open>
  Chat messages (\<open>src/chat/chat-message/chat-message.cpp\<close>), with the rows of the data base they are stored in
  (\<open>src/db/main-db.cpp\<close>) and the part of the chat room they read (\<open>chat-room.cpp\<close>, \<open>conference.cpp\<close>).

  One message is a \<open>chat_world\<close>: the object, its event row with the rows of its participants, the unread counter of its
  chat room, its place in the transient lists of the room, and what was sent to the application and to the notification
  handler so far, in order.  \<open>setState\<close> and \<open>setParticipantState\<close> call each other; they take fuel, and the theory shows
  that five levels are enough for every call.  Callbacks of the application are outputs: they do not call back into the message.
  The comparison and printing of addresses belongs to the SIP stack and is the parameter \<open>uri_api\<close>.
\<close>

section \<open>States and transitions\<close>

datatype ChatMessageState =
    Idle | InProgress | Delivered | NotDelivered | FileTransferError | FileTransferDone | DeliveredToUser | Displayed
  | FileTransferInProgress | PendingDelivery | FileTransferCancelling

fun state_number :: "ChatMessageState \<Rightarrow> nat" where
  "state_number Idle = 0"
| "state_number InProgress = 1"
| "state_number Delivered = 2"
| "state_number NotDelivered = 3"
| "state_number FileTransferError = 4"
| "state_number FileTransferDone = 5"
| "state_number DeliveredToUser = 6"
| "state_number Displayed = 7"
| "state_number FileTransferInProgress = 8"
| "state_number PendingDelivery = 9"
| "state_number FileTransferCancelling = 10"

text \<open>\<open>FsmIntegrityChecker::isValid\<close>: an origin without an entry allows nothing.\<close>

definition fsm_isValid :: "('e \<times> 'e list) list \<Rightarrow> 'e \<Rightarrow> 'e \<Rightarrow> bool" where
  "fsm_isValid transitions origin destination =
     (case map_of transitions origin of None \<Rightarrow> False | Some ds \<Rightarrow> destination \<in> set ds)"

definition chatMessageFsmChecker :: "(ChatMessageState \<times> ChatMessageState list) list" where
  "chatMessageFsmChecker =
    [(Idle, [PendingDelivery, InProgress, Delivered, NotDelivered, DeliveredToUser, Displayed, FileTransferInProgress,
             FileTransferError, FileTransferDone]),
     (InProgress, [Delivered, NotDelivered, DeliveredToUser, Displayed, FileTransferInProgress, FileTransferError,
                   FileTransferDone]),
     (Delivered, [InProgress, NotDelivered, DeliveredToUser, Displayed, FileTransferInProgress, FileTransferError,
                  FileTransferDone]),
     (PendingDelivery, [Idle, InProgress, Delivered, DeliveredToUser, Displayed, FileTransferInProgress,
                        FileTransferError, FileTransferDone]),
     (NotDelivered, [Idle, InProgress, Delivered, DeliveredToUser, Displayed, FileTransferInProgress,
                     FileTransferError, FileTransferDone]),
     (DeliveredToUser, [InProgress, Displayed, FileTransferInProgress, FileTransferError, FileTransferDone]),
     (Displayed, [InProgress, FileTransferInProgress, FileTransferError, FileTransferDone]),
     (FileTransferCancelling, [NotDelivered, FileTransferError]),
     (FileTransferInProgress, [PendingDelivery, InProgress, NotDelivered, Delivered, DeliveredToUser, Displayed,
                               FileTransferError, FileTransferCancelling, FileTransferDone]),
     (FileTransferError, [InProgress, NotDelivered, Delivered, DeliveredToUser, Displayed, FileTransferInProgress,
                          FileTransferDone]),
     (FileTransferDone, [InProgress, NotDelivered, Delivered, PendingDelivery, DeliveredToUser, Displayed,
                         FileTransferInProgress, FileTransferError])]"

abbreviation allowed :: "ChatMessageState \<Rightarrow> ChatMessageState \<Rightarrow> bool" where
  "allowed \<equiv> fsm_isValid chatMessageFsmChecker"

definition isImdnControlledState :: "ChatMessageState \<Rightarrow> bool" where
  "isImdnControlledState s \<longleftrightarrow> s = Displayed \<or> s = DeliveredToUser \<or> s = NotDelivered"

section \<open>Data\<close>

datatype Direction = Incoming | Outgoing

datatype Backend = Basic | FlexisipChat

text \<open>
  The SIP stack's operations on addresses: weak equality, removal of the \<open>gr\<close> parameter (\<open>getUriWithoutGruu\<close>), the
  ordered printed form that is the key of the address table, equality and validity.
\<close>

record uri_api =
  weakEqual :: "address \<Rightarrow> address \<Rightarrow> bool"
  getUriWithoutGruu :: "address \<Rightarrow> address"
  toStringUriOnlyOrdered :: "address \<Rightarrow> string"
  address_equal :: "address \<Rightarrow> address \<Rightarrow> bool"
  address_isValid :: "address \<Rightarrow> bool"

text \<open>A file transfer content may know the file it stands for.\<close>

datatype content = FileTransferContent "string option" | FileContent string | OtherContent string

definition isFileTransfer :: "content \<Rightarrow> bool" where
  "isFileTransfer c = (case c of FileTransferContent _ \<Rightarrow> True | _ \<Rightarrow> False)"

text \<open>The message object.  \<open>cm_salOp\<close> is the pending SIP operation with the reason of its error, if any.\<close>

record chat_message =
  cm_state :: ChatMessageState
  cm_direction :: Direction
  cm_storageId :: int
  cm_fromAddress :: address
  cm_meAddress :: address
  cm_time :: int
  cm_isEphemeral :: bool
  cm_ephemeralLifetime :: int
  cm_ephemeralExpireTime :: int
  cm_markedAsRead :: bool
  cm_automaticallyResent :: bool
  cm_contents :: "content list"
  cm_salOp :: "LinphoneReason option"
  cm_resendTimer :: bool
  cm_listeners :: "nat list"
  cm_positiveDeliveryNotificationRequired :: bool
  cm_negativeDeliveryNotificationRequired :: bool
  cm_displayNotificationRequired :: bool

text \<open>
  The row of \<open>conference_chat_message_event\<close>, with the rows of \<open>chat_message_participant\<close> and
  \<open>chat_message_ephemeral_event\<close> for the event.
\<close>

type_synonym participant_row = "string \<times> ChatMessageState \<times> int"

record event_row =
  ev_state :: ChatMessageState
  ev_marked_as_read :: bool
  ev_contents :: "content list"
  ev_participants :: "participant_row list"
  ev_expired_time :: "int option"
  ev_delivery_notification_required :: bool
  ev_display_notification_required :: bool

datatype effect =
    State_changed ChatMessageState
  | Listener_called nat ChatMessageState
  | Participant_imdn_state_changed "address option" ChatMessageState int
  | Notify_delivery
  | Notify_display
  | Notify_delivery_error LinphoneReason
  | Message_rejected
  | Ephemeral_timer_started
  | Chat_room_read

record chat_world =
  w_message :: chat_message
  w_event :: "event_row option"
  w_unread :: "int option"
  w_transientMessage :: bool
  w_transientEvent :: bool
  w_coreListener :: bool
  w_out :: "effect list"

text \<open>
  What the message reads of its chat room, the core and the clock.  \<open>room_me\<close> is absent in a server chat room restored from
  the data base; \<open>room_conference\<close> is the capability of that name.
\<close>

record chat_room =
  room_backend :: Backend
  room_me :: "address option"
  room_participants :: "address list"
  room_conference :: bool
  room_simple_group_state :: bool
  room_conference_server :: bool
  room_send_imdn_delivered :: bool
  room_send_imdn_delivery_error :: bool
  room_send_imdn_displayed :: bool
  room_now :: int

definition emit :: "effect list \<Rightarrow> chat_world \<Rightarrow> chat_world" where
  "emit es w = w\<lparr>w_out := w_out w @ es\<rparr>"

definition update_message :: "(chat_message \<Rightarrow> chat_message) \<Rightarrow> chat_world \<Rightarrow> chat_world" where
  "update_message f w = w\<lparr>w_message := f (w_message w)\<rparr>"

section \<open>The data base\<close>

definition msg_isValid :: "chat_message \<Rightarrow> bool" where
  "msg_isValid m \<longleftrightarrow> 0 \<le> cm_storageId m"

text \<open>\<open>MainDb::getEvent\<close> for the message's storage id.\<close>

definition getEvent :: "chat_world \<Rightarrow> event_row option" where
  "getEvent w = (if cm_storageId (w_message w) < 0 then None else w_event w)"

definition row_state :: "string \<Rightarrow> event_row \<Rightarrow> ChatMessageState option" where
  "row_state key e = map_option fst (map_of (ev_participants e) key)"

definition set_row :: "string \<Rightarrow> ChatMessageState \<Rightarrow> int \<Rightarrow> event_row \<Rightarrow> event_row" where
  "set_row key s t e =
     e\<lparr>ev_participants := map (\<lambda>(k, s', t'). if k = key then (k, s, t) else (k, s', t')) (ev_participants e)\<rparr>"

text \<open>
  \<open>MainDbPrivate::setChatMessageParticipantState\<close>: a participant without a row gets one; a participant that has
  received or read the message does not go back to a smaller state.
\<close>

definition setChatMessageParticipantState ::
  "uri_api \<Rightarrow> address \<Rightarrow> ChatMessageState \<Rightarrow> int \<Rightarrow> event_row \<Rightarrow> event_row" where
  "setChatMessageParticipantState api participantAddress s t e =
     (let key = toStringUriOnlyOrdered api (getUriWithoutGruu api participantAddress)
      in case row_state key e of
           None \<Rightarrow> e\<lparr>ev_participants := ev_participants e @ [(key, s, t)]\<rparr>
         | Some dbState \<Rightarrow>
             (if state_number s < state_number dbState \<and> (dbState = Displayed \<or> dbState = DeliveredToUser) then e
              else set_row key s t e))"

definition getChatMessageParticipantState :: "uri_api \<Rightarrow> address \<Rightarrow> event_row \<Rightarrow> ChatMessageState" where
  "getChatMessageParticipantState api a e =
     (case row_state (toStringUriOnlyOrdered api a) e of None \<Rightarrow> Idle | Some s \<Rightarrow> s)"

text \<open>
  \<open>MainDbPrivate::updateConferenceChatMessageEvent\<close>.  Transfer states are not stored.  Of an outgoing message of a
  conference the rows of the participants follow the message when it becomes delivered, or not delivered for the sender.
\<close>

definition stored_state :: "ChatMessageState \<Rightarrow> ChatMessageState \<Rightarrow> ChatMessageState" where
  "stored_state s dbState =
     (if s = InProgress \<or> s = FileTransferDone \<or> s = FileTransferInProgress \<or> s = FileTransferError then dbState else s)"

definition requires_updating_participants :: "uri_api \<Rightarrow> chat_room \<Rightarrow> ChatMessageState \<Rightarrow> event_row \<Rightarrow> bool res" where
  "requires_updating_participants api room s e =
     (if s = NotDelivered
      then (case room_me room of
              None \<Rightarrow> Inl Null_dereference
            | Some me \<Rightarrow> Inr (getChatMessageParticipantState api me e = NotDelivered))
      else Inr (\<not> isImdnControlledState (ev_state e) \<and> s = Delivered))"

text \<open>
  The cached counter of the room.  The source asserts that it is positive before it is lowered: the assertion is empty unless \<open>DEBUG\<close> is defined, and the model is the
  build without it.
\<close>

definition update_unread :: "chat_message \<Rightarrow> event_row \<Rightarrow> int option \<Rightarrow> int option" where
  "update_unread m e count =
     (if cm_direction m = Incoming \<and> cm_markedAsRead m \<and> \<not> ev_marked_as_read e then map_option (\<lambda>c. c - 1) count else count)"

definition stored_event :: "chat_message \<Rightarrow> event_row \<Rightarrow> event_row" where
  "stored_event m e =
     e\<lparr>ev_state := stored_state (cm_state m) (ev_state e), ev_marked_as_read := cm_markedAsRead m, ev_contents := cm_contents m\<rparr>"

definition spread_state :: "uri_api \<Rightarrow> ChatMessageState \<Rightarrow> int \<Rightarrow> event_row \<Rightarrow> event_row" where
  "spread_state api s t e = foldl (\<lambda>e' row. setChatMessageParticipantState api (fst row) s t e') e (ev_participants e)"

definition updateConferenceChatMessageEvent ::
  "uri_api \<Rightarrow> chat_room \<Rightarrow> event_row \<Rightarrow> chat_world \<Rightarrow> chat_world res" where
  "updateConferenceChatMessageEvent api room e w =
     (let m = w_message w
      in bindR (requires_updating_participants api room (cm_state m) e) (\<lambda>required.
           let updateParticipants = (cm_direction m = Outgoing \<and> required \<and> room_conference room \<and> msg_isValid m);
               e1 = stored_event m e
           in Inr (w\<lparr>w_event := Some (if updateParticipants then spread_state api (cm_state m) (room_now room) e1 else e1),
                    w_unread := update_unread m e (w_unread w)\<rparr>)))"

text \<open>
  \<open>MainDb::addEvent\<close> for a message: \<open>new_id\<close> is the identifier the data base gives, if the insertion succeeds.
\<close>

definition insertConferenceChatMessageEvent :: "uri_api \<Rightarrow> chat_room \<Rightarrow> int option \<Rightarrow> chat_world \<Rightarrow> chat_world" where
  "insertConferenceChatMessageEvent api room new_id w =
     (let m = w_message w
      in case new_id of
           None \<Rightarrow> w
         | Some i \<Rightarrow>
             w\<lparr>w_event := Some \<lparr>ev_state = cm_state m, ev_marked_as_read = cm_markedAsRead m, ev_contents = cm_contents m,
                 ev_participants = map (\<lambda>a. (toStringUriOnlyOrdered api a, cm_state m, cm_time m)) (room_participants room),
                 ev_expired_time = (if cm_isEphemeral m then Some (cm_ephemeralExpireTime m) else None),
                 ev_delivery_notification_required = cm_positiveDeliveryNotificationRequired m,
                 ev_display_notification_required = cm_displayNotificationRequired m\<rparr>,
               w_unread := (if cm_direction m = Incoming \<and> \<not> cm_markedAsRead m then map_option (\<lambda>c. c + 1) (w_unread w)
                            else w_unread w),
               w_message := m\<lparr>cm_storageId := i\<rparr>\<rparr>)"

section \<open>The chat room\<close>

definition isMe :: "uri_api \<Rightarrow> chat_room \<Rightarrow> address \<Rightarrow> bool" where
  "isMe api room a =
     (case room_me room of
        None \<Rightarrow> False
      | Some me \<Rightarrow> address_isValid api a \<and> address_equal api (getUriWithoutGruu api me) (getUriWithoutGruu api a))"

definition findParticipant :: "uri_api \<Rightarrow> chat_room \<Rightarrow> address \<Rightarrow> address option" where
  "findParticipant api room a = find (\<lambda>p. weakEqual api p a) (room_participants room)"

definition sendDeliveryErrorNotification :: "chat_room \<Rightarrow> LinphoneReason \<Rightarrow> chat_world \<Rightarrow> chat_world" where
  "sendDeliveryErrorNotification room reason w =
     (if (room_send_imdn_delivered room \<or> room_send_imdn_delivery_error room) \<and>
         cm_negativeDeliveryNotificationRequired (w_message w)
      then emit [Notify_delivery_error reason]
             (update_message (\<lambda>m. m\<lparr>cm_negativeDeliveryNotificationRequired := False\<rparr>) w)
      else w)"

definition sendDeliveryNotification :: "chat_room \<Rightarrow> chat_world \<Rightarrow> chat_world" where
  "sendDeliveryNotification room w =
     (if room_send_imdn_delivered room \<and> cm_positiveDeliveryNotificationRequired (w_message w)
      then emit [Notify_delivery] (update_message (\<lambda>m. m\<lparr>cm_positiveDeliveryNotificationRequired := False\<rparr>) w)
      else w)"

definition sendDisplayNotification :: "chat_room \<Rightarrow> chat_world \<Rightarrow> chat_world" where
  "sendDisplayNotification room w =
     (if room_send_imdn_displayed room \<and> cm_displayNotificationRequired (w_message w)
      then emit [Notify_display]
             (update_message (\<lambda>m. m\<lparr>cm_positiveDeliveryNotificationRequired := False, cm_displayNotificationRequired := False\<rparr>) w)
      else w)"

section \<open>Queries of a message\<close>

definition hasFileTransferContent :: "chat_message \<Rightarrow> bool" where
  "hasFileTransferContent m = list_ex isFileTransfer (cm_contents m)"

definition getParticipantState :: "uri_api \<Rightarrow> chat_room \<Rightarrow> address \<Rightarrow> chat_world \<Rightarrow> ChatMessageState" where
  "getParticipantState api room a w =
     (if room_backend room = Basic then cm_state (w_message w)
      else case getEvent w of Some e \<Rightarrow> getChatMessageParticipantState api a e | None \<Rightarrow> Idle)"

text \<open>The participant a row is about: me, or a participant of the room; other rows are skipped.\<close>

definition row_participant :: "uri_api \<Rightarrow> chat_room \<Rightarrow> string \<Rightarrow> address option" where
  "row_participant api room a = (if isMe api room a then room_me room else findParticipant api room a)"

definition rows_with_participant :: "uri_api \<Rightarrow> chat_room \<Rightarrow> participant_row list \<Rightarrow> participant_row list" where
  "rows_with_participant api room rows =
     List.map_filter (\<lambda>(a, s, t). map_option (\<lambda>p. (p, s, t)) (row_participant api room a)) rows"

definition getParticipantsState :: "uri_api \<Rightarrow> chat_room \<Rightarrow> chat_world \<Rightarrow> participant_row list res" where
  "getParticipantsState api room w =
     (if room_backend room = Basic \<or> \<not> msg_isValid (w_message w) then Inr []
      else case getEvent w of
             None \<Rightarrow> Inl Null_dereference
           | Some e \<Rightarrow> Inr (rows_with_participant api room (ev_participants e)))"

text \<open>The participants in a state, the sender left out.\<close>

definition getParticipantsByImdnState ::
  "uri_api \<Rightarrow> chat_room \<Rightarrow> ChatMessageState \<Rightarrow> chat_world \<Rightarrow> participant_row list res" where
  "getParticipantsByImdnState api room s w =
     (if room_backend room = Basic \<or> \<not> msg_isValid (w_message w) then Inr []
      else case getEvent w of
             None \<Rightarrow> Inl Null_dereference
           | Some e \<Rightarrow>
               Inr (filter (\<lambda>(p, _, _). Some p \<noteq> row_participant api room (cm_fromAddress (w_message w)))
                     (rows_with_participant api room (filter (\<lambda>(_, s', _). s' = s) (ev_participants e)))))"

text \<open>The state of the message that the states of its participants give.\<close>

definition aggregated_state :: "uri_api \<Rightarrow> address \<Rightarrow> participant_row list \<Rightarrow> ChatMessageState option" where
  "aggregated_state api from rows =
     (let recipients = filter (\<lambda>(p, _, _). \<not> weakEqual api from p) rows;
          nbRecipients = length recipients;
          count = (\<lambda>s. length (filter (\<lambda>(_, s', _). s' = s) recipients));
          nbNotDeliveredStates = length (filter (\<lambda>(_, s', _). s' = NotDelivered) rows)
      in if nbNotDeliveredStates > 0 then Some NotDelivered
         else if nbRecipients > 0 \<and> count Displayed = nbRecipients then Some Displayed
         else if nbRecipients > 0 \<and> count Displayed + count DeliveredToUser = nbRecipients then Some DeliveredToUser
         else if nbRecipients > 0 \<and> count Delivered + count Displayed + count DeliveredToUser = nbRecipients
           then Some Delivered
         else None)"

section \<open>Changes of a message\<close>

definition restoreFileTransferContentAsFileContent :: "chat_message \<Rightarrow> chat_message" where
  "restoreFileTransferContentAsFileContent m =
     m\<lparr>cm_contents := map (\<lambda>c. case c of FileTransferContent (Some f) \<Rightarrow> FileContent f | _ \<Rightarrow> c) (cm_contents m)\<rparr>"

definition startEphemeralCountDown :: "chat_room \<Rightarrow> chat_world \<Rightarrow> chat_world" where
  "startEphemeralCountDown room w =
     (let expire = room_now room + cm_ephemeralLifetime (w_message w);
          w1 = update_message (\<lambda>m. m\<lparr>cm_ephemeralExpireTime := expire\<rparr>) w
      in case getEvent w1 of
           None \<Rightarrow> w1
         | Some e \<Rightarrow> emit [Ephemeral_timer_started]
             (w1\<lparr>w_event := Some (e\<lparr>ev_expired_time := map_option (\<lambda>_. expire) (ev_expired_time e)\<rparr>)\<rparr>))"

definition updateInDb :: "uri_api \<Rightarrow> chat_room \<Rightarrow> chat_world \<Rightarrow> chat_world res" where
  "updateInDb api room w =
     (if \<not> msg_isValid (w_message w) then Inr w
      else case getEvent w of
             None \<Rightarrow> Inr w
           | Some e \<Rightarrow>
               bindR (updateConferenceChatMessageEvent api room e w) (\<lambda>w1.
                 let m = w_message w1
                 in if cm_direction m = Incoming
                    then Inr (if hasFileTransferContent m then w1 else w1\<lparr>w_transientEvent := False\<rparr>)
                    else Inr (if cm_state m = Delivered \<or> cm_state m = NotDelivered
                              then w1\<lparr>w_transientEvent := False\<rparr> else w1)))"

text \<open>The steps of \<open>setState\<close> that do not recur: entering the state, the notifications, and everything after them.\<close>

definition enter_state :: "ChatMessageState \<Rightarrow> chat_world \<Rightarrow> chat_world" where
  "enter_state newState =
     update_message (\<lambda>m. m\<lparr>cm_automaticallyResent := cm_automaticallyResent m \<and>
         \<not> (newState = PendingDelivery \<or> newState = Delivered \<or> newState = DeliveredToUser \<or> newState = Displayed),
       cm_state := newState\<rparr>)"

definition leave_transient :: "chat_world \<Rightarrow> chat_world" where
  "leave_transient w =
     (let m = w_message w
      in if cm_direction m = Outgoing \<and>
            (cm_state m = NotDelivered \<or> cm_state m = Delivered \<or> cm_state m = DeliveredToUser \<or> cm_state m = Displayed)
         then w\<lparr>w_transientMessage := False\<rparr> else w)"

definition notify_state :: "chat_world \<Rightarrow> chat_world" where
  "notify_state w =
     (let s = cm_state (w_message w)
      in update_message (\<lambda>m. if s = Displayed then m\<lparr>cm_listeners := []\<rparr> else m)
           (emit (State_changed s # map (\<lambda>l. Listener_called l s) (cm_listeners (w_message w))) w))"

definition release_sal_op :: "chat_world \<Rightarrow> bool \<times> chat_world" where
  "release_sal_op w =
     (let m = w_message w
      in if cm_state m = PendingDelivery \<or> cm_state m = NotDelivered
         then (cm_salOp m = Some LinphoneReasonIOError \<or> cm_salOp m = Some LinphoneReasonNoResponse,
               update_message (\<lambda>m. restoreFileTransferContentAsFileContent (m\<lparr>cm_salOp := None\<rparr>)) w)
         else (False, w))"

definition arm_resend :: "bool \<Rightarrow> bool \<Rightarrow> chat_world \<Rightarrow> chat_world" where
  "arm_resend hasBeenAutomaticallyResent needResend w =
     (if cm_state (w_message w) = PendingDelivery
      then (let w1 = w\<lparr>w_coreListener := True\<rparr>
            in if cm_direction (w_message w1) = Outgoing \<and> \<not> hasBeenAutomaticallyResent \<and> needResend \<and>
                  \<not> cm_resendTimer (w_message w1)
               then update_message (\<lambda>m. m\<lparr>cm_resendTimer := True\<rparr>) w1 else w1)
      else w)"

definition finish_state :: "uri_api \<Rightarrow> chat_room \<Rightarrow> bool \<Rightarrow> chat_world \<Rightarrow> chat_world res" where
  "finish_state api room hasBeenAutomaticallyResent w =
     (let s = cm_state (w_message w);
          w1 = (if cm_isEphemeral (w_message w) \<and> s = Displayed then startEphemeralCountDown room w else w)
      in bindR (if s \<noteq> InProgress \<and> s \<noteq> FileTransferError \<and> s \<noteq> FileTransferInProgress \<and> s \<noteq> FileTransferCancelling
                then updateInDb api room w1 else Inr w1) (\<lambda>w2.
           case release_sal_op w2 of (needResend, w3) \<Rightarrow> Inr (arm_resend hasBeenAutomaticallyResent needResend w3)))"

text \<open>The steps of \<open>setParticipantState\<close> that do not recur.\<close>

definition send_imdn :: "chat_room \<Rightarrow> ChatMessageState \<Rightarrow> LinphoneReason \<Rightarrow> chat_world \<Rightarrow> chat_world" where
  "send_imdn room newState reason w =
     (if newState = Displayed then sendDisplayNotification room w
      else if newState = DeliveredToUser then sendDeliveryNotification room w
      else if newState = NotDelivered \<and> reason \<noteq> LinphoneReasonNone then sendDeliveryErrorNotification room reason w
      else w)"

definition store_participant :: "uri_api \<Rightarrow> address \<Rightarrow> ChatMessageState \<Rightarrow> int \<Rightarrow> chat_world \<Rightarrow> chat_world" where
  "store_participant api p s t w =
     (case getEvent w of
        None \<Rightarrow> w
      | Some e \<Rightarrow> w\<lparr>w_event := Some (setChatMessageParticipantState api p s t e)\<rparr>)"

text \<open>
  The steps that recur, with the recursive calls as arguments: \<open>set_msg\<close> is \<open>setState\<close>, \<open>set_participant\<close> is
  \<open>setParticipantState\<close> without a reason.  First, of \<open>setState\<close>: the loop over the participants of a delivered message, and
  what follows the notifications.
\<close>

definition deliver_participants ::
  "uri_api \<Rightarrow> chat_room \<Rightarrow> (address \<Rightarrow> ChatMessageState \<Rightarrow> int \<Rightarrow> chat_world \<Rightarrow> chat_world res) \<Rightarrow> chat_world \<Rightarrow> chat_world res"
where
  "deliver_participants api room set_participant w =
     bindR (getParticipantsState api room w)
       (foldR (\<lambda>w' row. if isMe api room (fst row) then Inr w'
                       else set_participant (fst row) (cm_state (w_message w')) (cm_time (w_message w')) w') w)"

definition after_notification ::
  "uri_api \<Rightarrow> chat_room \<Rightarrow> ChatMessageState \<Rightarrow> bool \<Rightarrow>
   (address \<Rightarrow> ChatMessageState \<Rightarrow> int \<Rightarrow> chat_world \<Rightarrow> chat_world res) \<Rightarrow> chat_world \<Rightarrow> chat_world res"
where
  "after_notification api room oldState hasBeenAutomaticallyResent set_participant w =
     (let m = w_message w
      in if cm_state m = FileTransferDone \<and> cm_direction m = Incoming \<and> \<not> hasFileTransferContent m \<and> cm_markedAsRead m
         then (case room_me room of
                 None \<Rightarrow> Inl Null_dereference
               | Some me \<Rightarrow> set_participant me Displayed (room_now room) w)
         else if cm_state m = Delivered \<and> oldState = Idle \<and> cm_direction m = Incoming \<and> \<not> msg_isValid m then Inr w
         else finish_state api room hasBeenAutomaticallyResent w)"

text \<open>Of \<open>setParticipantState\<close>: the state of the message from the states of its participants, and the group chat branch.\<close>

definition aggregate ::
  "uri_api \<Rightarrow> chat_room \<Rightarrow> (ChatMessageState \<Rightarrow> chat_world \<Rightarrow> chat_world res) \<Rightarrow> chat_world \<Rightarrow> chat_world res"
where
  "aggregate api room set_msg w =
     bindR (getParticipantsState api room w) (\<lambda>imdnStates.
       case aggregated_state api (cm_fromAddress (w_message w)) imdnStates of None \<Rightarrow> Inr w | Some s \<Rightarrow> set_msg s w)"

definition move_participant ::
  "uri_api \<Rightarrow> chat_room \<Rightarrow> bool \<Rightarrow> address \<Rightarrow> ChatMessageState \<Rightarrow> int \<Rightarrow> LinphoneReason \<Rightarrow>
   (ChatMessageState \<Rightarrow> chat_world \<Rightarrow> chat_world res) \<Rightarrow>
   (address \<Rightarrow> ChatMessageState \<Rightarrow> int \<Rightarrow> chat_world \<Rightarrow> chat_world res) \<Rightarrow> chat_world \<Rightarrow> chat_world res"
where
  "move_participant api room me_changes p newState t reason set_msg set_participant w =
     (let w1 = store_participant api p newState t w
      in bindR (if me_changes \<and> \<not> isImdnControlledState newState then set_msg newState w1 else Inr w1) (\<lambda>w2.
         bindR (if isImdnControlledState newState then aggregate api room set_msg w2 else Inr w2) (\<lambda>w3.
         bindR (if me_changes \<and> weakEqual api (cm_fromAddress (w_message w3)) p \<and> newState = DeliveredToUser
                then set_participant p Displayed (room_now room) w3 else Inr w3) (\<lambda>w4.
         Inr (if me_changes \<and> newState = NotDelivered \<and> reason = LinphoneReasonForbidden
              then emit [Message_rejected] w4 else w4)))))"

fun setState :: "nat \<Rightarrow> uri_api \<Rightarrow> chat_room \<Rightarrow> ChatMessageState \<Rightarrow> chat_world \<Rightarrow> chat_world res"
and setParticipantState ::
  "nat \<Rightarrow> uri_api \<Rightarrow> chat_room \<Rightarrow> address \<Rightarrow> ChatMessageState \<Rightarrow> int \<Rightarrow> LinphoneReason \<Rightarrow> chat_world \<Rightarrow> chat_world res"
where
  "setState 0 api room newState w = Inl Out_of_fuel"
| "setState (Suc n) api room newState w =
     (if \<not> allowed (cm_state (w_message w)) newState then Inr w
      else
        (let w1 = enter_state newState w;
             set_participant = (\<lambda>p s t. setParticipantState n api room p s t LinphoneReasonNone)
         in bindR (if cm_direction (w_message w1) = Outgoing \<and> cm_state (w_message w1) = Delivered
                   then deliver_participants api room set_participant w1 else Inr w1) (\<lambda>w2.
              after_notification api room (cm_state (w_message w)) (cm_automaticallyResent (w_message w)) set_participant
                (notify_state (leave_transient w2)))))"
| "setParticipantState 0 api room p newState t reason w = Inl Out_of_fuel"
| "setParticipantState (Suc n) api room p newState t reason w =
     (if \<not> allowed (getParticipantState api room p w) newState then Inr w
      else case room_me room of
        None \<Rightarrow> Inl Null_dereference
      | Some me \<Rightarrow>
        (let me_changes = weakEqual api p me;
             w1 = (if me_changes then send_imdn room newState reason w else w)
         in if \<not> msg_isValid (w_message w1) \<and> (getEvent w1 \<noteq> None \<or> newState = NotDelivered)
            then (if newState = NotDelivered then setState n api room newState w1 else Inr w1)
            else if room_backend room = Basic then setState n api room newState w1
            else
              bindR (if room_simple_group_state room then setState n api room newState w1
                     else move_participant api room me_changes p newState t reason (setState n api room)
                            (\<lambda>p s t. setParticipantState n api room p s t LinphoneReasonNone) w1) (\<lambda>w5.
                Inr (emit [Participant_imdn_state_changed (if me_changes then Some me else findParticipant api room p)
                             newState t] w5))))"

declare setState.simps [simp del] setParticipantState.simps [simp del]

text \<open>
  The fuel of the calls from outside.  The deepest chain is: me has received the message, me has read it, the message is
  delivered, a participant is delivered, the message is delivered (refused, since it is).
\<close>

definition state_fuel :: nat where
  "state_fuel = 5"

section \<open>Operations of a message\<close>

definition setStorageId :: "int \<Rightarrow> chat_world \<Rightarrow> chat_world" where
  "setStorageId i = update_message (\<lambda>m. m\<lparr>cm_storageId := i\<rparr>)"

definition msg_markAsRead :: "uri_api \<Rightarrow> chat_room \<Rightarrow> int \<Rightarrow> chat_world \<Rightarrow> chat_world res" where
  "msg_markAsRead api room unread_query w =
     (if \<not> msg_isValid (w_message w) then Inr w
      else
        (let w1 = update_message (\<lambda>m. m\<lparr>cm_markedAsRead := True\<rparr>) w
         in bindR (if hasFileTransferContent (w_message w1) then Inr w1
                   else setParticipantState state_fuel api room (cm_meAddress (w_message w1)) Displayed (room_now room)
                          LinphoneReasonNone w1) (\<lambda>w2.
            bindR (if cm_state (w_message w2) \<noteq> Displayed then updateInDb api room w2 else Inr w2) (\<lambda>w3.
              let count = (case w_unread w3 of Some c \<Rightarrow> c | None \<Rightarrow> unread_query); w4 = w3\<lparr>w_unread := Some count\<rparr>
              in Inr (if count = 0 then emit [Chat_room_read] w4 else w4)))))"

definition storeInDb :: "uri_api \<Rightarrow> chat_room \<Rightarrow> int option \<Rightarrow> chat_world \<Rightarrow> chat_world res" where
  "storeInDb api room new_id w =
     (if room_conference_server room then Inr w
      else if msg_isValid (w_message w) then updateInDb api room w
      else
        (let w1 = insertConferenceChatMessageEvent api room new_id w
         in bindR (if room_backend room = FlexisipChat
                   then setParticipantState state_fuel api room (cm_meAddress (w_message w1)) (cm_state (w_message w1))
                          (room_now room) LinphoneReasonNone w1
                   else Inr w1) (\<lambda>w2.
              Inr (if cm_direction (w_message w2) = Incoming \<and> \<not> hasFileTransferContent (w_message w2) then w2
                   else w2\<lparr>w_transientEvent := True\<rparr>))))"

text \<open>
  \<open>ChatMessage::send\<close>: what the chat room does with the message is the parameter \<open>sendChatMessage\<close>.
\<close>

definition send_refused :: "ChatMessageState \<Rightarrow> bool" where
  "send_refused s \<longleftrightarrow> s = InProgress \<or> s = Delivered \<or> s = FileTransferDone \<or> s = DeliveredToUser \<or> s = Displayed \<or>
     s = FileTransferInProgress"

definition msg_send :: "(chat_world \<Rightarrow> chat_world res) \<Rightarrow> chat_world \<Rightarrow> chat_world res" where
  "msg_send sendChatMessage w = (if send_refused (cm_state (w_message w)) then Inr w else sendChatMessage w)"

definition stopResendTimer :: "chat_world \<Rightarrow> chat_world" where
  "stopResendTimer = update_message (\<lambda>m. m\<lparr>cm_resendTimer := False\<rparr>)"

definition createResendTimer :: "chat_world \<Rightarrow> chat_world" where
  "createResendTimer w = update_message (\<lambda>m. m\<lparr>cm_resendTimer := True\<rparr>) (stopResendTimer w)"

definition handleAutomaticResend :: "(chat_world \<Rightarrow> chat_world res) \<Rightarrow> chat_world \<Rightarrow> chat_world res" where
  "handleAutomaticResend sendChatMessage w =
     bindR (msg_send sendChatMessage (update_message (\<lambda>m. m\<lparr>cm_automaticallyResent := True\<rparr>) w)) (\<lambda>w1. Inr (stopResendTimer w1))"

text \<open>The account of the local address, if there is one, is registered or not.\<close>

definition msg_onNetworkReachable ::
  "(chat_world \<Rightarrow> chat_world res) \<Rightarrow> bool \<Rightarrow> bool option \<Rightarrow> chat_world \<Rightarrow> chat_world res" where
  "msg_onNetworkReachable sendChatMessage sipNetworkReachable account_registered w =
     (if cm_state (w_message w) = PendingDelivery \<and> sipNetworkReachable \<and> account_registered = Some True
      then handleAutomaticResend sendChatMessage w else Inr w)"

definition msg_onAccountRegistrationStateChanged ::
  "(chat_world \<Rightarrow> chat_world res) \<Rightarrow> bool \<Rightarrow> bool \<Rightarrow> chat_world \<Rightarrow> chat_world res" where
  "msg_onAccountRegistrationStateChanged sendChatMessage account_of_message registration_ok w =
     (if cm_state (w_message w) \<noteq> PendingDelivery \<or> \<not> registration_ok then Inr w
      else if account_of_message then handleAutomaticResend sendChatMessage w else Inr w)"

definition msg_cancelFileTransfer :: "uri_api \<Rightarrow> chat_room \<Rightarrow> bool \<Rightarrow> bool \<Rightarrow> chat_world \<Rightarrow> chat_world res" where
  "msg_cancelFileTransfer api room transfer_in_progress auto_download w =
     (if transfer_in_progress \<and> cm_state (w_message w) = FileTransferInProgress
      then (if auto_download
            then bindR (setParticipantState state_fuel api room (cm_meAddress (w_message w)) Delivered (room_now room)
                          LinphoneReasonNone w) (\<lambda>w1. Inr (w1\<lparr>w_transientMessage := False\<rparr>))
            else setParticipantState state_fuel api room (cm_meAddress (w_message w)) NotDelivered (room_now room)
                   LinphoneReasonNone w)
      else Inr w)"

definition addListener :: "nat \<Rightarrow> chat_world \<Rightarrow> chat_world" where
  "addListener l = update_message (\<lambda>m. m\<lparr>cm_listeners := cm_listeners m @ [l]\<rparr>)"

definition removeListener :: "nat \<Rightarrow> chat_world \<Rightarrow> chat_world" where
  "removeListener l = update_message (\<lambda>m. m\<lparr>cm_listeners := removeAll l (cm_listeners m)\<rparr>)"

definition disableDeliveryNotificationRequiredInDatabase :: "chat_world \<Rightarrow> chat_world res" where
  "disableDeliveryNotificationRequiredInDatabase w =
     (if \<not> msg_isValid (w_message w) then Inr w
      else case getEvent w of
             None \<Rightarrow> Inl Null_dereference
           | Some e \<Rightarrow> Inr (w\<lparr>w_event := Some (e\<lparr>ev_delivery_notification_required := False\<rparr>)\<rparr>))"

definition disableDisplayNotificationRequiredInDatabase :: "chat_world \<Rightarrow> chat_world" where
  "disableDisplayNotificationRequiredInDatabase w =
     (case getEvent w of
        None \<Rightarrow> w
      | Some e \<Rightarrow> w\<lparr>w_event := Some (e\<lparr>ev_delivery_notification_required := False, ev_display_notification_required := False\<rparr>)\<rparr>)"

end
