(* ===== verification/Chat_Delivery.thy ===== *)
theory Chat_Delivery
  imports Chat_Message
begin

text \<open>
  Properties of the states of chat messages.  What \<open>setState\<close> and \<open>setParticipantState\<close> keep is proved once, in the locales
  \<open>message_steps\<close> and \<open>simple_steps\<close>: a relation that the parts of a call keep is kept by every call.  The interpretations
  instantiate it with the identity of the message (\<open>frame\<close>), the progress of the participants (\<open>rows\<close>), the announced states
  (\<open>path\<close>), the unread counter (\<open>unread\<close>), the stored mark (\<open>mark\<close>) and the notifications asked for (\<open>budget\<close>).
\<close>

section \<open>Basic facts\<close>

lemma world_simps [simp]:
  "w_message (emit es w) = w_message w" "w_event (emit es w) = w_event w" "w_unread (emit es w) = w_unread w"
  "w_out (emit es w) = w_out w @ es"
  "w_message (update_message f w) = f (w_message w)" "w_event (update_message f w) = w_event w"
  "w_unread (update_message f w) = w_unread w" "w_out (update_message f w) = w_out w"
  by (simp_all add: emit_def update_message_def)

lemma store_participant_simps [simp]:
  "w_message (store_participant api p s t w) = w_message w" "w_out (store_participant api p s t w) = w_out w"
  "w_unread (store_participant api p s t w) = w_unread w"
  "w_event (store_participant api p s t w) =
     (if cm_storageId (w_message w) < 0 then w_event w else map_option (setChatMessageParticipantState api p s t) (w_event w))"
  by (auto simp: store_participant_def getEvent_def split: option.splits)

lemma getEvent_simps [simp]: "getEvent (emit es w) = getEvent w"
  by (simp add: getEvent_def)

lemma getEvent_valid: "getEvent w \<noteq> None \<Longrightarrow> msg_isValid (w_message w)"
  by (simp add: getEvent_def msg_isValid_def split: if_splits)

lemma allowed_irrefl [simp]: "\<not> allowed s s"
  by (cases s) (simp_all add: fsm_isValid_def chatMessageFsmChecker_def)

lemma setState_same [simp]: "cm_state (w_message w) = s \<Longrightarrow> setState (Suc n) api room s w = Inr w"
  by (simp add: setState.simps)

lemma imdn_Delivered [simp]: "\<not> isImdnControlledState Delivered"
  by (simp add: isImdnControlledState_def)

lemma send_imdn_Delivered [simp]: "send_imdn room Delivered r w = w"
  by (simp add: send_imdn_def)

text \<open>Inside the loop over the participants of a delivered message nothing happens to the message.\<close>

inductive loop_steps :: "uri_api \<Rightarrow> chat_world \<Rightarrow> chat_world \<Rightarrow> bool" for api where
  none: "loop_steps api w w"
| announce: "loop_steps api w w' \<Longrightarrow> loop_steps api w (emit [Participant_imdn_state_changed p Delivered t] w')"
| store: "loop_steps api w w' \<Longrightarrow> loop_steps api w (store_participant api p Delivered t w')"

lemma loop_steps_message: "loop_steps api w w' \<Longrightarrow> w_message w' = w_message w"
  by (induction rule: loop_steps.induct) simp_all

lemma setParticipantState_Delivered:
  assumes d: "cm_state (w_message w) = Delivered" and w0: "loop_steps api w0 w"
  shows "setParticipantState (Suc n) api room p Delivered t LinphoneReasonNone w = Inr w' \<Longrightarrow> loop_steps api w0 w'"
    and "room_me room \<noteq> None \<Longrightarrow>
      \<exists>w'. setParticipantState (Suc (Suc n)) api room p Delivered t LinphoneReasonNone w = Inr w'"
proof -
  have inv: "\<not> (\<not> msg_isValid (w_message w) \<and> getEvent w \<noteq> None)" using getEvent_valid by blast
  show "setParticipantState (Suc n) api room p Delivered t LinphoneReasonNone w = Inr w' \<Longrightarrow> loop_steps api w0 w'"
    using d w0 inv by (cases n)
      (auto simp: setParticipantState.simps setState.simps(1) Let_def move_participant_def intro: loop_steps.intros
        split: if_splits option.splits)
  show "room_me room \<noteq> None \<Longrightarrow>
      \<exists>w'. setParticipantState (Suc (Suc n)) api room p Delivered t LinphoneReasonNone w = Inr w'"
    using d inv by (auto simp: setParticipantState.simps(2) [of "Suc n"] Let_def move_participant_def)
qed

lemma deliver_participants_loop:
  assumes run: "deliver_participants api room (\<lambda>p s t. setParticipantState n api room p s t LinphoneReasonNone) w = Inr w2"
    and d: "cm_state (w_message w) = Delivered"
  shows "loop_steps api w w2"
proof -
  let ?f = "\<lambda>w' (row :: participant_row). if isMe api room (fst row) then Inr w'
    else setParticipantState n api room (fst row) (cm_state (w_message w')) (cm_time (w_message w')) LinphoneReasonNone w'"
  from run obtain rows where "foldR ?f w rows = Inr w2" by (auto simp: deliver_participants_def bindR_eq_Inr)
  moreover have "loop_steps api w w2" if "foldR ?f w1 rows = Inr w2" and "loop_steps api w w1" for w1
    using that
  proof (induction rows arbitrary: w1)
    case (Cons r rows)
    have d1: "cm_state (w_message w1) = Delivered" using loop_steps_message [OF Cons.prems(2)] d by simp
    from Cons.prems(1) obtain w' where w': "?f w1 r = Inr w'" and rest: "foldR ?f w' rows = Inr w2"
      by (auto simp: bindR_eq_Inr)
    have "loop_steps api w w'"
    proof (cases "isMe api room (fst r)")
      case False
      with w' obtain k where k: "n = Suc k" by (cases n) (auto simp: setParticipantState.simps)
      with False w' d1 show ?thesis using setParticipantState_Delivered(1) [OF d1 Cons.prems(2)] by auto
    qed (use w' Cons.prems(2) in simp)
    with Cons.IH rest show ?case by blast
  qed simp
  ultimately show ?thesis using loop_steps.none by blast
qed

lemma aggregated_state_cases:
  "aggregated_state api from rows = Some s \<Longrightarrow> s = NotDelivered \<or> s = Displayed \<or> s = DeliveredToUser \<or> s = Delivered"
  by (auto simp: aggregated_state_def Let_def split: if_splits)

lemma finish_state_cases:
  assumes "finish_state api room b w = Inr w'"
  obtains w1 w2 where "w1 = w \<or> w1 = startEphemeralCountDown room w"
    "updateInDb api room w1 = Inr w2 \<or> w2 = w1 \<and> cm_state (w_message w) \<noteq> Displayed"
    "w' = arm_resend b (fst (release_sal_op w2)) (snd (release_sal_op w2))"
proof -
  let ?w1 = "if cm_isEphemeral (w_message w) \<and> cm_state (w_message w) = Displayed then startEphemeralCountDown room w else w"
  from assms obtain w2 where "updateInDb api room ?w1 = Inr w2 \<or> w2 = ?w1 \<and> cm_state (w_message w) \<noteq> Displayed"
    and "w' = arm_resend b (fst (release_sal_op w2)) (snd (release_sal_op w2))"
    by (fastforce simp: finish_state_def Let_def bindR_eq_Inr case_prod_beta split: if_splits)
  then show ?thesis by (rule that [rotated]) simp
qed

section \<open>What the two operations keep\<close>

text \<open>
  A relation between the worlds before and after is kept by every call as soon as the steps that do not recur keep it.
  \<open>passes\<close> says which states may be reported of which participant; the reports of the recursion itself are among them.
\<close>

locale message_steps =
  fixes api :: uri_api and room :: chat_room and passes :: "address \<Rightarrow> ChatMessageState \<Rightarrow> bool"
    and R :: "chat_world \<Rightarrow> chat_world \<Rightarrow> bool"
  assumes R_refl: "R w w"
    and R_trans: "R w1 w2 \<Longrightarrow> R w2 w3 \<Longrightarrow> R w1 w3"
    and R_change: "allowed (cm_state (w_message w)) s \<Longrightarrow> loop_steps api (enter_state s w) w2 \<Longrightarrow>
      s = FileTransferDone \<or> s = Delivered \<Longrightarrow> R w (notify_state (leave_transient w2))"
    and R_turn: "allowed (cm_state (w_message w)) s \<Longrightarrow> loop_steps api (enter_state s w) w2 \<Longrightarrow>
      finish_state api room resent (notify_state (leave_transient w2)) = Inr w' \<Longrightarrow> R w w'"
    and R_imdn: "R w (send_imdn room s reason w)"
    and R_store: "passes p s \<Longrightarrow> R w (store_participant api p s t w)"
    and R_announce: "R w (emit [Participant_imdn_state_changed q s t] w)"
    and R_rejected: "R w (emit [Message_rejected] w)"
    and passes_recursive: "passes p Displayed" "passes p Delivered"
begin

lemma steps_setState:
  assumes pst: "\<And>p s t r w w'. passes p s \<Longrightarrow> setParticipantState n api room p s t r w = Inr w' \<Longrightarrow> R w w'"
    and run: "setState (Suc n) api room s w = Inr w'"
  shows "R w w'"
proof (cases "allowed (cm_state (w_message w)) s")
  case True
  let ?set = "\<lambda>p s t. setParticipantState n api room p s t LinphoneReasonNone"
  from True run obtain w2 where
    w2: "(if cm_direction (w_message (enter_state s w)) = Outgoing \<and> cm_state (w_message (enter_state s w)) = Delivered
      then deliver_participants api room ?set (enter_state s w) else Inr (enter_state s w)) = Inr w2"
    and fin: "after_notification api room (cm_state (w_message w)) (cm_automaticallyResent (w_message w)) ?set
      (notify_state (leave_transient w2)) = Inr w'"
    by (auto simp: setState.simps Let_def bindR_eq_Inr)
  have loop: "loop_steps api (enter_state s w) w2"
    using w2 deliver_participants_loop by (auto simp: loop_steps.none split: if_splits)
  let ?w3 = "notify_state (leave_transient w2)"
  have "cm_state (w_message ?w3) = s"
    using loop_steps_message [OF loop] by (simp add: notify_state_def leave_transient_def enter_state_def Let_def)
  with fin consider "finish_state api room (cm_automaticallyResent (w_message w)) ?w3 = Inr w'"
    | "s = FileTransferDone \<or> s = Delivered" "R ?w3 w'"
    using pst [OF passes_recursive(1)] R_refl by (auto simp: after_notification_def Let_def split: if_splits option.splits)
  then show ?thesis using R_turn [OF True loop] R_trans [OF R_change [OF True loop]] by cases blast+
qed (use run R_refl in \<open>simp add: setState.simps\<close>)

lemma steps_aggregate:
  assumes "\<And>s w w'. set_msg s w = Inr w' \<Longrightarrow> R w w'" and "aggregate api room set_msg w = Inr w'"
  shows "R w w'"
  using assms R_refl
  by (fastforce simp: aggregate_def bindR_eq_Inr split: option.splits)

lemma steps_move_participant:
  assumes st: "\<And>s w w'. set_msg s w = Inr w' \<Longrightarrow> R w w'"
    and pst: "\<And>p s t w w'. passes p s \<Longrightarrow> set_participant p s t w = Inr w' \<Longrightarrow> R w w'"
    and s: "passes p s" and run: "move_participant api room b p s t r set_msg set_participant w = Inr w'"
  shows "R w w'"
proof -
  let ?w1 = "store_participant api p s t w"
  from run obtain w2 w3 w4 where w2: "(if b \<and> \<not> isImdnControlledState s then set_msg s ?w1 else Inr ?w1) = Inr w2"
    and w3: "(if isImdnControlledState s then aggregate api room set_msg w2 else Inr w2) = Inr w3"
    and w4: "(if b \<and> weakEqual api (cm_fromAddress (w_message w3)) p \<and> s = DeliveredToUser
      then set_participant p Displayed (room_now room) w3 else Inr w3) = Inr w4"
    and w': "w' = (if b \<and> s = NotDelivered \<and> r = LinphoneReasonForbidden then emit [Message_rejected] w4 else w4)"
    by (auto simp: move_participant_def Let_def bindR_eq_Inr)
  have "R ?w1 w2" using w2 st R_refl by (auto split: if_splits)
  also have "R w2 w3" using w3 steps_aggregate [OF st] R_refl by (auto split: if_splits)
  also (R_trans) have "R w3 w4" using w4 pst [OF passes_recursive(1)] R_refl by (auto split: if_splits)
  also (R_trans) have "R w4 w'" using w' R_rejected R_refl by simp
  finally (R_trans) show ?thesis by (rule R_trans [OF R_store [OF s]])
qed

lemma steps_setParticipantState:
  assumes st: "\<And>s w w'. setState n api room s w = Inr w' \<Longrightarrow> R w w'"
    and pst: "\<And>p s t r w w'. passes p s \<Longrightarrow> setParticipantState n api room p s t r w = Inr w' \<Longrightarrow> R w w'"
    and s: "passes p s" and run: "setParticipantState (Suc n) api room p s t r w = Inr w'"
  shows "R w w'"
proof (cases "allowed (getParticipantState api room p w) s")
  case True
  from True run obtain me where me: "room_me room = Some me" by (auto simp: setParticipantState.simps split: option.splits)
  define w1 where "w1 = (if weakEqual api p me then send_imdn room s r w else w)"
  have r1: "R w w1" using R_imdn R_refl by (simp add: w1_def)
  let ?move = "move_participant api room (weakEqual api p me) p s t r (setState n api room)
    (\<lambda>p s t. setParticipantState n api room p s t LinphoneReasonNone) w1"
  have move: "R w1 w5" if "?move = Inr w5" for w5 by (rule steps_move_participant [OF st pst s that])
  have announced: "R w1 (emit [Participant_imdn_state_changed q s t] w5)"
    if "(if room_simple_group_state room then setState n api room s w1 else ?move) = Inr w5" for q w5
  proof -
    have "R w1 w5" using that st move by (simp split: if_splits)
    then show ?thesis using R_announce R_trans by blast
  qed
  have "R w1 w'"
    using run True me st R_refl
    by (simp add: setParticipantState.simps Let_def flip: w1_def split: if_splits)
      (auto simp: bindR_eq_Inr intro!: announced)
  with r1 R_trans show ?thesis by blast
qed (use run R_refl in \<open>simp add: setParticipantState.simps\<close>)

lemma steps:
  "(setState n api room s w = Inr w' \<longrightarrow> R w w') \<and>
   (passes p s \<longrightarrow> setParticipantState n api room p s t r w = Inr w' \<longrightarrow> R w w')"
proof (induction n arbitrary: p s t r w w')
  case 0
  show ?case by (simp add: setState.simps setParticipantState.simps)
next
  case (Suc n)
  then have "\<And>p s t r w w'. passes p s \<Longrightarrow> setParticipantState n api room p s t r w = Inr w' \<Longrightarrow> R w w'"
    and "\<And>s w w'. setState n api room s w = Inr w' \<Longrightarrow> R w w'" by blast+
  then show ?case using steps_setState [of n s w w'] steps_setParticipantState [of n p s t r w w'] by auto
qed

lemmas setState_steps = steps [THEN conjunct1, rule_format]
lemmas setParticipantState_steps = steps [THEN conjunct2, rule_format]

end

text \<open>The same, for relations that the parts of a change of state keep one by one.\<close>

locale simple_steps =
  fixes api :: uri_api and room :: chat_room and passes :: "address \<Rightarrow> ChatMessageState \<Rightarrow> bool"
    and R :: "chat_world \<Rightarrow> chat_world \<Rightarrow> bool"
  assumes S_refl: "R w w"
    and S_trans: "R w1 w2 \<Longrightarrow> R w2 w3 \<Longrightarrow> R w1 w3"
    and S_enter: "allowed (cm_state (w_message w)) s \<Longrightarrow> R w (enter_state s w)"
    and S_leave: "R w (leave_transient w)"
    and S_notify: "R w (notify_state w)"
    and S_ephemeral: "R w (startEphemeralCountDown room w)"
    and S_update: "updateInDb api room w = Inr w' \<Longrightarrow> R w w'"
    and S_release: "R w (snd (release_sal_op w))"
    and S_arm: "R w (arm_resend b1 b2 w)"
    and S_imdn: "R w (send_imdn room s reason w)"
    and S_store: "passes p s \<Longrightarrow> R w (store_participant api p s t w)"
    and S_announce: "R w (emit [Participant_imdn_state_changed q s t] w)"
    and S_rejected: "R w (emit [Message_rejected] w)"
    and S_passes: "passes p Displayed" "passes p Delivered"
begin

lemma simple_loop: "loop_steps api w w' \<Longrightarrow> R w w'"
proof (induction rule: loop_steps.induct)
  case (announce w w' p t)
  then show ?case using S_trans S_announce by blast
next
  case (store w w' p t)
  then show ?case using S_trans S_store S_passes(2) by blast
qed (rule S_refl)

lemma simple_change:
  assumes "allowed (cm_state (w_message w)) s" "loop_steps api (enter_state s w) w2"
  shows "R w (notify_state (leave_transient w2))"
  by (rule S_trans [OF S_trans [OF S_enter [OF assms(1)] simple_loop [OF assms(2)]] S_trans [OF S_leave S_notify]])

lemma simple_finish:
  assumes "finish_state api room b w = Inr w'"
  shows "R w w'"
  using assms
proof (rule finish_state_cases)
  fix w1 w2 assume "w1 = w \<or> w1 = startEphemeralCountDown room w"
    and "updateInDb api room w1 = Inr w2 \<or> w2 = w1 \<and> cm_state (w_message w) \<noteq> Displayed"
    and "w' = arm_resend b (fst (release_sal_op w2)) (snd (release_sal_op w2))"
  then have "R w w1" "R w1 w2" "R w2 w'"
    using S_ephemeral S_refl S_update S_trans [OF S_release S_arm] by auto
  then show ?thesis using S_trans by blast
qed

end

sublocale simple_steps \<subseteq> message_steps api room passes R
  by unfold_locales
    (fact S_refl, (rule S_trans, assumption+), (rule simple_change, assumption+),
     (rule S_trans [OF simple_change simple_finish], assumption+),
     fact S_imdn, (rule S_store, assumption), fact S_announce, fact S_rejected, fact S_passes(1), fact S_passes(2))

section \<open>What stays\<close>

text \<open>The identity of a message, whether it is read, and that its event exists.\<close>

definition same_message :: "chat_world \<Rightarrow> chat_world \<Rightarrow> bool" where
  "same_message w w' \<longleftrightarrow>
     cm_direction (w_message w') = cm_direction (w_message w) \<and> cm_storageId (w_message w') = cm_storageId (w_message w) \<and>
     cm_fromAddress (w_message w') = cm_fromAddress (w_message w) \<and> cm_time (w_message w') = cm_time (w_message w) \<and>
     cm_markedAsRead (w_message w') = cm_markedAsRead (w_message w) \<and>
     cm_meAddress (w_message w') = cm_meAddress (w_message w) \<and> (w_event w' = None \<longleftrightarrow> w_event w = None)"

lemmas part_defs = enter_state_def leave_transient_def notify_state_def startEphemeralCountDown_def release_sal_op_def
  arm_resend_def send_imdn_def sendDisplayNotification_def sendDeliveryNotification_def sendDeliveryErrorNotification_def
  restoreFileTransferContentAsFileContent_def

lemma updateInDb_cases:
  assumes "updateInDb api room w = Inr w'"
  obtains (kept) "w' = w" "getEvent w = None"
  | (stored) e b where "w_message w' = w_message w" "w_out w' = w_out w" "w_event w = Some e"
      "w_unread w' = update_unread (w_message w) e (w_unread w)"
      "b \<Longrightarrow> cm_state (w_message w) = NotDelivered \<or> cm_state (w_message w) = Delivered"
      "w_event w' = Some (if b then spread_state api (cm_state (w_message w)) (room_now room) (stored_event (w_message w) e)
         else stored_event (w_message w) e)"
proof (cases "msg_isValid (w_message w) \<and> getEvent w \<noteq> None")
  case False
  then have "getEvent w = None" using getEvent_valid by blast
  with assms have "w' = w" by (auto simp: updateInDb_def split: if_splits)
  with \<open>getEvent w = None\<close> show ?thesis using kept by simp
next
  case True
  then obtain e where e: "getEvent w = Some e" "w_event w = Some e" by (auto simp: getEvent_def split: if_splits)
  with True assms obtain w1 where w1: "updateConferenceChatMessageEvent api room e w = Inr w1"
    and w': "w' = w1 \<or> w' = w1\<lparr>w_transientEvent := False\<rparr>"
    by (auto simp: updateInDb_def Let_def bindR_eq_Inr split: if_splits)
  from w1 obtain req where req: "requires_updating_participants api room (cm_state (w_message w)) e = Inr req"
    by (auto simp: updateConferenceChatMessageEvent_def Let_def bindR_eq_Inr)
  then have "req \<Longrightarrow> cm_state (w_message w) = NotDelivered \<or> cm_state (w_message w) = Delivered"
    by (simp add: requires_updating_participants_def split: if_splits)
  with w1 w' req e(2) show ?thesis
    using stored [of e "cm_direction (w_message w) = Outgoing \<and> req \<and> room_conference room \<and> msg_isValid (w_message w)"]
    by (auto simp: updateConferenceChatMessageEvent_def Let_def)
qed

lemma same_message_parts:
  "same_message w (enter_state s w)" "same_message w (leave_transient w)" "same_message w (notify_state w)"
  "same_message w (snd (release_sal_op w))" "same_message w (arm_resend b1 b2 w)" "same_message w (send_imdn room s reason w)"
  "same_message w (emit es w)" "same_message w (startEphemeralCountDown room w)"
  by (simp_all add: same_message_def part_defs Let_def getEvent_def split: option.split)

lemma same_message_update: "updateInDb api room w = Inr w' \<Longrightarrow> same_message w w'"
  by (erule updateInDb_cases) (simp_all add: same_message_def)

interpretation frame: simple_steps api room "\<lambda>_ _. True" same_message for api room
  by unfold_locales (simp_all add: same_message_parts same_message_update, simp_all add: same_message_def)

section \<open>Rows of participants\<close>

text \<open>A participant who has received the message does not go back.\<close>

definition received :: "ChatMessageState \<Rightarrow> bool" where
  "received s \<longleftrightarrow> s = DeliveredToUser \<or> s = Displayed"

text \<open>The states of a transfer, of a message that waits for the network and of a cancelled transfer come after \<open>Displayed\<close> in the enumeration.\<close>

definition transfer_state :: "ChatMessageState \<Rightarrow> bool" where
  "transfer_state s \<longleftrightarrow> s = FileTransferInProgress \<or> s = PendingDelivery \<or> s = FileTransferCancelling"

definition rows_progress :: "string \<Rightarrow> event_row \<Rightarrow> event_row \<Rightarrow> bool" where
  "rows_progress key e e' \<longleftrightarrow> (\<forall>s. row_state key e = Some s \<and> received s \<longrightarrow>
     (\<exists>s'. row_state key e' = Some s' \<and> received s' \<and> state_number s \<le> state_number s'))"

definition progress :: "string \<Rightarrow> chat_world \<Rightarrow> chat_world \<Rightarrow> bool" where
  "progress key w w' \<longleftrightarrow> (\<forall>e. w_event w = Some e \<longrightarrow> (\<exists>e'. w_event w' = Some e' \<and> rows_progress key e e'))"

lemma rows_progress_refl [simp]: "rows_progress key e e"
  by (auto simp: rows_progress_def)

lemma rows_progress_trans: "rows_progress key e1 e2 \<Longrightarrow> rows_progress key e2 e3 \<Longrightarrow> rows_progress key e1 e3"
  unfolding rows_progress_def by (meson order_trans)

lemma rows_progress_cong: "ev_participants e = ev_participants e' \<Longrightarrow> rows_progress key e e'"
  by (auto simp: rows_progress_def row_state_def)

lemma row_state_set_row: "row_state key (set_row k s t e) = (if key = k \<and> row_state k e \<noteq> None then Some s else row_state key e)"
proof -
  have "map_of (map (\<lambda>(k', s', t'). if k' = k then (k', s, t) else (k', s', t')) rows) key =
      (if key = k then map_option (\<lambda>_. (s, t)) (map_of rows k) else map_of rows key)" for rows
    by (induction rows) auto
  then show ?thesis by (cases "map_of (ev_participants e) k") (simp_all add: row_state_def set_row_def)
qed

lemma row_state_append: "row_state key e = None \<Longrightarrow>
  row_state k (e\<lparr>ev_participants := ev_participants e @ [(key, s, t)]\<rparr>) = (if k = key then Some s else row_state k e)"
  by (auto simp: row_state_def map_add_def split: option.splits)

text \<open>The state of a row after a participant's state was stored.\<close>

lemma row_state_setParticipant:
  "row_state key (setChatMessageParticipantState api p s t e) =
     (if key = toStringUriOnlyOrdered api (getUriWithoutGruu api p)
      then (case row_state key e of None \<Rightarrow> Some s
            | Some s0 \<Rightarrow> Some (if state_number s < state_number s0 \<and> received s0 then s0 else s))
      else row_state key e)"
  by (auto simp: setChatMessageParticipantState_def Let_def received_def row_state_set_row row_state_append split: option.splits)

lemma transfer_state_number: "transfer_state s \<longleftrightarrow> 7 < state_number s"
  by (cases s) (simp_all add: transfer_state_def)

lemma received_number: "received s \<longleftrightarrow> state_number s = 6 \<or> state_number s = 7"
  by (cases s) (simp_all add: received_def)

lemma rows_progress_set:
  assumes "toStringUriOnlyOrdered api (getUriWithoutGruu api p) = key \<longrightarrow> \<not> transfer_state s"
  shows "rows_progress key e (setChatMessageParticipantState api p s t e)"
  using assms unfolding rows_progress_def row_state_setParticipant
  by (auto simp: received_number transfer_state_number)

lemma rows_progress_spread: "\<not> transfer_state s \<Longrightarrow> rows_progress key e (spread_state api s t e)"
proof -
  assume "\<not> transfer_state s"
  then have "rows_progress key e0 (foldl (\<lambda>e' row. setChatMessageParticipantState api (fst row) s t e') e0 rows)"
    for e0 and rows :: "participant_row list"
    by (induction rows arbitrary: e0) (auto intro: rows_progress_trans rows_progress_set)
  then show ?thesis by (simp add: spread_state_def)
qed

lemma progress_same: "w_event w' = w_event w \<Longrightarrow> progress key w w'"
  by (simp add: progress_def)

lemma progress_parts:
  "progress key w (enter_state s w)" "progress key w (leave_transient w)" "progress key w (notify_state w)"
  "progress key w (snd (release_sal_op w))" "progress key w (arm_resend b1 b2 w)" "progress key w (send_imdn room s reason w)"
  "progress key w (emit es w)"
  by (rule progress_same, simp add: part_defs Let_def)+

lemma progress_ephemeral: "progress key w (startEphemeralCountDown room w)"
  by (auto simp: progress_def startEphemeralCountDown_def getEvent_def Let_def intro: rows_progress_cong split: option.splits)

lemma progress_update: "updateInDb api room w = Inr w' \<Longrightarrow> progress key w w'"
proof (erule updateInDb_cases)
  fix e b assume e: "w_event w = Some e" and b: "b \<Longrightarrow> cm_state (w_message w) = NotDelivered \<or> cm_state (w_message w) = Delivered"
    and w': "w_event w' = Some (if b then spread_state api (cm_state (w_message w)) (room_now room) (stored_event (w_message w) e)
       else stored_event (w_message w) e)"
  have "rows_progress key e (stored_event (w_message w) e)" by (rule rows_progress_cong) (simp add: stored_event_def)
  moreover from this have "b \<Longrightarrow> rows_progress key e (spread_state api (cm_state (w_message w)) (room_now room) (stored_event (w_message w) e))"
    using b rows_progress_trans [OF _ rows_progress_spread] by (fastforce simp: transfer_state_def)
  ultimately show "progress key w w'" using e w' by (simp add: progress_def)
qed (simp add: progress_same)

lemma progress_trans: "progress key w1 w2 \<Longrightarrow> progress key w2 w3 \<Longrightarrow> progress key w1 w3"
  unfolding progress_def by (meson rows_progress_trans)

lemma progress_store: "(toStringUriOnlyOrdered api (getUriWithoutGruu api p) = key \<longrightarrow> \<not> transfer_state s) \<Longrightarrow> progress key w (store_participant api p s t w)"
  by (auto simp: progress_def intro: rows_progress_set)

interpretation rows: simple_steps api room "\<lambda>p s. toStringUriOnlyOrdered api (getUriWithoutGruu api p) = key \<longrightarrow> \<not> transfer_state s"
    "progress key" for api room key
  by unfold_locales
    (simp_all add: transfer_state_def progress_parts progress_ephemeral progress_update progress_same progress_store,
     auto intro: progress_trans)

section \<open>Announced states\<close>

fun announced :: "effect list \<Rightarrow> ChatMessageState list" where
  "announced [] = []"
| "announced (e # es) = (case e of State_changed s \<Rightarrow> s # announced es | _ \<Rightarrow> announced es)"

fun fsm_path :: "ChatMessageState \<Rightarrow> ChatMessageState list \<Rightarrow> ChatMessageState \<Rightarrow> bool" where
  "fsm_path s [] s' \<longleftrightarrow> s' = s"
| "fsm_path s (x # xs) s' \<longleftrightarrow> allowed s x \<and> fsm_path x xs s'"

definition follows :: "chat_world \<Rightarrow> chat_world \<Rightarrow> bool" where
  "follows w w' \<longleftrightarrow> (\<exists>es. w_out w' = w_out w @ es \<and>
     fsm_path (cm_state (w_message w)) (announced es) (cm_state (w_message w')))"

lemma announced_append [simp]: "announced (xs @ ys) = announced xs @ announced ys"
  by (induction xs) (auto split: effect.split)

lemma announced_calls [simp]: "announced (map (\<lambda>l. Listener_called l s) ls) = []"
  by (induction ls) simp_all

lemma fsm_path_append: "fsm_path s xs s' \<Longrightarrow> fsm_path s' ys s'' \<Longrightarrow> fsm_path s (xs @ ys) s''"
  by (induction xs arbitrary: s) auto

lemma follows_trans: "follows w1 w2 \<Longrightarrow> follows w2 w3 \<Longrightarrow> follows w1 w3"
  unfolding follows_def by (metis announced_append append_assoc fsm_path_append)

lemma follows_quiet: "w_out w' = w_out w @ es \<Longrightarrow> announced es = [] \<Longrightarrow>
  cm_state (w_message w') = cm_state (w_message w) \<Longrightarrow> follows w w'"
  by (auto simp: follows_def)

lemma follows_same: "w_out w' = w_out w \<Longrightarrow> cm_state (w_message w') = cm_state (w_message w) \<Longrightarrow> follows w w'"
  by (rule follows_quiet [of _ _ "[]"]) simp_all

lemma loop_steps_out: "loop_steps api w w' \<Longrightarrow> \<exists>es. w_out w' = w_out w @ es \<and> announced es = []"
  by (induction rule: loop_steps.induct) auto

lemma follows_change:
  assumes "allowed (cm_state (w_message w)) s" and "loop_steps api (enter_state s w) w2"
  shows "follows w (notify_state (leave_transient w2))"
proof -
  obtain es where es: "w_out w2 = w_out w @ es" "announced es = []" using loop_steps_out [OF assms(2)] by (auto simp: enter_state_def)
  have "cm_state (w_message w2) = s" using loop_steps_message [OF assms(2)] by (simp add: enter_state_def)
  then have "cm_state (w_message (notify_state (leave_transient w2))) = s \<and>
      w_out (notify_state (leave_transient w2)) = w_out w @ es @ State_changed s # map (\<lambda>l. Listener_called l s) (cm_listeners (w_message w2))"
    using es by (simp add: notify_state_def leave_transient_def Let_def)
  then show ?thesis using assms(1) es unfolding follows_def
    by (intro exI [of _ "es @ State_changed s # map (\<lambda>l. Listener_called l s) (cm_listeners (w_message w2))"]) simp
qed

lemma follows_ephemeral: "follows w (startEphemeralCountDown room w)"
  by (rule follows_quiet [of _ _ "if getEvent w = None then [] else [Ephemeral_timer_started]"])
    (auto simp: startEphemeralCountDown_def getEvent_def Let_def split: option.splits)

lemma follows_finish:
  assumes "finish_state api room b w = Inr w'"
  shows "follows w w'"
  using assms
proof (rule finish_state_cases)
  fix w1 w2 assume w1: "w1 = w \<or> w1 = startEphemeralCountDown room w"
    and w2: "updateInDb api room w1 = Inr w2 \<or> w2 = w1 \<and> cm_state (w_message w) \<noteq> Displayed"
    and w': "w' = arm_resend b (fst (release_sal_op w2)) (snd (release_sal_op w2))"
  have "follows w w1" using w1 follows_ephemeral follows_same by auto
  moreover have "follows w1 w2" using w2 by (auto elim!: updateInDb_cases intro: follows_same)
  moreover have "follows w2 w'" unfolding w' by (rule follows_same) (simp_all add: part_defs Let_def)
  ultimately show ?thesis by (blast intro: follows_trans)
qed

lemma follows_imdn: "follows w (send_imdn room s reason w)"
  unfolding follows_def by (auto simp: part_defs)

lemma follows_emit: "announced es = [] \<Longrightarrow> follows w (emit es w)"
  by (rule follows_quiet) simp_all

interpretation path: message_steps api room "\<lambda>_ _. True" follows for api room
  by unfold_locales
    (simp_all add: follows_change follows_imdn follows_same follows_emit,
     erule (1) follows_trans, rule follows_trans [OF follows_change follows_finish])

section \<open>Enough fuel\<close>

text \<open>The participant me is known, and a stored message has its event.\<close>

definition ready :: "chat_room \<Rightarrow> chat_world \<Rightarrow> bool" where
  "ready room w \<longleftrightarrow> room_me room \<noteq> None \<and> (msg_isValid (w_message w) \<longrightarrow> w_event w \<noteq> None)"

lemma ready_same: "ready room w \<Longrightarrow> same_message w w' \<Longrightarrow> ready room w'"
  by (simp add: ready_def same_message_def msg_isValid_def)

lemma ready_getParticipantsState: "ready room w \<Longrightarrow> \<exists>rows. getParticipantsState api room w = Inr rows"
  by (auto simp: ready_def getParticipantsState_def getEvent_def msg_isValid_def split: option.split)

lemma ready_updateInDb: "ready room w \<Longrightarrow> \<exists>w'. updateInDb api room w = Inr w'"
  by (auto simp: ready_def updateInDb_def updateConferenceChatMessageEvent_def requires_updating_participants_def Let_def split: option.split)

lemma ready_finish: "ready room w \<Longrightarrow> \<exists>w'. finish_state api room b w = Inr w'"
proof -
  assume "ready room w"
  then have "ready room w" "ready room (startEphemeralCountDown room w)" using ready_same same_message_parts(8) by blast+
  then show ?thesis using ready_updateInDb [of room w api] ready_updateInDb [of room "startEphemeralCountDown room w" api]
    by (auto simp: finish_state_def Let_def case_prod_beta)
qed

lemma ready_deliver:
  assumes "ready room w" and d: "cm_state (w_message w) = Delivered"
  shows "\<exists>w'. deliver_participants api room (\<lambda>p s t. setParticipantState (Suc (Suc n)) api room p s t LinphoneReasonNone) w = Inr w'"
proof -
  let ?f = "\<lambda>w' (row :: participant_row). if isMe api room (fst row) then Inr w' else setParticipantState (Suc (Suc n)) api room (fst row)
    (cm_state (w_message w')) (cm_time (w_message w')) LinphoneReasonNone w'"
  have me: "room_me room \<noteq> None" using assms(1) by (simp add: ready_def)
  have step: "\<exists>w2. ?f w1 row = Inr w2 \<and> cm_state (w_message w2) = Delivered" if "cm_state (w_message w1) = Delivered" for w1 row
    using setParticipantState_Delivered [OF that loop_steps.none, where n = "Suc n"] setParticipantState_Delivered(2) [OF that loop_steps.none me]
      loop_steps_message that by (cases "isMe api room (fst row)") (simp, metis)
  have "\<exists>w'. foldR ?f w1 rows = Inr w'" if "cm_state (w_message w1) = Delivered" for rows w1
    using that
  proof (induction rows arbitrary: w1)
    case (Cons r rows)
    from step [OF Cons.prems, of r] obtain w2 where "?f w1 r = Inr w2" "cm_state (w_message w2) = Delivered" by blast
    with Cons.IH show ?case by simp
  qed simp
  with d ready_getParticipantsState [OF assms(1), of api] show ?thesis by (auto simp: deliver_participants_def)
qed

text \<open>\<open>setState\<close> needs three levels for an outgoing message, and one for an incoming one unless its transfer ends.\<close>

lemma setState_total:
  assumes r: "ready room w"
    and fuel: "cm_direction (w_message w) = Outgoing \<Longrightarrow> 2 \<le> n"
    and ftd: "\<And>me w'. cm_direction (w_message w) = Incoming \<Longrightarrow> s = FileTransferDone \<Longrightarrow> ready room w' \<Longrightarrow>
      cm_direction (w_message w') = Incoming \<Longrightarrow>
      \<exists>w''. setParticipantState n api room me Displayed (room_now room) LinphoneReasonNone w' = Inr w''"
  shows "\<exists>w'. setState (Suc n) api room s w = Inr w'"
proof (cases "allowed (cm_state (w_message w)) s")
  case True
  let ?w1 = "enter_state s w" and ?set = "\<lambda>p s t. setParticipantState n api room p s t LinphoneReasonNone"
  have w1: "ready room ?w1" "cm_state (w_message ?w1) = s" "cm_direction (w_message ?w1) = cm_direction (w_message w)"
    using ready_same [OF r same_message_parts(1)] by (simp_all add: enter_state_def)
  have "\<exists>w2. (if cm_direction (w_message ?w1) = Outgoing \<and> cm_state (w_message ?w1) = Delivered
      then deliver_participants api room ?set ?w1 else Inr ?w1) = Inr w2"
  proof (cases "cm_direction (w_message ?w1) = Outgoing \<and> cm_state (w_message ?w1) = Delivered")
    case True
    with fuel w1(3) obtain k where "n = Suc (Suc k)" by (metis numeral_2_eq_2 Suc_le_D Suc_le_mono)
    with ready_deliver [OF w1(1), of api k] True show ?thesis by auto
  qed auto
  then obtain w2 where w2: "(if cm_direction (w_message ?w1) = Outgoing \<and> cm_state (w_message ?w1) = Delivered
      then deliver_participants api room ?set ?w1 else Inr ?w1) = Inr w2" ..
  have "loop_steps api ?w1 w2" using w2 deliver_participants_loop by (auto simp: loop_steps.none split: if_splits)
  then have m: "same_message ?w1 w2" "cm_state (w_message w2) = s" using frame.simple_loop loop_steps_message w1(2) by auto
  let ?w3 = "notify_state (leave_transient w2)"
  have "ready room ?w3" using w1(1) m(1) same_message_parts(2,3) ready_same by blast
  moreover have "cm_state (w_message ?w3) = s \<and> cm_direction (w_message ?w3) = cm_direction (w_message w)"
    using m w1(3) by (simp add: notify_state_def leave_transient_def same_message_def Let_def)
  ultimately have "\<exists>w'. after_notification api room (cm_state (w_message w)) (cm_automaticallyResent (w_message w)) ?set ?w3 = Inr w'"
    using ftd ready_finish r by (auto simp: after_notification_def Let_def ready_def [of room w])
  with True w2 show ?thesis by (simp add: setState.simps Let_def)
qed (simp add: setState.simps)

lemma setParticipantState_total_step:
  assumes r: "ready room w"
    and st: "\<And>w' s'. ready room w' \<Longrightarrow> cm_direction (w_message w') = cm_direction (w_message w) \<Longrightarrow>
      s' = s \<or> s' = NotDelivered \<or> s' = Displayed \<or> s' = DeliveredToUser \<or> s' = Delivered \<Longrightarrow> \<exists>w''. setState n api room s' w' = Inr w''"
    and pst: "\<And>w'. s = DeliveredToUser \<Longrightarrow> ready room w' \<Longrightarrow> cm_direction (w_message w') = cm_direction (w_message w) \<Longrightarrow>
      \<exists>w''. setParticipantState n api room p Displayed (room_now room) LinphoneReasonNone w' = Inr w''"
  shows "\<exists>w'. setParticipantState (Suc n) api room p s t reason w = Inr w'"
proof -
  obtain me where me: "room_me room = Some me" using r by (auto simp: ready_def)
  define w1 where "w1 = (if weakEqual api p me then send_imdn room s reason w else w)"
  have same: "ready room w' \<and> cm_direction (w_message w') = cm_direction (w_message w)" if "same_message w w'" for w'
    using ready_same [OF r that] that by (simp add: same_message_def)
  have s1: "same_message w w1" using same_message_parts(6) frame.S_refl by (simp add: w1_def)
  let ?set = "setState n api room" and ?setp = "\<lambda>p s t. setParticipantState n api room p s t LinphoneReasonNone"
  have st1: "\<exists>w'. ?set s w1 = Inr w'" using st same [OF s1] by blast
  have "\<exists>w'. move_participant api room (weakEqual api p me) p s t reason ?set ?setp w1 = Inr w'"
  proof -
    let ?ws = "store_participant api p s t w1"
    have ws: "same_message w ?ws" using s1 by (simp add: same_message_def)
    obtain w2 where w2: "(if weakEqual api p me \<and> \<not> isImdnControlledState s then ?set s ?ws else Inr ?ws) = Inr w2"
      using st [of ?ws s] same [OF ws] by (cases "weakEqual api p me \<and> \<not> isImdnControlledState s") auto
    have s2: "same_message w w2"
      using w2 ws frame.S_trans [OF ws] frame.setState_steps by (auto split: if_splits)
    obtain w3 where w3: "(if isImdnControlledState s then aggregate api room ?set w2 else Inr w2) = Inr w3"
    proof -
      obtain rows where rows: "getParticipantsState api room w2 = Inr rows" using ready_getParticipantsState same [OF s2] by blast
      have "\<exists>w3. aggregate api room ?set w2 = Inr w3"
        using rows st [of w2] same [OF s2] aggregated_state_cases by (auto simp: aggregate_def split: option.split)
      then show ?thesis using that by (cases "isImdnControlledState s") auto
    qed
    have "same_message w2 w3" using w3 frame.steps_aggregate [OF frame.setState_steps] frame.S_refl by (auto split: if_splits)
    then have s3: "same_message w w3" using s2 frame.S_trans by blast
    obtain w4 where "(if weakEqual api p me \<and> weakEqual api (cm_fromAddress (w_message w3)) p \<and> s = DeliveredToUser
        then ?setp p Displayed (room_now room) w3 else Inr w3) = Inr w4"
      using pst [of w3] same [OF s3] by (cases "weakEqual api p me \<and> weakEqual api (cm_fromAddress (w_message w3)) p \<and> s = DeliveredToUser") auto
    with w2 w3 show ?thesis by (simp add: move_participant_def Let_def)
  qed
  with st1 me show ?thesis by (auto simp: setParticipantState.simps Let_def simp flip: w1_def)
qed

text \<open>An incoming message takes fewer levels: no loop over the participants.\<close>

lemma setParticipantState_returns_incoming:
  assumes "ready room w" "2 \<le> n" "cm_direction (w_message w) = Incoming"
  shows "\<exists>w'. setParticipantState n api room p Displayed t r w = Inr w'"
proof -
  obtain k where k: "n = Suc (Suc k)" using assms(2) by (metis numeral_2_eq_2 Suc_le_D Suc_le_mono)
  show ?thesis unfolding k(1)
  proof (rule setParticipantState_total_step [OF assms(1)])
    fix w' s' assume "ready room w'" "cm_direction (w_message w') = cm_direction (w_message w)"
      "s' = Displayed \<or> s' = NotDelivered \<or> s' = Displayed \<or> s' = DeliveredToUser \<or> s' = Delivered"
    then show "\<exists>w''. setState (Suc k) api room s' w' = Inr w''" using setState_total [of room w' k s' api] assms(3) by auto
  qed simp
qed

lemma setState_returns:
  assumes "ready room w" "3 \<le> n"
  shows "\<exists>w'. setState n api room s w = Inr w'"
proof -
  obtain k where k: "n = Suc k" "2 \<le> k" using assms(2) by (cases n) auto
  show ?thesis unfolding k(1)
    by (rule setState_total [OF assms(1)]) (use k(2) setParticipantState_returns_incoming in auto)
qed

lemma setParticipantState_returns:
  assumes "ready room w" "5 \<le> n"
  shows "\<exists>w'. setParticipantState n api room p s t r w = Inr w'"
proof -
  obtain k where k: "n = Suc (Suc k)" "3 \<le> k" using assms(2) that [of "n - 2"] by simp
  have "\<exists>w'. setParticipantState (Suc k) api room p Displayed (room_now room) LinphoneReasonNone w1 = Inr w'" if "ready room w1" for w1
    by (rule setParticipantState_total_step [OF that]) (use k(2) setState_returns in auto)
  then show ?thesis unfolding k(1)
    by (intro setParticipantState_total_step [OF assms(1)]) (use k(2) setState_returns in auto)
qed

text \<open>More fuel does not change a result.\<close>

lemma foldR_mono:
  assumes "\<And>w x w'. f w x = Inr w' \<Longrightarrow> g w x = Inr w'" and "foldR f w xs = Inr w'"
  shows "foldR g w xs = Inr w'"
  using assms(2) by (induction xs arbitrary: w) (auto simp: bindR_eq_Inr dest: assms(1))

lemma after_notification_mono:
  assumes "\<And>p s t w w'. f p s t w = Inr w' \<Longrightarrow> g p s t w = Inr w'" and "after_notification api room s0 b f w = Inr w'"
  shows "after_notification api room s0 b g w = Inr w'"
  using assms by (auto simp: after_notification_def Let_def split: if_splits option.splits)

lemma deliver_participants_mono:
  assumes "\<And>p s t w w'. f p s t w = Inr w' \<Longrightarrow> g p s t w = Inr w'" and "deliver_participants api room f w = Inr w'"
  shows "deliver_participants api room g w = Inr w'"
proof -
  from assms(2) obtain rows where rows: "getParticipantsState api room w = Inr rows"
    and run: "foldR (\<lambda>w' row. if isMe api room (fst row) then Inr w'
      else f (fst row) (cm_state (w_message w')) (cm_time (w_message w')) w') w rows = Inr w'"
    by (auto simp: deliver_participants_def bindR_eq_Inr)
  have "foldR (\<lambda>w' row. if isMe api room (fst row) then Inr w'
      else g (fst row) (cm_state (w_message w')) (cm_time (w_message w')) w') w rows = Inr w'"
    by (rule foldR_mono [OF _ run]) (simp add: assms(1) split: if_splits)
  with rows show ?thesis by (simp add: deliver_participants_def)
qed

lemma aggregate_mono:
  assumes "\<And>s w w'. f s w = Inr w' \<Longrightarrow> g s w = Inr w'" and "aggregate api room f w = Inr w'"
  shows "aggregate api room g w = Inr w'"
  using assms by (auto simp: aggregate_def bindR_eq_Inr split: option.splits)

lemma move_participant_mono:
  assumes st: "\<And>s w w'. f s w = Inr w' \<Longrightarrow> f' s w = Inr w'"
    and pst: "\<And>p s t w w'. g p s t w = Inr w' \<Longrightarrow> g' p s t w = Inr w'"
    and run: "move_participant api room b p s t r f g w = Inr w'"
  shows "move_participant api room b p s t r f' g' w = Inr w'"
proof -
  let ?w1 = "store_participant api p s t w"
  from run obtain w2 w3 w4 where w2: "(if b \<and> \<not> isImdnControlledState s then f s ?w1 else Inr ?w1) = Inr w2"
    and w3: "(if isImdnControlledState s then aggregate api room f w2 else Inr w2) = Inr w3"
    and w4: "(if b \<and> weakEqual api (cm_fromAddress (w_message w3)) p \<and> s = DeliveredToUser
      then g p Displayed (room_now room) w3 else Inr w3) = Inr w4"
    and w': "w' = (if b \<and> s = NotDelivered \<and> r = LinphoneReasonForbidden then emit [Message_rejected] w4 else w4)"
    by (auto simp: move_participant_def Let_def bindR_eq_Inr)
  have "(if b \<and> \<not> isImdnControlledState s then f' s ?w1 else Inr ?w1) = Inr w2"
    and "(if isImdnControlledState s then aggregate api room f' w2 else Inr w2) = Inr w3"
    and "(if b \<and> weakEqual api (cm_fromAddress (w_message w3)) p \<and> s = DeliveredToUser
      then g' p Displayed (room_now room) w3 else Inr w3) = Inr w4"
    using w2 st w3 aggregate_mono [of f f', OF st] w4 pst by (auto split: if_splits)
  with w' show ?thesis by (simp add: move_participant_def Let_def)
qed

lemma fuel_Suc:
  "(\<forall>s w w'. setState n api room s w = Inr w' \<longrightarrow> setState (Suc n) api room s w = Inr w') \<and>
   (\<forall>p s t r w w'. setParticipantState n api room p s t r w = Inr w' \<longrightarrow> setParticipantState (Suc n) api room p s t r w = Inr w')"
proof (induction n)
  case (Suc n)
  then have st: "\<And>s w w'. setState n api room s w = Inr w' \<Longrightarrow> setState (Suc n) api room s w = Inr w'"
    and pst: "\<And>p s t r w w'. setParticipantState n api room p s t r w = Inr w' \<Longrightarrow> setParticipantState (Suc n) api room p s t r w = Inr w'"
    by blast+
  note mono = deliver_participants_mono [of "\<lambda>p s t. setParticipantState n api room p s t LinphoneReasonNone" , OF pst]
    after_notification_mono [of "\<lambda>p s t. setParticipantState n api room p s t LinphoneReasonNone", OF pst]
  have "setState (Suc (Suc n)) api room s w = Inr w'" if "setState (Suc n) api room s w = Inr w'" for s w w'
    using that [unfolded setState.simps(2)] mono
    by (subst setState.simps(2)) (auto simp: Let_def bindR_eq_Inr split: if_splits)
  have move: "move_participant api room b p s t r (setState (Suc n) api room)
      (\<lambda>p s t. setParticipantState (Suc n) api room p s t LinphoneReasonNone) w = Inr w'"
    if "move_participant api room b p s t r (setState n api room)
      (\<lambda>p s t. setParticipantState n api room p s t LinphoneReasonNone) w = Inr w'" for b p s t r w w'
    using move_participant_mono [OF st pst that] .
  have "setParticipantState (Suc (Suc n)) api room p s t r w = Inr w'"
    if "setParticipantState (Suc n) api room p s t r w = Inr w'" for p s t r w w'
    using that [unfolded setParticipantState.simps(2)] st move
    by (subst setParticipantState.simps(2)) (auto simp: Let_def bindR_eq_Inr split: if_splits option.splits)
  with \<open>\<And>s w w'. setState (Suc n) api room s w = Inr w' \<Longrightarrow> _\<close> show ?case by blast
qed (simp add: setState.simps setParticipantState.simps)

lemma fuel_mono:
  assumes "n \<le> m"
  shows "setState n api room s w = Inr w' \<Longrightarrow> setState m api room s w = Inr w'"
    and "setParticipantState n api room p s t r w = Inr w' \<Longrightarrow> setParticipantState m api room p s t r w = Inr w'"
  using assms by (induction m rule: dec_induct) (use fuel_Suc in blast)+

section \<open>A message is displayed when its recipients have displayed it\<close>

text \<open>A row is displayed, or it is not about a recipient.\<close>

definition row_displayed :: "uri_api \<Rightarrow> chat_room \<Rightarrow> address \<Rightarrow> participant_row \<Rightarrow> bool" where
  "row_displayed api room from row \<longleftrightarrow>
     (case row_participant api room (fst row) of
        None \<Rightarrow> True | Some q \<Rightarrow> weakEqual api from q \<or> fst (snd row) = Displayed)"

definition rows_displayed :: "uri_api \<Rightarrow> chat_room \<Rightarrow> address \<Rightarrow> participant_row list \<Rightarrow> bool" where
  "rows_displayed api room from rows \<longleftrightarrow> list_all (row_displayed api room from) rows"

definition recipients_displayed :: "uri_api \<Rightarrow> chat_room \<Rightarrow> chat_world \<Rightarrow> bool" where
  "recipients_displayed api room w \<longleftrightarrow>
     (case getEvent w of None \<Rightarrow> True | Some e \<Rightarrow> rows_displayed api room (cm_fromAddress (w_message w)) (ev_participants e))"

definition displayed_inv :: "uri_api \<Rightarrow> chat_room \<Rightarrow> chat_world \<Rightarrow> bool" where
  "displayed_inv api room w \<longleftrightarrow> (cm_state (w_message w) = Displayed \<longrightarrow> recipients_displayed api room w)"

lemma aggregated_state_Nil [simp]: "aggregated_state api from [] = None"
  by (simp add: aggregated_state_def)

lemma aggregated_displayed:
  assumes "aggregated_state api from (rows_with_participant api room rows) = Some Displayed"
  shows "rows_displayed api room from rows"
proof -
  let ?rs = "filter (\<lambda>(p, _, _). \<not> weakEqual api from p) (rows_with_participant api room rows)"
  have "length (filter (\<lambda>(_, s', _). s' = Displayed) ?rs) = length ?rs"
    using assms by (auto simp: aggregated_state_def Let_def split: if_splits)
  then have all: "\<forall>r \<in> set ?rs. (case r of (_, s', _) \<Rightarrow> s' = Displayed)" by (metis (no_types, lifting) length_filter_less nat_neq_iff)
  have "weakEqual api from q \<or> s = Displayed" if "(a, s, t) \<in> set rows" "row_participant api room a = Some q" for a s t q
  proof -
    have "(q, s, t) \<in> set (rows_with_participant api room rows)"
      using that by (force simp: rows_with_participant_def List.map_filter_def)
    with all show ?thesis by auto
  qed
  then show ?thesis unfolding rows_displayed_def row_displayed_def list_all_iff by (fastforce split: option.split)
qed

lemma row_displayed_Displayed [simp]: "row_displayed api room from (k, Displayed, t)"
  by (simp add: row_displayed_def split: option.split)

lemma rows_displayed_set:
  assumes "rows_displayed api room from (ev_participants e)"
  shows "rows_displayed api room from (ev_participants (setChatMessageParticipantState api p Displayed t e))"
proof -
  have "list_all (row_displayed api room from)
      (map (\<lambda>(k, s', t'). if k = key then (k, Displayed, t) else (k, s', t')) (ev_participants e))" for key
    using assms by (auto simp: rows_displayed_def list_all_iff split: if_splits)
  with assms show ?thesis
    by (auto simp: rows_displayed_def setChatMessageParticipantState_def set_row_def Let_def split: option.split)
qed

lemma recipients_displayed_cong:
  "getEvent w' = getEvent w \<Longrightarrow> cm_fromAddress (w_message w') = cm_fromAddress (w_message w) \<Longrightarrow>
   recipients_displayed api room w' = recipients_displayed api room w"
  by (cases "getEvent w") (simp_all add: recipients_displayed_def)

lemma recipients_displayed_store:
  "recipients_displayed api room w \<Longrightarrow> recipients_displayed api room (store_participant api p Displayed t w)"
  by (auto simp: recipients_displayed_def getEvent_def rows_displayed_set split: option.splits if_splits)

lemma ephemeral_keeps:
  "cm_state (w_message (startEphemeralCountDown room w)) = cm_state (w_message w)"
  "recipients_displayed api room (startEphemeralCountDown room' w) = recipients_displayed api room w"
  by (auto simp: startEphemeralCountDown_def getEvent_def Let_def recipients_displayed_def split: option.split)

lemma release_arm_keeps:
  "cm_state (w_message (arm_resend b b' (snd (release_sal_op w)))) = cm_state (w_message w)"
  "getEvent (arm_resend b b' (snd (release_sal_op w))) = getEvent w"
  "cm_fromAddress (w_message (arm_resend b b' (snd (release_sal_op w)))) = cm_fromAddress (w_message w)"
  "cm_markedAsRead (w_message (arm_resend b b' (snd (release_sal_op w)))) = cm_markedAsRead (w_message w)"
  by (simp_all add: part_defs Let_def getEvent_def)

lemma finish_state_keeps:
  assumes "finish_state api room b w = Inr w'"
  shows "cm_state (w_message w') = cm_state (w_message w)"
    and "cm_state (w_message w) = Displayed \<Longrightarrow> recipients_displayed api room w \<Longrightarrow> recipients_displayed api room w'"
proof -
  from assms obtain w1 w2 where w1: "w1 = w \<or> w1 = startEphemeralCountDown room w"
    and up: "updateInDb api room w1 = Inr w2 \<or> w2 = w1 \<and> cm_state (w_message w) \<noteq> Displayed"
    and w': "w' = arm_resend b (fst (release_sal_op w2)) (snd (release_sal_op w2))" by (rule finish_state_cases)
  have m2: "w_message w2 = w_message w1" using up by (auto elim: updateInDb_cases)
  with w1 w' show "cm_state (w_message w') = cm_state (w_message w)" by (auto simp: release_arm_keeps ephemeral_keeps)
  assume d: "cm_state (w_message w) = Displayed" and r: "recipients_displayed api room w"
  have "recipients_displayed api room w1" "cm_state (w_message w1) = Displayed" using w1 r d ephemeral_keeps by auto
  then have "recipients_displayed api room w2"
    using up by (auto elim!: updateInDb_cases simp: recipients_displayed_def getEvent_def stored_event_def split: if_splits option.splits)
  then show "recipients_displayed api room w'"
    using recipients_displayed_cong [of w' w2] w' by (simp add: release_arm_keeps)
qed

lemma setState_displayed:
  assumes pst: "\<And>p t w w'. setParticipantState n api room p Displayed t LinphoneReasonNone w = Inr w' \<Longrightarrow>
      cm_state (w_message w) \<noteq> Displayed \<Longrightarrow> displayed_inv api room w'"
    and run: "setState (Suc n) api room s w = Inr w'" and w: "cm_state (w_message w) \<noteq> Displayed"
    and s: "s = Displayed \<Longrightarrow> recipients_displayed api room w"
  shows "displayed_inv api room w'"
proof (cases "allowed (cm_state (w_message w)) s")
  case True
  let ?set = "\<lambda>p s t. setParticipantState n api room p s t LinphoneReasonNone"
  from True run obtain w2 where
    w2: "(if cm_direction (w_message (enter_state s w)) = Outgoing \<and> cm_state (w_message (enter_state s w)) = Delivered
      then deliver_participants api room ?set (enter_state s w) else Inr (enter_state s w)) = Inr w2"
    and fin: "after_notification api room (cm_state (w_message w)) (cm_automaticallyResent (w_message w)) ?set
      (notify_state (leave_transient w2)) = Inr w'"
    by (auto simp: setState.simps Let_def bindR_eq_Inr)
  let ?w3 = "notify_state (leave_transient w2)"
  have "loop_steps api (enter_state s w) w2" using w2 deliver_participants_loop by (auto simp: loop_steps.none split: if_splits)
  then have m2: "w_message w2 = w_message (enter_state s w)" by (rule loop_steps_message)
  then have s3: "cm_state (w_message ?w3) = s" by (simp add: notify_state_def leave_transient_def enter_state_def Let_def)
  have "recipients_displayed api room ?w3" if d: "s = Displayed"
  proof -
    from d w2 have "w2 = enter_state s w" by (simp add: enter_state_def)
    then have "recipients_displayed api room ?w3 = recipients_displayed api room w"
      by (intro recipients_displayed_cong) (simp_all add: notify_state_def leave_transient_def enter_state_def Let_def getEvent_def)
    with s [OF d] show ?thesis by simp
  qed
  with fin s3 pst [where w = ?w3] finish_state_keeps [of api room _ ?w3 w'] show ?thesis
    by (auto simp: after_notification_def displayed_inv_def Let_def split: if_splits option.splits)
qed (use run w in \<open>simp add: setState.simps displayed_inv_def\<close>)

lemma send_imdn_keeps [simp]:
  "cm_state (w_message (send_imdn room s r w)) = cm_state (w_message w)"
  "cm_fromAddress (w_message (send_imdn room s r w)) = cm_fromAddress (w_message w)"
  "getEvent (send_imdn room s r w) = getEvent w"
  by (simp_all add: part_defs getEvent_def)

lemma displayed_inv_same [simp]:
  "recipients_displayed api room (send_imdn room s r w) = recipients_displayed api room w"
  "displayed_inv api room (emit es w) = displayed_inv api room w"
  "displayed_inv api room (send_imdn room s r w) = displayed_inv api room w"
proof -
  show r: "recipients_displayed api room (send_imdn room s r w) = recipients_displayed api room w"
    by (rule recipients_displayed_cong) simp_all
  then show "displayed_inv api room (send_imdn room s r w) = displayed_inv api room w" by (simp add: displayed_inv_def)
  have "recipients_displayed api room (emit es w) = recipients_displayed api room w" by (rule recipients_displayed_cong) simp_all
  then show "displayed_inv api room (emit es w) = displayed_inv api room w" by (simp add: displayed_inv_def)
qed

lemma aggregate_displayed:
  assumes st: "\<And>s w w'. setState n api room s w = Inr w' \<Longrightarrow> cm_state (w_message w) \<noteq> Displayed \<Longrightarrow>
      (s = Displayed \<Longrightarrow> recipients_displayed api room w) \<Longrightarrow> displayed_inv api room w'"
    and run: "aggregate api room (setState n api room) w = Inr w'" and inv: "displayed_inv api room w"
  shows "displayed_inv api room w'"
proof -
  from run obtain rows where rows: "getParticipantsState api room w = Inr rows"
    and r: "(case aggregated_state api (cm_fromAddress (w_message w)) rows of None \<Rightarrow> Inr w | Some s \<Rightarrow> setState n api room s w) = Inr w'"
    by (auto simp: aggregate_def bindR_eq_Inr)
  show ?thesis
  proof (cases "aggregated_state api (cm_fromAddress (w_message w)) rows")
    case None
    with r inv show ?thesis by simp
  next
    case (Some s)
    have disp: "recipients_displayed api room w" if "s = Displayed"
      using that Some rows aggregated_displayed
      by (auto simp: getParticipantsState_def recipients_displayed_def getEvent_def split: if_splits option.splits)
    show ?thesis
    proof (cases "cm_state (w_message w) = Displayed")
      case True
      then have "\<not> allowed (cm_state (w_message w)) s"
        using aggregated_state_cases [OF Some] by (auto simp: fsm_isValid_def chatMessageFsmChecker_def)
      with r Some inv show ?thesis by (cases n) (simp_all add: setState.simps)
    next
      case False
      with r Some st disp show ?thesis by simp
    qed
  qed
qed

lemma displayed_steps:
  assumes room: "room_backend room \<noteq> Basic" "\<not> room_simple_group_state room"
  shows "(\<forall>s w w'. setState n api room s w = Inr w' \<longrightarrow> cm_state (w_message w) \<noteq> Displayed \<longrightarrow>
      (s = Displayed \<longrightarrow> recipients_displayed api room w) \<longrightarrow> displayed_inv api room w') \<and>
    (\<forall>p s t r w w'. setParticipantState n api room p s t r w = Inr w' \<longrightarrow>
      cm_state (w_message w) \<noteq> Displayed \<or> s = Displayed \<and> recipients_displayed api room w \<longrightarrow> displayed_inv api room w')"
proof (induction n)
  case (Suc n)
  then have st: "\<And>s w w'. setState n api room s w = Inr w' \<Longrightarrow> cm_state (w_message w) \<noteq> Displayed \<Longrightarrow>
      (s = Displayed \<Longrightarrow> recipients_displayed api room w) \<Longrightarrow> displayed_inv api room w'"
    and pst: "\<And>p s t r w w'. setParticipantState n api room p s t r w = Inr w' \<Longrightarrow>
      cm_state (w_message w) \<noteq> Displayed \<or> s = Displayed \<and> recipients_displayed api room w \<Longrightarrow> displayed_inv api room w'"
    by blast+
  have move: "displayed_inv api room w'"
    if run: "move_participant api room b p s t r (setState n api room)
        (\<lambda>p s t. setParticipantState n api room p s t LinphoneReasonNone) w = Inr w'"
      and start: "cm_state (w_message w) \<noteq> Displayed \<or> s = Displayed \<and> recipients_displayed api room w" for b p s t r w w'
  proof -
    let ?w1 = "store_participant api p s t w"
    from run obtain w2 w3 w4 where w2: "(if b \<and> \<not> isImdnControlledState s then setState n api room s ?w1 else Inr ?w1) = Inr w2"
      and w3: "(if isImdnControlledState s then aggregate api room (setState n api room) w2 else Inr w2) = Inr w3"
      and w4: "(if b \<and> weakEqual api (cm_fromAddress (w_message w3)) p \<and> s = DeliveredToUser
        then setParticipantState n api room p Displayed (room_now room) LinphoneReasonNone w3 else Inr w3) = Inr w4"
      and w': "w' = (if b \<and> s = NotDelivered \<and> r = LinphoneReasonForbidden then emit [Message_rejected] w4 else w4)"
      by (auto simp: move_participant_def Let_def bindR_eq_Inr)
    have "displayed_inv api room ?w1" using start recipients_displayed_store by (auto simp: displayed_inv_def)
    moreover have "s \<noteq> Displayed \<Longrightarrow> cm_state (w_message ?w1) \<noteq> Displayed" using start by auto
    ultimately have i2: "displayed_inv api room w2"
      using w2 st [of s ?w1 w2] by (auto simp: isImdnControlledState_def split: if_splits)
    then have i3: "displayed_inv api room w3" using w3 aggregate_displayed [OF st] by (auto split: if_splits)
    then have "displayed_inv api room w4" using w4 pst [of p Displayed _ _ w3 w4] by (auto simp: displayed_inv_def split: if_splits)
    then show ?thesis using w' by simp
  qed
  have "displayed_inv api room w'"
    if run: "setParticipantState (Suc n) api room p s t r w = Inr w'"
      and start: "cm_state (w_message w) \<noteq> Displayed \<or> s = Displayed \<and> recipients_displayed api room w" for p s t r w w'
  proof -
    define w1 where "w1 me = (if weakEqual api p me then send_imdn room s r w else w)" for me
    have w1: "displayed_inv api room (w1 me)" "s = Displayed \<or> cm_state (w_message (w1 me)) \<noteq> Displayed"
        "cm_state (w_message (w1 me)) \<noteq> Displayed \<or> s = Displayed \<and> recipients_displayed api room (w1 me)" for me
      using start by (auto simp: w1_def displayed_inv_def)
    show ?thesis
    proof (cases "allowed (getParticipantState api room p w) s")
      case False
      with run have "w' = w" by (simp add: setParticipantState.simps)
      then show ?thesis using start by (auto simp: displayed_inv_def)
    next
      case True
      with run obtain me where me: "room_me room = Some me" by (auto simp: setParticipantState.simps split: option.splits)
      then consider "w' = w1 me" | "s = NotDelivered" "setState n api room s (w1 me) = Inr w'"
        | w5 es where "w' = emit es w5" "move_participant api room (weakEqual api p me) p s t r (setState n api room)
            (\<lambda>p s t. setParticipantState n api room p s t LinphoneReasonNone) (w1 me) = Inr w5"
        using run True room
        by (simp add: setParticipantState.simps Let_def flip: w1_def split: if_splits) (auto simp: bindR_eq_Inr)
      then show ?thesis using w1 [of me] st move by cases auto
    qed
  qed
  moreover have "displayed_inv api room w'" if "setState (Suc n) api room s w = Inr w'" "cm_state (w_message w) \<noteq> Displayed"
      "s = Displayed \<Longrightarrow> recipients_displayed api room w" for s w w'
    by (rule setState_displayed [of n api room s w]) (use that pst in blast)+
  ultimately show ?case by blast
qed (simp add: setState.simps setParticipantState.simps)

section \<open>The unread counter\<close>

text \<open>What the message adds to the number of unread messages in the data base.\<close>

definition unread_flag :: "chat_world \<Rightarrow> int" where
  "unread_flag w = (case w_event w of None \<Rightarrow> 0
     | Some e \<Rightarrow> if cm_direction (w_message w) = Incoming \<and> \<not> ev_marked_as_read e then 1 else 0)"

text \<open>A message the data base has as read is marked as read.\<close>

definition read_consistent :: "chat_world \<Rightarrow> bool" where
  "read_consistent w \<longleftrightarrow> (\<forall>e. w_event w = Some e \<longrightarrow> ev_marked_as_read e \<longrightarrow> cm_markedAsRead (w_message w))"

definition counted :: "chat_world \<Rightarrow> chat_world \<Rightarrow> bool" where
  "counted w w' \<longleftrightarrow> (read_consistent w \<longrightarrow> read_consistent w' \<and>
     map_option (\<lambda>c. c - unread_flag w') (w_unread w') = map_option (\<lambda>c. c - unread_flag w) (w_unread w))"

lemma marked_set [simp]: "ev_marked_as_read (setChatMessageParticipantState api p s t e) = ev_marked_as_read e"
  by (simp add: setChatMessageParticipantState_def set_row_def Let_def split: option.split)

lemma marked_spread [simp]: "ev_marked_as_read (spread_state api s t e) = ev_marked_as_read e"
proof -
  have "ev_marked_as_read (foldl (\<lambda>e' row. setChatMessageParticipantState api (fst row) s t e') e rows) = ev_marked_as_read e"
    for rows :: "participant_row list"
    by (induction rows arbitrary: e) simp_all
  then show ?thesis by (simp add: spread_state_def)
qed

lemma counted_same:
  assumes "map_option ev_marked_as_read (w_event w') = map_option ev_marked_as_read (w_event w)" "w_unread w' = w_unread w"
    "cm_direction (w_message w') = cm_direction (w_message w)" "cm_markedAsRead (w_message w') = cm_markedAsRead (w_message w)"
  shows "counted w w'"
  using assms by (cases "w_event w"; cases "w_event w'") (auto simp: counted_def read_consistent_def unread_flag_def)

lemma counted_parts:
  "counted w (enter_state s w)" "counted w (leave_transient w)" "counted w (notify_state w)"
  "counted w (snd (release_sal_op w))" "counted w (arm_resend b1 b2 w)" "counted w (send_imdn room s reason w)"
  "counted w (emit es w)" "counted w w"
  by (rule counted_same; simp add: part_defs Let_def)+

lemma counted_ephemeral: "counted w (startEphemeralCountDown room w)"
  by (rule counted_same) (auto simp: startEphemeralCountDown_def getEvent_def Let_def split: option.split)

lemma counted_store: "counted w (store_participant api p s t w)"
  by (rule counted_same) (simp_all add: option.map_comp comp_def)

lemma counted_update: "updateInDb api room w = Inr w' \<Longrightarrow> counted w w'"
proof (erule updateInDb_cases)
  fix e b assume "w_message w' = w_message w" "w_event w = Some e" "w_unread w' = update_unread (w_message w) e (w_unread w)"
    "w_event w' = Some (if b then spread_state api (cm_state (w_message w)) (room_now room) (stored_event (w_message w) e)
       else stored_event (w_message w) e)"
  then show "counted w w'"
    by (cases "w_unread w") (auto simp: counted_def read_consistent_def unread_flag_def update_unread_def stored_event_def)
qed (simp add: counted_same)

lemma counted_trans: "counted w1 w2 \<Longrightarrow> counted w2 w3 \<Longrightarrow> counted w1 w3"
  by (simp add: counted_def)

interpretation unread: simple_steps api room "\<lambda>_ _. True" counted for api room
  by unfold_locales (simp_all add: counted_parts counted_ephemeral counted_store counted_update, erule (1) counted_trans)

text \<open>A displayed message has its mark in the data base.\<close>

definition mark_stored :: "chat_world \<Rightarrow> bool" where
  "mark_stored w \<longleftrightarrow> map_option ev_marked_as_read (getEvent w) \<in> {None, Some (cm_markedAsRead (w_message w))}"

definition marks :: "chat_world \<Rightarrow> chat_world \<Rightarrow> bool" where
  "marks w w' \<longleftrightarrow> (cm_state (w_message w) = Displayed \<longrightarrow> mark_stored w) \<longrightarrow> cm_state (w_message w') = Displayed \<longrightarrow> mark_stored w'"

lemma mark_stored_update: "updateInDb api room w = Inr w' \<Longrightarrow> mark_stored w'"
  by (erule updateInDb_cases) (auto simp: mark_stored_def getEvent_def stored_event_def)

lemma mark_stored_cong: "map_option ev_marked_as_read (getEvent w') = map_option ev_marked_as_read (getEvent w) \<Longrightarrow>
  cm_markedAsRead (w_message w') = cm_markedAsRead (w_message w) \<Longrightarrow> mark_stored w' = mark_stored w"
  by (simp add: mark_stored_def)

lemma marks_finish:
  assumes "finish_state api room b w = Inr w'" and "cm_state (w_message w') = Displayed"
  shows "mark_stored w'"
  using assms(1)
proof (rule finish_state_cases)
  fix w1 w2 assume "updateInDb api room w1 = Inr w2 \<or> w2 = w1 \<and> cm_state (w_message w) \<noteq> Displayed"
    and w': "w' = arm_resend b (fst (release_sal_op w2)) (snd (release_sal_op w2))"
  then have "mark_stored w2" using finish_state_keeps(1) [OF assms(1)] assms(2) mark_stored_update by auto
  then show ?thesis using mark_stored_cong [of w' w2] w' by (simp add: release_arm_keeps)
qed

lemma marks_same: "map_option ev_marked_as_read (getEvent w') = map_option ev_marked_as_read (getEvent w) \<Longrightarrow>
  cm_markedAsRead (w_message w') = cm_markedAsRead (w_message w) \<Longrightarrow> cm_state (w_message w') = cm_state (w_message w) \<Longrightarrow> marks w w'"
  using mark_stored_cong [of w' w] by (simp add: marks_def)

lemma marks_change:
  assumes "loop_steps api (enter_state s w) w2" "s \<noteq> Displayed"
  shows "marks w (notify_state (leave_transient w2))"
  using loop_steps_message [OF assms(1)] assms(2)
  by (simp add: marks_def notify_state_def leave_transient_def enter_state_def Let_def)

lemma marks_parts:
  "marks w w" "marks w (send_imdn room s reason w)" "marks w (store_participant api p s t w)" "marks w (emit es w)"
  by (rule marks_same; simp add: getEvent_def option.map_comp comp_def part_defs)+

lemma marks_trans: "marks w1 w2 \<Longrightarrow> marks w2 w3 \<Longrightarrow> marks w1 w3"
  by (simp add: marks_def)

interpretation mark: message_steps api room "\<lambda>_ _. True" marks for api room
proof unfold_locales
  show "marks w w'" if "finish_state api room resent (notify_state (leave_transient w2)) = Inr w'" for w w2 w' resent
    using marks_finish [OF that] by (simp add: marks_def)
qed (auto intro: marks_trans marks_change simp: marks_parts)

section \<open>Delivery notifications\<close>

text \<open>The notifications of a kind that were asked for, and the one that may still be.\<close>

definition display_budget :: "chat_world \<Rightarrow> nat" where
  "display_budget w = count_list (w_out w) Notify_display + (if cm_displayNotificationRequired (w_message w) then 1 else 0)"

definition delivery_budget :: "chat_world \<Rightarrow> nat" where
  "delivery_budget w =
     count_list (w_out w) Notify_delivery + (if cm_positiveDeliveryNotificationRequired (w_message w) then 1 else 0)"

definition within_budget :: "chat_world \<Rightarrow> chat_world \<Rightarrow> bool" where
  "within_budget w w' \<longleftrightarrow> display_budget w' \<le> display_budget w \<and> delivery_budget w' \<le> delivery_budget w"

lemma budget_same:
  assumes "w_out w' = w_out w @ es" "Notify_display \<notin> set es" "Notify_delivery \<notin> set es"
    "cm_displayNotificationRequired (w_message w') = cm_displayNotificationRequired (w_message w)"
    "cm_positiveDeliveryNotificationRequired (w_message w') = cm_positiveDeliveryNotificationRequired (w_message w)"
  shows "within_budget w w'"
  using assms by (simp add: within_budget_def display_budget_def delivery_budget_def count_list_0_iff)

lemma budget_imdn: "within_budget w (send_imdn room s reason w)"
  by (simp add: within_budget_def display_budget_def delivery_budget_def part_defs)

lemma budget_parts:
  "within_budget w w" "within_budget w (enter_state s w)" "within_budget w (leave_transient w)"
  "within_budget w (snd (release_sal_op w))" "within_budget w (arm_resend b1 b2 w)" "within_budget w (store_participant api p s' t w)"
  by (rule budget_same [of _ _ "[]"]; simp add: part_defs Let_def)+

lemma budget_emits: "within_budget w (emit [Participant_imdn_state_changed q s t] w)" "within_budget w (emit [Message_rejected] w)"
  by (simp_all add: within_budget_def display_budget_def delivery_budget_def)

lemma budget_notify: "within_budget w (notify_state w)"
  by (rule budget_same [of _ _ "State_changed (cm_state (w_message w)) #
      map (\<lambda>l. Listener_called l (cm_state (w_message w))) (cm_listeners (w_message w))"])
    (auto simp: notify_state_def Let_def)

lemma budget_ephemeral: "within_budget w (startEphemeralCountDown room w)"
  by (rule budget_same [of _ _ "if getEvent w = None then [] else [Ephemeral_timer_started]"])
    (auto simp: startEphemeralCountDown_def getEvent_def Let_def split: option.split)

lemma budget_update: "updateInDb api room w = Inr w' \<Longrightarrow> within_budget w w'"
  by (erule updateInDb_cases) (auto intro: budget_same [of _ _ "[]"])

interpretation budget: simple_steps api room "\<lambda>_ _. True" within_budget for api room
  by unfold_locales
    (simp_all add: budget_parts budget_emits budget_notify budget_ephemeral budget_update budget_imdn,
     simp add: within_budget_def)

section \<open>Properties\<close>

text \<open>
  C14: Changes of state return.  The two operations call each other, yet for a room that knows its own participant and a stored message
  that has its event, every call returns, three levels are enough for a state and five for a participant's state, and more
  levels give the same result.
\<close>

theorem state_changes_return:
  assumes "ready room w"
  shows "\<exists>w1 w2. (\<forall>n \<ge> 3. setState n api room s w = Inr w1) \<and> (\<forall>n \<ge> 5. setParticipantState n api room p s t r w = Inr w2)"
proof -
  obtain w1 w2 where w: "setState 3 api room s w = Inr w1" "setParticipantState 5 api room p s t r w = Inr w2"
    using setState_returns [OF assms, of 3 api s] setParticipantState_returns [OF assms, of 5 api p s t r] by auto
  have "\<forall>n \<ge> 3. setState n api room s w = Inr w1" using fuel_mono(1) [OF _ w(1)] by simp
  moreover have "\<forall>n \<ge> 5. setParticipantState n api room p s t r w = Inr w2" using fuel_mono(2) [OF _ w(2)] by simp
  ultimately show ?thesis by blast
qed

text \<open>
  C11: The states announced to the application during a call are a path of the table of transitions, from the state before to the
  state after: no state is skipped, repeated or announced out of order, however deep the calls nest.
\<close>

theorem announced_states_follow_table:
  assumes "setParticipantState n api room p s t r w = Inr w' \<or> setState n api room s w = Inr w'"
  shows "\<exists>es. w_out w' = w_out w @ es \<and> fsm_path (cm_state (w_message w)) (announced es) (cm_state (w_message w'))"
proof -
  have "follows w w'" using assms path.setState_steps path.setParticipantState_steps [OF TrueI] by blast
  then show ?thesis by (simp only: follows_def)
qed

text \<open>
  C12: In a group chat a message becomes displayed only when every recipient has displayed it: the row of every known participant
  other than the sender is displayed.
\<close>

theorem displayed_by_all_recipients:
  assumes room: "room_backend room \<noteq> Basic" "\<not> room_simple_group_state room"
    and run: "setParticipantState n api room p s t r w = Inr w'"
    and turn: "cm_state (w_message w) \<noteq> Displayed" "cm_state (w_message w') = Displayed"
    and row: "getEvent w' = Some e" "(a, s', t') \<in> set (ev_participants e)" "row_participant api room a = Some q"
    and recipient: "\<not> weakEqual api (cm_fromAddress (w_message w')) q"
  shows "s' = Displayed"
proof -
  have "displayed_inv api room w'" using displayed_steps [OF room, of n api] run turn(1) by blast
  with turn(2) row(1) have "row_displayed api room (cm_fromAddress (w_message w')) (a, s', t')"
    using row(2) by (simp add: displayed_inv_def recipients_displayed_def rows_displayed_def list_all_iff)
  with row(3) recipient show ?thesis by (simp add: row_displayed_def)
qed

text \<open>A sequence of states reported for participants.\<close>

type_synonym report = "address \<times> ChatMessageState \<times> int \<times> LinphoneReason"

definition receive_reports :: "uri_api \<Rightarrow> chat_room \<Rightarrow> chat_world \<Rightarrow> report list \<Rightarrow> chat_world res" where
  "receive_reports api room = foldR (\<lambda>w (p, s, t, r). setParticipantState state_fuel api room p s t r w)"

lemma receive_reports_steps:
  assumes "message_steps api room passes R" and "receive_reports api room w rs = Inr w'"
    and "list_all (\<lambda>(p, s, t, r). passes p s) rs"
  shows "R w w'"
  using assms(2,3)
proof (induction rs arbitrary: w)
  case Nil
  then show ?case using message_steps.R_refl [OF assms(1)] by (simp add: receive_reports_def)
next
  case (Cons x rs)
  obtain p s t r where x: "x = (p, s, t, r)" by (cases x)
  with Cons.prems obtain w1 where "setParticipantState state_fuel api room p s t r w = Inr w1" "receive_reports api room w1 rs = Inr w'"
    by (auto simp: receive_reports_def bindR_eq_Inr)
  moreover from Cons.prems(2) x have "passes p s" "list_all (\<lambda>(p, s, t, r). passes p s) rs" by (auto simp: list_all_iff)
  ultimately have "R w w1" "R w1 w'" using message_steps.setParticipantState_steps [OF assms(1)] Cons.IH by blast+
  then show ?case by (rule message_steps.R_trans [OF assms(1)])
qed

text \<open>
  C15: Reports do not undo each other.  Whatever reports arrive about anybody, in whatever order, a participant who has received the message
  stays at least there, and one who has displayed it stays displayed, as long as no report about this participant is of a running transfer, of a
  message that waits for the network or of a cancelled transfer.  Such reports, which the code makes only about the local user, do move a row back, as the next theorem shows.
\<close>

theorem participants_do_not_go_back:
  assumes run: "receive_reports api room w rs = Inr w'"
    and own: "list_all (\<lambda>(p, s, t, r). toStringUriOnlyOrdered api (getUriWithoutGruu api p) = key \<longrightarrow> \<not> transfer_state s) rs"
    and row: "w_event w = Some e" "row_state key e = Some s" "s = DeliveredToUser \<or> s = Displayed"
  shows "\<exists>e' s'. w_event w' = Some e' \<and> row_state key e' = Some s' \<and> (s' = Displayed \<or> s' = DeliveredToUser \<and> s = DeliveredToUser)"
proof -
  have "progress key w w'" by (rule receive_reports_steps [OF rows.message_steps_axioms run own])
  moreover have "received s" using row(3) by (auto simp: received_def)
  ultimately obtain e' s' where "w_event w' = Some e'" "row_state key e' = Some s'" "received s'" "state_number s \<le> state_number s'"
    using row(1,2) unfolding progress_def rows_progress_def by blast
  with row(3) show ?thesis by (auto simp: received_def)
qed

text \<open>
  C16: Whatever reports arrive, a message asks for at most one display notification and one delivery notification, and only when
  its sender required it.
\<close>

theorem notifications_at_most_once:
  assumes "receive_reports api room w rs = Inr w'"
  shows "count_list (w_out w') Notify_display \<le> count_list (w_out w) Notify_display +
      (if cm_displayNotificationRequired (w_message w) then 1 else 0) \<and>
    count_list (w_out w') Notify_delivery \<le> count_list (w_out w) Notify_delivery +
      (if cm_positiveDeliveryNotificationRequired (w_message w) then 1 else 0)"
proof -
  have "within_budget w w'" by (rule receive_reports_steps [OF budget.message_steps_axioms assms]) (simp add: list_all_iff)
  then show ?thesis by (simp add: within_budget_def display_budget_def delivery_budget_def)
qed

text \<open>
  C17: Marking a message as read counts it once.  For a stored message that is not displayed yet, the operation returns, the data base has the
  message as read, and the unread counter of the room, when it is cached, goes down by one exactly if the message was unread; when it is not, it is cached from the data base.
\<close>

theorem markAsRead_counts_once:
  assumes r: "ready room w" and v: "msg_isValid (w_message w)" and c: "read_consistent w" and d: "cm_state (w_message w) \<noteq> Displayed"
  shows "\<exists>w' e. msg_markAsRead api room unread_query w = Inr w' \<and> w_event w' = Some e \<and> ev_marked_as_read e \<and>
    w_unread w' = Some (case w_unread w of Some c \<Rightarrow> c - unread_flag w | None \<Rightarrow> unread_query)"
proof -
  define w1 where "w1 = update_message (\<lambda>m. m\<lparr>cm_markedAsRead := True\<rparr>) w"
  have w1: "ready room w1" "read_consistent w1" "unread_flag w1 = unread_flag w" "w_unread w1 = w_unread w"
    "cm_markedAsRead (w_message w1)" "cm_state (w_message w1) \<noteq> Displayed" "msg_isValid (w_message w1)" "w_event w1 = w_event w"
    using r v c d by (cases "w_event w"; simp add: w1_def ready_def read_consistent_def unread_flag_def msg_isValid_def)+
  let ?call = "setParticipantState state_fuel api room (cm_meAddress (w_message w1)) Displayed (room_now room) LinphoneReasonNone w1"
  have "\<exists>w2. (if hasFileTransferContent (w_message w1) then Inr w1 else ?call) = Inr w2"
    using setParticipantState_returns [OF w1(1), of state_fuel] by (simp add: state_fuel_def)
  then obtain w2 where w2: "(if hasFileTransferContent (w_message w1) then Inr w1 else ?call) = Inr w2" ..
  have s2: "same_message w1 w2" "counted w1 w2" "marks w1 w2"
    using w2 frame.setParticipantState_steps [OF TrueI] unread.setParticipantState_steps [OF TrueI] mark.setParticipantState_steps [OF TrueI]
      frame.S_refl counted_parts(8) marks_parts(1) by (auto split: if_splits)
  have "\<exists>w3. (if cm_state (w_message w2) \<noteq> Displayed then updateInDb api room w2 else Inr w2) = Inr w3"
    using ready_updateInDb [OF ready_same [OF w1(1) s2(1)]] by simp
  then obtain w3 where w3: "(if cm_state (w_message w2) \<noteq> Displayed then updateInDb api room w2 else Inr w2) = Inr w3" ..
  have s3: "same_message w2 w3" "counted w2 w3" "mark_stored w3"
    using w3 s2(3) w1(6) same_message_update counted_update mark_stored_update frame.S_refl counted_parts(8)
    by (auto simp: marks_def split: if_splits)
  have same: "same_message w1 w3" using s2(1) s3(1) frame.S_trans by blast
  then obtain e where e: "w_event w3 = Some e" "ev_marked_as_read e"
    using s3(3) w1(5,7) r v w1(8)
    by (cases "w_event w3") (auto simp: same_message_def mark_stored_def getEvent_def ready_def msg_isValid_def)
  have "counted w1 w3" using s2(2) s3(2) counted_trans by blast
  with w1(2-4) e have "w_unread w3 = map_option (\<lambda>c. c - unread_flag w) (w_unread w)"
    by (simp add: counted_def unread_flag_def [of w3] option.map_ident)
  moreover define count where "count = (case w_unread w3 of Some c \<Rightarrow> c | None \<Rightarrow> unread_query)"
  moreover have "msg_markAsRead api room unread_query w = Inr (if count = 0 then emit [Chat_room_read] (w3\<lparr>w_unread := Some count\<rparr>) else w3\<lparr>w_unread := Some count\<rparr>)"
    using v w2 w3 by (simp add: msg_markAsRead_def Let_def count_def flip: w1_def)
  ultimately show ?thesis using e by (auto split: option.splits)
qed

text \<open>
  A message that is displayed already is not counted.  When the message and the row of the reader are displayed, for instance by a
  notification from another device, marking it as read changes nothing in the data base: it stays unread there, and the
  unread counter does not move.
\<close>

theorem markAsRead_of_displayed_is_lost:
  assumes "msg_isValid (w_message w)" and "cm_state (w_message w) = Displayed"
    and "getParticipantState api room (cm_meAddress (w_message w)) w = Displayed"
  shows "\<exists>w'. msg_markAsRead api room unread_query w = Inr w' \<and> cm_markedAsRead (w_message w') \<and>
    w_event w' = w_event w \<and> w_unread w' = Some (case w_unread w of Some c \<Rightarrow> c | None \<Rightarrow> unread_query)"
proof -
  define w1 where "w1 = update_message (\<lambda>m. m\<lparr>cm_markedAsRead := True\<rparr>) w"
  have w1: "w_event w1 = w_event w" "w_unread w1 = w_unread w" "cm_markedAsRead (w_message w1)" "cm_state (w_message w1) = Displayed"
    "getParticipantState api room (cm_meAddress (w_message w1)) w1 = Displayed"
    using assms(2,3) by (cases "w_event w"; simp add: w1_def getParticipantState_def getEvent_def split: if_splits)+
  then have "setParticipantState state_fuel api room (cm_meAddress (w_message w1)) Displayed (room_now room) LinphoneReasonNone w1 = Inr w1"
    by (simp add: state_fuel_def numeral_eq_Suc setParticipantState.simps)
  moreover define count where "count = (case w_unread w1 of Some c \<Rightarrow> c | None \<Rightarrow> unread_query)"
  ultimately have "msg_markAsRead api room unread_query w =
      Inr (if count = 0 then emit [Chat_room_read] (w1\<lparr>w_unread := Some count\<rparr>) else w1\<lparr>w_unread := Some count\<rparr>)"
    using assms(1) w1 by (simp add: msg_markAsRead_def Let_def flip: w1_def)
  with w1 show ?thesis by (simp add: count_def)
qed

text \<open>
  C18: Automatic resending.  An outgoing message that becomes pending gets a resend timer exactly when it had one or the SIP operation failed by
  a transport error or a missing response and the message was not resent automatically before; the flag of an automatic
  resend is then reset and the operation released.  After an automatic resend no timer is left, whatever the sending did.
\<close>

theorem resend_timer_armed:
  assumes pending: "allowed (cm_state (w_message w)) PendingDelivery" "cm_direction (w_message w) = Outgoing"
    and run: "setState (Suc n) api room PendingDelivery w = Inr w'"
    and resend: "handleAutomaticResend sendChatMessage v = Inr v'"
  shows "(cm_resendTimer (w_message w') \<longleftrightarrow> cm_resendTimer (w_message w) \<or> \<not> cm_automaticallyResent (w_message w) \<and>
        (cm_salOp (w_message w) = Some LinphoneReasonIOError \<or> cm_salOp (w_message w) = Some LinphoneReasonNoResponse)) \<and>
    \<not> cm_automaticallyResent (w_message w') \<and> cm_salOp (w_message w') = None \<and> \<not> cm_resendTimer (w_message v')"
proof -
  let ?w3 = "notify_state (leave_transient (enter_state PendingDelivery w))"
  have m3: "w_message ?w3 = (w_message w)\<lparr>cm_automaticallyResent := False, cm_state := PendingDelivery\<rparr>"
    by (simp add: part_defs Let_def)
  have e1: "cm_state (w_message (enter_state PendingDelivery w)) = PendingDelivery" by (simp add: enter_state_def)
  have "finish_state api room (cm_automaticallyResent (w_message w)) ?w3 = Inr w'"
    using run pending e1 by (simp add: setState.simps Let_def after_notification_def m3)
  then obtain w2 where "updateInDb api room ?w3 = Inr w2"
    and w': "w' = arm_resend (cm_automaticallyResent (w_message w)) (fst (release_sal_op w2)) (snd (release_sal_op w2))"
    by (auto simp: finish_state_def Let_def bindR_eq_Inr case_prod_beta m3)
  then have "w_message w2 = w_message ?w3" by (auto elim: updateInDb_cases)
  with w' m3 pending(2) have "(cm_resendTimer (w_message w') \<longleftrightarrow> cm_resendTimer (w_message w) \<or> \<not> cm_automaticallyResent (w_message w) \<and>
        (cm_salOp (w_message w) = Some LinphoneReasonIOError \<or> cm_salOp (w_message w) = Some LinphoneReasonNoResponse)) \<and>
    \<not> cm_automaticallyResent (w_message w') \<and> cm_salOp (w_message w') = None"
    by (auto simp: release_sal_op_def arm_resend_def restoreFileTransferContentAsFileContent_def Let_def)
  moreover have "\<not> cm_resendTimer (w_message v')"
    using resend by (auto simp: handleAutomaticResend_def stopResendTimer_def bindR_eq_Inr)
  ultimately show ?thesis by blast
qed

section \<open>Concrete runs\<close>

definition sample_uri :: uri_api where
  "sample_uri = \<lparr>weakEqual = (=), getUriWithoutGruu = (\<lambda>a. a), toStringUriOnlyOrdered = (\<lambda>a. a), address_equal = (=), address_isValid = (\<lambda>_. True)\<rparr>"

definition sample_room :: chat_room where
  "sample_room = \<lparr>room_backend = FlexisipChat, room_me = Some ''me'', room_participants = [''bob'', ''carol''], room_conference = True,
     room_simple_group_state = False, room_conference_server = False, room_send_imdn_delivered = True,
     room_send_imdn_delivery_error = True, room_send_imdn_displayed = True, room_now = 10\<rparr>"

text \<open>A message sent by me that bob has displayed and carol has received.\<close>

definition sample_sent :: chat_world where
  "sample_sent = \<lparr>w_message = \<lparr>cm_state = Delivered, cm_direction = Outgoing, cm_storageId = 1, cm_fromAddress = ''me'', cm_meAddress = ''me'',
       cm_time = 5, cm_isEphemeral = False, cm_ephemeralLifetime = 0, cm_ephemeralExpireTime = 0, cm_markedAsRead = True,
       cm_automaticallyResent = False, cm_contents = [], cm_salOp = None, cm_resendTimer = False, cm_listeners = [],
       cm_positiveDeliveryNotificationRequired = True, cm_negativeDeliveryNotificationRequired = True,
       cm_displayNotificationRequired = True\<rparr>,
     w_event = Some \<lparr>ev_state = Delivered, ev_marked_as_read = True, ev_contents = [],
       ev_participants = [(''bob'', Displayed, 6), (''carol'', DeliveredToUser, 7)], ev_expired_time = None,
       ev_delivery_notification_required = True, ev_display_notification_required = True\<rparr>,
     w_unread = Some 3, w_transientMessage = True, w_transientEvent = True, w_coreListener = False, w_out = []\<rparr>"

text \<open>A message from bob, not read yet.\<close>

definition sample_received :: chat_world where
  "sample_received = sample_sent\<lparr>w_message := (w_message sample_sent)\<lparr>cm_direction := Incoming, cm_fromAddress := ''bob'',
       cm_markedAsRead := False\<rparr>,
     w_event := Some \<lparr>ev_state = Delivered, ev_marked_as_read = False, ev_contents = [],
       ev_participants = [(''me'', DeliveredToUser, 6)], ev_expired_time = None,
       ev_delivery_notification_required = True, ev_display_notification_required = True\<rparr>\<rparr>"

lemmas sample_defs = sample_uri_def sample_room_def sample_sent_def sample_received_def

lemma sample_ready: "ready sample_room sample_sent" "ready sample_room sample_received"
  by (simp_all add: ready_def sample_defs)

lemma Inr_of_case: "(case r of Inl _ \<Rightarrow> False | Inr w \<Rightarrow> P w) \<Longrightarrow> \<exists>w. r = Inr w \<and> P w"
  by (cases r) simp_all

theorem state_changes_return_witness:
  "\<exists>w1 w2. (\<forall>n \<ge> 3. setState n sample_uri sample_room NotDelivered sample_sent = Inr w1) \<and>
    (\<forall>n \<ge> 5. setParticipantState n sample_uri sample_room ''carol'' Displayed 9 LinphoneReasonNone sample_sent = Inr w2)"
proof -
  from state_changes_return [OF sample_ready(1), of sample_uri NotDelivered]
  obtain w1 where 1: "\<forall>n \<ge> 3. setState n sample_uri sample_room NotDelivered sample_sent = Inr w1" by blast
  from state_changes_return [OF sample_ready(1), of sample_uri Displayed "''carol''" 9 LinphoneReasonNone]
  obtain w2 where "\<forall>n \<ge> 5. setParticipantState n sample_uri sample_room ''carol'' Displayed 9 LinphoneReasonNone sample_sent = Inr w2"
    by blast
  with 1 show ?thesis by blast
qed

lemma sample_displayed:
  "\<exists>w'. setParticipantState 5 sample_uri sample_room ''carol'' Displayed 9 LinphoneReasonNone sample_sent = Inr w' \<and>
    cm_state (w_message w') = Displayed \<and> cm_fromAddress (w_message w') = ''me'' \<and>
    (case getEvent w' of None \<Rightarrow> False | Some e \<Rightarrow> map fst (ev_participants e) = [''bob'', ''carol''])"
  by (rule Inr_of_case) code_simp

theorem announced_states_follow_table_witness:
  "\<exists>w' es. setParticipantState 5 sample_uri sample_room ''carol'' Displayed 9 LinphoneReasonNone sample_sent = Inr w' \<and>
    w_out w' = w_out sample_sent @ es \<and> fsm_path Delivered (announced es) Displayed"
proof -
  from sample_displayed obtain w' where w': "cm_state (w_message w') = Displayed"
    and run: "setParticipantState 5 sample_uri sample_room ''carol'' Displayed 9 LinphoneReasonNone sample_sent = Inr w'" by blast
  moreover have "cm_state (w_message sample_sent) = Delivered" by (simp add: sample_defs)
  ultimately show ?thesis using announced_states_follow_table [OF disjI1 [OF run]] by auto
qed

theorem displayed_by_all_recipients_witness:
  "\<exists>w' e t. setParticipantState 5 sample_uri sample_room ''carol'' Displayed 9 LinphoneReasonNone sample_sent = Inr w' \<and>
    getEvent w' = Some e \<and> (''bob'', Displayed, t) \<in> set (ev_participants e)"
proof -
  from sample_displayed obtain w' e where w': "cm_state (w_message w') = Displayed" "cm_fromAddress (w_message w') = ''me''"
    and e: "getEvent w' = Some e" "map fst (ev_participants e) = [''bob'', ''carol'']"
    and run: "setParticipantState 5 sample_uri sample_room ''carol'' Displayed 9 LinphoneReasonNone sample_sent = Inr w'"
    by (auto split: option.splits)
  from e(2) obtain s t where row: "(''bob'', s, t) \<in> set (ev_participants e)" by (cases "ev_participants e") auto
  have "s = Displayed"
    by (rule displayed_by_all_recipients [OF _ _ run _ w'(1) e(1) row, of "''bob''"])
      (simp_all add: w'(2) sample_defs row_participant_def isMe_def findParticipant_def)
  with row e(1) run show ?thesis by blast
qed

lemma sample_reports:
  "\<exists>w'. receive_reports sample_uri sample_room sample_sent
      [(''bob'', NotDelivered, 8, LinphoneReasonNone), (''carol'', Displayed, 9, LinphoneReasonNone)] = Inr w' \<and> True"
  by (rule Inr_of_case) code_simp

theorem participants_do_not_go_back_witness:
  "\<exists>w' e'. receive_reports sample_uri sample_room sample_sent
      [(''bob'', NotDelivered, 8, LinphoneReasonNone), (''carol'', Displayed, 9, LinphoneReasonNone)] = Inr w' \<and>
    w_event w' = Some e' \<and> row_state ''bob'' e' = Some Displayed"
proof -
  from sample_reports obtain w' where run: "receive_reports sample_uri sample_room sample_sent
      [(''bob'', NotDelivered, 8, LinphoneReasonNone), (''carol'', Displayed, 9, LinphoneReasonNone)] = Inr w'" by blast
  obtain e where e: "w_event sample_sent = Some e" "row_state ''bob'' e = Some Displayed" by (simp add: sample_defs row_state_def)
  from participants_do_not_go_back [OF run _ e] run show ?thesis by (auto simp: transfer_state_def)
qed

text \<open>
  A report of a running transfer moves a row back: its state comes after \<open>Displayed\<close> in the enumeration, so the comparison that protects the row does not stop it.
\<close>

theorem transfer_report_goes_back:
  "\<exists>w' e'. receive_reports sample_uri sample_room sample_sent [(''bob'', FileTransferInProgress, 8, LinphoneReasonNone)] = Inr w' \<and>
    map_option (row_state ''bob'') (w_event sample_sent) = Some (Some Displayed) \<and> w_event w' = Some e' \<and> row_state ''bob'' e' = Some FileTransferInProgress"
proof -
  have "\<exists>w'. receive_reports sample_uri sample_room sample_sent [(''bob'', FileTransferInProgress, 8, LinphoneReasonNone)] = Inr w' \<and>
      map_option (row_state ''bob'') (w_event w') = Some (Some FileTransferInProgress)" by (rule Inr_of_case) code_simp
  then show ?thesis by (auto simp: sample_defs row_state_def)
qed

theorem notifications_at_most_once_witness:
  "\<exists>w'. receive_reports sample_uri sample_room sample_sent
      [(''bob'', NotDelivered, 8, LinphoneReasonNone), (''carol'', Displayed, 9, LinphoneReasonNone)] = Inr w' \<and>
    count_list (w_out w') Notify_display \<le> 1"
proof -
  from sample_reports obtain w' where run: "receive_reports sample_uri sample_room sample_sent
      [(''bob'', NotDelivered, 8, LinphoneReasonNone), (''carol'', Displayed, 9, LinphoneReasonNone)] = Inr w'" by blast
  from notifications_at_most_once [OF run] run show ?thesis by (auto simp: sample_defs)
qed

theorem markAsRead_counts_once_witness:
  "\<exists>w' e. msg_markAsRead sample_uri sample_room 0 sample_received = Inr w' \<and> w_event w' = Some e \<and> ev_marked_as_read e \<and> w_unread w' = Some 2"
  using markAsRead_counts_once [OF sample_ready(2), of sample_uri 0]
  by (simp add: sample_defs read_consistent_def unread_flag_def msg_isValid_def)

theorem markAsRead_of_displayed_is_lost_witness:
  "\<exists>w w'. msg_markAsRead sample_uri sample_room 0 w = Inr w' \<and> cm_markedAsRead (w_message w') \<and> w_unread w' = Some 3 \<and>
    map_option ev_marked_as_read (w_event w') = Some False"
proof -
  let ?w = "sample_received\<lparr>w_message := (w_message sample_received)\<lparr>cm_state := Displayed\<rparr>,
    w_event := map_option (\<lambda>e. e\<lparr>ev_participants := [(''me'', Displayed, 8)]\<rparr>) (w_event sample_received)\<rparr>"
  have "\<exists>w'. msg_markAsRead sample_uri sample_room 0 ?w = Inr w' \<and> cm_markedAsRead (w_message w') \<and>
      w_event w' = w_event ?w \<and> w_unread w' = Some (case w_unread ?w of Some c \<Rightarrow> c | None \<Rightarrow> 0)"
    by (rule markAsRead_of_displayed_is_lost)
      (simp_all add: sample_defs msg_isValid_def getParticipantState_def getEvent_def getChatMessageParticipantState_def row_state_def)
  moreover have "map_option ev_marked_as_read (w_event ?w) = Some False" "(case w_unread ?w of Some c \<Rightarrow> c | None \<Rightarrow> 0) = 3" by (simp_all add: sample_defs)
  ultimately show ?thesis by metis
qed

theorem resend_timer_armed_witness:
  "\<exists>w'. setState 3 sample_uri sample_room PendingDelivery
      (sample_sent\<lparr>w_message := (w_message sample_sent)\<lparr>cm_state := Idle, cm_salOp := Some LinphoneReasonIOError\<rparr>\<rparr>) = Inr w' \<and>
    cm_resendTimer (w_message w')"
proof -
  let ?w = "sample_sent\<lparr>w_message := (w_message sample_sent)\<lparr>cm_state := Idle, cm_salOp := Some LinphoneReasonIOError\<rparr>\<rparr>"
  have "ready sample_room ?w" by (simp add: ready_def sample_defs)
  then obtain w' where run: "setState (Suc 2) sample_uri sample_room PendingDelivery ?w = Inr w'"
    using setState_returns [of sample_room ?w 3 sample_uri PendingDelivery] by auto
  have resend: "handleAutomaticResend Inr ?w = Inr (stopResendTimer (update_message (\<lambda>m. m\<lparr>cm_automaticallyResent := True\<rparr>) ?w))"
    by (simp add: handleAutomaticResend_def msg_send_def send_refused_def sample_defs)
  have "allowed (cm_state (w_message ?w)) PendingDelivery" "cm_direction (w_message ?w) = Outgoing"
    by (simp_all add: sample_defs fsm_isValid_def chatMessageFsmChecker_def)
  from resend_timer_armed [OF this run resend] run show ?thesis by (auto simp: numeral_3_eq_3 sample_defs)
qed

end
