(* ===== verification/Imdn.thy ===== *)
theory Imdn
  imports Chat_Delivery "HOL-Library.List_Lexorder" "HOL-Library.Char_ord"
begin

text \<open>
  Delivery notifications: the handler of a chat room (\<open>src/chat/notification/imdn.cpp\<close>), the notification messages it builds
  (\<open>imdn-message.cpp\<close>, \<open>ChatRoom::createImdnMessages\<close>) and the effect of received notifications on the messages
  they are about (\<open>Imdn::parse\<close>), with the marking of a whole chat room as read (\<open>ChatRoom::markAsRead\<close>, \<open>chat-room.cpp\<close>) that a display
  notification of another device of the user asks for.  The XML of a notification is read and written by generated bindings: a notification is the
  value they hold.  Sending the notification messages is an output.
\<close>

section \<open>Notification messages\<close>

text \<open>A chat message as the handler sees it; \<open>nm_ref\<close> is the identity of the object.\<close>

record notified =
  nm_ref :: nat
  nm_imdnMessageId :: string
  nm_time :: int
  nm_direction :: Direction
  nm_fromAddress :: address
  nm_participants :: nat

datatype imdn_content =
    Delivery_notification string int LinphoneReason
  | Display_notification string int

record imdn_message =
  im_peer :: address
  im_delivered :: "notified list"
  im_displayed :: "notified list"
  im_nonDelivered :: "(notified \<times> LinphoneReason) list"
  im_contents :: "imdn_content list"
  im_encryptionPrevented :: bool

text \<open>The constructor of \<open>ImdnMessage\<close>: messages without a Message-ID get no content.\<close>

definition new_imdn_message ::
  "address \<Rightarrow> notified list \<Rightarrow> notified list \<Rightarrow> (notified \<times> LinphoneReason) list \<Rightarrow> imdn_message" where
  "new_imdn_message peer delivered displayed nonDelivered =
     \<lparr>im_peer = peer, im_delivered = delivered, im_displayed = displayed, im_nonDelivered = nonDelivered,
      im_contents =
        map (\<lambda>m. Delivery_notification (nm_imdnMessageId m) (nm_time m) LinphoneReasonNone)
          (filter (\<lambda>m. nm_imdnMessageId m \<noteq> '''') delivered) @
        map (\<lambda>m. Display_notification (nm_imdnMessageId m) (nm_time m)) (filter (\<lambda>m. nm_imdnMessageId m \<noteq> '''') displayed) @
        map (\<lambda>(m, r). Delivery_notification (nm_imdnMessageId m) (nm_time m) r)
          (filter (\<lambda>(m, r). nm_imdnMessageId m \<noteq> '''') nonDelivered),
      im_encryptionPrevented = (nonDelivered \<noteq> [])\<rparr>"

text \<open>What the handler reads of the chat room, the core and the account.\<close>

record imdn_room =
  ir_uri :: uri_api
  ir_peerAddress :: "address option"
  ir_isGroup :: bool
  ir_threshold :: int
  ir_canHandleCpim :: bool
  ir_canHandleMultipart :: bool
  ir_send_if_unregistered :: bool
  ir_registered :: "bool option"
  ir_networkReachable :: bool

definition getImdnChatRoomPeerAddress :: "imdn_room \<Rightarrow> notified \<Rightarrow> address option" where
  "getImdnChatRoomPeerAddress room m =
     map_option (getUriWithoutGruu (ir_uri room))
       (if \<not> ir_isGroup room \<or> int (nm_participants m) \<le> ir_threshold room then ir_peerAddress room
        else if nm_direction m = Incoming then Some (nm_fromAddress m) else None)"

definition valid_peer :: "imdn_room \<Rightarrow> notified \<Rightarrow> address option" where
  "valid_peer room m =
     (case getImdnChatRoomPeerAddress room m of
        None \<Rightarrow> None | Some a \<Rightarrow> if address_isValid (ir_uri room) a then Some a else None)"

text \<open>\<open>std::map<Address, V>\<close>, in the order of the printed addresses, and \<open>m[k]\<close> with a change of the value.\<close>

fun group_update :: "(address \<Rightarrow> string) \<Rightarrow> address \<Rightarrow> ('v \<Rightarrow> 'v) \<Rightarrow> 'v \<Rightarrow> (address \<times> 'v) list \<Rightarrow> (address \<times> 'v) list" where
  "group_update key k f d [] = [(k, f d)]"
| "group_update key k f d ((a, v) # m) =
     (if key k < key a then (k, f d) # (a, v) # m
      else if key k = key a then (a, f v) # m
      else (a, v) # group_update key k f d m)"

definition group_add ::
  "imdn_room \<Rightarrow> ('m \<Rightarrow> notified) \<Rightarrow> ('m \<Rightarrow> 'v \<Rightarrow> 'v) \<Rightarrow> 'v \<Rightarrow> 'm list \<Rightarrow> (address \<times> 'v) list \<Rightarrow> (address \<times> 'v) list" where
  "group_add room msg push d ms groups =
     foldl (\<lambda>g m. case valid_peer room (msg m) of
         None \<Rightarrow> g
       | Some peer \<Rightarrow> group_update (toStringUriOnlyOrdered (ir_uri room)) peer (push m) d g) groups ms"

definition createImdnMessages :: "imdn_room \<Rightarrow> notified list \<Rightarrow> notified list \<Rightarrow> bool \<Rightarrow> imdn_message list" where
  "createImdnMessages room delivered displayed aggregate_imdns =
     (if aggregate_imdns
      then map (\<lambda>(peer, ds, vs). new_imdn_message peer ds vs [])
             (group_add room id (\<lambda>m (ds, vs). (ds, vs @ [m])) ([], []) displayed
               (group_add room id (\<lambda>m (ds, vs). (ds @ [m], vs)) ([], []) delivered []))
      else List.map_filter (\<lambda>m. map_option (\<lambda>peer. new_imdn_message peer [m] [] []) (valid_peer room m)) delivered @
           List.map_filter (\<lambda>m. map_option (\<lambda>peer. new_imdn_message peer [] [m] []) (valid_peer room m)) displayed)"

definition createErrorImdnMessages :: "imdn_room \<Rightarrow> (notified \<times> LinphoneReason) list \<Rightarrow> bool \<Rightarrow> imdn_message list" where
  "createErrorImdnMessages room nonDelivered aggregate_imdns =
     (if aggregate_imdns
      then map (\<lambda>(peer, ns). new_imdn_message peer [] [] ns) (group_add room fst (\<lambda>m ns. ns @ [m]) [] nonDelivered [])
      else List.map_filter (\<lambda>mr. map_option (\<lambda>peer. new_imdn_message peer [] [] [mr]) (valid_peer room (fst mr))) nonDelivered)"

section \<open>The handler\<close>

text \<open>\<open>ih_out\<close> are the notification messages handed to their chat rooms, in order.\<close>

record imdn_handler =
  ih_delivered :: "notified list"
  ih_displayed :: "notified list"
  ih_nonDelivered :: "(notified \<times> LinphoneReason) list"
  ih_sent :: "imdn_message list"
  ih_timer :: bool
  ih_aggregationAllowed :: bool
  ih_out :: "imdn_message list"

definition aggregationEnabled :: "imdn_room \<Rightarrow> imdn_handler \<Rightarrow> bool" where
  "aggregationEnabled room h \<longleftrightarrow> ir_canHandleCpim room \<and> ir_canHandleMultipart room \<and> ih_aggregationAllowed h"

definition can_send_now :: "imdn_room \<Rightarrow> bool" where
  "can_send_now room \<longleftrightarrow> ir_send_if_unregistered room \<or> ir_registered room = Some True \<and> ir_networkReachable room"

definition imdn_send :: "imdn_room \<Rightarrow> imdn_handler \<Rightarrow> imdn_handler" where
  "imdn_send room h =
     (if ih_delivered h = [] \<and> ih_displayed h = [] \<and> ih_nonDelivered h = [] then h
      else if \<not> can_send_now room then h
      else
        (let (msgs1, h1) =
               (if ih_delivered h \<noteq> [] \<or> ih_displayed h \<noteq> []
                then (createImdnMessages room (ih_delivered h) (ih_displayed h) (aggregationEnabled room h),
                      h\<lparr>ih_delivered := [], ih_displayed := []\<rparr>)
                else ([], h));
             (msgs2, h2) =
               (if ih_nonDelivered h1 \<noteq> []
                then (createErrorImdnMessages room (ih_nonDelivered h1) (aggregationEnabled room h1), h1\<lparr>ih_nonDelivered := []\<rparr>)
                else (msgs1, h1));
             to_send = filter (\<lambda>im. im_contents im \<noteq> []) msgs2
         in h2\<lparr>ih_sent := ih_sent h2 @ to_send, ih_out := ih_out h2 @ to_send\<rparr>))"

definition startTimer :: "imdn_room \<Rightarrow> imdn_handler \<Rightarrow> imdn_handler" where
  "startTimer room h = (if \<not> aggregationEnabled room h then imdn_send room h else h\<lparr>ih_timer := True\<rparr>)"

definition stopTimer :: "imdn_handler \<Rightarrow> imdn_handler" where
  "stopTimer h = h\<lparr>ih_timer := False\<rparr>"

definition has_ref :: "notified \<Rightarrow> notified list \<Rightarrow> bool" where
  "has_ref m ms \<longleftrightarrow> nm_ref m \<in> nm_ref ` set ms"

definition notifyDelivery :: "imdn_room \<Rightarrow> notified \<Rightarrow> imdn_handler \<Rightarrow> imdn_handler" where
  "notifyDelivery room m h =
     (if has_ref m (ih_delivered h) then h else startTimer room (h\<lparr>ih_delivered := ih_delivered h @ [m]\<rparr>))"

definition notifyDeliveryError :: "imdn_room \<Rightarrow> notified \<Rightarrow> LinphoneReason \<Rightarrow> imdn_handler \<Rightarrow> imdn_handler" where
  "notifyDeliveryError room m reason h =
     (if has_ref m (map fst (ih_nonDelivered h)) then h
      else startTimer room (h\<lparr>ih_nonDelivered := ih_nonDelivered h @ [(m, reason)]\<rparr>))"

text \<open>\<open>list::erase\<close> of the first occurrence.\<close>

fun erase_ref :: "notified \<Rightarrow> notified list \<Rightarrow> notified list" where
  "erase_ref m [] = []"
| "erase_ref m (x # xs) = (if nm_ref x = nm_ref m then xs else x # erase_ref m xs)"

definition notifyDisplay :: "imdn_room \<Rightarrow> notified \<Rightarrow> imdn_handler \<Rightarrow> imdn_handler" where
  "notifyDisplay room m h =
     (let h1 = h\<lparr>ih_delivered := erase_ref m (ih_delivered h)\<rparr>
      in if has_ref m (ih_displayed h1) then h1 else startTimer room (h1\<lparr>ih_displayed := ih_displayed h1 @ [m]\<rparr>))"

definition remove_refs :: "notified list \<Rightarrow> notified list \<Rightarrow> notified list" where
  "remove_refs ms xs = filter (\<lambda>x. \<not> has_ref x ms) xs"

definition onImdnMessageDelivered :: "imdn_message \<Rightarrow> imdn_handler \<Rightarrow> imdn_handler" where
  "onImdnMessageDelivered im h =
     h\<lparr>ih_delivered := remove_refs (im_delivered im) (ih_delivered h),
       ih_displayed := remove_refs (im_displayed im) (ih_displayed h),
       ih_nonDelivered := filter (\<lambda>mr. mr \<notin> set (im_nonDelivered im)) (ih_nonDelivered h),
       ih_sent := removeAll im (ih_sent h)\<rparr>"

definition onImdnMessageNotDelivered :: "imdn_message \<Rightarrow> imdn_handler \<Rightarrow> imdn_handler" where
  "onImdnMessageNotDelivered im h = h\<lparr>ih_sent := removeAll im (ih_sent h)\<rparr>"

definition isCurrentlySendingImdnMessages :: "imdn_room \<Rightarrow> imdn_handler \<Rightarrow> bool" where
  "isCurrentlySendingImdnMessages room h \<longleftrightarrow>
     (ir_send_if_unregistered room \<or> ir_registered room = Some True) \<and> (ih_timer h \<or> ih_sent h \<noteq> [])"

definition imdn_onLinphoneCoreStop :: "imdn_handler \<Rightarrow> imdn_handler" where
  "imdn_onLinphoneCoreStop h = h\<lparr>ih_delivered := [], ih_displayed := [], ih_nonDelivered := [], ih_sent := []\<rparr>"

definition imdn_onRegistrationStateChanged :: "imdn_room \<Rightarrow> bool \<Rightarrow> bool \<Rightarrow> imdn_handler \<Rightarrow> imdn_handler" where
  "imdn_onRegistrationStateChanged room registration_ok related h =
     (if registration_ok \<and> related then imdn_send room (h\<lparr>ih_sent := []\<rparr>) else h)"

definition imdn_onNetworkReachable :: "imdn_room \<Rightarrow> bool \<Rightarrow> imdn_handler \<Rightarrow> imdn_handler" where
  "imdn_onNetworkReachable room sipNetworkReachable h =
     (if sipNetworkReachable \<and> ir_registered room = None then imdn_send room (h\<lparr>ih_sent := []\<rparr>) else h)"

definition imdn_onGlobalShutdown :: "imdn_room \<Rightarrow> imdn_handler \<Rightarrow> imdn_handler" where
  "imdn_onGlobalShutdown room h = imdn_send room (stopTimer h)"

definition timerExpired :: "imdn_room \<Rightarrow> imdn_handler \<Rightarrow> imdn_handler" where
  "timerExpired room h = imdn_send room (stopTimer h)"

section \<open>Received notifications\<close>

datatype delivery_status = Status_delivered | Status_failed "int option" | Status_error | Status_other

datatype received_imdn =
    Received_delivery string delivery_status
  | Received_display string bool




section \<open>The messages of the chat rooms\<close>












section \<open>The effect of notifications\<close>





definition imdn_isError :: "received_imdn list \<Rightarrow> bool" where
  "imdn_isError ns = list_ex (\<lambda>n. case n of
       Received_delivery _ st \<Rightarrow> st = Status_error \<or> (case st of Status_failed _ \<Rightarrow> True | _ \<Rightarrow> False)
     | Received_display _ _ \<Rightarrow> False) ns"

section \<open>What is sent\<close>

lemma group_update_mem:
  assumes "(a, v) \<in> set g"
  shows "(a, v) \<in> set (group_update key k f d g) \<or> key a = key k \<and> (a, f v) \<in> set (group_update key k f d g)"
  using assms by (induction g) (auto split: if_splits)

lemma group_update_new: "\<exists>a v. key a = key k \<and> (a, f v) \<in> set (group_update key k f d g)"
  by (induction g) fastforce+

text \<open>A value pushed into a group stays there, in a group of the same printed address.\<close>

definition in_group :: "(address \<Rightarrow> string) \<Rightarrow> address \<Rightarrow> ('v \<Rightarrow> bool) \<Rightarrow> (address \<times> 'v) list \<Rightarrow> bool" where
  "in_group key peer P g \<longleftrightarrow> (\<exists>a v. (a, v) \<in> set g \<and> key a = key peer \<and> P v)"

lemma in_group_update:
  assumes "in_group key peer P g" and "\<And>v. P v \<Longrightarrow> P (f v)"
  shows "in_group key peer P (group_update key k f d g)"
  using assms group_update_mem unfolding in_group_def by metis

lemma in_group_add:
  assumes "in_group (toStringUriOnlyOrdered (ir_uri room)) peer P g" and "\<And>m v. P v \<Longrightarrow> P (push m v)"
  shows "in_group (toStringUriOnlyOrdered (ir_uri room)) peer P (group_add room msg push d ms g)"
  using assms(1) unfolding group_add_def
proof (induction ms arbitrary: g)
  case (Cons m ms)
  then show ?case using in_group_update [where P = P, OF _ assms(2)] by (cases "valid_peer room (msg m)") auto
qed simp

lemma group_add_pushed:
  assumes "m \<in> set ms" "valid_peer room (msg m) = Some peer" and new: "\<And>v. P (push m v)" and keep: "\<And>m v. P v \<Longrightarrow> P (push m v)"
  shows "in_group (toStringUriOnlyOrdered (ir_uri room)) peer P (group_add room msg push d ms g)"
  using assms(1)
proof (induction ms arbitrary: g)
  case (Cons x ms)
  let ?key = "toStringUriOnlyOrdered (ir_uri room)"
  let ?g = "case valid_peer room (msg x) of None \<Rightarrow> g | Some p \<Rightarrow> group_update ?key p (push x) d g"
  have split: "group_add room msg push d (x # ms) g = group_add room msg push d ms ?g" by (simp add: group_add_def)
  show ?case
  proof (cases "x = m")
    case True
    have "in_group ?key peer P ?g"
      using True assms(2) new group_update_new [of ?key peer "push x" d g] unfolding in_group_def by auto
    then show ?thesis unfolding split by (rule in_group_add) (rule keep)
  next
    case False
    with Cons.prems Cons.IH [of ?g] show ?thesis unfolding split by simp
  qed
qed simp

text \<open>A delivered or displayed message reaches a notification message for its peer.\<close>

definition notifies_delivery :: "imdn_room \<Rightarrow> notified \<Rightarrow> imdn_message \<Rightarrow> bool" where
  "notifies_delivery room m im \<longleftrightarrow> Delivery_notification (nm_imdnMessageId m) (nm_time m) LinphoneReasonNone \<in> set (im_contents im) \<and>
     map_option (toStringUriOnlyOrdered (ir_uri room)) (valid_peer room m) = Some (toStringUriOnlyOrdered (ir_uri room) (im_peer im))"

definition notifies_display :: "imdn_room \<Rightarrow> notified \<Rightarrow> imdn_message \<Rightarrow> bool" where
  "notifies_display room m im \<longleftrightarrow> Display_notification (nm_imdnMessageId m) (nm_time m) \<in> set (im_contents im) \<and>
     map_option (toStringUriOnlyOrdered (ir_uri room)) (valid_peer room m) = Some (toStringUriOnlyOrdered (ir_uri room) (im_peer im))"

lemma new_imdn_contents:
  assumes "nm_imdnMessageId m \<noteq> ''''"
  shows "m \<in> set ds \<Longrightarrow> Delivery_notification (nm_imdnMessageId m) (nm_time m) LinphoneReasonNone \<in> set (im_contents (new_imdn_message p ds vs ns))"
    and "m \<in> set vs \<Longrightarrow> Display_notification (nm_imdnMessageId m) (nm_time m) \<in> set (im_contents (new_imdn_message p ds vs ns))"
  using assms by (auto simp: new_imdn_message_def)

lemma new_imdn_peer [simp]: "im_peer (new_imdn_message p ds vs ns) = p"
  by (simp add: new_imdn_message_def)

lemma createImdnMessages_complete:
  assumes id: "nm_imdnMessageId m \<noteq> ''''" and peer: "valid_peer room m = Some peer"
  shows "m \<in> set ds \<Longrightarrow> \<exists>im \<in> set (createImdnMessages room ds vs agg). notifies_delivery room m im"
    and "m \<in> set vs \<Longrightarrow> \<exists>im \<in> set (createImdnMessages room ds vs agg). notifies_display room m im"
proof -
  let ?key = "toStringUriOnlyOrdered (ir_uri room)"
  let ?g1 = "group_add room id (\<lambda>m (ds, vs). (ds @ [m], vs)) ([], []) ds []"
  let ?g2 = "group_add room id (\<lambda>m (ds, vs). (ds, vs @ [m])) ([], []) vs ?g1"
  show "\<exists>im \<in> set (createImdnMessages room ds vs agg). notifies_delivery room m im" if m: "m \<in> set ds"
  proof (cases agg)
    case True
    have "in_group ?key peer (\<lambda>(d, v). m \<in> set d) ?g1" by (rule group_add_pushed [OF m]) (use peer in auto)
    then have "in_group ?key peer (\<lambda>(d, v). m \<in> set d) ?g2" by (rule in_group_add) auto
    then show ?thesis using True new_imdn_contents(1) [OF id] peer
      by (force simp: in_group_def createImdnMessages_def notifies_delivery_def)
  next
    case False
    with m peer new_imdn_contents(1) [OF id, of "[m]"] show ?thesis
      by (force simp: createImdnMessages_def notifies_delivery_def List.map_filter_def)
  qed
  show "\<exists>im \<in> set (createImdnMessages room ds vs agg). notifies_display room m im" if m: "m \<in> set vs"
  proof (cases agg)
    case True
    have "in_group ?key peer (\<lambda>(d, v). m \<in> set v) ?g2" by (rule group_add_pushed [OF m]) (use peer in auto)
    then show ?thesis using True new_imdn_contents(2) [OF id] peer
      by (force simp: in_group_def createImdnMessages_def notifies_display_def)
  next
    case False
    with m peer new_imdn_contents(2) [OF id, of "[m]"] show ?thesis
      by (force simp: createImdnMessages_def notifies_display_def List.map_filter_def)
  qed
qed

text \<open>
  C19: What was received and displayed is notified.  When nothing failed to be delivered and the account can send, sending hands to the
  chat rooms a notification for every pending message that has an identifier and a peer, addressed to that peer, with the
  delivery or the display of the message, and nothing stays pending.
\<close>

theorem imdn_send_complete:
  assumes none: "ih_nonDelivered h = []" and can: "can_send_now room"
    and m: "m \<in> set (ih_delivered h) \<or> m \<in> set (ih_displayed h)" "nm_imdnMessageId m \<noteq> ''''" "valid_peer room m = Some peer"
  shows "\<exists>new. ih_out (imdn_send room h) = ih_out h @ new \<and> ih_delivered (imdn_send room h) = [] \<and> ih_displayed (imdn_send room h) = [] \<and>
    (m \<in> set (ih_delivered h) \<longrightarrow> list_ex (notifies_delivery room m) new) \<and>
    (m \<in> set (ih_displayed h) \<longrightarrow> list_ex (notifies_display room m) new)"
proof -
  let ?msgs = "createImdnMessages room (ih_delivered h) (ih_displayed h) (aggregationEnabled room h)"
  let ?new = "filter (\<lambda>im. im_contents im \<noteq> []) ?msgs"
  have "imdn_send room h = h\<lparr>ih_delivered := [], ih_displayed := [], ih_sent := ih_sent h @ ?new, ih_out := ih_out h @ ?new\<rparr>"
    using none can m(1) by (auto simp: imdn_send_def Let_def)
  moreover have "list_ex (notifies_delivery room m) ?new" if "m \<in> set (ih_delivered h)"
    using createImdnMessages_complete(1) [OF m(2,3) that, of "ih_displayed h" "aggregationEnabled room h"]
    by (auto simp: list_ex_iff notifies_delivery_def)
  moreover have "list_ex (notifies_display room m) ?new" if "m \<in> set (ih_displayed h)"
    using createImdnMessages_complete(2) [OF m(2,3) that, of "ih_delivered h" "aggregationEnabled room h"]
    by (auto simp: list_ex_iff notifies_display_def)
  ultimately show ?thesis by auto
qed

text \<open>
  A failed delivery drops the other notifications.  When a message that could not be delivered is pending together with
  received or displayed ones, sending clears all three lists, but hands out only notifications of failures.
\<close>

theorem imdn_send_drops_notifications:
  assumes failed: "ih_nonDelivered h \<noteq> []" and can: "can_send_now room"
  shows "\<exists>new. ih_out (imdn_send room h) = ih_out h @ new \<and> list_all (\<lambda>im. im_delivered im = [] \<and> im_displayed im = []) new \<and>
    ih_delivered (imdn_send room h) = [] \<and> ih_displayed (imdn_send room h) = [] \<and> ih_nonDelivered (imdn_send room h) = []"
proof -
  let ?new = "filter (\<lambda>im. im_contents im \<noteq> []) (createErrorImdnMessages room (ih_nonDelivered h) (aggregationEnabled room h))"
  have "ih_out (imdn_send room h) = ih_out h @ ?new \<and> ih_delivered (imdn_send room h) = [] \<and> ih_displayed (imdn_send room h) = [] \<and>
      ih_nonDelivered (imdn_send room h) = []"
    using failed can by (auto simp: imdn_send_def Let_def aggregationEnabled_def)
  moreover have "list_all (\<lambda>im. im_delivered im = [] \<and> im_displayed im = []) ?new"
    by (auto simp: list_all_iff createErrorImdnMessages_def new_imdn_message_def List.map_filter_def)
  ultimately show ?thesis by blast
qed

text \<open>
  A notification that fails is not sent again: after sending, even if every notification message fails and the account registers
  again, nothing is handed out.
\<close>

lemma imdn_failure_forgotten:
  assumes "can_send_now room"
  shows "imdn_send room' (fold onImdnMessageNotDelivered ims (imdn_send room h)) = fold onImdnMessageNotDelivered ims (imdn_send room h)"
proof -
  have "ih_delivered (imdn_send room h) = [] \<and> ih_displayed (imdn_send room h) = [] \<and> ih_nonDelivered (imdn_send room h) = []"
    using assms by (auto simp: imdn_send_def Let_def)
  moreover have "ih_delivered (fold onImdnMessageNotDelivered ims h') = ih_delivered h' \<and>
      ih_displayed (fold onImdnMessageNotDelivered ims h') = ih_displayed h' \<and>
      ih_nonDelivered (fold onImdnMessageNotDelivered ims h') = ih_nonDelivered h'" for h'
    by (induction ims arbitrary: h') (simp_all add: onImdnMessageNotDelivered_def)
  ultimately show ?thesis by (simp add: imdn_send_def)
qed

section \<open>The lists of the handler\<close>

inductive imdn_step :: "imdn_handler \<Rightarrow> imdn_handler \<Rightarrow> bool" where
  "imdn_step h (notifyDelivery room m h)"
| "imdn_step h (notifyDeliveryError room m reason h)"
| "imdn_step h (notifyDisplay room m h)"
| "imdn_step h (onImdnMessageDelivered im h)"
| "imdn_step h (onImdnMessageNotDelivered im h)"
| "imdn_step h (imdn_onLinphoneCoreStop h)"
| "imdn_step h (imdn_onRegistrationStateChanged room ok related h)"
| "imdn_step h (imdn_onNetworkReachable room reachable h)"
| "imdn_step h (imdn_onGlobalShutdown room h)"
| "imdn_step h (timerExpired room h)"

text \<open>No message is pending twice in a list, and what is being sent was handed out.\<close>

definition handler_inv :: "imdn_handler \<Rightarrow> bool" where
  "handler_inv h \<longleftrightarrow> distinct (map nm_ref (ih_delivered h)) \<and> distinct (map nm_ref (ih_displayed h)) \<and>
     distinct (map (nm_ref \<circ> fst) (ih_nonDelivered h)) \<and> set (ih_sent h) \<subseteq> set (ih_out h)"

lemma handler_inv_send: "handler_inv h \<Longrightarrow> handler_inv (imdn_send room h)"
  by (auto simp: handler_inv_def imdn_send_def Let_def)

lemma handler_inv_timer: "handler_inv h \<Longrightarrow> handler_inv (startTimer room h)" "handler_inv h \<Longrightarrow> handler_inv (stopTimer h)"
  by (simp_all add: startTimer_def stopTimer_def handler_inv_send) (simp_all add: handler_inv_def)

lemma erase_ref_subset: "set (erase_ref m xs) \<subseteq> set xs"
  by (induction xs) auto

lemma distinct_erase_ref: "distinct (map nm_ref xs) \<Longrightarrow> distinct (map nm_ref (erase_ref m xs))"
  using erase_ref_subset by (induction xs) fastforce+

lemma distinct_map_filter': "distinct (map f xs) \<Longrightarrow> distinct (map f (filter P xs))"
  by (induction xs) auto

lemma handler_inv_step: "imdn_step h h' \<Longrightarrow> handler_inv h \<Longrightarrow> handler_inv h'"
proof (induction rule: imdn_step.induct)
  case (1 h room m)
  then have "\<not> has_ref m (ih_delivered h) \<Longrightarrow> handler_inv (h\<lparr>ih_delivered := ih_delivered h @ [m]\<rparr>)"
    by (auto simp: handler_inv_def has_ref_def)
  with 1 show ?case by (simp add: notifyDelivery_def handler_inv_timer)
next
  case (2 h room m reason)
  then have "\<not> has_ref m (map fst (ih_nonDelivered h)) \<Longrightarrow> handler_inv (h\<lparr>ih_nonDelivered := ih_nonDelivered h @ [(m, reason)]\<rparr>)"
    by (auto simp: handler_inv_def has_ref_def)
  with 2 show ?case by (simp add: notifyDeliveryError_def handler_inv_timer)
next
  case (3 h room m)
  let ?h = "h\<lparr>ih_delivered := erase_ref m (ih_delivered h)\<rparr>"
  from 3 have inv: "handler_inv ?h" by (simp add: handler_inv_def distinct_erase_ref)
  then have "\<not> has_ref m (ih_displayed h) \<Longrightarrow> handler_inv (?h\<lparr>ih_displayed := ih_displayed h @ [m]\<rparr>)"
    by (auto simp: handler_inv_def has_ref_def)
  with inv show ?case by (simp add: notifyDisplay_def Let_def handler_inv_timer)
next
  case (4 h im)
  then show ?case by (auto simp: onImdnMessageDelivered_def remove_refs_def handler_inv_def intro!: distinct_map_filter')
qed (auto simp: onImdnMessageNotDelivered_def imdn_onLinphoneCoreStop_def imdn_onRegistrationStateChanged_def
    imdn_onNetworkReachable_def imdn_onGlobalShutdown_def timerExpired_def handler_inv_timer
    intro!: handler_inv_send, auto simp: handler_inv_def)

definition new_handler :: "bool \<Rightarrow> imdn_handler" where
  "new_handler allowed_aggregation = \<lparr>ih_delivered = [], ih_displayed = [], ih_nonDelivered = [], ih_sent = [], ih_timer = False,
     ih_aggregationAllowed = allowed_aggregation, ih_out = []\<rparr>"

text \<open>
  However the events of a handler interleave, no message is pending twice in one of its lists, and the notification messages
  that wait for their delivery are among those handed out.
\<close>

theorem imdn_handler_invariant:
  assumes "imdn_step\<^sup>*\<^sup>* (new_handler agg) h"
  shows "handler_inv h"
  using assms by (induction rule: rtranclp_induct) (auto simp: handler_inv_step, simp add: handler_inv_def new_handler_def)

section \<open>Notifications and messages\<close>



text \<open>A participant's display completes the message when with it every recipient has displayed it and no delivery failed.\<close>

definition completes :: "uri_api \<Rightarrow> chat_room \<Rightarrow> address \<Rightarrow> int \<Rightarrow> chat_world \<Rightarrow> bool" where
  "completes api room p t w \<longleftrightarrow> allowed (getParticipantState api room p w) Displayed \<and> allowed (cm_state (w_message w)) Displayed \<and>
     (case getEvent w of
        None \<Rightarrow> False
      | Some e \<Rightarrow>
          let rows = ev_participants (setChatMessageParticipantState api p Displayed t e)
          in rows_displayed api room (cm_fromAddress (w_message w)) rows \<and>
             list_ex (\<lambda>(a, s, t). case row_participant api room a of None \<Rightarrow> False | Some q \<Rightarrow> \<not> weakEqual api (cm_fromAddress (w_message w)) q) rows \<and>
             list_all (\<lambda>(a, s, t). row_participant api room a = None \<or> s \<noteq> NotDelivered) rows)"


lemma unread_irrelevant [simp]:
  "ready room (w\<lparr>w_unread := c\<rparr>) = ready room w" "completes api room p t (w\<lparr>w_unread := c\<rparr>) = completes api room p t w"
  by (simp_all add: ready_def completes_def getParticipantState_def getEvent_def cong: option.case_cong)











section \<open>Concrete notifications\<close>

definition sample_imdn_room :: imdn_room where
  "sample_imdn_room = \<lparr>ir_uri = sample_uri, ir_peerAddress = Some ''group'', ir_isGroup = True, ir_threshold = 3, ir_canHandleCpim = True,
     ir_canHandleMultipart = True, ir_send_if_unregistered = False, ir_registered = Some True, ir_networkReachable = True\<rparr>"

definition sample_notified :: "nat \<Rightarrow> string \<Rightarrow> notified" where
  "sample_notified ref i = \<lparr>nm_ref = ref, nm_imdnMessageId = i, nm_time = 5, nm_direction = Incoming, nm_fromAddress = ''bob'', nm_participants = 2\<rparr>"

definition sample_handler :: imdn_handler where
  "sample_handler = (new_handler True)\<lparr>ih_delivered := [sample_notified 1 ''a'', sample_notified 2 ''b''], ih_displayed := [sample_notified 3 ''c'']\<rparr>"

lemmas sample_imdn_defs = sample_imdn_room_def sample_notified_def sample_handler_def new_handler_def sample_uri_def

lemma sample_peer: "valid_peer sample_imdn_room (sample_notified 3 ''c'') = Some ''group''"
  by (simp add: valid_peer_def getImdnChatRoomPeerAddress_def sample_imdn_defs)

theorem imdn_send_complete_witness:
  "\<exists>new. ih_out (imdn_send sample_imdn_room sample_handler) = new \<and> ih_displayed (imdn_send sample_imdn_room sample_handler) = [] \<and>
    list_ex (notifies_display sample_imdn_room (sample_notified 3 ''c'')) new"
  using imdn_send_complete [OF _ _ _ _ sample_peer, of sample_handler]
  by (simp add: can_send_now_def sample_imdn_defs)

theorem imdn_send_drops_notifications_witness:
  "\<exists>new. ih_out (imdn_send sample_imdn_room (sample_handler\<lparr>ih_nonDelivered := [(sample_notified 4 ''d'', LinphoneReasonUnsupportedContent)]\<rparr>)) = new \<and>
    list_all (\<lambda>im. im_delivered im = [] \<and> im_displayed im = []) new \<and>
    ih_delivered (imdn_send sample_imdn_room (sample_handler\<lparr>ih_nonDelivered := [(sample_notified 4 ''d'', LinphoneReasonUnsupportedContent)]\<rparr>)) = []"
  using imdn_send_drops_notifications [of "sample_handler\<lparr>ih_nonDelivered := [(sample_notified 4 ''d'', LinphoneReasonUnsupportedContent)]\<rparr>" sample_imdn_room]
  by (simp add: can_send_now_def sample_imdn_room_def sample_handler_def new_handler_def)

theorem imdn_handler_invariant_witness:
  "handler_inv (timerExpired sample_imdn_room (notifyDelivery sample_imdn_room (sample_notified 1 ''a'') (new_handler True)))"
proof (rule imdn_handler_invariant)
  have "imdn_step (new_handler True) (notifyDelivery sample_imdn_room (sample_notified 1 ''a'') (new_handler True))"
    by (rule imdn_step.intros(1))
  moreover have "imdn_step (notifyDelivery sample_imdn_room (sample_notified 1 ''a'') (new_handler True))
      (timerExpired sample_imdn_room (notifyDelivery sample_imdn_room (sample_notified 1 ''a'') (new_handler True)))"
    by (rule imdn_step.intros(10))
  ultimately show "imdn_step\<^sup>*\<^sup>* (new_handler True)
      (timerExpired sample_imdn_room (notifyDelivery sample_imdn_room (sample_notified 1 ''a'') (new_handler True)))" by auto
qed




end
