(* ===== verification/Call_Session.thy ===== *)
theory Call_Session
  imports Error_Info C_Text
begin

text \<open>
  Call sessions (\<open>src/conference/session/call-session.cpp\<close>): the state machine of a call, an INVITE session of SIP without its media.  The model is
  the class \<open>CallSession\<close> with its private part; the class \<open>MediaSession\<close> that adds streams to it is not modelled.

  A world is one session with what it reads and writes around it: its SIP operation (\<open>SalCallOp\<close>) as far as the session looks at it, its call log, the accounts,
  the clock, and the list of everything it told its listeners and its SIP operation, in order.  Methods are steps, functions from a world to a world or a failure;
  the value a method returns is left in \<open>w_ret\<close>.  A listener that is told of an event may call the session again before it returns, and so may the SIP stack when it is given a command:
  \<open>react\<close> is what happens inside such a call, and \<open>core_at\<close> closes the circle for an environment that answers each event by calls of the session, nested up
  to a given depth.  The core, the SIP stack and the data base are the other parameters of \<open>call_core\<close>.
\<close>

section \<open>Data\<close>

datatype CallState =
    Idle | IncomingReceived | PushIncomingReceived | OutgoingInit | OutgoingProgress | OutgoingRinging | OutgoingEarlyMedia
  | Connected | StreamsRunning | Pausing | Paused | Resuming | Referred | Error | End | PausedByRemote | UpdatedByRemote
  | IncomingEarlyMedia | Updating | Released | EarlyUpdatedByRemote | EarlyUpdating

fun linphone_call_state_to_string :: "CallState \<Rightarrow> string" where
  "linphone_call_state_to_string Idle = ''LinphoneCallIdle''"
| "linphone_call_state_to_string IncomingReceived = ''LinphoneCallIncomingReceived''"
| "linphone_call_state_to_string PushIncomingReceived = ''LinphoneCallPushIncomingReceived''"
| "linphone_call_state_to_string OutgoingInit = ''LinphoneCallOutgoingInit''"
| "linphone_call_state_to_string OutgoingProgress = ''LinphoneCallOutgoingProgress''"
| "linphone_call_state_to_string OutgoingRinging = ''LinphoneCallOutgoingRinging''"
| "linphone_call_state_to_string OutgoingEarlyMedia = ''LinphoneCallOutgoingEarlyMedia''"
| "linphone_call_state_to_string Connected = ''LinphoneCallConnected''"
| "linphone_call_state_to_string StreamsRunning = ''LinphoneCallStreamsRunning''"
| "linphone_call_state_to_string Pausing = ''LinphoneCallPausing''"
| "linphone_call_state_to_string Paused = ''LinphoneCallPaused''"
| "linphone_call_state_to_string Resuming = ''LinphoneCallResuming''"
| "linphone_call_state_to_string Referred = ''LinphoneCallRefered''"
| "linphone_call_state_to_string Error = ''LinphoneCallError''"
| "linphone_call_state_to_string End = ''LinphoneCallEnd''"
| "linphone_call_state_to_string PausedByRemote = ''LinphoneCallPausedByRemote''"
| "linphone_call_state_to_string UpdatedByRemote = ''LinphoneCallUpdatedByRemote''"
| "linphone_call_state_to_string IncomingEarlyMedia = ''LinphoneCallIncomingEarlyMedia''"
| "linphone_call_state_to_string Updating = ''LinphoneCallUpdating''"
| "linphone_call_state_to_string Released = ''LinphoneCallReleased''"
| "linphone_call_state_to_string EarlyUpdatedByRemote = ''LinphoneCallEarlyUpdatedByRemote''"
| "linphone_call_state_to_string EarlyUpdating = ''LinphoneCallEarlyUpdating''"

datatype CallDir = LinphoneCallOutgoing | LinphoneCallIncoming

datatype CallStatus =
    LinphoneCallSuccess | LinphoneCallAborted | LinphoneCallMissed | LinphoneCallDeclined | LinphoneCallEarlyAborted
  | LinphoneCallAcceptedElsewhere | LinphoneCallDeclinedElsewhere

datatype UpdateMethod = Update_Default | Update_Invite | Update_Update

datatype PredefinedSubjectType =
    Subject_Conference | Subject_InternalUpdate | Subject_Refresh | Subject_MediaChange | Subject_CallOnHold
  | Subject_BothPartiesOnHold | Subject_Resuming

fun predefinedSubject :: "PredefinedSubjectType \<Rightarrow> string" where
  "predefinedSubject Subject_Conference = ''Conference''"
| "predefinedSubject Subject_InternalUpdate = ''ICE processing concluded''"
| "predefinedSubject Subject_Refresh = ''Refreshing''"
| "predefinedSubject Subject_MediaChange = ''Media change''"
| "predefinedSubject Subject_CallOnHold = ''Call on hold''"
| "predefinedSubject Subject_BothPartiesOnHold = ''Call on hold for me too''"
| "predefinedSubject Subject_Resuming = ''Call resuming''"

text \<open>A body of a SIP message: a session description or another content.\<close>

datatype body = Sdp string | Other_body string

definition is_sdp :: "body \<Rightarrow> bool" where
  "is_sdp b = (case b of Sdp _ \<Rightarrow> True | Other_body _ \<Rightarrow> False)"

text \<open>
  The SIP operation as the session sees it.  \<open>op_replaces\<close> is the operation this one replaces (Replaces header), with the state of its session when it has one.
\<close>

record call_op =
  op_id :: nat
  op_callId :: string
  op_errorInfo :: SalErrorInfo
  op_reasonErrorInfo :: SalErrorInfo
  op_hasDialog :: bool
  op_hasRetryFunction :: bool
  op_dialogRequestPending :: bool
  op_localTag :: string
  op_remoteTag :: string
  op_from :: address
  op_to :: address
  op_requestAddress :: address
  op_contactAddress :: "address option"
  op_remoteContactAddress :: "address option"
  op_networkOrigin :: address
  op_replaces :: "CallState option option"
  op_assertedIdentity :: "string option"
  op_recvCustomHeaders :: "string list option"
  op_sentCustomHeaders :: "string list"
  op_privacy :: int
  op_localBodies :: "body list"
  op_remoteBodies :: "body list"
  op_capabilityNegotiation :: bool
  op_referrer :: "nat option"

record call_log =
  log_direction :: CallDir
  log_from :: address
  log_to :: address
  log_status :: CallStatus
  log_callId :: string
  log_startTime :: int
  log_connectedTime :: int
  log_duration :: int
  log_errorInfo :: "LinphoneErrorInfo option"
  log_conferenceInfo :: "address option"

text \<open>The session that sent us to the callee (\<open>referer\<close>), by its name and the name of its operation.\<close>

type_synonym session_ref = "nat \<times> nat option"

record call_params =
  cp_inConference :: bool
  cp_conferenceCreation :: bool
  cp_internalCallUpdate :: bool
  cp_noUserConsent :: bool
  cp_capabilityNegotiation :: bool
  cp_customContents :: "body list"
  cp_customHeaders :: "string list"
  cp_contactUriParameters :: "(string \<times> string) list"
  cp_contactParameters :: "(string \<times> string) list"
  cp_referer :: "session_ref option"
  cp_privacy :: "int option"
  cp_endTime :: int

text \<open>An account: \<open>acc_op\<close> is its registration with the contact address it has.\<close>

record account =
  acc_contactAddress :: "address option"
  acc_op :: "address option option"
  acc_dependency :: bool
  acc_registerEnabled :: bool
  acc_registered :: bool
  acc_identity :: address
  acc_missedCalls :: int

section \<open>Events and commands\<close>

text \<open>What listeners are told (\<open>CallSessionListener\<close>).\<close>

datatype session_event =
    State_changed CallState string
  | Transfer_state_changed CallState
  | Set_terminated
  | Set_released
  | Start_ringtone
  | Incoming_notified
  | Incoming_started
  | Accepting
  | Check_for_acceptation
  | Background_task_to_be_started
  | Background_task_to_be_stopped
  | Ack_being_sent
  | Ack_received
  | Info_received
  | Incoming_timeout_check int bool
  | Push_timeout_check int

text \<open>What the SIP operation is told.\<close>

datatype op_command =
    Op_terminate "SalErrorInfo option"
  | Op_accept
  | Op_decline SalReason
  | Op_replyWithErrorInfo SalErrorInfo "address option" int
  | Op_notifyRinging bool
  | Op_call address address string
  | Op_update string bool
  | Op_cancelInvite
  | Op_killDialog
  | Op_refer address
  | Op_referWithReplaces "nat option"
  | Op_setReplaces string string string
  | Op_notifyReferState "nat option"
  | Op_ping address address
  | Op_release

datatype call_event_kind = ConferenceCallStarted | ConferenceCallConnected | ConferenceCallEnded

datatype session_output =
    Moving CallState CallState
  | Notified nat session_event
  | Told nat op_command
  | Terminate_replaced_session
  | Report_call_event call_event_kind
  | Db_insert_conference_info address
  | Db_update_call_log
  | Do_later

record call_world =
  cs_listeners :: "nat list"
  cs_params :: call_params
  cs_currentPrivacy :: int
  cs_remoteParams :: "(string list \<times> body list) option"
  cs_subject :: string
  cs_direction :: CallDir
  cs_state :: CallState
  cs_messageState :: string
  cs_prevState :: CallState
  cs_prevMessageState :: string
  cs_lastStableState :: CallState
  cs_lastStableMessageState :: string
  cs_transferState :: CallState
  cs_account :: "nat option"
  cs_ei :: LinphoneErrorInfo
  cs_log :: call_log
  cs_referToAddress :: "address option"
  cs_op :: "call_op option"
  cs_pingOp :: "call_op option"
  cs_pingReplied :: bool
  cs_referer :: "session_ref option"
  cs_transferTarget :: "nat option"
  cs_broken :: bool
  cs_deferIncomingNotification :: bool
  cs_deferUpdate :: bool
  cs_deferUpdateInternal :: bool
  cs_needLocalIpRefresh :: bool
  cs_nonOpError :: bool
  cs_notifyRinging :: bool
  cs_referPending :: bool
  cs_reinviteOnCancelResponseRequested :: bool
  cs_pendingActions :: "nat list"
  cs_isAccepting :: bool
  w_alive :: "nat list"
  w_accounts :: "nat \<Rightarrow> account"
  w_missedCalls :: int
  w_now :: int
  w_networkReachable :: bool
  w_mediaNetwork :: bool
  w_nextOp :: nat
  w_ret :: int
  w_out :: "session_output list"

type_synonym step = "call_world \<Rightarrow> call_world res"

text \<open>
  The core around the session: settings of the configuration, operations of the SIP stack on addresses, searches for calls, conferences and accounts, the values SIP commands return
  and the operations it creates, and the reactions to outputs and the pending actions.
\<close>

record call_core =
  auto_answer_replacing_calls :: bool
  defer_update_default :: bool
  repair_broken_calls :: bool
  terminate_call_upon_transfer_completion :: bool
  call_logs_use_asserted_id :: bool
  ping_with_options :: bool
  auto_send_ringing :: bool
  conference_server_enabled :: bool
  delayed_timeout :: int
  in_call_timeout :: int
  primary_contact :: "address option"
  core_identity :: address
  address_create :: "string \<Rightarrow> address option"
  interpret_url :: "string \<Rightarrow> address option"
  address_valid :: "address \<Rightarrow> bool"
  has_uri_param :: "address \<Rightarrow> string \<Rightarrow> bool"
  has_header_param :: "address \<Rightarrow> string \<Rightarrow> bool"
  set_uri_param :: "string \<Rightarrow> string \<Rightarrow> address \<Rightarrow> address"
  set_header_param :: "string \<Rightarrow> string \<Rightarrow> address \<Rightarrow> address"
  address_merge :: "address \<Rightarrow> address \<Rightarrow> address"
  find_call :: "string \<Rightarrow> bool"
  find_conference :: "address \<Rightarrow> (nat \<times> address) option"
  session_in_conference :: "call_world \<Rightarrow> bool"
  search_conference :: "address \<Rightarrow> (bool \<times> bool) option"
  conference_info_of_op :: "call_op \<Rightarrow> address"
  db_conference_uri :: "address \<Rightarrow> address option"
  lookup_conference_factory :: "address \<Rightarrow> nat option"
  find_account_by_identity :: "address \<Rightarrow> nat option"
  guess_local_account :: "address \<Rightarrow> address \<Rightarrow> nat option"
  lookup_account_by_identity :: "address \<Rightarrow> nat option"
  op_status :: "op_command \<Rightarrow> call_world \<Rightarrow> int"
  new_op :: "address \<Rightarrow> call_world \<Rightarrow> call_op"
  react :: "session_output \<Rightarrow> step"
  pending_action :: "nat \<Rightarrow> step"

section \<open>Steps\<close>

text \<open>Statements in order, a statement under a condition, and statements that read the world, the operation or a result that may fail.\<close>

fun run :: "step list \<Rightarrow> step" where
  "run [] w = Inr w"
| "run (f # fs) w = bindR (f w) (run fs)"

definition upd :: "(call_world \<Rightarrow> call_world) \<Rightarrow> step" where
  "upd f w = Inr (f w)"

definition test :: "(call_world \<Rightarrow> bool) \<Rightarrow> step \<Rightarrow> step \<Rightarrow> step" where
  "test b f g w = (if b w then f w else g w)"

definition unless_done :: "(call_world \<Rightarrow> bool) \<Rightarrow> step \<Rightarrow> step" where
  "unless_done b f w = (if b w then Inr w else f w)"

definition with_world :: "(call_world \<Rightarrow> step) \<Rightarrow> step" where
  "with_world f w = f w w"

definition with_op :: "(call_op \<Rightarrow> step) \<Rightarrow> step" where
  "with_op f w = (case cs_op w of None \<Rightarrow> Inl Null_dereference | Some o1 \<Rightarrow> f o1 w)"

definition with_res :: "'a res \<Rightarrow> ('a \<Rightarrow> step) \<Rightarrow> step" where
  "with_res r f w = bindR r (\<lambda>x. f x w)"

definition returns :: "int \<Rightarrow> step" where
  "returns v = upd (\<lambda>w. w\<lparr>w_ret := v\<rparr>)"

definition emit :: "session_output \<Rightarrow> step" where
  "emit x = upd (\<lambda>w. w\<lparr>w_out := w_out w @ [x]\<rparr>)"

text \<open>A command to the operation: a null operation is dereferenced, and the SIP stack may call back.\<close>

definition tell :: "call_core \<Rightarrow> op_command \<Rightarrow> step" where
  "tell c cmd = with_op (\<lambda>o1. with_world (\<lambda>w0.
     run [emit (Told (op_id o1) cmd), react c (Told (op_id o1) cmd), returns (op_status c cmd w0)]))"

text \<open>Releasing an operation cuts it from the session first: the SIP stack does not call back.\<close>

definition release_op :: "call_op \<Rightarrow> step" where
  "release_op o1 = emit (Told (op_id o1) Op_release)"

text \<open>A change of what the session stores in the operation.\<close>

definition op_set :: "(call_op \<Rightarrow> call_op) \<Rightarrow> step" where
  "op_set f = with_op (\<lambda>o1. upd (\<lambda>w. w\<lparr>cs_op := Some (f o1)\<rparr>))"

section \<open>Listeners\<close>

text \<open>
  Every notification copies the list of the listeners, since a listener may change it, and calls those that still exist when their turn comes.
\<close>

definition notify_one :: "call_core \<Rightarrow> session_event \<Rightarrow> nat \<Rightarrow> step" where
  "notify_one c e l = test (\<lambda>w. l \<in> set (w_alive w)) (run [emit (Notified l e), react c (Notified l e)]) (run [])"

definition notify :: "call_core \<Rightarrow> session_event \<Rightarrow> step" where
  "notify c e = with_world (\<lambda>w. run (map (notify_one c e) (cs_listeners w)))"

definition notifyCallSessionStateChanged :: "call_core \<Rightarrow> CallState \<Rightarrow> string \<Rightarrow> step" where
  "notifyCallSessionStateChanged c newState message = notify c (State_changed newState message)"

definition notifyCallSessionSetTerminated :: "call_core \<Rightarrow> step" where
  "notifyCallSessionSetTerminated c = notify c Set_terminated"

definition notifyCallSessionSetReleased :: "call_core \<Rightarrow> step" where
  "notifyCallSessionSetReleased c = notify c Set_released"

definition addListener :: "nat \<Rightarrow> step" where
  "addListener l = upd (\<lambda>w. if l \<in> set (filter (\<lambda>x. x \<in> set (w_alive w)) (cs_listeners w)) then w
     else w\<lparr>cs_listeners := cs_listeners w @ [l]\<rparr>)"

definition removeListener :: "nat \<Rightarrow> step" where
  "removeListener l = upd (\<lambda>w. w\<lparr>cs_listeners := remove1 l (cs_listeners w)\<rparr>)"

definition clearListeners :: step where
  "clearListeners = upd (\<lambda>w. w\<lparr>cs_listeners := []\<rparr>)"

section \<open>What the session knows\<close>

definition isEarlyState :: "CallState \<Rightarrow> bool" where
  "isEarlyState s \<longleftrightarrow> s \<in> {Idle, OutgoingInit, OutgoingEarlyMedia, OutgoingRinging, OutgoingProgress, IncomingReceived,
     PushIncomingReceived, IncomingEarlyMedia, EarlyUpdatedByRemote, EarlyUpdating}"

definition isPredefinedSubject :: "string \<Rightarrow> bool" where
  "isPredefinedSubject s \<longleftrightarrow> s \<in> predefinedSubject ` {Subject_Conference, Subject_InternalUpdate, Subject_Refresh, Subject_MediaChange,
     Subject_CallOnHold, Subject_BothPartiesOnHold, Subject_Resuming}"

text \<open>The conversion of a difference of times to \<open>int\<close>.\<close>

definition to_int32 :: "int \<Rightarrow> int" where
  "to_int32 i = sint (word_of_int i :: 32 word)"

definition computeDuration :: "call_world \<Rightarrow> int" where
  "computeDuration w =
     (if log_connectedTime (cs_log w) = 0
      then (if log_startTime (cs_log w) = 0 then 0 else to_int32 (w_now w - log_startTime (cs_log w)))
      else to_int32 (w_now w - log_connectedTime (cs_log w)))"

definition getDuration :: "call_world \<Rightarrow> int" where
  "getDuration w = (if cs_state w \<in> {End, Error, Released} then log_duration (cs_log w) else computeDuration w)"

definition getErrorInfo :: "call_world \<Rightarrow> call_world" where
  "getErrorInfo w =
     (if cs_nonOpError w then w
      else w\<lparr>cs_ei := linphone_error_info_from_sal_op (cs_ei w) (map_option (\<lambda>o1. (op_errorInfo o1, op_reasonErrorInfo o1)) (cs_op w))\<rparr>)"

definition getLocalAddress :: "call_world \<Rightarrow> address" where
  "getLocalAddress w = (if cs_direction w = LinphoneCallIncoming then log_to (cs_log w) else log_from (cs_log w))"

definition getRemoteAddress :: "call_world \<Rightarrow> address" where
  "getRemoteAddress w = (if cs_direction w = LinphoneCallIncoming then log_from (cs_log w) else log_to (cs_log w))"

definition dest_account :: "call_world \<Rightarrow> account option" where
  "dest_account w = map_option (w_accounts w) (cs_account w)"

definition getContactAddress :: "call_core \<Rightarrow> call_world \<Rightarrow> address option" where
  "getContactAddress c w =
     (case cs_op w of
        Some o1 \<Rightarrow> (case op_contactAddress o1 of Some a \<Rightarrow> Some a
                   | None \<Rightarrow> if conference_server_enabled c then Option.bind (dest_account w) acc_contactAddress else None)
      | None \<Rightarrow> if conference_server_enabled c then Option.bind (dest_account w) acc_contactAddress else None)"

definition getRemoteContactAddress :: "call_world \<Rightarrow> address option" where
  "getRemoteContactAddress w = Option.bind (cs_op w) op_remoteContactAddress"

definition sdpFoundInRemoteBody :: "call_world \<Rightarrow> bool" where
  "sdpFoundInRemoteBody w = (case cs_op w of None \<Rightarrow> False | Some o1 \<Rightarrow> list_ex is_sdp (op_remoteBodies o1))"

definition sdpFoundInLocalBody :: "call_world \<Rightarrow> bool" where
  "sdpFoundInLocalBody w = (case cs_op w of None \<Rightarrow> False | Some o1 \<Rightarrow> list_ex is_sdp (op_localBodies o1))"

definition isInConference :: "call_world \<Rightarrow> bool" where
  "isInConference w = cp_inConference (cs_params w)"

definition isCapabilityNegotiationEnabled :: "call_world \<Rightarrow> bool" where
  "isCapabilityNegotiationEnabled w = cp_capabilityNegotiation (cs_params w)"

text \<open>
  Whether the call belongs into the history: it does not create a conference, and the conference it is part of, if any, is created and has media.
  \<open>search_conference\<close> finds the conference of an address, with whether it is created and whether it supports media.
\<close>

definition guessed_address :: "call_core \<Rightarrow> address option \<Rightarrow> address \<Rightarrow> address" where
  "guessed_address c contact fallback = (case contact of Some a \<Rightarrow> if has_uri_param c a ''conf-id'' then a else fallback | None \<Rightarrow> fallback)"

definition reportEvents :: "call_core \<Rightarrow> call_world \<Rightarrow> bool" where
  "reportEvents c w =
     (let peer = (if isInConference w then guessed_address c (getContactAddress c w) (getLocalAddress w)
                  else guessed_address c (getRemoteContactAddress w) (getRemoteAddress w))
      in \<not> cp_conferenceCreation (cs_params w) \<and>
         (case search_conference c peer of None \<Rightarrow> True | Some (created, supportsMedia) \<Rightarrow> created \<and> supportsMedia))"

definition report_call_event :: "call_core \<Rightarrow> call_event_kind \<Rightarrow> step" where
  "report_call_event c k = test (reportEvents c) (emit (Report_call_event k)) (run [])"

section \<open>Changes of state\<close>

definition log_set :: "(call_log \<Rightarrow> call_log) \<Rightarrow> step" where
  "log_set f = upd (\<lambda>w. w\<lparr>cs_log := f (cs_log w)\<rparr>)"

definition completeLog :: "call_core \<Rightarrow> step" where
  "completeLog c = run
     [upd (\<lambda>w. w\<lparr>cs_log := (cs_log w)\<lparr>log_duration := (if log_connectedTime (cs_log w) = 0 then 0 else computeDuration w),
                                     log_errorInfo := Some (error_info_clone (cs_ei w))\<rparr>\<rparr>),
      upd (\<lambda>w. if log_status (cs_log w) = LinphoneCallMissed
               then (case cs_account w of
                       Some a \<Rightarrow> w\<lparr>w_accounts := (w_accounts w)(a := (w_accounts w a)\<lparr>acc_missedCalls := acc_missedCalls (w_accounts w a) + 1\<rparr>)\<rparr>
                     | None \<Rightarrow> w\<lparr>w_missedCalls := w_missedCalls w + 1\<rparr>)
               else w),
      report_call_event c ConferenceCallEnded]"

definition setTerminated :: "call_core \<Rightarrow> step" where
  "setTerminated c = run [completeLog c, notifyCallSessionSetTerminated c]"

definition drop_op :: "call_op option \<Rightarrow> step" where
  "drop_op o1 = (case o1 of None \<Rightarrow> run [] | Some p \<Rightarrow> run [upd getErrorInfo, release_op p, upd (\<lambda>w. w\<lparr>cs_op := None\<rparr>)])"

definition setReleased :: "call_core \<Rightarrow> step" where
  "setReleased c = run
     [with_world (\<lambda>w. drop_op (cs_op w)),
      upd (\<lambda>w. w\<lparr>cs_referer := None, cs_transferTarget := None, cs_pendingActions := []\<rparr>),
      notifyCallSessionSetReleased c]"

text \<open>The effects of entering a state: an incoming call that belongs to a conference, the status of a call that ends, and the start of a connected call.\<close>

definition join_incoming_conference :: "call_core \<Rightarrow> call_op \<Rightarrow> step" where
  "join_incoming_conference c o1 =
     (if \<not> find_call c (op_callId o1) then run []
      else if has_uri_param c (op_to o1) ''conf-id''
      then (case find_conference c (op_to o1) of Some (l, _) \<Rightarrow> addListener l | None \<Rightarrow> run [])
      else (case op_remoteContactAddress o1 of
              Some a \<Rightarrow> if has_header_param c a ''isfocus'' \<and> address_valid c (conference_info_of_op c o1)
                       then run [emit (Db_insert_conference_info (conference_info_of_op c o1)),
                                 log_set (\<lambda>l. l\<lparr>log_conferenceInfo := Some (conference_info_of_op c o1)\<rparr>)]
                       else run []
            | None \<Rightarrow> run []))"

definition end_status :: "LinphoneErrorInfo \<Rightarrow> call_log \<Rightarrow> CallStatus" where
  "end_status e l =
     (let code = linphone_error_info_get_protocol_code e; incoming = (log_direction l = LinphoneCallIncoming)
      in case linphone_error_info_get_reason e of
           LinphoneReasonDeclined \<Rightarrow> (if log_status l \<noteq> LinphoneCallMissed then LinphoneCallDeclined else log_status l)
         | LinphoneReasonNotAnswered \<Rightarrow> (if incoming then LinphoneCallMissed else log_status l)
         | LinphoneReasonNone \<Rightarrow>
             (if incoming \<and> 200 \<le> code \<and> code < 300 then LinphoneCallAcceptedElsewhere
              else if incoming \<and> code = 487 then LinphoneCallMissed else log_status l)
         | LinphoneReasonDoNotDisturb \<Rightarrow>
             (if incoming \<and> 600 \<le> code \<and> code < 700 then LinphoneCallDeclinedElsewhere else log_status l)
         | _ \<Rightarrow> log_status l)"

definition state_effects :: "call_core \<Rightarrow> CallState \<Rightarrow> step" where
  "state_effects c newState =
     (case newState of
        IncomingReceived \<Rightarrow> with_world (\<lambda>w. case cs_op w of None \<Rightarrow> run [] | Some o1 \<Rightarrow> join_incoming_conference c o1)
      | End \<Rightarrow> run [upd getErrorInfo, upd (\<lambda>w. w\<lparr>cs_log := (cs_log w)\<lparr>log_status := end_status (cs_ei w) (cs_log w)\<rparr>\<rparr>)]
      | Error \<Rightarrow> run [upd getErrorInfo, upd (\<lambda>w. w\<lparr>cs_log := (cs_log w)\<lparr>log_status := end_status (cs_ei w) (cs_log w)\<rparr>\<rparr>)]
      | Connected \<Rightarrow> run
          [upd (\<lambda>w. w\<lparr>cs_log := (cs_log w)\<lparr>log_status := LinphoneCallSuccess, log_connectedTime := w_now w\<rparr>\<rparr>),
           test (\<lambda>w. sdpFoundInRemoteBody w \<or> sdpFoundInLocalBody w) (report_call_event c ConferenceCallConnected) (run [])]
      | _ \<Rightarrow> run [])"

text \<open>
  What is remembered of the state that is left; the transitions that abort the program; and the new state, with the line of the log that tells of each change (\<open>Moving\<close>).
\<close>

definition remember_state :: "call_world \<Rightarrow> call_world" where
  "remember_state w =
     (let w1 = w\<lparr>cs_prevState := cs_state w, cs_prevMessageState := cs_messageState w\<rparr>
      in if cs_state w = StreamsRunning \<or> cs_state w = Paused
         then w1\<lparr>cs_lastStableState := cs_state w, cs_lastStableMessageState := cs_messageState w\<rparr> else w1)"

definition bad_transition :: "CallState \<Rightarrow> CallState \<Rightarrow> bool" where
  "bad_transition s newState \<longleftrightarrow>
     (if s = End \<or> s = Error then newState \<noteq> Released else newState = Released)"

definition enter_state :: "CallState \<Rightarrow> string \<Rightarrow> call_world \<Rightarrow> call_world" where
  "enter_state newState message w =
     (let w1 = w\<lparr>w_out := w_out w @ [Moving (cs_state w) newState]\<rparr>
      in if newState \<noteq> Referred then w1\<lparr>cs_state := newState, cs_messageState := message\<rparr> else w1)"

definition setState :: "call_core \<Rightarrow> CallState \<Rightarrow> string \<Rightarrow> step" where
  "setState c newState message w =
     (if cs_state w = newState then Inr w
      else if bad_transition (cs_state w) newState then Inl Fatal_error
      else run
        [state_effects c newState,
         if newState = End \<or> newState = Error then setTerminated c else run [],
         notifyCallSessionStateChanged c newState message,
         if newState = Released then setReleased c else run []]
        (enter_state newState message (remember_state w)))"

definition restorePreviousState :: "call_core \<Rightarrow> step" where
  "restorePreviousState c = with_world (\<lambda>w. setState c (cs_prevState w) (cs_prevMessageState w))"

definition setStateToEnded :: "call_core \<Rightarrow> step" where
  "setStateToEnded c = setState c End ''Call ended''"

section \<open>Contact addresses and operations\<close>

definition apply_params :: "(string \<Rightarrow> string \<Rightarrow> address \<Rightarrow> address) \<Rightarrow> (string \<times> string) list \<Rightarrow> address \<Rightarrow> address" where
  "apply_params f = fold (\<lambda>(n, v). f n v)"

definition updateContactAddress :: "call_core \<Rightarrow> call_world \<Rightarrow> address \<Rightarrow> address" where
  "updateContactAddress c w a =
     apply_params (set_header_param c) (cp_contactParameters (cs_params w))
       (apply_params (set_uri_param c) (cp_contactUriParameters (cs_params w)) a)"

definition getFixedContact :: "call_core \<Rightarrow> call_world \<Rightarrow> address option" where
  "getFixedContact c w =
     (case Option.bind (cs_op w) op_contactAddress of
        Some a \<Rightarrow> Some a
      | None \<Rightarrow>
          (case Option.bind (cs_pingOp w) op_contactAddress of
             Some a \<Rightarrow> Some a
           | None \<Rightarrow>
               (case dest_account w of
                  None \<Rightarrow> primary_contact c
                | Some acc \<Rightarrow>
                    if acc_contactAddress acc \<noteq> None \<and> (acc_op acc \<noteq> None \<or> acc_dependency acc \<or> conference_server_enabled c)
                    then acc_contactAddress acc else primary_contact c)))"

definition conference_contact :: "call_core \<Rightarrow> address \<Rightarrow> address \<Rightarrow> address" where
  "conference_contact c contactAddress guessed =
     (let found = (case find_conference c contactAddress of
                     Some (_, a) \<Rightarrow> Some a
                   | None \<Rightarrow> (case find_conference c guessed of Some (_, a) \<Rightarrow> Some a | None \<Rightarrow> db_conference_uri c guessed))
      in case found of
           None \<Rightarrow> contactAddress
         | Some a \<Rightarrow> if address_valid c a
                    then (if address_valid c contactAddress then address_merge c a contactAddress else a)
                    else contactAddress)"

definition setContactOp :: "call_core \<Rightarrow> step" where
  "setContactOp c = with_world (\<lambda>w.
     case getFixedContact c w of
       None \<Rightarrow> run []
     | Some a \<Rightarrow>
         if \<not> address_valid c a then run []
         else (let a1 = updateContactAddress c w a
               in if isInConference w
                  then with_op (\<lambda>o1. op_set (\<lambda>p. p\<lparr>op_contactAddress :=
                         Some (conference_contact c a1 (if cs_direction w = LinphoneCallIncoming then op_to o1 else op_from o1))\<rparr>))
                  else op_set (\<lambda>p. p\<lparr>op_contactAddress := Some a1\<rparr>)))"

text \<open>\<open>refreshContactAddress\<close>: \<open>None\<close> is an address that is not valid.\<close>

definition account_contact :: "call_core \<Rightarrow> account \<Rightarrow> address option" where
  "account_contact c acc =
     (case acc_op acc of
        Some a \<Rightarrow> Option.bind a (\<lambda>a. if address_valid c a then Some a else None)
      | None \<Rightarrow> if conference_server_enabled c
               then Option.bind (acc_contactAddress acc) (\<lambda>a. if address_valid c a then Some a else None) else None)"

definition refreshContactAddress :: "call_core \<Rightarrow> step" where
  "refreshContactAddress c = test (\<lambda>w. cs_op w = None) (run [])
     (with_world (\<lambda>w.
        let a = map_option (updateContactAddress c w) (Option.bind (dest_account w) (account_contact c))
        in op_set (\<lambda>p. p\<lparr>op_contactAddress := Option.bind a (\<lambda>a. if address_valid c a then Some a else None)\<rparr>)))"

definition updateContactAddressInOp :: "call_core \<Rightarrow> step" where
  "updateContactAddressInOp c = with_world (\<lambda>w.
     let a = (case dest_account w of
                Some acc \<Rightarrow>
                  (case acc_op acc of
                     Some (Some a) \<Rightarrow> a
                   | _ \<Rightarrow> (if conference_server_enabled c then (case acc_contactAddress acc of Some a \<Rightarrow> a | None \<Rightarrow> '''') else ''''))
              | None \<Rightarrow> (case Option.bind (cs_op w) op_contactAddress of Some a \<Rightarrow> a | None \<Rightarrow> core_identity c))
     in test (\<lambda>w. cs_op w = None) (run []) (op_set (\<lambda>p. p\<lparr>op_contactAddress := Some (updateContactAddress c w a)\<rparr>)))"

definition createOpTo :: "call_core \<Rightarrow> address \<Rightarrow> step" where
  "createOpTo c to = run
     [with_world (\<lambda>w. case cs_op w of None \<Rightarrow> run [] | Some o1 \<Rightarrow> release_op o1),
      upd (\<lambda>w. let o1 = (new_op c to w)\<lparr>op_id := w_nextOp w, op_capabilityNegotiation := isCapabilityNegotiationEnabled w,
                            op_referrer := Option.bind (cp_referer (cs_params w)) snd\<rparr>
               in w\<lparr>cs_op := Some (case cp_privacy (cs_params w) of None \<Rightarrow> o1 | Some p \<Rightarrow> o1\<lparr>op_privacy := p\<rparr>), w_nextOp := Suc (w_nextOp w)\<rparr>)]"

definition createOp :: "call_core \<Rightarrow> step" where
  "createOp c = with_world (\<lambda>w. createOpTo c (log_to (cs_log w)))"

text \<open>A session has parameters once it is configured; its methods change them only when they are given new ones.\<close>

definition setParams :: "call_params \<Rightarrow> step" where
  "setParams csp = upd (\<lambda>w. w\<lparr>cs_params := csp\<rparr>)"

definition setParams_if_given :: "call_params option \<Rightarrow> step" where
  "setParams_if_given csp = (case csp of None \<Rightarrow> run [] | Some p \<Rightarrow> setParams p)"

definition setDestAccount :: "nat option \<Rightarrow> step" where
  "setDestAccount a = upd (\<lambda>w. w\<lparr>cs_account := a\<rparr>)"

section \<open>Ending a session\<close>

definition d_terminate :: "call_core \<Rightarrow> step" where
  "d_terminate c = run
     [upd (\<lambda>w. if cs_state w = IncomingReceived \<or> cs_state w = IncomingEarlyMedia
               then (let reason = linphone_error_info_get_reason (cs_ei w)
                     in if reason = LinphoneReasonNone
                        then w\<lparr>cs_ei := linphone_error_info_set_reason (cs_ei w) LinphoneReasonDeclined, cs_nonOpError := True\<rparr>
                        else if reason \<noteq> LinphoneReasonNotAnswered then w\<lparr>cs_nonOpError := True\<rparr> else w)
               else w),
      setState c End ''Call terminated'',
      test (\<lambda>w. case cs_op w of None \<Rightarrow> True | Some o1 \<Rightarrow> \<not> op_hasDialog o1) (setState c Released ''Call released'') (run [])]"

definition decline :: "call_core \<Rightarrow> LinphoneErrorInfo option \<Rightarrow> step" where
  "decline c e = with_world (\<lambda>w.
     if cs_state w = PushIncomingReceived \<and> cs_op w = None
     then run [upd (\<lambda>w. w\<lparr>cs_ei := linphone_error_info_set (cs_ei w) None LinphoneReasonDeclined 3 (Some ''Declined'') None\<rparr>),
               d_terminate c, setState c Released ''Call released'', returns 0]
     else if cs_state w \<notin> {IncomingReceived, IncomingEarlyMedia, PushIncomingReceived} then returns (-1)
     else run
       [(case e of
           Some e' \<Rightarrow> run
             [upd (\<lambda>w. w\<lparr>cs_ei := linphone_error_info_set (cs_ei w) None (linphone_error_info_get_reason e')
                                   (linphone_error_info_get_protocol_code e') (ef_phrase (lei e')) None\<rparr>),
              with_res (linphone_error_info_to_sal e' (Some (SalErrorInfo (sei zero_sei) (Some zero_sei))))
                     (\<lambda>s. tell c (Op_replyWithErrorInfo s None 0))]
         | None \<Rightarrow> tell c (Op_decline SalReasonDeclined)),
        d_terminate c, returns 0])"

definition decline_reason :: "call_core \<Rightarrow> LinphoneReason \<Rightarrow> step" where
  "decline_reason c reason =
     decline c (Some (linphone_error_info_set linphone_error_info_new (Some ''SIP'') reason (linphone_reason_to_error_code reason) None None))"

definition declineNotAnswered :: "call_core \<Rightarrow> LinphoneReason \<Rightarrow> step" where
  "declineNotAnswered c reason = run
     [log_set (\<lambda>l. l\<lparr>log_status := LinphoneCallMissed\<rparr>),
      upd (\<lambda>w. w\<lparr>cs_nonOpError := True,
        cs_ei := linphone_error_info_set (cs_ei w) None reason (linphone_reason_to_error_code reason) (Some ''Not answered'') None\<rparr>),
      decline_reason c reason]"

text \<open>
  \<open>CallSession::terminate\<close>.  An established call hands its error information to the SIP stack in a single structure, without room for an attached one.
\<close>

definition terminate :: "call_core \<Rightarrow> LinphoneErrorInfo option \<Rightarrow> step" where
  "terminate c e = with_world (\<lambda>w.
     if cs_state w \<in> {Released, End, Error} then returns (-1)
     else if cs_state w \<in> {IncomingReceived, PushIncomingReceived, IncomingEarlyMedia} then decline c e
     else run
       [(if cs_state w = OutgoingInit then with_op (\<lambda>o1. run [release_op o1, upd (\<lambda>w. w\<lparr>cs_op := None\<rparr>)])
         else if cs_state w = Idle then run []
         else (case e of
                 Some e' \<Rightarrow> with_res (linphone_error_info_to_sal e' (Some zero_sei))
                     (\<lambda>s. tell c (Op_terminate (Some s)))
               | None \<Rightarrow> tell c (Op_terminate None))),
        d_terminate c, returns 0])"

definition abort :: "call_core \<Rightarrow> string \<Rightarrow> step" where
  "abort c errorMsg = run [tell c (Op_terminate None), setState c Error errorMsg]"

definition terminated :: "call_core \<Rightarrow> step" where
  "terminated c = with_world (\<lambda>w.
     if cs_state w \<in> {End, Error} then run []
     else run
       [if cs_state w \<in> {IncomingReceived, IncomingEarlyMedia}
        then with_op (\<lambda>o1. upd (\<lambda>w.
               if ef_protocol (sei (op_reasonErrorInfo o1)) \<in> {None, Some ''''}
               then w\<lparr>cs_ei := linphone_error_info_set (cs_ei w) None LinphoneReasonNotAnswered 0 (Some ''Incoming call cancelled'') None,
                      cs_nonOpError := True\<rparr> else w))
        else run [],
        setState c End ''Call ended''])"

definition redirect :: "call_core \<Rightarrow> address \<Rightarrow> step" where
  "redirect c redirectAddr = with_world (\<lambda>w.
     if cs_state w \<noteq> IncomingReceived \<and> cs_state w \<noteq> PushIncomingReceived then returns (-1)
     else if \<not> address_valid c redirectAddr then returns (-1)
     else run
       [with_res (sal_error_info_set zero_sei SalReasonRedirect (Some ''SIP'') 0 None None)
                     (\<lambda>s. tell c (Op_replyWithErrorInfo s (Some redirectAddr) (if cp_endTime (cs_params w) < 0 then 0 else cp_endTime (cs_params w)))),
        upd (\<lambda>w. w\<lparr>cs_ei := linphone_error_info_set (cs_ei w) None LinphoneReasonMovedPermanently 302 (Some ''Call redirected'') None,
                   cs_nonOpError := True\<rparr>),
        d_terminate c, returns 0])"

definition redirect_uri :: "call_core \<Rightarrow> string \<Rightarrow> step" where
  "redirect_uri c redirectUri =
     (case interpret_url c redirectUri of
        None \<Rightarrow> returns (-1)
      | Some a \<Rightarrow> if address_valid c a then redirect c a else returns (-1))"

section \<open>Transfer\<close>

definition setTransferState :: "call_core \<Rightarrow> CallState \<Rightarrow> step" where
  "setTransferState c newState = unless_done (\<lambda>w. cs_transferState w = newState) (run
     [upd (\<lambda>w. w\<lparr>cs_transferState := newState\<rparr>),
      notify c (Transfer_state_changed newState),
      if newState = Connected \<and> terminate_call_upon_transfer_completion c then terminate c None else run []])"

definition transfer_to_session :: "call_core \<Rightarrow> nat option \<Rightarrow> step" where
  "transfer_to_session c dest_op = run
     [tell c (Op_referWithReplaces dest_op),
      with_world (\<lambda>w. run [setTransferState c OutgoingInit, returns (w_ret w)])]"

definition transfer :: "call_core \<Rightarrow> address \<Rightarrow> step" where
  "transfer c a = (if \<not> address_valid c a then returns (-1)
     else run [tell c (Op_refer a), setTransferState c OutgoingInit, returns 0])"

definition referred :: "call_core \<Rightarrow> address option \<Rightarrow> step" where
  "referred c referToAddr = run
     [upd (\<lambda>w. w\<lparr>cs_referToAddress := (case referToAddr of None \<Rightarrow> cs_referToAddress w | Some a \<Rightarrow> Some a), cs_referPending := True\<rparr>),
      setState c Referred ''Referred'']"

text \<open>The referer's operation tells the other end how the transfer goes on; a referer without operation is not told.\<close>

definition notifyReferState :: "call_core \<Rightarrow> step" where
  "notifyReferState c = with_world (\<lambda>w.
     case cs_referer w of
       None \<Rightarrow> (\<lambda>w. Inl Null_dereference)
     | Some (_, None) \<Rightarrow> run []
     | Some (_, Some refererOp) \<Rightarrow>
         (let cmd = Op_notifyReferState (map_option op_id (cs_op w)) in run [emit (Told refererOp cmd), react c (Told refererOp cmd)]))"

section \<open>Outgoing calls\<close>

text \<open>The addresses of the ping of an incoming call are those of the new operation; its route is the origin of the call's operation.\<close>

definition startPing :: "call_core \<Rightarrow> step" where
  "startPing c =
     (if \<not> ping_with_options c then returns 0
      else with_world (\<lambda>w.
        let p = (new_op c (log_to (cs_log w)) w)\<lparr>op_id := w_nextOp w\<rparr>
        in run
          [upd (\<lambda>w. w\<lparr>cs_pingReplied := False, cs_pingOp := Some p, w_nextOp := Suc (w_nextOp w)\<rparr>),
           (if cs_direction w = LinphoneCallIncoming
            then with_op (\<lambda>o1. run [emit (Told (op_id p) (Op_ping (op_from p) (op_to p))), react c (Told (op_id p) (Op_ping (op_from p) (op_to p)))])
            else run [emit (Told (op_id p) (Op_ping (log_from (cs_log w)) (log_to (cs_log w)))),
                      react c (Told (op_id p) (Op_ping (log_from (cs_log w)) (log_to (cs_log w))))]),
           returns 1]))"

definition initiateOutgoing :: "call_core \<Rightarrow> step" where
  "initiateOutgoing c = run
     [setState c OutgoingInit ''Starting outgoing call'',
      test (\<lambda>w. cs_account w = None) (startPing c) (returns 0)]"

definition restartInvite :: "call_core \<Rightarrow> step" where
  "restartInvite c = run [createOp c, initiateOutgoing c]"

definition isReadyForInvite :: "call_world \<Rightarrow> bool" where
  "isReadyForInvite w \<longleftrightarrow> (cs_pingOp w \<noteq> None \<longrightarrow> cs_pingReplied w)"

definition startInvite :: "call_core \<Rightarrow> address option \<Rightarrow> string \<Rightarrow> body option \<Rightarrow> step" where
  "startInvite c destination subject content = run
     [upd (\<lambda>w. w\<lparr>cs_subject := subject\<rparr>),
      setContactOp c,
      with_world (\<lambda>w. op_set (\<lambda>p. p\<lparr>op_localBodies := (case content of None \<Rightarrow> [] | Some b \<Rightarrow> [b]) @ cp_customContents (cs_params w)\<rparr>)),
      with_world (\<lambda>w. tell c (Op_call (log_from (cs_log w)) (case destination of None \<Rightarrow> log_to (cs_log w) | Some a \<Rightarrow> a) subject)),
      with_world (\<lambda>w. run
        [if w_ret w < 0
         then unless_done (\<lambda>w. cs_state w = Error \<or> cs_state w = Released) (setState c Error ''Call failed'')
         else run
           [with_op (\<lambda>o1. log_set (\<lambda>l. l\<lparr>log_callId := op_callId o1\<rparr>)),
            setState c OutgoingProgress ''Outgoing call in progress'',
            test sdpFoundInLocalBody (report_call_event c ConferenceCallStarted) (run [])],
         returns (w_ret w)])]"

definition pingReply :: "call_core \<Rightarrow> step" where
  "pingReply c = test (\<lambda>w. cs_state w = OutgoingInit)
     (run [upd (\<lambda>w. w\<lparr>cs_pingReplied := True\<rparr>), test isReadyForInvite (startInvite c None '''' None) (run [])])
     (run [])"

definition updateToFromAssertedIdentity :: "call_core \<Rightarrow> step" where
  "updateToFromAssertedIdentity c = with_op (\<lambda>o1.
     case op_assertedIdentity o1 of
       None \<Rightarrow> run []
     | Some pAssertedId \<Rightarrow>
         if \<not> call_logs_use_asserted_id c then run []
         else (case address_create c pAssertedId of
                 None \<Rightarrow> run []
               | Some a \<Rightarrow> run [log_set (\<lambda>l. l\<lparr>log_to := a\<rparr>), emit Db_update_call_log]))"

definition take_privacy :: step where
  "take_privacy = with_op (\<lambda>o1. upd (\<lambda>w. w\<lparr>cs_currentPrivacy := op_privacy o1\<rparr>))"

definition remoteRinging :: "call_core \<Rightarrow> step" where
  "remoteRinging c = run [updateToFromAssertedIdentity c, take_privacy, setState c OutgoingRinging ''Remote ringing'']"

definition accepted :: "call_core \<Rightarrow> step" where
  "accepted c = run
     [test (\<lambda>w. cs_state w \<in> {OutgoingProgress, OutgoingRinging, OutgoingEarlyMedia}) (setState c Connected ''Connected'') (run []),
      take_privacy]"

section \<open>Incoming calls\<close>

definition checkForAcceptation :: "call_core \<Rightarrow> step" where
  "checkForAcceptation c = with_world (\<lambda>w.
     if cs_state w \<notin> {IncomingReceived, IncomingEarlyMedia, PushIncomingReceived} then returns (-1)
     else run
       [notify c Check_for_acceptation,
        with_op (\<lambda>o1. case op_replaces o1 of
                        Some (Some _) \<Rightarrow> run [emit Terminate_replaced_session, react c Terminate_replaced_session]
                      | _ \<Rightarrow> run []),
        returns 0])"

definition d_accept :: "call_core \<Rightarrow> call_params option \<Rightarrow> step" where
  "d_accept c csp = run
     [setContactOp c, setParams_if_given csp,
      with_world (\<lambda>w. op_set (\<lambda>p. p\<lparr>op_capabilityNegotiation := isCapabilityNegotiationEnabled w,
                                    op_sentCustomHeaders := cp_customHeaders (cs_params w)\<rparr>)),
      tell c Op_accept, setState c Connected ''Connected'']"

definition accept :: "call_core \<Rightarrow> call_params option \<Rightarrow> step" where
  "accept c csp = run
     [checkForAcceptation c,
      with_world (\<lambda>w. if w_ret w < 0 then run [] else run [d_accept c csp, returns 0])]"

definition acceptOrTerminateReplacedSessionInIncomingNotification :: "call_core \<Rightarrow> step" where
  "acceptOrTerminateReplacedSessionInIncomingNotification c =
     (if \<not> auto_answer_replacing_calls c then run []
      else with_op (\<lambda>o1. case op_replaces o1 of
             Some (Some s) \<Rightarrow> if s \<in> {StreamsRunning, Connected, Paused, PausedByRemote, Pausing} then accept c None else run []
           | _ \<Rightarrow> run []))"

definition handleIncomingReceivedStateInIncomingNotification :: "call_core \<Rightarrow> step" where
  "handleIncomingReceivedStateInIncomingNotification c = run
     [setContactOp c,
      test (\<lambda>w. cs_notifyRinging w \<and> cs_state w \<noteq> IncomingEarlyMedia) (tell c (Op_notifyRinging False)) (run []),
      acceptOrTerminateReplacedSessionInIncomingNotification c]"

definition handleIncoming :: "call_core \<Rightarrow> bool \<Rightarrow> step" where
  "handleIncoming c tryStartRingtone = run
     [if tryStartRingtone then notify c Start_ringtone else run [],
      handleIncomingReceivedStateInIncomingNotification c]"

definition d_startIncomingNotification :: "call_core \<Rightarrow> step" where
  "d_startIncomingNotification c = with_world (\<lambda>w.
     let tryStartRingtone = (cs_state w \<noteq> PushIncomingReceived)
     in run
       [if tryStartRingtone then notify c Incoming_started else run [],
        setState c IncomingReceived ''Incoming call received'',
        notify c Background_task_to_be_stopped,
        test (\<lambda>w. cs_state w = IncomingReceived \<and> auto_send_ringing c \<or> cs_state w = IncomingEarlyMedia)
          (handleIncoming c tryStartRingtone) (run []),
        test cs_isAccepting (notify c Accepting) (run [])])"

definition startBasicIncomingNotification :: "call_core \<Rightarrow> bool \<Rightarrow> step" where
  "startBasicIncomingNotification c notifyRinging = run
     [upd (\<lambda>w. w\<lparr>cs_notifyRinging := notifyRinging\<rparr>), notify c Incoming_notified, notify c Background_task_to_be_started]"

definition startIncomingNotification :: "call_core \<Rightarrow> bool \<Rightarrow> step" where
  "startIncomingNotification c notifyRinging = run
     [unless_done (\<lambda>w. cs_state w = PushIncomingReceived) (startBasicIncomingNotification c notifyRinging),
      unless_done cs_deferIncomingNotification (d_startIncomingNotification c)]"

definition startPushIncomingNotification :: "call_core \<Rightarrow> step" where
  "startPushIncomingNotification c = run
     [notify c Incoming_started, notify c Start_ringtone, setState c PushIncomingReceived ''Push notification received'']"

definition accepting :: step where
  "accepting = upd (\<lambda>w. w\<lparr>cs_isAccepting := True\<rparr>)"

section \<open>Updates\<close>

definition startAcceptUpdate :: "call_core \<Rightarrow> CallState \<Rightarrow> string \<Rightarrow> step" where
  "startAcceptUpdate c nextState stateInfo = run [tell c Op_accept, setState c nextState stateInfo, returns 0]"

definition d_acceptUpdate :: "call_core \<Rightarrow> CallState \<Rightarrow> string \<Rightarrow> step" where
  "d_acceptUpdate c nextState stateInfo = startAcceptUpdate c nextState stateInfo"

definition acceptUpdate :: "call_core \<Rightarrow> step" where
  "acceptUpdate c = with_world (\<lambda>w.
     if cs_state w \<noteq> UpdatedByRemote then returns (-1)
     else d_acceptUpdate c (cs_prevState w) (linphone_call_state_to_string (cs_prevState w)))"

definition deferUpdate :: step where
  "deferUpdate = test (\<lambda>w. cs_state w \<noteq> UpdatedByRemote) (returns (-1))
     (run [upd (\<lambda>w. w\<lparr>cs_deferUpdate := True\<rparr>), returns 0])"

definition updatedByRemote :: "call_core \<Rightarrow> step" where
  "updatedByRemote c = run
     [setState c UpdatedByRemote ''Call updated by remote'',
      unless_done (\<lambda>w. cs_deferUpdate w \<or> cs_deferUpdateInternal w \<or> cs_state w \<noteq> UpdatedByRemote) (acceptUpdate c)]"

definition updated :: "call_core \<Rightarrow> bool \<Rightarrow> step" where
  "updated c isUpdate = run
     [upd (\<lambda>w. w\<lparr>cs_deferUpdate := defer_update_default c\<rparr>),
      with_world (\<lambda>w.
        let localState = cs_state w
        in if localState \<in> {PausedByRemote, StreamsRunning, Connected, UpdatedByRemote} then updatedByRemote c
           else if localState \<in> {OutgoingRinging, OutgoingEarlyMedia, IncomingEarlyMedia}
           then (if isUpdate
                 then run [setState c EarlyUpdatedByRemote ''EarlyUpdatedByRemote'',
                           with_world (\<lambda>w. d_acceptUpdate c (cs_prevState w) (linphone_call_state_to_string (cs_prevState w)))]
                 else run [])
           else if localState = Paused
           then run [setState c UpdatedByRemote ''Call updated by remote (while in Paused)'', d_acceptUpdate c Paused ''Paused'']
           else if localState \<in> {Pausing, Updating, Resuming}
           then run [setState c UpdatedByRemote ''Call updated by remote while in transcient state (Pausing/Updating/Resuming)'',
                     d_acceptUpdate c localState (linphone_call_state_to_string localState)]
           else if localState \<in> {End, Released}
           then with_res (sal_error_info_set zero_sei SalReasonNoMatch (Some ''SIP'') 0 (Some ''Incompatible SDP'') None)
                     (\<lambda>s. tell c (Op_replyWithErrorInfo s None 0))
           else run [])]"

definition updating :: "call_core \<Rightarrow> bool \<Rightarrow> step" where
  "updating c isUpdate = updated c isUpdate"

definition refreshed :: "call_core \<Rightarrow> step" where
  "refreshed c = run [setState c UpdatedByRemote ''Session refresh'', restorePreviousState c]"

text \<open>\<open>isUpdateAllowed\<close>: the state an update moves to, \<open>None\<close> when no update is allowed.\<close>

definition isUpdateAllowed :: "call_op \<Rightarrow> call_world \<Rightarrow> CallState option" where
  "isUpdateAllowed o1 w =
     (if op_hasRetryFunction o1 then None
      else if cs_state w \<in> {IncomingReceived, PushIncomingReceived, IncomingEarlyMedia, OutgoingRinging, OutgoingEarlyMedia}
      then Some EarlyUpdating
      else if cs_state w \<in> {Connected, StreamsRunning, PausedByRemote, UpdatedByRemote} then Some Updating
      else if cs_state w = Paused then Some Pausing
      else if cs_state w \<in> {OutgoingProgress, Pausing, Resuming, Updating, EarlyUpdating} then Some (cs_state w)
      else None)"

definition update_subject :: "call_core \<Rightarrow> call_world \<Rightarrow> string \<Rightarrow> string" where
  "update_subject c w subject =
     (if subject \<noteq> '''' \<or> session_in_conference c w then subject
      else if isInConference w then predefinedSubject Subject_Conference
      else if cp_internalCallUpdate (cs_params w) then predefinedSubject Subject_InternalUpdate
      else if cp_noUserConsent (cs_params w) then predefinedSubject Subject_Refresh
      else predefinedSubject Subject_MediaChange)"

definition startUpdate :: "call_core \<Rightarrow> UpdateMethod \<Rightarrow> string \<Rightarrow> step" where
  "startUpdate c method subject = with_world (\<lambda>w0. run
     [refreshContactAddress c,
      op_set (\<lambda>p. p\<lparr>op_sentCustomHeaders := cp_customHeaders (cs_params w0)\<rparr>),
      updateContactAddressInOp c,
      tell c (Op_update (update_subject c w0 subject)
        (if method = Update_Default then cp_noUserConsent (cs_params w0) else method = Update_Update))])"

definition update :: "call_core \<Rightarrow> call_params option \<Rightarrow> UpdateMethod \<Rightarrow> string \<Rightarrow> body option \<Rightarrow> step" where
  "update c csp method subject content = with_op (\<lambda>o1. with_world (\<lambda>w0.
     case isUpdateAllowed o1 w0 of
       None \<Rightarrow> returns (-1)
     | Some nextState \<Rightarrow> run
         [setState c nextState ''Updating call'',
          setParams_if_given csp,
          with_world (\<lambda>w. op_set (\<lambda>p. p\<lparr>op_localBodies := (case content of None \<Rightarrow> [] | Some b \<Rightarrow> [b]) @ cp_customContents (cs_params w)\<rparr>)),
          startUpdate c method subject,
          with_world (\<lambda>w. run
            [if w_ret w \<noteq> 0 \<and> cs_state w \<noteq> cs_state w0 then setState c (cs_state w0) ''Restore initial state'' else run [],
             returns (w_ret w)])]))"

section \<open>Loss of the network\<close>

definition setBroken :: step where
  "setBroken = upd (\<lambda>w.
     if cs_state w \<in> {OutgoingInit, OutgoingProgress, OutgoingRinging, OutgoingEarlyMedia, IncomingReceived, IncomingEarlyMedia,
          StreamsRunning, Updating, Pausing, Resuming, Paused, PausedByRemote, UpdatedByRemote}
     then w\<lparr>cs_broken := True, cs_needLocalIpRefresh := True\<rparr> else w)"

definition reinviteToRecoverFromConnectionLoss :: "call_core \<Rightarrow> step" where
  "reinviteToRecoverFromConnectionLoss c = run
     [upd (\<lambda>w. w\<lparr>cs_op := map_option (\<lambda>p. p\<lparr>op_hasRetryFunction := False\<rparr>) (cs_op w)\<rparr>),
      with_world (\<lambda>w. update c (Some (cs_params w)) Update_Invite '''' None)]"

definition repairByNewInvite :: "call_core \<Rightarrow> bool \<Rightarrow> step" where
  "repairByNewInvite c withReplaces = run
     [op_set (\<lambda>p. p\<lparr>op_hasRetryFunction := False\<rparr>),
      with_op (\<lambda>o1. run
        [tell c Op_killDialog,
         createOp c,
         if withReplaces then tell c (Op_setReplaces (op_callId o1) (op_localTag o1) (if op_remoteTag o1 = '''' then ''0'' else op_remoteTag o1))
         else run [],
         initiateOutgoing c,
         with_world (\<lambda>w. if w_ret w = 0
           then startInvite c None (cs_subject w) (case op_localBodies o1 of [] \<Rightarrow> None | b # _ \<Rightarrow> Some b) else run [])])]"

definition cancelDone :: "call_core \<Rightarrow> step" where
  "cancelDone c = test cs_reinviteOnCancelResponseRequested
     (run [upd (\<lambda>w. w\<lparr>cs_reinviteOnCancelResponseRequested := False\<rparr>),
           with_op (\<lambda>o1. if op_hasDialog o1 then reinviteToRecoverFromConnectionLoss c else repairByNewInvite c False)])
     (run [])"

definition clear_broken :: step where
  "clear_broken = upd (\<lambda>w. w\<lparr>cs_broken := False\<rparr>)"

text \<open>Cancel the pending INVITE; when that works the call is repaired once the cancellation is answered.\<close>

definition cancel_to_reinvite :: "call_core \<Rightarrow> step" where
  "cancel_to_reinvite c = run
     [tell c Op_cancelInvite,
      test (\<lambda>w. w_ret w = 0) (upd (\<lambda>w. w\<lparr>cs_reinviteOnCancelResponseRequested := True, cs_broken := False\<rparr>)) (run [])]"

definition may_repair :: "call_core \<Rightarrow> call_world \<Rightarrow> bool" where
  "may_repair c w \<longleftrightarrow> w_mediaNetwork w \<and> cs_broken w \<and> repair_broken_calls c \<and>
     (case dest_account w of None \<Rightarrow> True | Some acc \<Rightarrow> acc_registerEnabled acc \<longrightarrow> acc_registered acc)"

definition repairIfBroken :: "call_core \<Rightarrow> step" where
  "repairIfBroken c = test (\<lambda>w. \<not> may_repair c w) (run []) (run
     [refreshContactAddress c,
      with_world (\<lambda>w.
        if cs_state w \<in> {Updating, Pausing}
        then with_op (\<lambda>o1. if op_dialogRequestPending o1 then cancel_to_reinvite c else run [])
        else if cs_state w \<in> {StreamsRunning, Paused, PausedByRemote}
        then with_op (\<lambda>o1. if \<not> op_dialogRequestPending o1 then run [reinviteToRecoverFromConnectionLoss c, clear_broken] else run [])
        else if cs_state w = UpdatedByRemote
        then with_op (\<lambda>o1. run
          [if op_dialogRequestPending o1
           then with_res (sal_error_info_set zero_sei SalReasonServiceUnavailable (Some ''SIP'') 0 None None)
                     (\<lambda>s. tell c (Op_replyWithErrorInfo s None 0))
           else run [],
           reinviteToRecoverFromConnectionLoss c, clear_broken])
        else if cs_state w \<in> {OutgoingInit, OutgoingProgress} then cancel_to_reinvite c
        else if cs_state w \<in> {OutgoingEarlyMedia, OutgoingRinging}
        then with_op (\<lambda>o1. if op_remoteTag o1 \<noteq> '''' then run [repairByNewInvite c True, clear_broken] else cancel_to_reinvite c)
        else if cs_state w \<in> {IncomingEarlyMedia, IncomingReceived, PushIncomingReceived} then run []
        else clear_broken)])"

definition onNetworkReachable :: "call_core \<Rightarrow> bool \<Rightarrow> step" where
  "onNetworkReachable c sipNetworkReachable = (if sipNetworkReachable then repairIfBroken c else setBroken)"

definition onRegistrationStateChanged :: "call_core \<Rightarrow> nat option \<Rightarrow> bool \<Rightarrow> step" where
  "onRegistrationStateChanged c registeredChangedAccount ok =
     test (\<lambda>w. registeredChangedAccount = cs_account w \<and> ok) (repairIfBroken c) (run [])"

section \<open>Failures and replacement of the operation\<close>

definition failure_redirects :: "call_op \<Rightarrow> call_world \<Rightarrow> address option" where
  "failure_redirects o1 w =
     (if ef_reason (sei (op_errorInfo o1)) = SalReasonRedirect \<and>
         cs_state w \<in> {OutgoingInit, OutgoingProgress, OutgoingRinging, OutgoingEarlyMedia}
      then op_remoteContactAddress o1 else None)"

text \<open>An error text that is null cannot become the message of a state.\<close>

definition set_state_message :: "call_core \<Rightarrow> CallState \<Rightarrow> string option \<Rightarrow> step" where
  "set_state_message c s message = (case message of None \<Rightarrow> (\<lambda>w. Inl Null_dereference) | Some m \<Rightarrow> setState c s m)"

definition failure :: "call_core \<Rightarrow> step" where
  "failure c = with_op (\<lambda>o1. with_world (\<lambda>w.
     let e = sei (op_errorInfo o1); s = cs_state w; errorString = (case ef_full_string e of None \<Rightarrow> '''' | Some m \<Rightarrow> m)
     in case failure_redirects o1 w of
          Some a \<Rightarrow> run [log_set (\<lambda>l. l\<lparr>log_to := a\<rparr>), restartInvite c, returns 1]
        | None \<Rightarrow>
            if s \<in> {Updating, Pausing, Resuming, StreamsRunning} \<and> ef_reason e = SalReasonRequestPending
            then run [if op_hasRetryFunction o1 then run []
                      else setState c (cs_lastStableState w) ''Restore stable state because no retry function has been set'', returns 1]
            else if s \<in> {Updating, Pausing, Resuming, StreamsRunning} \<and> ef_reason e \<noteq> SalReasonNoMatch
            then run [set_state_message c (cs_prevState w) (ef_full_string e), returns 1]
            else run
              [if s = End \<or> s = Error then run []
               else if ef_reason e = SalReasonDeclined then setState c End ''Call declined''
               else if isEarlyState s then setState c Error errorString
               else setState c End errorString,
               test (\<lambda>w. cs_referer w \<noteq> None) (notifyReferState c) (run []),
               returns 0]))"

text \<open>
  \<open>replaceOp\<close>: a forked INVITE takes the place of the session's operation.  The old operation is given by its name once it is replaced.
\<close>

definition tell_old :: "call_core \<Rightarrow> call_op \<Rightarrow> op_command \<Rightarrow> step" where
  "tell_old c old cmd = run [emit (Told (op_id old) cmd), react c (Told (op_id old) cmd)]"

definition replaceOp :: "call_core \<Rightarrow> call_op \<Rightarrow> step" where
  "replaceOp c newOp = with_world (\<lambda>w0.
     case cs_op w0 of
       None \<Rightarrow> (\<lambda>w. Inl Null_dereference)
     | Some oldOp \<Rightarrow> run
         [upd (\<lambda>w. w\<lparr>cs_op := Some newOp, cs_log := (cs_log w)\<lparr>log_callId := op_callId newOp\<rparr>\<rparr>),
          emit Db_update_call_log,
          if cs_state w0 \<in> {IncomingEarlyMedia, IncomingReceived} then tell c (Op_notifyRinging (cs_state w0 = IncomingEarlyMedia))
          else if cs_state w0 \<in> {Connected, StreamsRunning} then tell c Op_accept
          else run [],
          if cs_state w0 \<in> {IncomingEarlyMedia, IncomingReceived}
          then with_op (\<lambda>o1. emit (Told (op_id oldOp) (if op_replaces o1 \<noteq> None then Op_terminate None else Op_killDialog)))
          else if cs_state w0 \<in> {Connected, StreamsRunning}
          then run [tell_old c oldOp (Op_terminate None), tell_old c oldOp Op_killDialog]
          else run [],
          release_op oldOp])"

section \<open>Configuration and time\<close>

definition assign_found_account :: "nat option \<Rightarrow> step" where
  "assign_found_account a = (case a of None \<Rightarrow> run [] | Some i \<Rightarrow> setDestAccount (Some i))"

text \<open>An account found for an address that is not quite the local one: the log is corrected to the identity of the account.\<close>

definition hack_to_address :: "nat \<Rightarrow> step" where
  "hack_to_address i = upd (\<lambda>w. w\<lparr>cs_log := (cs_log w)\<lparr>log_to := acc_identity (w_accounts w i)\<rparr>, cs_account := Some i\<rparr>)"

definition find_incoming_account :: "call_core \<Rightarrow> step" where
  "find_incoming_account c = with_world (\<lambda>w.
     let to = log_to (cs_log w); from = log_from (cs_log w)
     in case (if conference_server_enabled c then lookup_conference_factory c to else None) of
          Some i \<Rightarrow> setDestAccount (Some i)
        | None \<Rightarrow>
            (case find_account_by_identity c to of
               Some i \<Rightarrow> setDestAccount (Some i)
             | None \<Rightarrow>
                 (case guess_local_account c to from of
                    Some i \<Rightarrow> hack_to_address i
                  | None \<Rightarrow>
                      (case Option.bind (map_option op_requestAddress (cs_op w)) (\<lambda>a. guess_local_account c a from) of
                         Some i \<Rightarrow> hack_to_address i
                       | None \<Rightarrow> run []))))"

definition assignAccount :: "call_core \<Rightarrow> nat option \<Rightarrow> step" where
  "assignAccount c account = run
     [setDestAccount account,
      test (\<lambda>w. cs_account w \<noteq> None) (run [])
        (test (\<lambda>w. log_direction (cs_log w) = LinphoneCallIncoming) (find_incoming_account c)
           (with_world (\<lambda>w. assign_found_account (lookup_account_by_identity c (log_from (cs_log w))))))]"

definition new_call_log :: "CallDir \<Rightarrow> address \<Rightarrow> address \<Rightarrow> int \<Rightarrow> call_log" where
  "new_call_log direction from to now = \<lparr>log_direction = direction, log_from = from, log_to = to, log_status = LinphoneCallAborted,
     log_callId = '''', log_startTime = now, log_connectedTime = 0, log_duration = 0, log_errorInfo = None, log_conferenceInfo = None\<rparr>"

definition configure :: "call_core \<Rightarrow> CallDir \<Rightarrow> nat option \<Rightarrow> call_op option \<Rightarrow> address \<Rightarrow> address \<Rightarrow> step" where
  "configure c direction account op from to = run
     [upd (\<lambda>w. w\<lparr>cs_direction := direction, cs_log := new_call_log direction from to (w_now w)\<rparr>),
      upd (\<lambda>w. case op of None \<Rightarrow> w
             | Some p \<Rightarrow> w\<lparr>cs_op := Some (p\<lparr>op_capabilityNegotiation := isCapabilityNegotiationEnabled w\<rparr>),
                           cs_log := (cs_log w)\<lparr>log_callId := op_callId p\<rparr>\<rparr>),
      (if direction = LinphoneCallOutgoing
       then run [upd (\<lambda>w. case cp_referer (cs_params w) of None \<Rightarrow> w | Some r \<Rightarrow> w\<lparr>cs_referer := Some r\<rparr>), startPing c]
       else run []),
      assignAccount c account,
      test (\<lambda>w. direction = LinphoneCallIncoming \<and> sdpFoundInRemoteBody w) (report_call_event c ConferenceCallStarted) (run [])]"

definition configure_push :: "CallDir \<Rightarrow> string \<Rightarrow> step" where
  "configure_push direction callid = upd (\<lambda>w. w\<lparr>cs_direction := direction,
     cs_log := (new_call_log direction ''Anonymous <sip:anonymous@anonymous.invalid>'' ''Anonymous <sip:anonymous@anonymous.invalid>'' (w_now w))
       \<lparr>log_callId := callid\<rparr>\<rparr>)"

definition isOpConfigured :: "call_world \<Rightarrow> bool" where
  "isOpConfigured w \<longleftrightarrow> cs_op w \<noteq> None"

definition iterate :: "call_core \<Rightarrow> int \<Rightarrow> bool \<Rightarrow> step" where
  "iterate c currentRealTime oneSecondElapsed = with_world (\<lambda>w0.
     let elapsed = to_int32 (currentRealTime - log_startTime (cs_log w0))
     in run
       [test (\<lambda>w. cs_state w = OutgoingInit \<and> elapsed > delayed_timeout c \<and> cs_pingOp w \<noteq> None) (startInvite c None '''' None) (run []),
        test (\<lambda>w. cs_state w = IncomingReceived \<or> cs_state w = IncomingEarlyMedia) (notify c (Incoming_timeout_check elapsed oneSecondElapsed)) (run []),
        test (\<lambda>w. cs_direction w = LinphoneCallIncoming \<and> \<not> isOpConfigured w) (notify c (Push_timeout_check elapsed)) (run []),
        test (\<lambda>w. in_call_timeout c > 0 \<and> log_connectedTime (cs_log w) \<noteq> 0 \<and>
                  currentRealTime - log_connectedTime (cs_log w) > in_call_timeout c) (terminate c None) (run [])])"

section \<open>Pending actions and parameters of the remote end\<close>

definition addPendingAction :: "nat \<Rightarrow> step" where
  "addPendingAction f = upd (\<lambda>w. w\<lparr>cs_pendingActions := cs_pendingActions w @ [f]\<rparr>)"

text \<open>The loop over the copied queue: actions that return something else than 0 are kept in order.\<close>

fun execute_actions :: "call_core \<Rightarrow> nat list \<Rightarrow> nat list \<Rightarrow> step" where
  "execute_actions c [] unsuccessful w = Inr (w\<lparr>cs_pendingActions := cs_pendingActions w @ unsuccessful\<rparr>)"
| "execute_actions c (f # fs) unsuccessful w =
     bindR (pending_action c f w) (\<lambda>w1. execute_actions c fs (if w_ret w1 \<noteq> 0 then unsuccessful @ [f] else unsuccessful) w1)"

definition executePendingActions :: "call_core \<Rightarrow> step" where
  "executePendingActions c = test (\<lambda>w. w_networkReachable w \<and> cs_state w \<notin> {End, Released, Error})
     (with_world (\<lambda>w. run [upd (\<lambda>w. w\<lparr>cs_pendingActions := []\<rparr>), execute_actions c (cs_pendingActions w) []])) (run [])"

definition onCallStateChanged :: step where
  "onCallStateChanged = emit Do_later"

definition getRemoteParams :: step where
  "getRemoteParams w =
     (case cs_op w of
        None \<Rightarrow> Inr w
      | Some o1 \<Rightarrow>
          (let p1 = (case op_recvCustomHeaders o1 of
                       None \<Rightarrow> cs_remoteParams w
                     | Some ch \<Rightarrow> Some (ch, case cs_remoteParams w of None \<Rightarrow> [] | Some (_, cts) \<Rightarrow> cts));
               added = filter (\<lambda>b. \<not> is_sdp b) (op_remoteBodies o1)
           in case p1 of
                None \<Rightarrow> if added = [] then Inr w else Inl Null_dereference
              | Some (ch, cts) \<Rightarrow> Inr (w\<lparr>cs_remoteParams := Some (ch, cts @ added)\<rparr>)))"

definition getReplacedCallSession :: "call_world \<Rightarrow> CallState option res" where
  "getReplacedCallSession w =
     (case Option.bind (cs_op w) op_replaces of None \<Rightarrow> Inr None | Some None \<Rightarrow> Inl Null_dereference | Some (Some s) \<Rightarrow> Inr (Some s))"

section \<open>The session and its environment\<close>

text \<open>
  Calls of the SIP stack (\<open>coreapi/callbacks.c\<close>).  They reach the session through its operation, so they stop when the operation is released;
  the reply to a ping comes through the operation of the ping.
\<close>

datatype SalReferStatus = SalReferTrying | SalReferSuccess | SalReferFailed

fun refer_status_state :: "SalReferStatus \<Rightarrow> CallState" where
  "refer_status_state SalReferTrying = OutgoingProgress"
| "refer_status_state SalReferSuccess = Connected"
| "refer_status_state SalReferFailed = Error"

datatype sal_callback =
    Call_ringing | Call_accepted | Call_refreshed | Call_refreshing | Call_updating bool | Call_ack_received | Call_ack_being_sent
  | Call_terminated | Call_failure | Call_released | Call_cancel_done | Call_refer "address option" | Call_info | Notify_refer SalReferStatus | Ping_reply

fun sal_callback_step :: "call_core \<Rightarrow> sal_callback \<Rightarrow> step" where
  "sal_callback_step c Call_ringing = remoteRinging c"
| "sal_callback_step c Call_accepted = accepted c"
| "sal_callback_step c Call_refreshed = refreshed c"
| "sal_callback_step c Call_refreshing = setState c Updating ''Session refreshing''"
| "sal_callback_step c (Call_updating is_update) = updating c is_update"
| "sal_callback_step c Call_ack_received = notify c Ack_received"
| "sal_callback_step c Call_ack_being_sent = notify c Ack_being_sent"
| "sal_callback_step c Call_terminated = terminated c"
| "sal_callback_step c Call_failure = failure c"
| "sal_callback_step c Call_released = setState c Released ''Call released''"
| "sal_callback_step c Call_cancel_done = cancelDone c"
| "sal_callback_step c (Call_refer a) = referred c a"
| "sal_callback_step c Call_info = notify c Info_received"
| "sal_callback_step c (Notify_refer status) = setTransferState c (refer_status_state status)"
| "sal_callback_step c Ping_reply = pingReply c"

definition callback_reaches :: "sal_callback \<Rightarrow> call_world \<Rightarrow> bool" where
  "callback_reaches cb w \<longleftrightarrow> (if cb = Ping_reply then cs_pingOp w else cs_op w) \<noteq> None"

definition deliver_callback :: "call_core \<Rightarrow> sal_callback \<Rightarrow> step" where
  "deliver_callback c cb = test (callback_reaches cb) (sal_callback_step c cb) (run [])"

text \<open>
  What can happen to a session: the methods the application and the core call, the calls of the SIP stack, and changes around the session (the view of the operation, the clock,
  the network, the accounts and the listeners that exist).
\<close>

datatype session_call =
    Accept "call_params option"
  | Accept_update
  | Decline "LinphoneErrorInfo option"
  | Decline_reason LinphoneReason
  | Decline_not_answered LinphoneReason
  | Defer_update
  | Terminate "LinphoneErrorInfo option"
  | Abort string
  | Redirect address
  | Redirect_uri string
  | Transfer address
  | Transfer_to_session "nat option"
  | Update "call_params option" UpdateMethod string "body option"
  | Initiate_outgoing
  | Start_invite "address option" string "body option"
  | Start_incoming_notification bool
  | Start_push_incoming_notification
  | Accepting_early
  | Replace_op call_op
  | Iterate int bool
  | Network_reachable bool
  | Registration_changed "nat option" bool
  | Add_pending_action nat
  | Execute_pending_actions
  | Get_remote_params
  | Add_listener nat
  | Remove_listener nat
  | Clear_listeners
  | Set_transfer_state CallState
  | Sal sal_callback
  | Op_view call_op
  | Clock int
  | Network bool bool
  | Account_changed nat account
  | Listeners_alive "nat list"

fun perform :: "call_core \<Rightarrow> session_call \<Rightarrow> step" where
  "perform c (Accept csp) = accept c csp"
| "perform c Accept_update = acceptUpdate c"
| "perform c (Decline e) = decline c e"
| "perform c (Decline_reason r) = decline_reason c r"
| "perform c (Decline_not_answered r) = declineNotAnswered c r"
| "perform c Defer_update = deferUpdate"
| "perform c (Terminate e) = terminate c e"
| "perform c (Abort m) = abort c m"
| "perform c (Redirect a) = redirect c a"
| "perform c (Redirect_uri u) = redirect_uri c u"
| "perform c (Transfer a) = transfer c a"
| "perform c (Transfer_to_session d) = transfer_to_session c d"
| "perform c (Update csp m s ct) = update c csp m s ct"
| "perform c Initiate_outgoing = initiateOutgoing c"
| "perform c (Start_invite d s ct) = startInvite c d s ct"
| "perform c (Start_incoming_notification b) = startIncomingNotification c b"
| "perform c Start_push_incoming_notification = startPushIncomingNotification c"
| "perform c Accepting_early = accepting"
| "perform c (Replace_op o1) = replaceOp c o1"
| "perform c (Iterate t b) = iterate c t b"
| "perform c (Network_reachable b) = onNetworkReachable c b"
| "perform c (Registration_changed a ok) = onRegistrationStateChanged c a ok"
| "perform c (Add_pending_action f) = addPendingAction f"
| "perform c Execute_pending_actions = executePendingActions c"
| "perform c Get_remote_params = getRemoteParams"
| "perform c (Add_listener l) = addListener l"
| "perform c (Remove_listener l) = removeListener l"
| "perform c Clear_listeners = clearListeners"
| "perform c (Set_transfer_state s) = setTransferState c s"
| "perform c (Sal cb) = deliver_callback c cb"
| "perform c (Op_view o1) = upd (\<lambda>w. w\<lparr>cs_op := map_option (\<lambda>p. o1\<lparr>op_id := op_id p\<rparr>) (cs_op w)\<rparr>)"
| "perform c (Clock t) = upd (\<lambda>w. w\<lparr>w_now := t\<rparr>)"
| "perform c (Network sip media) = upd (\<lambda>w. w\<lparr>w_networkReachable := sip, w_mediaNetwork := media\<rparr>)"
| "perform c (Account_changed i acc) =
     upd (\<lambda>w. w\<lparr>w_accounts := (w_accounts w)(i := acc\<lparr>acc_missedCalls := acc_missedCalls (w_accounts w i)\<rparr>)\<rparr>)"
| "perform c (Listeners_alive ls) = upd (\<lambda>w. w\<lparr>w_alive := ls\<rparr>)"

text \<open>
  An environment answers each output by calls of the session, and names what each pending action does.  \<open>core_at n\<close> lets such calls nest \<open>n\<close> deep; a deeper call is \<open>Out_of_fuel\<close>.
\<close>

primrec core_at :: "call_core \<Rightarrow> (session_output \<Rightarrow> call_world \<Rightarrow> session_call list) \<Rightarrow> (nat \<Rightarrow> session_call) \<Rightarrow> nat \<Rightarrow> call_core" where
  "core_at c env acts 0 = c\<lparr>react := (\<lambda>x w. if env x w = [] then Inr w else Inl Out_of_fuel), pending_action := (\<lambda>f w. Inl Out_of_fuel)\<rparr>"
| "core_at c env acts (Suc n) = c\<lparr>react := (\<lambda>x w. run (map (perform (core_at c env acts n)) (env x w)) w),
     pending_action := (\<lambda>f. perform (core_at c env acts n) (acts f))\<rparr>"

definition session_run :: "call_core \<Rightarrow> session_call list \<Rightarrow> step" where
  "session_run c calls = run (map (perform c) calls)"

end
