(* ===== verification/Call_Lifecycle.thy ===== *)
theory Call_Lifecycle
  imports Call_Session
begin

text \<open>
  Properties of call sessions.  A relation between worlds that entering a state keeps, and that the rest of the model does not touch, is kept by every method, whatever the
  listeners and the SIP stack do in between: the locale \<open>session_relation\<close> shows this once, and \<open>session_environment\<close> closes it over environments that call
  the session again.  The functional properties are about a quiet environment, one that does not call back.
\<close>

named_theorems keeps_rules \<open>statements that keep a relation\<close>

definition keeps :: "(call_world \<Rightarrow> call_world \<Rightarrow> bool) \<Rightarrow> step \<Rightarrow> bool" where
  "keeps R f \<longleftrightarrow> (\<forall>w w'. f w = Inr w' \<longrightarrow> R w w')"

lemma keepsD: "keeps R f \<Longrightarrow> f w = Inr w' \<Longrightarrow> R w w'"
  by (simp add: keeps_def)

lemma bindR_run_Nil [simp]: "bindR r (run []) = r"
  by (cases r) simp_all

section \<open>Relations that every method keeps\<close>

locale step_relation =
  fixes R :: "call_world \<Rightarrow> call_world \<Rightarrow> bool"
  assumes R_refl [simp]: "R w w" and R_trans: "R w w' \<Longrightarrow> R w' w'' \<Longrightarrow> R w w''"
begin

lemma keeps_run [keeps_rules]: "list_all (keeps R) fs \<Longrightarrow> keeps R (run fs)"
proof (induction fs)
  case (Cons f fs)
  then have "keeps R f" "keeps R (run fs)" by auto
  then show ?case unfolding keeps_def by (fastforce simp: bindR_eq_Inr intro: R_trans)
qed (simp add: keeps_def)

lemma keeps_test [keeps_rules]: "keeps R f \<Longrightarrow> keeps R g \<Longrightarrow> keeps R (test b f g)"
  by (auto simp: keeps_def test_def)

lemma keeps_unless [keeps_rules]: "keeps R f \<Longrightarrow> keeps R (unless_done b f)"
  by (auto simp: keeps_def unless_done_def)

lemma keeps_with_world [keeps_rules]: "(\<And>w. keeps R (f w)) \<Longrightarrow> keeps R (with_world f)"
  by (auto simp: keeps_def with_world_def)

lemma keeps_with_op [keeps_rules]: "(\<And>o1. keeps R (f o1)) \<Longrightarrow> keeps R (with_op f)"
  by (auto simp: keeps_def with_op_def split: option.splits)

lemma keeps_if [keeps_rules]: "(b \<Longrightarrow> keeps R f) \<Longrightarrow> (\<not> b \<Longrightarrow> keeps R g) \<Longrightarrow> keeps R (if b then f else g)"
  by simp

lemma keeps_option [keeps_rules]: "keeps R f \<Longrightarrow> (\<And>x. keeps R (g x)) \<Longrightarrow> keeps R (case v of None \<Rightarrow> f | Some x \<Rightarrow> g x)"
  by (cases v) auto

lemma keeps_pair [keeps_rules]: "(\<And>x y. keeps R (g x y)) \<Longrightarrow> keeps R (case v of (x, y) \<Rightarrow> g x y)"
  by (cases v) auto

lemma keeps_list [keeps_rules]: "keeps R f \<Longrightarrow> (\<And>x xs. keeps R (g x xs)) \<Longrightarrow> keeps R (case v of [] \<Rightarrow> f | x # xs \<Rightarrow> g x xs)"
  by (cases v) auto

lemma keeps_fail [keeps_rules]: "keeps R (\<lambda>w. Inl e)"
  by (simp add: keeps_def)

lemma keeps_with_res [keeps_rules]: "(\<And>x. keeps R (f x)) \<Longrightarrow> keeps R (with_res r f)"
  by (auto simp: keeps_def with_res_def bindR_eq_Inr)

lemma keeps_let [keeps_rules]: "(\<And>x. keeps R (f x)) \<Longrightarrow> keeps R (Let v f)"
  by (simp add: Let_def)

end

text \<open>The changes of state among outputs.  What a statement other than a change of state leaves alone; outputs are only added.\<close>

definition turn_of :: "session_output \<Rightarrow> (CallState \<times> CallState) option" where
  "turn_of x = (case x of Moving a b \<Rightarrow> Some (a, b) | _ \<Rightarrow> None)"

definition turns :: "session_output list \<Rightarrow> (CallState \<times> CallState) list" where
  "turns es = List.map_filter turn_of es"

lemma turn_of_simps [simp]:
  "turn_of (Moving a b) = Some (a, b)" "turn_of (Notified l e) = None" "turn_of (Told n cmd) = None"
  "turn_of Terminate_replaced_session = None" "turn_of (Report_call_event k) = None" "turn_of (Db_insert_conference_info a2) = None"
  "turn_of Db_update_call_log = None" "turn_of Do_later = None"
  by (simp_all add: turn_of_def)

lemma turns_simps [simp]:
  "turns [] = []" "turns (x # xs) = (case turn_of x of None \<Rightarrow> turns xs | Some t \<Rightarrow> t # turns xs)" "turns (xs @ ys) = turns xs @ turns ys"
  by (simp_all add: turns_def List.map_filter_def split: option.split)

definition frame :: "call_world \<Rightarrow> call_world \<Rightarrow> bool" where
  "frame w w' \<longleftrightarrow> cs_state w' = cs_state w \<and> cs_lastStableState w' = cs_lastStableState w \<and>
     (\<exists>es. w_out w' = w_out w @ es \<and> turns es = [])"

locale session_relation = step_relation +
  assumes R_frame: "frame w w' \<Longrightarrow> R w w'"
    and R_enter: "cs_state w \<noteq> s \<Longrightarrow> \<not> bad_transition (cs_state w) s \<Longrightarrow> R w (enter_state s m (remember_state w))"
begin

lemma keeps_upd: "(\<And>w. frame w (f w)) \<Longrightarrow> keeps R (upd f)"
  by (auto simp: keeps_def upd_def intro: R_frame)

lemma keeps_emit [keeps_rules]: "turn_of x = None \<Longrightarrow> keeps R (emit x)"
  unfolding emit_def by (rule keeps_upd) (simp add: frame_def)

lemma keeps_returns [keeps_rules]: "keeps R (returns v)"
  unfolding returns_def by (rule keeps_upd) (simp add: frame_def)

lemma keeps_log_set [keeps_rules]: "keeps R (log_set f)"
  unfolding log_set_def by (rule keeps_upd) (simp add: frame_def)

lemma keeps_op_set [keeps_rules]: "keeps R (op_set f)"
  unfolding op_set_def by (intro keeps_rules keeps_upd) (simp add: frame_def)

lemma keeps_enter:
  assumes "keeps R f"
  shows "cs_state w \<noteq> s \<Longrightarrow> \<not> bad_transition (cs_state w) s \<Longrightarrow> f (enter_state s m (remember_state w)) = Inr w' \<Longrightarrow> R w w'"
  using R_trans [OF R_enter] keepsD [OF assms] by blast

end

locale session_environment = session_relation +
  fixes c :: call_core
  assumes R_react: "keeps R (react c x)" and R_action: "keeps R (pending_action c f)"
begin

lemma keeps_tell [keeps_rules]: "keeps R (tell c cmd)"
  unfolding tell_def by (intro keeps_rules) (simp add: keeps_emit keeps_returns R_react)

lemma keeps_notify [keeps_rules]: "keeps R (notify c e)"
proof -
  have "keeps R (notify_one c e l)" for l
    unfolding notify_one_def by (intro keeps_rules) (simp_all add: keeps_emit R_react)
  then show ?thesis unfolding notify_def by (intro keeps_rules) (simp add: list.pred_map list.pred_True comp_def)
qed


lemma keeps_completeLog [keeps_rules]: "keeps R (completeLog c)"
  unfolding completeLog_def report_call_event_def by (auto intro!: keeps_rules keeps_upd simp: frame_def split: option.split)

lemma keeps_setTerminated [keeps_rules]: "keeps R (setTerminated c)"
  unfolding setTerminated_def notifyCallSessionSetTerminated_def by (auto intro!: keeps_rules)

lemma keeps_getErrorInfo [keeps_rules]: "keeps R (upd getErrorInfo)"
  by (rule keeps_upd) (simp add: getErrorInfo_def frame_def)

lemma keeps_setReleased [keeps_rules]: "keeps R (setReleased c)"
  unfolding setReleased_def drop_op_def release_op_def notifyCallSessionSetReleased_def
  by (auto intro!: keeps_rules keeps_upd simp: frame_def)

lemma keeps_addListener [keeps_rules]: "keeps R (addListener l)"
  unfolding addListener_def by (rule keeps_upd) (simp add: frame_def)

lemma keeps_state_effects [keeps_rules]: "keeps R (state_effects c s)"
proof -
  have "keeps R (join_incoming_conference c o1)" for o1
    unfolding join_incoming_conference_def by (auto intro!: keeps_rules)
  then show ?thesis unfolding state_effects_def report_call_event_def
    by (cases s) (auto intro!: keeps_rules keeps_upd simp: frame_def)
qed

lemma keeps_setState [keeps_rules]: "keeps R (setState c s m)"
proof -
  have "keeps R (run [state_effects c s, if s = End \<or> s = Error then setTerminated c else run [],
      notifyCallSessionStateChanged c s m, if s = Released then setReleased c else run []])"
    unfolding notifyCallSessionStateChanged_def by (auto intro!: keeps_rules)
  from keeps_enter [OF this] show ?thesis unfolding keeps_def by (auto simp: setState_def simp del: run.simps)
qed

lemma keeps_parts [keeps_rules]:
  "keeps R (setContactOp c)"
  "keeps R (refreshContactAddress c)"
  "keeps R (updateContactAddressInOp c)"
  "keeps R (createOpTo c a)"
  "keeps R (setParams_if_given csp)"
  "keeps R (setDestAccount a2)"
  "keeps R take_privacy"
  "keeps R setBroken"
  "keeps R clear_broken"
  "keeps R accepting"
  "keeps R deferUpdate"
  "keeps R (addPendingAction f)"
  "keeps R (removeListener l)"
  "keeps R clearListeners"
  "keeps R (tell_old c o1 cmd)"
  "keeps R (release_op o1)"
  "keeps R (updateToFromAssertedIdentity c)"
  "keeps R (notifyReferState c)"
  "keeps R (report_call_event c k)"
  unfolding setContactOp_def refreshContactAddress_def updateContactAddressInOp_def createOpTo_def setParams_if_given_def setParams_def setDestAccount_def take_privacy_def setBroken_def clear_broken_def accepting_def deferUpdate_def addPendingAction_def removeListener_def clearListeners_def tell_old_def release_op_def updateToFromAssertedIdentity_def notifyReferState_def report_call_event_def
  by (auto intro!: keeps_rules keeps_upd R_react simp: frame_def Let_def split: option.split)

lemma keeps_turns [keeps_rules]:
  "keeps R (d_terminate c)"
  "keeps R (abort c m)"
  "keeps R (terminated c)"
  "keeps R (referred c a2)"
  "keeps R (startAcceptUpdate c s m)"
  "keeps R (restorePreviousState c)"
  "keeps R (createOp c)"
  "keeps R (set_state_message c s m2)"
  "keeps R (startPing c)"
  "keeps R (remoteRinging c)"
  "keeps R (accepted c)"
  "keeps R (checkForAcceptation c)"
  "keeps R (startPushIncomingNotification c)"
  "keeps R (startBasicIncomingNotification c b)"
  unfolding d_terminate_def abort_def terminated_def referred_def startAcceptUpdate_def restorePreviousState_def createOp_def set_state_message_def startPing_def remoteRinging_def accepted_def checkForAcceptation_def startPushIncomingNotification_def startBasicIncomingNotification_def
  by (auto intro!: keeps_rules keeps_upd R_react simp: frame_def Let_def split: option.split)

lemma keeps_calls [keeps_rules]:
  "keeps R (decline c e)"
  "keeps R (redirect c a)"
  "keeps R (initiateOutgoing c)"
  "keeps R (d_acceptUpdate c s m)"
  "keeps R (refreshed c)"
  "keeps R (startUpdate c method m)"
  "keeps R (d_accept c csp)"
  "keeps R (startInvite c a2 m ct)"
  "keeps R (cancel_to_reinvite c)"
  unfolding decline_def redirect_def initiateOutgoing_def d_acceptUpdate_def refreshed_def startUpdate_def d_accept_def startInvite_def cancel_to_reinvite_def
  by (auto intro!: keeps_rules keeps_upd R_react simp: frame_def Let_def split: option.split)

lemma keeps_methods [keeps_rules]:
  "keeps R (decline_reason c r)"
  "keeps R (terminate c e)"
  "keeps R (redirect_uri c m)"
  "keeps R (restartInvite c)"
  "keeps R (pingReply c)"
  "keeps R (accept c csp)"
  "keeps R (acceptUpdate c)"
  "keeps R (update c csp method m ct)"
  "keeps R (repairByNewInvite c b)"
  "keeps R (replaceOp c o1)"
  unfolding decline_reason_def terminate_def redirect_uri_def restartInvite_def pingReply_def accept_def acceptUpdate_def update_def repairByNewInvite_def replaceOp_def
  by (auto intro!: keeps_rules keeps_upd R_react simp: frame_def Let_def split: option.split)

lemma keeps_reactions [keeps_rules]:
  "keeps R (declineNotAnswered c r)"
  "keeps R (setTransferState c s)"
  "keeps R (failure c)"
  "keeps R (acceptOrTerminateReplacedSessionInIncomingNotification c)"
  "keeps R (updatedByRemote c)"
  "keeps R (reinviteToRecoverFromConnectionLoss c)"
  "keeps R (iterate c t b)"
  unfolding declineNotAnswered_def setTransferState_def failure_def acceptOrTerminateReplacedSessionInIncomingNotification_def updatedByRemote_def reinviteToRecoverFromConnectionLoss_def iterate_def
  by (auto intro!: keeps_rules keeps_upd R_react simp: frame_def Let_def split: option.split)

lemma keeps_handlers [keeps_rules]:
  "keeps R (transfer c a)"
  "keeps R (transfer_to_session c n)"
  "keeps R (handleIncomingReceivedStateInIncomingNotification c)"
  "keeps R (updated c b)"
  "keeps R (cancelDone c)"
  "keeps R (repairIfBroken c)"
  unfolding transfer_def transfer_to_session_def handleIncomingReceivedStateInIncomingNotification_def updated_def cancelDone_def repairIfBroken_def
  by (auto intro!: keeps_rules keeps_upd R_react simp: frame_def Let_def split: option.split)

lemma keeps_entries [keeps_rules]:
  "keeps R (handleIncoming c b)"
  "keeps R (updating c b)"
  "keeps R (onNetworkReachable c b)"
  "keeps R (onRegistrationStateChanged c a3 b)"
  unfolding handleIncoming_def updating_def onNetworkReachable_def onRegistrationStateChanged_def
  by (auto intro!: keeps_rules keeps_upd R_react simp: frame_def Let_def split: option.split)

lemma keeps_notification [keeps_rules]:
  "keeps R (d_startIncomingNotification c)"
  unfolding d_startIncomingNotification_def
  by (auto intro!: keeps_rules keeps_upd R_react simp: frame_def Let_def split: option.split)

lemma keeps_incoming [keeps_rules]:
  "keeps R (startIncomingNotification c b)"
  unfolding startIncomingNotification_def
  by (auto intro!: keeps_rules keeps_upd R_react simp: frame_def Let_def split: option.split)

lemma keeps_execute_actions: "keeps R (execute_actions c fs us)"
proof (induction fs arbitrary: us)
  case Nil
  show ?case by (auto simp: keeps_def intro!: R_frame simp: frame_def)
next
  case (Cons f fs)
  show ?case
  proof (unfold keeps_def, intro allI impI)
    fix w w' assume "execute_actions c (f # fs) us w = Inr w'"
    then obtain w1 us' where "pending_action c f w = Inr w1" "execute_actions c fs us' w1 = Inr w'" by (auto simp: bindR_eq_Inr)
    then show "R w w'" using keepsD [OF R_action] keepsD [OF Cons.IH] R_trans by blast
  qed
qed

lemma keeps_executePendingActions [keeps_rules]: "keeps R (executePendingActions c)"
  unfolding executePendingActions_def
  by (auto intro!: keeps_rules keeps_upd keeps_execute_actions simp: frame_def)

lemma keeps_getRemoteParams [keeps_rules]: "keeps R getRemoteParams"
  unfolding keeps_def by (auto simp: getRemoteParams_def Let_def frame_def intro!: R_frame split: option.splits prod.splits if_splits)

lemma keeps_deliver_callback [keeps_rules]: "keeps R (deliver_callback c cb)"
  unfolding deliver_callback_def callback_reaches_def by (cases cb) (auto intro!: keeps_rules)

lemma keeps_perform: "keeps R (perform c x)"
  by (cases x) (auto intro!: keeps_rules keeps_upd simp: frame_def)

end

context session_relation
begin

text \<open>However deep the environment calls back, it keeps what the methods keep.\<close>

lemma environment_core_at: "session_environment R (core_at c env acts n)"
proof (induction n)
  case 0
  show ?case by unfold_locales (simp_all add: keeps_def)
next
  case (Suc n)
  note perform = session_environment.keeps_perform [OF Suc]
  then have "keeps R (run (map (perform (core_at c env acts n)) xs))" for xs
    by (intro keeps_run) (simp add: list.pred_map list.pred_True comp_def)
  then have "keeps R (\<lambda>w. run (map (perform (core_at c env acts n)) (env x w)) w)" for x
    unfolding keeps_def by blast
  with perform show ?case by unfold_locales simp_all
qed

lemma session_run_keeps: "session_run (core_at c env acts n) calls w = Inr w' \<Longrightarrow> R w w'"
  using session_environment.keeps_perform [OF environment_core_at]
  unfolding session_run_def by (intro keepsD [OF keeps_run]) (auto simp: list.pred_map list.pred_True comp_def)

end

section \<open>The life of a session\<close>

text \<open>
  The rules of a life: a list of changes that starts in one state, ends in another, goes on where the one before arrived, leaves an ended state only for \<open>Released\<close> and
  reaches \<open>Released\<close> only from an ended one.  \<open>Referred\<close> is an event, never the state of a session.
\<close>

fun turn_path :: "CallState \<Rightarrow> (CallState \<times> CallState) list \<Rightarrow> CallState \<Rightarrow> bool" where
  "turn_path s [] s' \<longleftrightarrow> s = s'"
| "turn_path s ((a, b) # ts) s' \<longleftrightarrow>
     a = s \<and> a \<noteq> b \<and> (b = Released \<longleftrightarrow> a = End \<or> a = Error) \<and> turn_path (if b = Referred then a else b) ts s'"

lemma turn_path_append: "turn_path s ts s1 \<Longrightarrow> turn_path s1 us s2 \<Longrightarrow> turn_path s (ts @ us) s2"
  by (induction s ts s1 rule: turn_path.induct) auto

definition life :: "call_world \<Rightarrow> call_world \<Rightarrow> bool" where
  "life w w' \<longleftrightarrow> (\<exists>es. w_out w' = w_out w @ es \<and> turn_path (cs_state w) (turns es) (cs_state w'))"

definition stable_states :: "call_world \<Rightarrow> call_world \<Rightarrow> bool" where
  "stable_states w w' \<longleftrightarrow> cs_lastStableState w' \<in> {cs_lastStableState w, StreamsRunning, Paused}"

lemmas enter_simps = enter_state_def remember_state_def Let_def

interpretation life: session_relation life
proof unfold_locales
  show "life w w" for w by (simp add: life_def)
next
  fix w w1 w2 assume "life w w1" "life w1 w2"
  then obtain es fs where es: "w_out w1 = w_out w @ es" "turn_path (cs_state w) (turns es) (cs_state w1)"
    and fs: "w_out w2 = w_out w1 @ fs" "turn_path (cs_state w1) (turns fs) (cs_state w2)" unfolding life_def by blast
  from turn_path_append [OF es(2) fs(2)] es(1) fs(1) show "life w w2" unfolding life_def by (intro exI [of _ "es @ fs"]) simp
qed (auto simp: life_def frame_def enter_simps bad_transition_def split: if_splits)

interpretation stable: session_relation stable_states
  by unfold_locales (auto simp: stable_states_def frame_def enter_simps)

text \<open>
  C5: Whatever the application and the SIP stack do, from outside or from within notifications and commands, at any depth: the changes of state follow one another and the rules, from an
  ended call only to the released one and to the released one only from an ended call; what was told is not taken back; and the state a session falls back to is the one that was remembered before,
  which is \<open>Idle\<close> in a new session, or \<open>StreamsRunning\<close> or \<open>Paused\<close>.
\<close>

theorem call_states_follow_rules:
  assumes "session_run (core_at c env acts n) calls w = Inr w'"
  shows "(\<exists>es. w_out w' = w_out w @ es \<and> turn_path (cs_state w) (turns es) (cs_state w')) \<and>
    cs_lastStableState w' \<in> {cs_lastStableState w, StreamsRunning, Paused}"
  using life.session_run_keeps [OF assms] stable.session_run_keeps [OF assms] by (simp add: life_def stable_states_def)

section \<open>Released sessions\<close>

definition released :: "call_world \<Rightarrow> bool" where
  "released w \<longleftrightarrow> cs_state w = Released \<and> cs_op w = None"

definition is_announcement :: "session_output \<Rightarrow> bool" where
  "is_announcement x = (case x of Notified _ (State_changed _ _) \<Rightarrow> True | _ \<Rightarrow> False)"

definition still_released :: "call_world \<Rightarrow> call_world \<Rightarrow> bool" where
  "still_released w w' \<longleftrightarrow> (released w \<longrightarrow> released w' \<and> filter is_announcement (w_out w') = filter is_announcement (w_out w))"

text \<open>The calls that start a session, which the core makes once, when it creates the session.\<close>

definition starts :: "session_call \<Rightarrow> bool" where
  "starts x \<longleftrightarrow> (case x of Initiate_outgoing \<Rightarrow> True | Start_incoming_notification _ \<Rightarrow> True
     | Start_push_incoming_notification \<Rightarrow> True | _ \<Rightarrow> False)"

interpretation still: step_relation still_released
  by unfold_locales (auto simp: still_released_def)

lemmas step_defs = with_world_def with_op_def with_res_def test_def unless_done_def upd_def returns_def emit_def log_set_def op_set_def tell_def

lemma released_null:
  assumes "released w"
  shows "tell c cmd w = Inl Null_dereference" "op_set f w = Inl Null_dereference"
    "update c csp m s ct w = Inl Null_dereference" "replaceOp c o1 w = Inl Null_dereference"
  using assms by (simp_all add: released_def step_defs update_def replaceOp_def)

lemma released_refused:
  assumes "released w"
  shows "terminate c e w = Inr (w\<lparr>w_ret := -1\<rparr>)" "decline c e w = Inr (w\<lparr>w_ret := -1\<rparr>)" "accept c csp w = Inr (w\<lparr>w_ret := -1\<rparr>)"
    "acceptUpdate c w = Inr (w\<lparr>w_ret := -1\<rparr>)" "deferUpdate w = Inr (w\<lparr>w_ret := -1\<rparr>)" "redirect c a w = Inr (w\<lparr>w_ret := -1\<rparr>)"
    "executePendingActions c w = Inr w" "getRemoteParams w = Inr w" "deliver_callback c cb w = Inr w"
  using assms by (simp_all add: released_def step_defs terminate_def decline_def accept_def checkForAcceptation_def acceptUpdate_def
      deferUpdate_def redirect_def executePendingActions_def getRemoteParams_def deliver_callback_def callback_reaches_def pingReply_def)

lemma released_fields [simp]:
  "released (w\<lparr>w_ret := v\<rparr>) = released w" "released (w\<lparr>cs_isAccepting := b\<rparr>) = released w"
  "released (w\<lparr>cs_pendingActions := fs\<rparr>) = released w" "released (w\<lparr>cs_listeners := ls\<rparr>) = released w"
  "released (w\<lparr>w_now := v\<rparr>) = released w" "released (w\<lparr>w_networkReachable := b, w_mediaNetwork := b'\<rparr>) = released w"
  "released (w\<lparr>w_accounts := accs\<rparr>) = released w" "released (w\<lparr>w_alive := ls\<rparr>) = released w"
  by (simp_all add: released_def)

lemma released_no_op: "released w \<Longrightarrow> released (w\<lparr>cs_op := map_option f (cs_op w)\<rparr>)"
  by (simp add: released_def)

lemma stillI: "(\<And>w w'. released w \<Longrightarrow> f w = Inr w' \<Longrightarrow> still_released w w') \<Longrightarrow> keeps still_released f"
  by (simp add: keeps_def still_released_def)

lemma still_upd: "(\<And>w. released w \<Longrightarrow> released (f w)) \<Longrightarrow> (\<And>w. w_out (f w) = w_out w) \<Longrightarrow> keeps still_released (upd f)"
  by (simp add: keeps_def still_released_def upd_def)

lemma still_refused: "(\<And>w. released w \<Longrightarrow> f w = Inr (w\<lparr>w_ret := v\<rparr>)) \<Longrightarrow> keeps still_released f"
  by (auto simp: keeps_def still_released_def released_def)

lemma still_null: "(\<And>w. released w \<Longrightarrow> f w = Inl e) \<Longrightarrow> keeps still_released f"
  by (auto simp: keeps_def still_released_def)

lemma still_same: "(\<And>w. released w \<Longrightarrow> f w = Inr w) \<Longrightarrow> keeps still_released f"
  by (auto simp: keeps_def still_released_def)

lemma still_notify:
  assumes "\<And>x. keeps still_released (react c x)" and "\<And>l. \<not> is_announcement (Notified l e)"
  shows "keeps still_released (notify c e)"
proof -
  have "keeps still_released (emit (Notified l e))" for l
    using assms(2) by (simp add: keeps_def still_released_def emit_def upd_def released_def)
  then have "keeps still_released (notify_one c e l)" for l
    unfolding notify_one_def by (auto intro!: still.keeps_test still.keeps_run assms(1))
  then show ?thesis unfolding notify_def
    by (intro still.keeps_with_world still.keeps_run) (simp add: list.pred_map list.pred_True comp_def)
qed

lemma still_terminate: "keeps still_released (terminate c e)"
  by (rule still_refused) (rule released_refused(1))

lemma still_setTransferState:
  assumes "\<And>x. keeps still_released (react c x)"
  shows "keeps still_released (setTransferState c s)"
  unfolding setTransferState_def
  by (auto intro!: still.keeps_unless still.keeps_run still_notify assms still_upd still_terminate
      simp: released_def is_announcement_def)

lemma released_setContactOp: "released w \<Longrightarrow> setContactOp c w = Inr w' \<Longrightarrow> w' = w"
  by (auto simp: setContactOp_def with_world_def with_op_def released_null released_def Let_def split: option.splits if_splits)

lemma still_startInvite: "keeps still_released (startInvite c a s ct)"
proof (rule stillI)
  fix w w' :: call_world assume "released w" "startInvite c a s ct w = Inr w'"
  then obtain w2 where "setContactOp c (w\<lparr>cs_subject := s\<rparr>) = Inr w2"
      "with_world (\<lambda>w. op_set (\<lambda>p. p\<lparr>op_localBodies := (case ct of None \<Rightarrow> [] | Some b \<Rightarrow> [b]) @ cp_customContents (cs_params w)\<rparr>)) w2 \<noteq> Inl Null_dereference"
    unfolding startInvite_def run.simps by (auto simp: bindR_eq_Inr upd_def)
  moreover have "released (w\<lparr>cs_subject := s\<rparr>)" using \<open>released w\<close> by (simp add: released_def)
  ultimately show "still_released w w'" using released_setContactOp released_null(2) by (fastforce simp: with_world_def)
qed

lemma still_repair: "keeps still_released (repairIfBroken c)"
  by (rule stillI) (auto simp: repairIfBroken_def step_defs refreshContactAddress_def clear_broken_def released_def still_released_def split: if_splits)

lemma still_perform:
  assumes react: "\<And>x. keeps still_released (react c x)" and x: "\<not> starts x"
  shows "keeps still_released (perform c x)"
proof (cases x)
  case (Iterate t b)
  have "keeps still_released (iterate c t b)"
    unfolding iterate_def Let_def
    by (auto intro!: still.keeps_with_world still.keeps_run still.keeps_test still_notify react still_terminate still_startInvite
        simp: is_announcement_def)
  with Iterate show ?thesis by simp
next
  case (Decline_not_answered r)
  have "keeps still_released (decline c e)" for e by (rule still_refused) (rule released_refused(2))
  then have "keeps still_released (declineNotAnswered c r)"
    unfolding declineNotAnswered_def log_set_def decline_reason_def
    by (auto intro!: still.keeps_run still_upd simp: released_def)
  with Decline_not_answered show ?thesis by simp
next
  case (Abort m)
  then show ?thesis by (auto intro!: still_null simp: abort_def released_null)
next
  case (Transfer a)
  have "keeps still_released (transfer c a)"
  proof (cases "address_valid c a")
    case True
    then show ?thesis by (intro still_null) (simp add: transfer_def released_null)
  next
    case False
    then show ?thesis by (intro still_refused) (simp add: transfer_def returns_def upd_def)
  qed
  with Transfer show ?thesis by simp
next
  case (Transfer_to_session d)
  then show ?thesis by (auto intro!: still_null simp: transfer_to_session_def released_null)
next
  case (Redirect_uri u)
  then show ?thesis
    by (auto intro!: still_refused simp: redirect_uri_def released_refused returns_def upd_def split: option.split)
next
  case (Network_reachable b)
  then show ?thesis using still_repair
    by (auto intro!: still_upd simp: onNetworkReachable_def setBroken_def released_def)
next
  case (Registration_changed a ok)
  then show ?thesis using still_repair by (auto intro!: still.keeps_test still.keeps_run simp: onRegistrationStateChanged_def)
next
  case (Set_transfer_state s)
  then show ?thesis using still_setTransferState [OF react] by simp
next
  case (Start_invite a s ct)
  then show ?thesis using still_startInvite by simp
qed (use x in \<open>auto intro!: stillI simp: still_released_def released_refused released_null upd_def decline_reason_def accepting_def
    addPendingAction_def addListener_def removeListener_def clearListeners_def starts_def released_no_op\<close>)

lemma still_run:
  assumes "\<And>x. keeps still_released (react c x)" and "list_all (\<lambda>x. \<not> starts x) calls"
  shows "keeps still_released (session_run c calls)"
  using assms unfolding session_run_def by (intro still.keeps_run) (auto simp: list.pred_map list_all_iff intro: still_perform)

lemma still_core_at:
  assumes "\<And>x w. list_all (\<lambda>x. \<not> starts x) (env x w)"
  shows "keeps still_released (react (core_at c env acts n) x)"
proof (induction n arbitrary: x)
  case (Suc n)
  have "keeps still_released (session_run (core_at c env acts n) (env x w))" for w
    using still_run [OF Suc assms] .
  then show ?case by (simp add: keeps_def session_run_def)
qed (simp add: keeps_def)

text \<open>
  C6: A released session stays released.  Whatever is called, by the application or the SIP stack, from outside or within notifications: unless the core starts the session again,
  every call that returns leaves the session released, without operation, and announces no state.
\<close>

theorem released_is_final:
  assumes "released w" and "\<And>x w. list_all (\<lambda>x. \<not> starts x) (env x w)" and "list_all (\<lambda>x. \<not> starts x) calls"
    and "session_run (core_at c env acts n) calls w = Inr w'"
  shows "released w' \<and> filter is_announcement (w_out w') = filter is_announcement (w_out w)"
  using keepsD [OF still_run [OF still_core_at [OF assms(2)] assms(3)] assms(4)] assms(1) by (simp add: still_released_def)

section \<open>A quiet environment\<close>

definition quiet :: "call_core \<Rightarrow> bool" where
  "quiet c \<longleftrightarrow> (\<forall>x w. react c x w = Inr w)"

definition notified :: "session_event \<Rightarrow> call_world \<Rightarrow> session_output list" where
  "notified e w = map (\<lambda>l. Notified l e) (filter (\<lambda>l. l \<in> set (w_alive w)) (cs_listeners w))"

text \<open>The commands the SIP operations were given.\<close>

definition told :: "call_world \<Rightarrow> (nat \<times> op_command) list" where
  "told w = List.map_filter (\<lambda>x. case x of Told i cmd \<Rightarrow> Some (i, cmd) | _ \<Rightarrow> None) (w_out w)"

definition told_of :: "session_output list \<Rightarrow> (nat \<times> op_command) list" where
  "told_of = List.map_filter (\<lambda>x. case x of Told i cmd \<Rightarrow> Some (i, cmd) | _ \<Rightarrow> None)"

lemma told_append [simp]: "told_of (xs @ ys) = told_of xs @ told_of ys" "told_of [] = []"
  "told_of (Told i cmd # xs) = (i, cmd) # told_of xs" "told_of (Notified l e # xs) = told_of xs" "told_of (Moving s1 s2 # xs) = told_of xs"
  "told_of (Report_call_event k # xs) = told_of xs" "told_of (Terminate_replaced_session # xs) = told_of xs" "told_of (map (\<lambda>l. Notified l e) ls) = []"
  by (simp_all add: told_of_def List.map_filter_def comp_def)

lemma told_alt: "told w = told_of (w_out w)"
  by (simp add: told_def told_of_def)

lemma told_notified [simp]: "told_of (notified e w) = []"
  by (simp add: notified_def)

definition missed_calls :: "call_world \<Rightarrow> int" where
  "missed_calls w = (case cs_account w of Some a \<Rightarrow> acc_missedCalls (w_accounts w a) | None \<Rightarrow> w_missedCalls w)"

lemma missed_calls_fields [simp]:
  "missed_calls (w\<lparr>cs_log := l\<rparr>) = missed_calls w" "missed_calls (w\<lparr>w_out := xs\<rparr>) = missed_calls w" "missed_calls (w\<lparr>cs_ei := e\<rparr>) = missed_calls w"
  "missed_calls (w\<lparr>cs_op := op\<rparr>) = missed_calls w" "missed_calls (w\<lparr>w_ret := v\<rparr>) = missed_calls w" "missed_calls (w\<lparr>cs_nonOpError := b\<rparr>) = missed_calls w"
  "missed_calls (w\<lparr>cs_referer := r, cs_transferTarget := t, cs_pendingActions := fs\<rparr>) = missed_calls w"
  "missed_calls (w\<lparr>cs_state := s, cs_messageState := m\<rparr>) = missed_calls w" "missed_calls (remember_state w) = missed_calls w"
  by (simp_all add: missed_calls_def remember_state_def Let_def split: option.split)

lemma quiet_notify:
  assumes "quiet c"
  shows "notify c e w = Inr (w\<lparr>w_out := w_out w @ notified e w\<rparr>)"
proof -
  have "run (map (notify_one c e) ls) w = Inr (w\<lparr>w_out := w_out w @ map (\<lambda>l. Notified l e) (filter (\<lambda>l. l \<in> set (w_alive w)) ls)\<rparr>)"
    for ls w
  proof (induction ls arbitrary: w)
    case (Cons l ls)
    then show ?case using assms by (simp add: notify_one_def step_defs quiet_def)
  qed simp
  then show ?thesis by (simp add: notify_def with_world_def notified_def)
qed

lemma quiet_tell:
  assumes "quiet c" and "cs_op w = Some o1"
  shows "tell c cmd w = Inr (w\<lparr>w_out := w_out w @ [Told (op_id o1) cmd], w_ret := op_status c cmd w\<rparr>)"
  using assms by (simp add: tell_def step_defs quiet_def)

lemma quiet_setState:
  assumes "quiet c" and "cs_state w \<noteq> s" and "\<not> bad_transition (cs_state w) s"
    and "s \<notin> {IncomingReceived, End, Error, Connected, Released}"
  shows "setState c s m w =
    Inr ((enter_state s m (remember_state w))\<lparr>w_out := w_out w @ Moving (cs_state w) s # notified (State_changed s m) w\<rparr>)"
proof -
  have "state_effects c s = run []" using assms(4) by (cases s) (simp_all add: state_effects_def)
  with assms show ?thesis
    by (simp add: setState_def notifyCallSessionStateChanged_def quiet_notify enter_simps notified_def)
qed

text \<open>What ending a call leaves alone of the session.\<close>

definition same_call :: "call_world \<Rightarrow> call_world \<Rightarrow> bool" where
  "same_call w w' \<longleftrightarrow> cs_state w' = cs_state w \<and> cs_op w' = cs_op w \<and> cs_account w' = cs_account w \<and> cs_referer w' = cs_referer w \<and>
     cs_ei w' = cs_ei w \<and> cs_listeners w' = cs_listeners w \<and> w_alive w' = w_alive w \<and> told w' = told w"

lemma completeLog_returns:
  "\<exists>w'. completeLog c w = Inr w' \<and> same_call w w' \<and> log_status (cs_log w') = log_status (cs_log w) \<and>
     log_errorInfo (cs_log w') = Some (error_info_clone (cs_ei w)) \<and>
     missed_calls w' = missed_calls w + (if log_status (cs_log w) = LinphoneCallMissed then 1 else 0)"
proof -
  define w1 where "w1 = w\<lparr>cs_log := (cs_log w)\<lparr>log_duration := (if log_connectedTime (cs_log w) = 0 then 0 else computeDuration w),
    log_errorInfo := Some (error_info_clone (cs_ei w))\<rparr>\<rparr>"
  define w2 where "w2 = (if log_status (cs_log w1) = LinphoneCallMissed
    then (case cs_account w1 of
            Some a \<Rightarrow> w1\<lparr>w_accounts := (w_accounts w1)(a := (w_accounts w1 a)\<lparr>acc_missedCalls := acc_missedCalls (w_accounts w1 a) + 1\<rparr>)\<rparr>
          | None \<Rightarrow> w1\<lparr>w_missedCalls := w_missedCalls w1 + 1\<rparr>) else w1)"
  have w1: "same_call w w1" "log_status (cs_log w1) = log_status (cs_log w)" "log_errorInfo (cs_log w1) = Some (error_info_clone (cs_ei w))"
    "missed_calls w1 = missed_calls w"
    by (simp_all add: w1_def same_call_def told_alt)
  have w2: "same_call w1 w2" "cs_log w2 = cs_log w1"
    "missed_calls w2 = missed_calls w1 + (if log_status (cs_log w1) = LinphoneCallMissed then 1 else 0)"
    by (cases "cs_account w1"; simp add: w2_def same_call_def told_alt missed_calls_def)+
  define w3 where "w3 = (if reportEvents c w2 then w2\<lparr>w_out := w_out w2 @ [Report_call_event ConferenceCallEnded]\<rparr> else w2)"
  have w3: "same_call w2 w3" "cs_log w3 = cs_log w2" "missed_calls w3 = missed_calls w2"
    by (simp_all add: w3_def same_call_def told_alt)
  have "completeLog c w = Inr w3"
    unfolding completeLog_def report_call_event_def by (simp add: step_defs flip: w1_def w2_def) (simp add: w3_def)
  with w1 w2 w3 show ?thesis by (simp add: same_call_def)
qed

lemma getErrorInfo_fields [simp]:
  "cs_state (getErrorInfo w) = cs_state w" "cs_op (getErrorInfo w) = cs_op w" "cs_account (getErrorInfo w) = cs_account w"
  "cs_referer (getErrorInfo w) = cs_referer w" "cs_listeners (getErrorInfo w) = cs_listeners w" "w_alive (getErrorInfo w) = w_alive w"
  "w_out (getErrorInfo w) = w_out w" "cs_log (getErrorInfo w) = cs_log w" "missed_calls (getErrorInfo w) = missed_calls w"
  by (simp_all add: getErrorInfo_def)

lemma enter_state_fields [simp]:
  "cs_op (enter_state s m w) = cs_op w" "cs_account (enter_state s m w) = cs_account w" "cs_referer (enter_state s m w) = cs_referer w"
  "w_out (enter_state s m w) = w_out w @ [Moving (cs_state w) s]" "cs_log (enter_state s m w) = cs_log w" "cs_ei (enter_state s m w) = cs_ei w"
  "cs_nonOpError (enter_state s m w) = cs_nonOpError w" "missed_calls (enter_state s m w) = missed_calls w"
  "cs_op (remember_state w) = cs_op w" "cs_account (remember_state w) = cs_account w" "cs_referer (remember_state w) = cs_referer w"
  "w_out (remember_state w) = w_out w" "cs_log (remember_state w) = cs_log w" "cs_ei (remember_state w) = cs_ei w"
  "cs_nonOpError (remember_state w) = cs_nonOpError w" "cs_prevState (enter_state s m (remember_state w)) = cs_state w"
  "s \<noteq> Referred \<Longrightarrow> cs_state (enter_state s m w) = s"
  by (simp_all add: enter_simps)

lemma getErrorInfo_ei: "cs_ei (getErrorInfo (enter_state s m (remember_state w))) = cs_ei (getErrorInfo w)"
  by (simp add: getErrorInfo_def)

lemma quiet_end:
  assumes c: "quiet c" and s: "s = End \<or> s = Error" "cs_state w \<noteq> s" "\<not> bad_transition (cs_state w) s"
  shows "\<exists>w'. setState c s m w = Inr w' \<and> cs_state w' = s \<and> cs_op w' = cs_op w \<and> cs_ei w' = cs_ei (getErrorInfo w) \<and>
    cs_account w' = cs_account w \<and> cs_referer w' = cs_referer w \<and>
    log_status (cs_log w') = end_status (cs_ei (getErrorInfo w)) (cs_log w) \<and>
    log_errorInfo (cs_log w') = Some (error_info_clone (cs_ei (getErrorInfo w))) \<and>
    missed_calls w' = missed_calls w + (if log_status (cs_log w') = LinphoneCallMissed then 1 else 0) \<and> told w' = told w"
proof -
  let ?w1 = "getErrorInfo (enter_state s m (remember_state w))"
  define w2 where "w2 = ?w1\<lparr>cs_log := (cs_log ?w1)\<lparr>log_status := end_status (cs_ei ?w1) (cs_log ?w1)\<rparr>\<rparr>"
  have r: "s \<noteq> Referred" "s \<noteq> Released" using s(1) by auto
  have w2: "cs_state w2 = s" "cs_op w2 = cs_op w" "cs_ei w2 = cs_ei (getErrorInfo w)" "cs_account w2 = cs_account w" "cs_referer w2 = cs_referer w"
    "log_status (cs_log w2) = end_status (cs_ei (getErrorInfo w)) (cs_log w)" "missed_calls w2 = missed_calls w" "told w2 = told w"
    using r by (simp_all add: w2_def getErrorInfo_ei told_alt)
  obtain w3 where w3: "completeLog c w2 = Inr w3" "same_call w2 w3" "log_status (cs_log w3) = log_status (cs_log w2)"
    "log_errorInfo (cs_log w3) = Some (error_info_clone (cs_ei w2))"
    "missed_calls w3 = missed_calls w2 + (if log_status (cs_log w2) = LinphoneCallMissed then 1 else 0)"
    using completeLog_returns [of c w2] by blast
  have "state_effects c s (enter_state s m (remember_state w)) = Inr w2"
    using s(1) by (auto simp: state_effects_def step_defs w2_def)
  then have "setState c s m w = Inr (w3\<lparr>w_out := w_out w3 @ notified Set_terminated w3 @ notified (State_changed s m) w3\<rparr>)"
    using s r w3(1) by (auto simp: setState_def setTerminated_def notifyCallSessionSetTerminated_def notifyCallSessionStateChanged_def
        quiet_notify [OF c] notified_def)
  with w2 w3 show ?thesis by (simp add: same_call_def told_alt)
qed

lemma quiet_release:
  assumes c: "quiet c" and s: "cs_state w = End \<or> cs_state w = Error"
  shows "\<exists>w'. setState c Released m w = Inr w' \<and> released w' \<and> cs_pendingActions w' = [] \<and> cs_referer w' = None \<and> cs_log w' = cs_log w \<and>
    missed_calls w' = missed_calls w \<and> told w' = told w @ (case cs_op w of None \<Rightarrow> [] | Some o1 \<Rightarrow> [(op_id o1, Op_release)])"
proof -
  define w1 where "w1 = (enter_state Released m (remember_state w))\<lparr>w_out := w_out w @ Moving (cs_state w) Released # notified (State_changed Released m) w\<rparr>"
  have w1: "cs_state w1 = Released" "cs_op w1 = cs_op w" "cs_log w1 = cs_log w" "missed_calls w1 = missed_calls w" "told w1 = told w"
    by (simp_all add: w1_def told_alt)
  define w2 where "w2 = (case cs_op w1 of None \<Rightarrow> w1
    | Some p \<Rightarrow> (getErrorInfo w1)\<lparr>w_out := w_out w1 @ [Told (op_id p) Op_release], cs_op := None\<rparr>)"
  have w2: "cs_state w2 = Released" "cs_op w2 = None" "cs_log w2 = cs_log w" "missed_calls w2 = missed_calls w"
    "told w2 = told w @ (case cs_op w of None \<Rightarrow> [] | Some o1 \<Rightarrow> [(op_id o1, Op_release)])"
    using w1 by (cases "cs_op w"; simp add: w2_def told_alt)+
  have "drop_op (cs_op w1) w1 = Inr w2"
    by (cases "cs_op w1") (simp_all add: drop_op_def release_op_def step_defs w2_def)
  moreover have "setState c Released m w = setReleased c w1"
    using s c by (auto simp: setState_def bad_transition_def state_effects_def notifyCallSessionStateChanged_def quiet_notify w1_def notified_def
        enter_simps bindR_def split: sum.split)
  ultimately have "setState c Released m w =
      notify c Set_released (w2\<lparr>cs_referer := None, cs_transferTarget := None, cs_pendingActions := []\<rparr>)"
    by (simp add: setReleased_def notifyCallSessionSetReleased_def step_defs bindR_def split: sum.split)
  with c w2 show ?thesis by (simp add: quiet_notify released_def told_alt)
qed

section \<open>Ending calls\<close>

definition in_dialog :: "call_world \<Rightarrow> bool" where
  "in_dialog w = (case cs_op w of None \<Rightarrow> False | Some o1 \<Rightarrow> op_hasDialog o1)"

lemma quiet_d_terminate:
  assumes c: "quiet c" and s: "cs_state w \<notin> {End, Error, Released}"
  shows "\<exists>w'. d_terminate c w = Inr w' \<and> cs_state w' = (if in_dialog w then End else Released) \<and> (\<not> in_dialog w \<longrightarrow> released w') \<and>
    (in_dialog w \<longrightarrow> cs_op w' = cs_op w) \<and>
    told w' = told w @ (if in_dialog w then [] else (case cs_op w of None \<Rightarrow> [] | Some o1 \<Rightarrow> [(op_id o1, Op_release)]))"
proof -
  define w1 where "w1 = (if cs_state w = IncomingReceived \<or> cs_state w = IncomingEarlyMedia
    then (let reason = linphone_error_info_get_reason (cs_ei w)
          in if reason = LinphoneReasonNone
             then w\<lparr>cs_ei := linphone_error_info_set_reason (cs_ei w) LinphoneReasonDeclined, cs_nonOpError := True\<rparr>
             else if reason \<noteq> LinphoneReasonNotAnswered then w\<lparr>cs_nonOpError := True\<rparr> else w)
    else w)"
  have w1: "cs_state w1 = cs_state w" "cs_op w1 = cs_op w" "told w1 = told w" by (simp_all add: w1_def Let_def told_alt)
  then have "cs_state w1 \<noteq> End" "\<not> bad_transition (cs_state w1) End" using s by (auto simp: bad_transition_def)
  then obtain w2 where w2: "setState c End ''Call terminated'' w1 = Inr w2" "cs_state w2 = End" "cs_op w2 = cs_op w" "told w2 = told w"
    using quiet_end [OF c, of End w1 "''Call terminated''"] w1 by auto
  obtain w3 where w3: "setState c Released ''Call released'' w2 = Inr w3" "released w3"
    "told w3 = told w2 @ (case cs_op w2 of None \<Rightarrow> [] | Some o1 \<Rightarrow> [(op_id o1, Op_release)])"
    using quiet_release [OF c, of w2 "''Call released''"] w2(2) by auto
  have "d_terminate c w = (if in_dialog w then Inr w2 else Inr w3)"
    unfolding d_terminate_def by (cases "cs_op w") (simp_all add: upd_def w2 w3 test_def in_dialog_def flip: w1_def)
  with w2 w3 show ?thesis by (simp add: released_def)
qed

text \<open>The commands that end a call in each state.\<close>

definition farewell :: "call_op \<Rightarrow> CallState \<Rightarrow> op_command list" where
  "farewell o1 s =
     (if s \<in> {IncomingReceived, PushIncomingReceived, IncomingEarlyMedia} then [Op_decline SalReasonDeclined]
      else if s = OutgoingInit then [Op_release]
      else if s = Idle then [] else [Op_terminate None]) @
     (if s \<noteq> OutgoingInit \<and> \<not> op_hasDialog o1 then [Op_release] else [])"

text \<open>
  C7: Ending a call.  In any state but an ended one, terminating a session that has an operation, without an error information of the caller and with an application that does not call back from
  notifications, returns 0; the other end is told so once, by declining, by
  the end of the dialog or by dropping the attempt, and the session is ended, or released when there is no dialog to wait for.
\<close>

theorem terminate_ends:
  assumes c: "quiet c" and s: "cs_state w \<notin> {End, Error, Released}" and op: "cs_op w = Some o1"
  shows "\<exists>w'. terminate c None w = Inr w' \<and> w_ret w' = 0 \<and>
    cs_state w' = (if op_hasDialog o1 \<and> cs_state w \<noteq> OutgoingInit then End else Released) \<and>
    told w' = told w @ map (Pair (op_id o1)) (farewell o1 (cs_state w))"
proof -
  let ?incoming = "cs_state w \<in> {IncomingReceived, PushIncomingReceived, IncomingEarlyMedia}"
  define w1 where "w1 = (if ?incoming then w\<lparr>w_out := w_out w @ [Told (op_id o1) (Op_decline SalReasonDeclined)], w_ret := op_status c (Op_decline SalReasonDeclined) w\<rparr>
    else if cs_state w = OutgoingInit then w\<lparr>w_out := w_out w @ [Told (op_id o1) Op_release], cs_op := None\<rparr>
    else if cs_state w = Idle then w
    else w\<lparr>w_out := w_out w @ [Told (op_id o1) (Op_terminate None)], w_ret := op_status c (Op_terminate None) w\<rparr>)"
  have w1: "cs_state w1 \<notin> {End, Error, Released}" "in_dialog w1 = (op_hasDialog o1 \<and> cs_state w \<noteq> OutgoingInit)"
    "cs_op w1 = (if cs_state w = OutgoingInit then None else Some o1)"
    "told w1 = told w @ map (Pair (op_id o1)) (take 1 (farewell o1 (cs_state w)))" if "cs_state w \<noteq> Idle"
    using s op that by (auto simp: w1_def in_dialog_def told_alt farewell_def)
  have idle: "w1 = w" if "cs_state w = Idle" using that by (simp add: w1_def)
  have "terminate c None w = run [d_terminate c, returns 0] w1"
    using s op by (auto simp: terminate_def decline_def with_world_def with_op_def quiet_tell [OF c op] release_op_def emit_def upd_def w1_def
        returns_def)
  moreover obtain w2 where "d_terminate c w1 = Inr w2" "cs_state w2 = (if in_dialog w1 then End else Released)"
    "told w2 = told w1 @ (if in_dialog w1 then [] else (case cs_op w1 of None \<Rightarrow> [] | Some o1 \<Rightarrow> [(op_id o1, Op_release)]))"
    using quiet_d_terminate [OF c, of w1] w1(1) idle s by metis
  ultimately show ?thesis using w1 idle op
    by (cases "cs_state w = Idle") (auto simp: returns_def upd_def told_alt farewell_def in_dialog_def)
qed

text \<open>The status that the Reason header of a cancellation stands for.\<close>

definition cancelled_status :: "SalReason error_fields \<Rightarrow> CallStatus" where
  "cancelled_status r =
     (let code = ef_protocol_code r
      in if ef_protocol r \<in> {None, Some []} then LinphoneCallMissed
         else if 200 \<le> code \<and> code < 300 then LinphoneCallAcceptedElsewhere
         else if code = 487 \<or> code = 408 then LinphoneCallMissed
         else if code = 600 then LinphoneCallDeclinedElsewhere
         else if code = 603 then LinphoneCallDeclined
         else LinphoneCallAborted)"

lemma other_codes:
  assumes "code \<notin> {408, 600, 603}"
  shows "linphone_reason_from_sal (sal_reason_from_sip_code code) \<notin> {LinphoneReasonDeclined, LinphoneReasonNotAnswered, LinphoneReasonDoNotDisturb}"
  using assms by (simp add: sal_reason_from_sip_code_def)

lemma answered_codes:
  "200 \<le> code \<and> code < 300 \<or> code = 487 \<Longrightarrow> linphone_reason_from_sal (sal_reason_from_sip_code code) = LinphoneReasonNone"
  by (auto simp: sal_reason_from_sip_code_def)

lemma header_status:
  assumes l: "log_direction l = LinphoneCallIncoming" "log_status l = LinphoneCallAborted" and p: "ef_protocol r \<notin> {None, Some []}"
    and e: "linphone_error_info_get_reason e = linphone_reason_from_sal (sal_reason_from_sip_code code)"
      "linphone_error_info_get_protocol_code e = code" and code: "ef_protocol_code r = code"
  shows "end_status e l = cancelled_status r"
proof -
  have known: "end_status e l = cancelled_status r" if "code = 408 \<or> code = 600 \<or> code = 603"
    using that l p e code by (auto simp: end_status_def cancelled_status_def sal_reason_from_sip_code_def)
  have answered: "end_status e l = cancelled_status r" if "200 \<le> code \<and> code < 300 \<or> code = 487"
    using that l p e code answered_codes [OF that] by (auto simp: end_status_def cancelled_status_def)
  have other: "end_status e l = cancelled_status r" if "code \<notin> {408, 600, 603}" "\<not> (200 \<le> code \<and> code < 300 \<or> code = 487)"
  proof -
    have "linphone_error_info_get_reason e \<notin> {LinphoneReasonDeclined, LinphoneReasonNotAnswered, LinphoneReasonDoNotDisturb}"
      using other_codes [OF that(1)] e(1) by simp
    then have "end_status e l = LinphoneCallAborted"
      using that(2) e(2) l by (cases "linphone_error_info_get_reason e") (auto simp: end_status_def)
    then show ?thesis using that p code by (auto simp: cancelled_status_def)
  qed
  show ?thesis using known answered other by blast
qed

text \<open>
  C8: How a cancelled incoming call is logged: without a Reason header it was missed; with one, its code tells whether it was taken or declined elsewhere.
  Only missed calls are counted, and the session ends up released.
\<close>

theorem cancelled_call_logged:
  assumes c: "quiet c" and s: "cs_state w = IncomingReceived \<or> cs_state w = IncomingEarlyMedia" and op: "cs_op w = Some o1"
    and l: "log_direction (cs_log w) = LinphoneCallIncoming" "log_status (cs_log w) = LinphoneCallAborted" "\<not> cs_nonOpError w"
    and primary: "ef_reason (sei (op_errorInfo o1)) = SalReasonNone"
    and r: "ef_protocol (sei (op_reasonErrorInfo o1)) \<notin> {None, Some []} \<Longrightarrow>
      ef_reason (sei (op_reasonErrorInfo o1)) = sal_reason_from_sip_code (ef_protocol_code (sei (op_reasonErrorInfo o1)))"
  shows "\<exists>w'. session_run c [Sal Call_terminated, Sal Call_released] w = Inr w' \<and> released w' \<and>
    log_status (cs_log w') = cancelled_status (sei (op_reasonErrorInfo o1)) \<and>
    missed_calls w' = missed_calls w + (if log_status (cs_log w') = LinphoneCallMissed then 1 else 0)"
proof -
  let ?r = "sei (op_reasonErrorInfo o1)"
  define w1 where "w1 = (if ef_protocol ?r \<in> {None, Some []}
    then w\<lparr>cs_ei := linphone_error_info_set (cs_ei w) None LinphoneReasonNotAnswered 0 (Some ''Incoming call cancelled'') None, cs_nonOpError := True\<rparr> else w)"
  have w1: "cs_state w1 = cs_state w" "cs_op w1 = Some o1" "cs_log w1 = cs_log w" "missed_calls w1 = missed_calls w" using op by (simp_all add: w1_def)
  have st: "end_status (cs_ei (getErrorInfo w1)) (cs_log w1) = cancelled_status ?r"
  proof (cases "ef_protocol ?r \<in> {None, Some []}")
    case True
    then show ?thesis using l by (auto simp: w1_def getErrorInfo_def end_status_def cancelled_status_def Let_def linphone_error_info_set_def
          linphone_error_info_get_reason_def linphone_error_info_get_protocol_code_def)
  next
    case False
    then have "w1 = w" unfolding w1_def by (rule if_not_P)
    moreover have "lei (cs_ei (getErrorInfo w)) = \<lparr>ef_reason = linphone_reason_from_sal (ef_reason ?r), ef_phrase = ef_phrase ?r,
       ef_protocol_code = ef_protocol_code ?r, ef_warnings = ef_warnings ?r, ef_protocol = ef_protocol ?r, ef_full_string = ef_full_string ?r,
       ef_retry_after = ef_retry_after ?r\<rparr>"
      using l(3) op primary by (simp add: getErrorInfo_def linphone_error_info_from_sal_op_def linphone_error_info_from_sal_reason_ei_def
          linphone_error_info_from_sal_def)
    ultimately show ?thesis
      using header_status [OF l(1,2) False, of "cs_ei (getErrorInfo w)" "ef_protocol_code ?r"] r [OF False]
      by (simp add: linphone_error_info_get_reason_def linphone_error_info_get_protocol_code_def)
  qed
  obtain w2 where w2: "setState c End ''Call ended'' w1 = Inr w2" "cs_state w2 = End" "cs_op w2 = Some o1"
    "log_status (cs_log w2) = cancelled_status ?r"
    "missed_calls w2 = missed_calls w + (if log_status (cs_log w2) = LinphoneCallMissed then 1 else 0)"
    using quiet_end [OF c, of End w1 "''Call ended''"] s w1 st by (auto simp: bad_transition_def)
  obtain w3 where w3: "setState c Released ''Call released'' w2 = Inr w3" "released w3" "cs_log w3 = cs_log w2" "missed_calls w3 = missed_calls w2"
    using quiet_release [OF c, of w2 "''Call released''"] w2(2) by auto
  have "terminated c w = Inr w2"
    using s op w2(1) by (auto simp: terminated_def with_world_def with_op_def upd_def w1_def)
  with op w2 w3 show ?thesis by (simp add: session_run_def deliver_callback_def callback_reaches_def test_def)
qed

section \<open>Updates and repairs\<close>


text \<open>
  A request that has to wait.  A connected call whose update is refused with 491 and that has no retry falls back to its last stable state; a call that was
  never running has none, so the session is idle again, and ending it does not end the dialog.
\<close>

theorem pending_request_forgets_call:
  assumes c: "quiet c" and s: "cs_state w = Updating" "cs_lastStableState w = Idle" and op: "cs_op w = Some o1"
    and o1: "ef_reason (sei (op_errorInfo o1)) = SalReasonRequestPending" "\<not> op_hasRetryFunction o1" "op_hasDialog o1"
  shows "\<exists>w'. session_run c [Sal Call_failure, Terminate None] w = Inr w' \<and> cs_state w' = End \<and> cs_op w' \<noteq> None \<and> told w' = told w"
proof -
  let ?m = "''Restore stable state because no retry function has been set''"
  define w1 where "w1 = (enter_state Idle ?m (remember_state w))\<lparr>w_out := w_out w @ Moving Updating Idle # notified (State_changed Idle ?m) w, w_ret := 1\<rparr>"
  have w1: "cs_state w1 = Idle" "cs_op w1 = Some o1" "told w1 = told w" using op by (simp_all add: w1_def told_alt)
  have "failure c w = Inr w1"
    using assms by (simp add: failure_def with_op_def with_world_def Let_def failure_redirects_def quiet_setState bad_transition_def returns_def
        upd_def w1_def)
  then have "session_run c [Sal Call_failure, Terminate None] w = run [terminate c None] w1"
    using op by (simp add: session_run_def deliver_callback_def callback_reaches_def test_def)
  moreover obtain w2 where "d_terminate c w1 = Inr w2" "cs_state w2 = End" "told w2 = told w1" "cs_op w2 = Some o1"
    using quiet_d_terminate [OF c, of w1] w1 o1(3) by (auto simp: in_dialog_def)
  ultimately show ?thesis using w1 by (simp add: terminate_def with_world_def returns_def upd_def told_alt)
qed

text \<open>
  A transfer request that arrives while an update of the remote end waits for its answer makes the session forget the state to go back to: answering the update leaves it waiting.
\<close>

theorem refer_blocks_deferred_update:
  assumes c: "quiet c" and s: "cs_state w = UpdatedByRemote" and op: "cs_op w = Some o1"
  shows "\<exists>w'. session_run c [Sal (Call_refer a), Accept_update] w = Inr w' \<and> w_ret w' = 0 \<and> cs_state w' = UpdatedByRemote \<and>
    told w' = told w @ [(op_id o1, Op_accept)]"
  using assms by (simp add: session_run_def deliver_callback_def callback_reaches_def test_def referred_def upd_def quiet_setState bad_transition_def enter_simps
      acceptUpdate_def with_world_def d_acceptUpdate_def startAcceptUpdate_def quiet_tell returns_def told_alt setState_def notified_def
      quiet_notify notifyCallSessionStateChanged_def state_effects_def)

text \<open>
  Ending an established call with an error information that has another one attached writes through a null pointer.
\<close>

theorem terminate_with_attached_reason:
  assumes "cs_state w \<notin> {Released, End, Error, IncomingReceived, PushIncomingReceived, IncomingEarlyMedia, OutgoingInit, Idle}"
    and "sub_ei e \<noteq> None"
  shows "terminate c (Some e) w = Inl Null_dereference"
  using assms by (simp add: terminate_def with_world_def with_res_def to_sal_attached zero_sei_def)

definition op_name :: "call_world \<Rightarrow> nat option" where
  "op_name w = map_option op_id (cs_op w)"

text \<open>What preparing an update changes: only fields of the operation and the parameters.\<close>

definition prepared :: "call_world \<Rightarrow> call_world \<Rightarrow> bool" where
  "prepared w w' \<longleftrightarrow> cs_state w' = cs_state w \<and> cs_prevState w' = cs_prevState w \<and> cs_log w' = cs_log w \<and> w_now w' = w_now w \<and>
     cs_broken w' = cs_broken w \<and> op_name w' = op_name w \<and> told w' = told w"

lemma setParams_given:
  "setParams_if_given csp w = Inr (case csp of None \<Rightarrow> w | Some p \<Rightarrow> w\<lparr>cs_params := p\<rparr>)"
  by (cases csp) (simp_all add: setParams_if_given_def setParams_def upd_def)

lemma prepared_op_set:
  assumes "cs_op w \<noteq> None" and "\<And>p. op_id (f p) = op_id p"
  shows "\<exists>w'. op_set f w = Inr w' \<and> prepared w w' \<and> cs_params w' = cs_params w \<and> cs_op w' \<noteq> None"
  using assms by (auto simp: op_set_def with_op_def upd_def prepared_def op_name_def told_alt)

lemma prepared_trans: "prepared w w' \<Longrightarrow> prepared w' w'' \<Longrightarrow> prepared w w''"
  by (simp add: prepared_def)

lemma prepared_refresh:
  assumes "cs_op w \<noteq> None"
  shows "\<exists>w'. refreshContactAddress c w = Inr w' \<and> prepared w w' \<and> cs_params w' = cs_params w \<and> cs_op w' \<noteq> None"
    "\<exists>w'. updateContactAddressInOp c w = Inr w' \<and> prepared w w' \<and> cs_params w' = cs_params w \<and> cs_op w' \<noteq> None"
  using assms by (simp_all add: refreshContactAddress_def updateContactAddressInOp_def test_def with_world_def Let_def prepared_op_set del: not_None_eq)

lemma quiet_startUpdate:
  assumes c: "quiet c" and op: "cs_op w \<noteq> None" "op_name w = Some i" and st: "\<And>subj b w. op_status c (Op_update subj b) w = st"
  shows "\<exists>w' b. startUpdate c m subj w = Inr w' \<and> cs_state w' = cs_state w \<and> cs_prevState w' = cs_prevState w \<and> cs_log w' = cs_log w \<and>
    w_now w' = w_now w \<and> op_name w' = op_name w \<and> w_ret w' = st \<and> told w' = told w @ [(i, Op_update (update_subject c w subj) b)] \<and>
    (m = Update_Invite \<longrightarrow> \<not> b) \<and> (m = Update_Update \<longrightarrow> b)"
proof -
  obtain w1 where w1: "refreshContactAddress c w = Inr w1" "prepared w w1" "cs_op w1 \<noteq> None" using prepared_refresh(1) [OF op(1)] by blast
  let ?f = "\<lambda>p. p\<lparr>op_sentCustomHeaders := cp_customHeaders (cs_params w)\<rparr>"
  obtain w2 where w2: "op_set ?f w1 = Inr w2" "prepared w1 w2" "cs_op w2 \<noteq> None" using prepared_op_set [OF w1(3), of ?f] by auto
  obtain w3 where w3: "updateContactAddressInOp c w2 = Inr w3" "prepared w2 w3" "cs_op w3 \<noteq> None" using prepared_refresh(2) [OF w2(3)] by blast
  obtain o3 where o3: "cs_op w3 = Some o3" using w3(3) by auto
  have p: "prepared w w3" using w1(2) w2(2) w3(2) prepared_trans by blast
  let ?b = "if m = Update_Default then cp_noUserConsent (cs_params w) else m = Update_Update"
  have "startUpdate c m subj w = tell c (Op_update (update_subject c w subj) ?b) w3"
    unfolding startUpdate_def by (simp add: with_world_def w1 w2 w3 bindR_def split: sum.split)
  with p o3 op(2) show ?thesis
    by (intro exI [of _ "w3\<lparr>w_out := w_out w3 @ [Told i (Op_update (update_subject c w subj) ?b)], w_ret := st\<rparr>"] exI [of _ ?b])
      (auto simp: quiet_tell [OF c o3] st prepared_def told_alt op_name_def)
qed

text \<open>A failed update goes back to the state it started from.\<close>

lemma quiet_update:
  assumes c: "quiet c" and op: "cs_op w = Some o1" and allowed: "isUpdateAllowed o1 w = Some s"
    and st: "\<And>subj b w. op_status c (Op_update subj b) w = st"
  shows "\<exists>w1 subj' b. update c csp m subj ct w =
      run [if st \<noteq> 0 \<and> s \<noteq> cs_state w then setState c (cs_state w) ''Restore initial state'' else run [], returns st] w1 \<and>
    cs_state w1 = s \<and> cs_log w1 = cs_log w \<and> w_now w1 = w_now w \<and> op_name w1 = Some (op_id o1) \<and>
    told w1 = told w @ [(op_id o1, Op_update subj' b)] \<and> (m = Update_Invite \<longrightarrow> \<not> b)"
proof -
  have s: "s \<in> {EarlyUpdating, Updating, Pausing, OutgoingProgress, Resuming}" and nb: "s \<noteq> cs_state w \<Longrightarrow> \<not> bad_transition (cs_state w) s"
    using allowed by (auto simp: isUpdateAllowed_def bad_transition_def split: if_splits)
  obtain w1 where w1: "setState c s ''Updating call'' w = Inr w1" "cs_state w1 = s" "cs_op w1 = Some o1" "cs_log w1 = cs_log w"
      "w_now w1 = w_now w" "told w1 = told w"
  proof (cases "s = cs_state w")
    case True
    then show ?thesis using op by (intro that [of w]) (simp_all add: setState_def)
  next
    case False
    let ?w1 = "(enter_state s ''Updating call'' (remember_state w))\<lparr>w_out := w_out w @ Moving (cs_state w) s # notified (State_changed s ''Updating call'') w\<rparr>"
    have "setState c s ''Updating call'' w = Inr ?w1" using quiet_setState [OF c _ nb [OF False]] False s by auto
    then show ?thesis using s op by (intro that [of ?w1]) (auto simp: enter_simps told_alt)
  qed
  define w2 where "w2 = (case csp of None \<Rightarrow> w1 | Some p \<Rightarrow> w1\<lparr>cs_params := p\<rparr>)"
  have w2: "cs_state w2 = s" "cs_op w2 = Some o1" "cs_log w2 = cs_log w" "w_now w2 = w_now w" "told w2 = told w"
    using w1 by (cases csp; simp add: w2_def told_alt)+
  let ?f = "\<lambda>p. p\<lparr>op_localBodies := (case ct of None \<Rightarrow> [] | Some b \<Rightarrow> [b]) @ cp_customContents (cs_params w2)\<rparr>"
  obtain w3 where w3: "op_set ?f w2 = Inr w3" "prepared w2 w3" "cs_op w3 \<noteq> None"
    using prepared_op_set [of w2 ?f] w2(2) by auto
  have n3: "op_name w3 = Some (op_id o1)" using w3(2) w2(2) by (simp add: prepared_def op_name_def)
  obtain w4 b where w4: "startUpdate c m subj w3 = Inr w4" "cs_state w4 = cs_state w3" "cs_log w4 = cs_log w3" "w_now w4 = w_now w3"
      "op_name w4 = op_name w3" "w_ret w4 = st" "told w4 = told w3 @ [(op_id o1, Op_update (update_subject c w3 subj) b)]" "m = Update_Invite \<longrightarrow> \<not> b"
    using quiet_startUpdate [OF c w3(3) n3 st] by blast
  have "update c csp m subj ct w =
      run [if st \<noteq> 0 \<and> s \<noteq> cs_state w then setState c (cs_state w) ''Restore initial state'' else run [], returns st] w4"
    using op allowed w1(1) w4(1,2,6) w3(1,2) w2(1)
    by (simp add: update_def with_op_def with_world_def setParams_given upd_def prepared_def flip: w2_def)
  with w4 w3(2) w2 n3 show ?thesis unfolding prepared_def by (metis (no_types, lifting))
qed

lemma quiet_connected:
  assumes c: "quiet c" and s: "cs_state w \<notin> {Connected, End, Error}"
  shows "\<exists>w'. setState c Connected m w = Inr w' \<and> cs_state w' = Connected \<and> log_status (cs_log w') = LinphoneCallSuccess \<and>
    log_connectedTime (cs_log w') = w_now w \<and> told w' = told w"
proof -
  define w2 where "w2 = (enter_state Connected m (remember_state w))
    \<lparr>cs_log := (cs_log w)\<lparr>log_status := LinphoneCallSuccess, log_connectedTime := w_now w\<rparr>\<rparr>"
  have w2: "cs_state w2 = Connected" "log_status (cs_log w2) = LinphoneCallSuccess" "log_connectedTime (cs_log w2) = w_now w" "w_out w2 = w_out w @ [Moving (cs_state w) Connected]"
    by (simp_all add: w2_def enter_simps)
  define ys where "ys = Moving (cs_state w) Connected # (if (sdpFoundInRemoteBody w2 \<or> sdpFoundInLocalBody w2) \<and> reportEvents c w2 then [Report_call_event ConferenceCallConnected] else [])"
  have "state_effects c Connected (enter_state Connected m (remember_state w)) = Inr (w2\<lparr>w_out := w_out w @ ys\<rparr>)"
  proof -
    have "state_effects c Connected (enter_state Connected m (remember_state w)) =
        test (\<lambda>w. sdpFoundInRemoteBody w \<or> sdpFoundInLocalBody w) (report_call_event c ConferenceCallConnected) (run []) w2"
      by (simp add: state_effects_def upd_def w2_def enter_simps)
    also have "\<dots> = Inr (w2\<lparr>w_out := w_out w @ ys\<rparr>)" using w2(4) by (simp add: step_defs report_call_event_def ys_def)
    finally show ?thesis .
  qed
  then have "setState c Connected m w = Inr (w2\<lparr>w_out := w_out w @ ys @ notified (State_changed Connected m) w2\<rparr>)"
    using s by (auto simp: setState_def bad_transition_def notifyCallSessionStateChanged_def quiet_notify [OF c] notified_def)
  moreover have "told_of ys = []" by (simp add: ys_def)
  ultimately show ?thesis using w2 by (simp add: told_alt)
qed

text \<open>
  A failed update in the connected state starts the clock of the call again: the restored state counts as a new connection.
\<close>

theorem failed_update_restarts_clock:
  assumes c: "quiet c" and op: "cs_op w = Some o1" "\<not> op_hasRetryFunction o1" and s: "cs_state w = Connected"
    and st: "\<And>subj b w. op_status c (Op_update subj b) w = st" "st \<noteq> 0"
  shows "\<exists>w'. update c csp m subj ct w = Inr w' \<and> w_ret w' = st \<and> cs_state w' = Connected \<and> log_connectedTime (cs_log w') = w_now w"
proof -
  have allowed: "isUpdateAllowed o1 w = Some Updating" using op(2) s by (simp add: isUpdateAllowed_def)
  obtain w1 where w1: "update c csp m subj ct w = run [setState c Connected ''Restore initial state'', returns st] w1"
      "cs_state w1 = Updating" "w_now w1 = w_now w"
    using quiet_update [OF c op(1) allowed st(1), of csp m subj ct] st(2) s by auto
  obtain w2 where "setState c Connected ''Restore initial state'' w1 = Inr w2" "cs_state w2 = Connected"
      "log_connectedTime (cs_log w2) = w_now w"
    using quiet_connected [OF c, of w1 "''Restore initial state''"] w1(2,3) by auto
  with w1(1) show ?thesis by (auto simp: returns_def upd_def)
qed

lemma prepared_setContactOp:
  assumes "cs_op w \<noteq> None"
  shows "\<exists>w'. setContactOp c w = Inr w' \<and> prepared w w' \<and> cs_op w' \<noteq> None"
proof -
  obtain o1 where o1: "cs_op w = Some o1" using assms by auto
  have set: "\<exists>w'. op_set (\<lambda>p. p\<lparr>op_contactAddress := a\<rparr>) w = Inr w' \<and> prepared w w' \<and> cs_op w' \<noteq> None" for a
    using prepared_op_set [OF assms, of "\<lambda>p. p\<lparr>op_contactAddress := a\<rparr>"] by auto
  have keep: "\<exists>w'. run [] w = Inr w' \<and> prepared w w' \<and> cs_op w' \<noteq> None" using assms by (simp add: prepared_def)
  show ?thesis
    unfolding setContactOp_def with_world_def with_op_def o1 option.case Let_def
    using set keep o1 by (simp split: option.split del: not_None_eq run.simps)
qed

text \<open>
  C9: Answering.  An incoming call is answered by one acceptance to the SIP stack; the call is then connected and logged as successful.  In any other state answering is refused and
  changes nothing.
\<close>

theorem accept_connects:
  assumes c: "quiet c" and op: "cs_op w = Some o1"
  shows "\<exists>w'. accept c csp w = Inr w' \<and>
    (if cs_state w \<in> {IncomingReceived, IncomingEarlyMedia, PushIncomingReceived}
     then w_ret w' = 0 \<and> cs_state w' = Connected \<and> log_status (cs_log w') = LinphoneCallSuccess \<and>
       told w' = told w @ [(op_id o1, Op_accept)]
     else w' = w\<lparr>w_ret := -1\<rparr>)"
proof (cases "cs_state w \<in> {IncomingReceived, IncomingEarlyMedia, PushIncomingReceived}")
  case False
  then show ?thesis by (auto simp: accept_def checkForAcceptation_def with_world_def returns_def upd_def)
next
  case True
  define xs where "xs = notified Check_for_acceptation w @
    (case op_replaces o1 of Some (Some _) \<Rightarrow> [Terminate_replaced_session] | _ \<Rightarrow> [])"
  have w1: "checkForAcceptation c w = Inr (w\<lparr>w_out := w_out w @ xs, w_ret := 0\<rparr>)"
    using True op c by (auto simp: checkForAcceptation_def step_defs quiet_notify quiet_def xs_def split: option.split)
  have xs: "told_of xs = []" by (simp add: xs_def split: option.split)
  let ?w1 = "w\<lparr>w_out := w_out w @ xs, w_ret := 0\<rparr>"
  have o1: "cs_op ?w1 \<noteq> None" using op by simp
  obtain w2 where w2: "setContactOp c ?w1 = Inr w2" "prepared ?w1 w2" "cs_op w2 \<noteq> None" using prepared_setContactOp [OF o1] by blast
  define w3 where "w3 = (case csp of None \<Rightarrow> w2 | Some p \<Rightarrow> w2\<lparr>cs_params := p\<rparr>)"
  have w3: "prepared w2 w3" "cs_op w3 \<noteq> None" using w2(3) by (cases csp; simp add: w3_def prepared_def op_name_def told_alt)+
  let ?f = "\<lambda>p. p\<lparr>op_capabilityNegotiation := isCapabilityNegotiationEnabled w3, op_sentCustomHeaders := cp_customHeaders (cs_params w3)\<rparr>"
  obtain w4 where w4: "op_set ?f w3 = Inr w4" "prepared w3 w4" "cs_op w4 \<noteq> None" using prepared_op_set [OF w3(2), of ?f] by auto
  obtain o4 where o4: "cs_op w4 = Some o4" using w4(3) by auto
  have p: "prepared ?w1 w4" using w2(2) w3(1) w4(2) prepared_trans by blast
  define w5 where "w5 = w4\<lparr>w_out := w_out w4 @ [Told (op_id o4) Op_accept], w_ret := op_status c Op_accept w4\<rparr>"
  have w5: "cs_state w5 = cs_state w" "told w5 = told w @ [(op_id o1, Op_accept)]"
    using p o4 op xs by (auto simp: w5_def prepared_def op_name_def told_alt)
  obtain w6 where w6: "setState c Connected ''Connected'' w5 = Inr w6" "cs_state w6 = Connected" "log_status (cs_log w6) = LinphoneCallSuccess"
      "told w6 = told w5"
    using quiet_connected [OF c, of w5 "''Connected''"] w5(1) True by auto
  have "d_accept c csp ?w1 = Inr w6"
    using w2(1) w4(1) w6(1) by (simp add: d_accept_def setParams_given upd_def with_world_def quiet_tell [OF c o4] flip: w3_def w5_def)
  with True w1 w5 w6 show ?thesis by (auto simp: accept_def with_world_def returns_def upd_def told_alt)
qed

text \<open>
  C10: The network comes back.  When broken calls are to be repaired and media have a network, a running call, a paused one or one paused by the other end, that lost the network while no request was under way, sends one INVITE of its own when the network is there again, if its
  account, when it has to register, is registered, the SIP stack accepts the request and the application does not call back from notifications; it is then no longer marked as broken.
\<close>

theorem lost_call_is_repaired:
  assumes c: "quiet c" "repair_broken_calls c" and s: "cs_state w \<in> {StreamsRunning, Paused, PausedByRemote}"
    and op: "cs_op w = Some o1" "\<not> op_dialogRequestPending o1" and net: "w_mediaNetwork w"
    and acc: "\<forall>a. dest_account w = Some a \<longrightarrow> acc_registerEnabled a \<longrightarrow> acc_registered a"
    and st: "\<And>subj b w. op_status c (Op_update subj b) w = 0"
  shows "\<exists>w' subj. session_run c [Network_reachable False, Network_reachable True] w = Inr w' \<and> \<not> cs_broken w' \<and>
    cs_state w' = (if cs_state w = Paused then Pausing else Updating) \<and> told w' = told w @ [(op_id o1, Op_update subj False)]"
proof -
  define w1 where "w1 = w\<lparr>cs_broken := True, cs_needLocalIpRefresh := True\<rparr>"
  have broken: "setBroken w = Inr w1" using s by (auto simp: setBroken_def upd_def w1_def)
  have may: "may_repair c w1" using c(2) net acc by (auto simp: may_repair_def w1_def dest_account_def split: option.split)
  obtain a where w2: "refreshContactAddress c w1 = Inr (w1\<lparr>cs_op := Some (o1\<lparr>op_contactAddress := a\<rparr>)\<rparr>)"
    using op(1) by (auto simp: refreshContactAddress_def test_def with_world_def op_set_def with_op_def upd_def w1_def)
  let ?o3 = "o1\<lparr>op_contactAddress := a, op_hasRetryFunction := False\<rparr>"
  define w3 where "w3 = w1\<lparr>cs_op := Some ?o3\<rparr>"
  let ?s = "if cs_state w = Paused then Pausing else Updating"
  have w3: "cs_op w3 = Some ?o3" "cs_state w3 = cs_state w" "told w3 = told w" by (simp_all add: w3_def w1_def told_alt)
  have allowed: "isUpdateAllowed ?o3 w3 = Some ?s" using s w3(2) by (auto simp: isUpdateAllowed_def)
  obtain w4 subj where w4: "update c (Some (cs_params w3)) Update_Invite [] None w3 = Inr (w4\<lparr>w_ret := 0\<rparr>)" "cs_state w4 = ?s"
      "told w4 = told w @ [(op_id o1, Op_update subj False)]"
    using quiet_update [OF c(1) w3(1) allowed st, of "Some (cs_params w3)" Update_Invite "[]" None] w3 by (auto simp: returns_def upd_def)
  have "reinviteToRecoverFromConnectionLoss c (w1\<lparr>cs_op := Some (o1\<lparr>op_contactAddress := a\<rparr>)\<rparr>) = Inr (w4\<lparr>w_ret := 0\<rparr>)"
    using w4(1) by (simp add: reinviteToRecoverFromConnectionLoss_def upd_def with_world_def w3_def)
  then have "repairIfBroken c w1 = Inr (w4\<lparr>w_ret := 0, cs_broken := False\<rparr>)"
    using may w2 s op(2) by (auto simp: repairIfBroken_def test_def with_world_def with_op_def clear_broken_def upd_def w1_def)
  with broken w4 show ?thesis by (auto simp: session_run_def onNetworkReachable_def told_alt)
qed

text \<open>
  A call that lost the network while it was being resumed is not repaired: when the network is back it is no longer marked as broken, and nothing is sent.
\<close>

theorem resuming_call_is_not_repaired:
  assumes c: "repair_broken_calls c" and s: "cs_state w = Resuming" and net: "w_mediaNetwork w" "dest_account w = None"
  shows "\<exists>w'. session_run c [Network_reachable False, Network_reachable True] w = Inr w' \<and> \<not> cs_broken w' \<and>
    cs_state w' = Resuming \<and> w_out w' = w_out w"
  using assms by (cases "cs_op w") (simp_all add: session_run_def onNetworkReachable_def setBroken_def upd_def repairIfBroken_def test_def may_repair_def
      dest_account_def refreshContactAddress_def with_world_def with_op_def op_set_def clear_broken_def Let_def)

section \<open>Pending actions\<close>

lemma execute_actions_queue:
  assumes "\<And>f w. \<exists>w'. pending_action c f w = Inr w' \<and> w_ret w' = res f \<and> cs_pendingActions w' = cs_pendingActions w @ new f"
  shows "\<exists>w'. execute_actions c fs us w = Inr w' \<and>
    cs_pendingActions w' = cs_pendingActions w @ concat (map new fs) @ us @ filter (\<lambda>f. res f \<noteq> 0) fs"
proof (induction fs arbitrary: us w)
  case (Cons f fs)
  obtain w1 where w1: "pending_action c f w = Inr w1" "w_ret w1 = res f" "cs_pendingActions w1 = cs_pendingActions w @ new f"
    using assms by blast
  with Cons.IH [of "if res f \<noteq> 0 then us @ [f] else us" w1] show ?case by auto
qed simp

text \<open>
  C20: Actions that wait for the network: each runs once, in the order of the queue; those that fail stay, in order, behind those that were added meanwhile.
\<close>

theorem pending_actions_run_once:
  assumes "\<And>f w. \<exists>w'. pending_action c f w = Inr w' \<and> w_ret w' = res f \<and> cs_pendingActions w' = cs_pendingActions w @ new f"
    and "w_networkReachable w" and "cs_state w \<notin> {End, Released, Error}"
  shows "\<exists>w'. executePendingActions c w = Inr w' \<and>
    cs_pendingActions w' = concat (map new (cs_pendingActions w)) @ filter (\<lambda>f. res f \<noteq> 0) (cs_pendingActions w)"
  using execute_actions_queue [OF assms(1), of "cs_pendingActions w" "[]" "w\<lparr>cs_pendingActions := []\<rparr>"] assms(2,3)
  by (simp add: executePendingActions_def test_def with_world_def upd_def)

section \<open>A concrete session\<close>

definition fresh_op :: "address \<Rightarrow> call_op" where
  "fresh_op to = \<lparr>op_id = 0, op_callId = ''id'', op_errorInfo = zero_sei, op_reasonErrorInfo = zero_sei, op_hasDialog = False,
     op_hasRetryFunction = False, op_dialogRequestPending = False, op_localTag = ''a'', op_remoteTag = [], op_from = ''sip:me'', op_to = to,
     op_requestAddress = ''sip:me'', op_contactAddress = None, op_remoteContactAddress = None, op_networkOrigin = ''sip:you'', op_replaces = None,
     op_assertedIdentity = None, op_recvCustomHeaders = None, op_sentCustomHeaders = [], op_privacy = 0, op_localBodies = [], op_remoteBodies = [],
     op_capabilityNegotiation = False, op_referrer = None\<rparr>"

definition sample_core :: call_core where
  "sample_core = \<lparr>auto_answer_replacing_calls = True, defer_update_default = False, repair_broken_calls = True,
     terminate_call_upon_transfer_completion = True, call_logs_use_asserted_id = False, ping_with_options = False, auto_send_ringing = True,
     conference_server_enabled = False, delayed_timeout = 4, in_call_timeout = 0, primary_contact = Some ''sip:me'', core_identity = ''sip:me'',
     address_create = Some, interpret_url = Some, address_valid = (\<lambda>a. a \<noteq> []), has_uri_param = (\<lambda>_ _. False), has_header_param = (\<lambda>_ _. False),
     set_uri_param = (\<lambda>_ _ a. a), set_header_param = (\<lambda>_ _ a. a), address_merge = (\<lambda>a _. a), find_call = (\<lambda>_. False), find_conference = (\<lambda>_. None),
     session_in_conference = (\<lambda>_. False), search_conference = (\<lambda>_. None), conference_info_of_op = (\<lambda>_. []), db_conference_uri = (\<lambda>_. None),
     lookup_conference_factory = (\<lambda>_. None), find_account_by_identity = (\<lambda>_. None), guess_local_account = (\<lambda>_ _. None),
     lookup_account_by_identity = (\<lambda>_. None), op_status = (\<lambda>_ _. 0),
     new_op = (\<lambda>to _. fresh_op to),
     react = (\<lambda>_ w. Inr w), pending_action = (\<lambda>f w. Inr (w\<lparr>w_ret := int f\<rparr>))\<rparr>"

definition sample_op :: call_op where
  "sample_op = (fresh_op ''sip:you'')\<lparr>op_id := 7, op_hasDialog := True\<rparr>"

definition sample_session :: "CallState \<Rightarrow> call_world" where
  "sample_session s = \<lparr>cs_listeners = [1], cs_params = \<lparr>cp_inConference = False, cp_conferenceCreation = False, cp_internalCallUpdate = False,
       cp_noUserConsent = False, cp_capabilityNegotiation = False, cp_customContents = [], cp_customHeaders = [], cp_contactUriParameters = [],
       cp_contactParameters = [], cp_referer = None, cp_privacy = None, cp_endTime = 0\<rparr>,
     cs_currentPrivacy = 0, cs_remoteParams = None, cs_subject = [], cs_direction = LinphoneCallIncoming, cs_state = s, cs_messageState = [],
     cs_prevState = Idle, cs_prevMessageState = [], cs_lastStableState = Idle, cs_lastStableMessageState = [], cs_transferState = Idle,
     cs_account = None, cs_ei = linphone_error_info_new,
     cs_log = new_call_log LinphoneCallIncoming ''sip:you'' ''sip:me'' 100, cs_referToAddress = None, cs_op = Some sample_op, cs_pingOp = None,
     cs_pingReplied = False, cs_referer = None, cs_transferTarget = None, cs_broken = False, cs_deferIncomingNotification = False,
     cs_deferUpdate = False, cs_deferUpdateInternal = False, cs_needLocalIpRefresh = False, cs_nonOpError = False, cs_notifyRinging = True,
     cs_referPending = False, cs_reinviteOnCancelResponseRequested = False, cs_pendingActions = [], cs_isAccepting = False, w_alive = [1],
     w_accounts = (\<lambda>_. \<lparr>acc_contactAddress = None, acc_op = None, acc_dependency = False, acc_registerEnabled = False, acc_registered = False,
       acc_identity = ''sip:me'', acc_missedCalls = 0\<rparr>),
     w_missedCalls = 0, w_now = 105, w_networkReachable = True, w_mediaNetwork = True, w_nextOp = 8, w_ret = 0, w_out = []\<rparr>"

lemma sample_quiet [simp]: "quiet sample_core" "repair_broken_calls sample_core" "op_status sample_core cmd w = 0"
  "pending_action sample_core f w = Inr (w\<lparr>w_ret := int f\<rparr>)" "react sample_core x w = Inr w"
  by (simp_all add: quiet_def sample_core_def)

lemma sample_session_fields [simp]:
  "cs_state (sample_session s) = s" "cs_op (sample_session s) = Some sample_op" "cs_lastStableState (sample_session s) = Idle"
  "cs_nonOpError (sample_session s) = False" "cs_account (sample_session s) = None" "w_mediaNetwork (sample_session s) = True"
  "w_networkReachable (sample_session s) = True" "w_out (sample_session s) = []" "cs_pendingActions (sample_session s) = []"
  "log_direction (cs_log (sample_session s)) = LinphoneCallIncoming" "log_status (cs_log (sample_session s)) = LinphoneCallAborted"
  "missed_calls (sample_session s) = 0" "dest_account (sample_session s) = None" "w_now (sample_session s) = 105"
  by (simp_all add: sample_session_def new_call_log_def missed_calls_def dest_account_def)

lemma sample_op_fields [simp]:
  "op_id sample_op = 7" "op_hasDialog sample_op" "\<not> op_hasRetryFunction sample_op" "\<not> op_dialogRequestPending sample_op"
  "op_errorInfo sample_op = zero_sei" "op_reasonErrorInfo sample_op = zero_sei"
  by (simp_all add: sample_op_def fresh_op_def)

section \<open>Witnesses\<close>

text \<open>A listener that ends the call once more when it hears that it ended.\<close>

definition eager_env :: "session_output \<Rightarrow> call_world \<Rightarrow> session_call list" where
  "eager_env x w = (case x of Notified _ (State_changed End _) \<Rightarrow> [Terminate None] | _ \<Rightarrow> [])"

theorem call_states_follow_rules_witness:
  "\<exists>w'. session_run (core_at sample_core eager_env (\<lambda>_. Clear_listeners) 2) [Accept None, Terminate None] (sample_session IncomingReceived) = Inr w' \<and>
     turn_path IncomingReceived (turns (w_out w')) End"
proof -
  let ?run = "session_run (core_at sample_core eager_env (\<lambda>_. Clear_listeners) 2) [Accept None, Terminate None] (sample_session IncomingReceived)"
  have "case ?run of Inr w' \<Rightarrow> cs_state w' = End | Inl _ \<Rightarrow> False" by code_simp
  then obtain w' where w': "?run = Inr w'" "cs_state w' = End" by (cases ?run) auto
  then show ?thesis using call_states_follow_rules [OF w'(1)] by auto
qed

theorem released_is_final_witness:
  "\<exists>w'. session_run (core_at sample_core eager_env (\<lambda>_. Clear_listeners) 2) [Terminate None, Iterate 120 True, Sal Call_terminated]
      ((sample_session Released)\<lparr>cs_op := None\<rparr>) = Inr w' \<and> released w'"
proof -
  let ?w = "(sample_session Released)\<lparr>cs_op := None\<rparr>"
  let ?calls = "[Terminate None, Iterate 120 True, Sal Call_terminated]"
  let ?run = "session_run (core_at sample_core eager_env (\<lambda>_. Clear_listeners) 2) ?calls ?w"
  have "case ?run of Inr w' \<Rightarrow> True | Inl _ \<Rightarrow> False" by code_simp
  then obtain w' where w': "?run = Inr w'" by (cases ?run) auto
  have "released ?w" by (simp add: released_def)
  moreover have "list_all (\<lambda>x. \<not> starts x) (eager_env x w)" for x w
    by (auto simp: eager_env_def starts_def split: session_output.split session_event.split CallState.split)
  moreover have "list_all (\<lambda>x. \<not> starts x) ?calls" by (simp add: starts_def)
  ultimately show ?thesis using released_is_final [OF _ _ _ w'] w' by blast
qed

theorem terminate_ends_witness:
  "\<exists>w'. terminate sample_core None (sample_session Connected) = Inr w' \<and> cs_state w' = End \<and> told w' = [(7, Op_terminate None)]"
  using terminate_ends [of sample_core "sample_session Connected" sample_op] by (auto simp: farewell_def told_def List.map_filter_def)

theorem cancelled_call_logged_witness:
  "\<exists>w'. session_run sample_core [Sal Call_terminated, Sal Call_released] (sample_session IncomingReceived) = Inr w' \<and>
     log_status (cs_log w') = LinphoneCallMissed \<and> missed_calls w' = 1"
  using cancelled_call_logged [of sample_core "sample_session IncomingReceived" sample_op]
  by (auto simp: zero_sei_def cancelled_status_def)

theorem accept_connects_witness:
  "\<exists>w'. accept sample_core None (sample_session IncomingReceived) = Inr w' \<and> cs_state w' = Connected \<and> told w' = [(7, Op_accept)]"
  using accept_connects [of sample_core "sample_session IncomingReceived" sample_op None] by (auto simp: told_def List.map_filter_def)

definition failing_op :: "SalReason \<Rightarrow> call_op" where
  "failing_op r = sample_op\<lparr>op_errorInfo := SalErrorInfo ((sei zero_sei)\<lparr>ef_reason := r, ef_full_string := Some ''failed''\<rparr>) None\<rparr>"


theorem pending_request_forgets_call_witness:
  "\<exists>w'. session_run sample_core [Sal Call_failure, Terminate None]
      ((sample_session Updating)\<lparr>cs_op := Some (failing_op SalReasonRequestPending)\<rparr>) = Inr w' \<and> cs_state w' = End \<and> told w' = []"
  using pending_request_forgets_call [of sample_core "(sample_session Updating)\<lparr>cs_op := Some (failing_op SalReasonRequestPending)\<rparr>"
      "failing_op SalReasonRequestPending"]
  by (auto simp: failing_op_def told_def List.map_filter_def)

theorem refer_blocks_deferred_update_witness:
  "\<exists>w'. session_run sample_core [Sal (Call_refer None), Accept_update] (sample_session UpdatedByRemote) = Inr w' \<and> cs_state w' = UpdatedByRemote"
  using refer_blocks_deferred_update [of sample_core "sample_session UpdatedByRemote" sample_op None] by auto

theorem terminate_with_attached_reason_witness:
  "terminate sample_core (Some (linphone_error_info_set_sub_error_info linphone_error_info_new (Some linphone_error_info_new)))
     (sample_session StreamsRunning) = Inl Null_dereference"
  using terminate_with_attached_reason [of "sample_session StreamsRunning"
      "linphone_error_info_set_sub_error_info linphone_error_info_new (Some linphone_error_info_new)"]
  by (simp add: linphone_error_info_set_sub_error_info_def)

theorem failed_update_restarts_clock_witness:
  "\<exists>w'. update (sample_core\<lparr>op_status := (\<lambda>_ _. -1)\<rparr>) None Update_Default [] None (sample_session Connected) = Inr w' \<and>
     log_connectedTime (cs_log w') = 105"
  using failed_update_restarts_clock [of "sample_core\<lparr>op_status := (\<lambda>_ _. -1)\<rparr>" "sample_session Connected" sample_op "-1" None Update_Default "[]" None]
  by (auto simp: quiet_def)

theorem lost_call_is_repaired_witness:
  "\<exists>w' subj. session_run sample_core [Network_reachable False, Network_reachable True] (sample_session StreamsRunning) = Inr w' \<and>
     \<not> cs_broken w' \<and> told w' = [(7, Op_update subj False)]"
  using lost_call_is_repaired [of sample_core "sample_session StreamsRunning" sample_op] by (auto simp: told_def List.map_filter_def)

theorem resuming_call_is_not_repaired_witness:
  "\<exists>w'. session_run sample_core [Network_reachable False, Network_reachable True] (sample_session Resuming) = Inr w' \<and> w_out w' = []"
  using resuming_call_is_not_repaired [of sample_core "sample_session Resuming"] by auto

theorem pending_actions_run_once_witness:
  "\<exists>w'. executePendingActions sample_core ((sample_session Connected)\<lparr>cs_pendingActions := [0, 3, 0, 2]\<rparr>) = Inr w' \<and> cs_pendingActions w' = [3, 2]"
  using pending_actions_run_once [of sample_core int "\<lambda>_. []" "(sample_session Connected)\<lparr>cs_pendingActions := [0, 3, 0, 2]\<rparr>"] by simp

end
