(* ===== verification/Dial_Plan.thy ===== *)
theory Dial_Plan
  imports C_Text "HOL-Library.Sublist"
begin

text \<open>
  Dial plans (\<open>src/dial-plan/dial-plan.cpp\<close>) and the normalisation of phone numbers (\<open>linphone_account_normalize_phone_number\<close> in \<open>src/c-wrapper/api/c-account.cpp\<close>).
  The table of the countries is the one of the source, without the flags.  The plan \<open>MostCommon\<close> is a global object that normalisation changes: it is passed in and out.
  The function of belle-sip that removes escapes from a user name is the parameter \<open>unescape\<close>; what is relied on is that it leaves a text without percent signs alone.
\<close>

section \<open>Data\<close>

record DialPlan =
  dp_country :: string
  dp_isoCountryCode :: string
  dp_countryCallingCode :: string
  dp_minNationalNumberLength :: nat
  dp_maxNationalNumberLength :: nat
  dp_internationalCallPrefix :: string
  dp_nationalNumberLengthFunction :: "(string \<Rightarrow> nat) option"

definition DialPlan_create :: "string \<Rightarrow> string \<Rightarrow> string \<Rightarrow> nat \<Rightarrow> nat \<Rightarrow> string \<Rightarrow> (string \<Rightarrow> nat) option \<Rightarrow> DialPlan" where
  "DialPlan_create country isoCode ccc minNnl maxNnl icp f = \<lparr>dp_country = country, dp_isoCountryCode = isoCode, dp_countryCallingCode = ccc,
     dp_minNationalNumberLength = minNnl, dp_maxNationalNumberLength = maxNnl, dp_internationalCallPrefix = icp, dp_nationalNumberLengthFunction = f\<rparr>"

text \<open>A Belgian number of nine digits that starts with a zero is written without it.\<close>

definition belgian_length :: "string \<Rightarrow> nat" where
  "belgian_length phoneNumber = (if length phoneNumber = 9 \<and> hd phoneNumber = CHR ''0'' then 8 else length phoneNumber)"

definition sDialPlans_A_to_I :: "DialPlan list" where
  "sDialPlans_A_to_I = [
     DialPlan_create ''Afghanistan'' ''AF'' ''93'' 9 9 ''00'' None,
     DialPlan_create ''Albania'' ''AL'' ''355'' 3 9 ''00'' None,
     DialPlan_create ''Algeria'' ''DZ'' ''213'' 8 9 ''00'' None,
     DialPlan_create ''American Samoa'' ''AS'' ''1'' 10 10 ''011'' None,
     DialPlan_create ''Andorra'' ''AD'' ''376'' 6 6 ''00'' None,
     DialPlan_create ''Angola'' ''AO'' ''244'' 9 9 ''00'' None,
     DialPlan_create ''Anguilla'' ''AI'' ''1'' 10 10 ''011'' None,
     DialPlan_create ''Antigua and Barbuda'' ''AG'' ''1'' 10 10 ''011'' None,
     DialPlan_create ''Argentina'' ''AR'' ''54'' 10 10 ''00'' None,
     DialPlan_create ''Armenia'' ''AM'' ''374'' 8 8 ''00'' None,
     DialPlan_create ''Aruba'' ''AW'' ''297'' 7 7 ''011'' None,
     DialPlan_create ''Australia'' ''AU'' ''61'' 9 9 ''0011'' None,
     DialPlan_create ''Austria'' ''AT'' ''43'' 4 13 ''00'' None,
     DialPlan_create ''Azerbaijan'' ''AZ'' ''994'' 8 9 ''00'' None,
     DialPlan_create ''Bahamas'' ''BS'' ''1'' 10 10 ''011'' None,
     DialPlan_create ''Bahrain'' ''BH'' ''973'' 8 8 ''00'' None,
     DialPlan_create ''Bangladesh'' ''BD'' ''880'' 6 10 ''00'' None,
     DialPlan_create ''Barbados'' ''BB'' ''1'' 10 10 ''011'' None,
     DialPlan_create ''Belarus'' ''BY'' ''375'' 9 9 ''00'' None,
     DialPlan_create ''Belgium'' ''BE'' ''32'' 8 9 ''00'' (Some belgian_length),
     DialPlan_create ''Belize'' ''BZ'' ''501'' 7 7 ''00'' None,
     DialPlan_create ''Benin'' ''BJ'' ''229'' 8 8 ''00'' None,
     DialPlan_create ''Bermuda'' ''BM'' ''1'' 10 10 ''011'' None,
     DialPlan_create ''Bhutan'' ''BT'' ''975'' 7 8 ''00'' None,
     DialPlan_create ''Bolivia'' ''BO'' ''591'' 8 8 ''00'' None,
     DialPlan_create ''Bosnia and Herzegovina'' ''BA'' ''387'' 8 8 ''00'' None,
     DialPlan_create ''Botswana'' ''BW'' ''267'' 7 8 ''00'' None,
     DialPlan_create ''Brazil'' ''BR'' ''55'' 8 11 ''00'' None,
     DialPlan_create ''Brunei Darussalam'' ''BN'' ''673'' 7 7 ''00'' None,
     DialPlan_create ''Bulgaria'' ''BG'' ''359'' 7 9 ''00'' None,
     DialPlan_create ''Burkina Faso'' ''BF'' ''226'' 8 8 ''00'' None,
     DialPlan_create ''Burundi'' ''BI'' ''257'' 8 8 ''011'' None,
     DialPlan_create ''Cambodia'' ''KH'' ''855'' 8 9 ''00'' None,
     DialPlan_create ''Cameroon'' ''CM'' ''237'' 8 9 ''00'' None,
     DialPlan_create ''Canada'' ''CA'' ''1'' 10 10 ''011'' None,
     DialPlan_create ''Cape Verde'' ''CV'' ''238'' 7 7 ''00'' None,
     DialPlan_create ''Cayman Islands'' ''KY'' ''1'' 10 10 ''011'' None,
     DialPlan_create ''Central African Republic'' ''CF'' ''236'' 8 8 ''00'' None,
     DialPlan_create ''Chad'' ''TD'' ''235'' 8 8 ''00'' None,
     DialPlan_create ''Chile'' ''CL'' ''56'' 8 9 ''00'' None,
     DialPlan_create ''China'' ''CN'' ''86'' 7 11 ''00'' None,
     DialPlan_create ''Colombia'' ''CO'' ''57'' 8 10 ''00'' None,
     DialPlan_create ''Comoros'' ''KM'' ''269'' 7 7 ''00'' None,
     DialPlan_create ''Cook Islands'' ''CK'' ''682'' 5 5 ''00'' None,
     DialPlan_create ''Costa Rica'' ''CR'' ''506'' 8 8 ''00'' None,
     DialPlan_create ''Cote d'Ivoire'' ''AD'' ''225'' 8 8 ''00'' None,
     DialPlan_create ''Croatia'' ''HR'' ''385'' 7 9 ''00'' None,
     DialPlan_create ''Cuba'' ''CU'' ''53'' 6 8 ''119'' None,
     DialPlan_create ''Curacao'' ''CUR'' ''599'' 7 8 ''011'' None,
     DialPlan_create ''Cyprus'' ''CY'' ''357'' 8 8 ''00'' None,
     DialPlan_create ''Czech Republic'' ''CZ'' ''420'' 9 9 ''00'' None,
     DialPlan_create ''Democratic Republic of the Congo'' ''CD'' ''243'' 5 9 ''00'' None,
     DialPlan_create ''Denmark'' ''DK'' ''45'' 8 8 ''00'' None,
     DialPlan_create ''Djibouti'' ''DJ'' ''253'' 8 8 ''00'' None,
     DialPlan_create ''Dominica'' ''DM'' ''1'' 10 10 ''011'' None,
     DialPlan_create ''Dominican Republic'' ''DO'' ''1'' 10 10 ''011'' None,
     DialPlan_create ''East Timor'' ''TLS'' ''670'' 7 8 ''00'' None,
     DialPlan_create ''Ecuador'' ''EC'' ''593'' 8 9 ''00'' None,
     DialPlan_create ''Egypt'' ''EG'' ''20'' 8 10 ''00'' None,
     DialPlan_create ''El Salvador'' ''SV'' ''503'' 7 8 ''00'' None,
     DialPlan_create ''Equatorial Guinea'' ''GQ'' ''240'' 9 9 ''00'' None,
     DialPlan_create ''Eritrea'' ''ER'' ''291'' 7 7 ''00'' None,
     DialPlan_create ''Estonia'' ''EE'' ''372'' 7 8 ''00'' None,
     DialPlan_create ''Eswatini'' ''SZ'' ''268'' 7 8 ''00'' None,
     DialPlan_create ''Ethiopia'' ''ET'' ''251'' 9 9 ''00'' None,
     DialPlan_create ''Falkland Islands'' ''FK'' ''500'' 5 5 ''00'' None,
     DialPlan_create ''Faroe Islands'' ''FO'' ''298'' 6 6 ''00'' None,
     DialPlan_create ''Fiji'' ''FJ'' ''679'' 7 7 ''00'' None,
     DialPlan_create ''Finland'' ''FI'' ''358'' 5 12 ''00'' None,
     DialPlan_create ''France'' ''FR'' ''33'' 9 9 ''00'' None,
     DialPlan_create ''French Guiana'' ''GF'' ''594'' 9 9 ''00'' None,
     DialPlan_create ''French Polynesia'' ''PF'' ''689'' 6 6 ''00'' None,
     DialPlan_create ''Gabon'' ''GA'' ''241'' 7 8 ''00'' None,
     DialPlan_create ''Gambia'' ''GM'' ''220'' 7 7 ''00'' None,
     DialPlan_create ''Georgia'' ''GE'' ''995'' 9 9 ''00'' None,
     DialPlan_create ''Germany'' ''DE'' ''49'' 6 12 ''00'' None,
     DialPlan_create ''Ghana'' ''GH'' ''233'' 5 9 ''00'' None,
     DialPlan_create ''Gibraltar'' ''GI'' ''350'' 8 8 ''00'' None,
     DialPlan_create ''Greece'' ''GR'' ''30'' 10 10 ''00'' None,
     DialPlan_create ''Greenland'' ''GL'' ''299'' 6 6 ''00'' None,
     DialPlan_create ''Grenada'' ''GD'' ''1'' 10 10 ''011'' None,
     DialPlan_create ''Guadeloupe'' ''GP'' ''590'' 9 9 ''00'' None,
     DialPlan_create ''Guam'' ''GU'' ''1'' 10 10 ''011'' None,
     DialPlan_create ''Guatemala'' ''GT'' ''502'' 8 8 ''00'' None,
     DialPlan_create ''Guinea'' ''GN'' ''224'' 8 8 ''00'' None,
     DialPlan_create ''Guinea-Bissau'' ''GW'' ''245'' 7 7 ''00'' None,
     DialPlan_create ''Guyana'' ''GY'' ''592'' 7 7 ''001'' None,
     DialPlan_create ''Haiti'' ''HT'' ''509'' 8 8 ''00'' None,
     DialPlan_create ''Honduras'' ''HN'' ''504'' 8 8 ''00'' None,
     DialPlan_create ''Hong Kong'' ''HK'' ''852'' 8 8 ''001'' None,
     DialPlan_create ''Hungary'' ''HU'' ''36'' 8 9 ''00'' None,
     DialPlan_create ''Iceland'' ''IS'' ''354'' 7 7 ''00'' None,
     DialPlan_create ''India'' ''IN'' ''91'' 7 10 ''00'' None,
     DialPlan_create ''Indonesia'' ''ID'' ''62'' 7 12 ''001'' None,
     DialPlan_create ''Iran'' ''IR'' ''98'' 6 10 ''00'' None,
     DialPlan_create ''Iraq'' ''IQ'' ''964'' 8 10 ''00'' None,
     DialPlan_create ''Ireland'' ''IE'' ''353'' 7 9 ''00'' None,
     DialPlan_create ''Israel'' ''IL'' ''972'' 8 9 ''00'' None,
     DialPlan_create ''Italy'' ''IT'' ''39'' 6 11 ''00'' None]"

definition sDialPlans_J_to_Z :: "DialPlan list" where
  "sDialPlans_J_to_Z = [
     DialPlan_create ''Jamaica'' ''JM'' ''1'' 10 10 ''011'' None,
     DialPlan_create ''Japan'' ''JP'' ''81'' 8 10 ''010'' None,
     DialPlan_create ''Jordan'' ''JO'' ''962'' 5 9 ''00'' None,
     DialPlan_create ''Kenya'' ''KE'' ''254'' 6 9 ''000'' None,
     DialPlan_create ''Kiribati'' ''KI'' ''686'' 5 5 ''00'' None,
     DialPlan_create ''Korea, North'' ''KP'' ''850'' 8 12 ''99'' None,
     DialPlan_create ''Korea, South'' ''KR'' ''82'' 8 12 ''001'' None,
     DialPlan_create ''Kosovo'' ''KOS'' ''383'' 8 8 ''00'' None,
     DialPlan_create ''Kuwait'' ''KW'' ''965'' 7 8 ''00'' None,
     DialPlan_create ''Kyrgyzstan'' ''KG'' ''996'' 9 9 ''00'' None,
     DialPlan_create ''Laos'' ''LA'' ''856'' 8 10 ''00'' None,
     DialPlan_create ''Latvia'' ''LV'' ''371'' 7 8 ''00'' None,
     DialPlan_create ''Lebanon'' ''LB'' ''961'' 7 8 ''00'' None,
     DialPlan_create ''Lesotho'' ''LS'' ''266'' 8 8 ''00'' None,
     DialPlan_create ''Liberia'' ''LR'' ''231'' 7 8 ''00'' None,
     DialPlan_create ''Libya'' ''LY'' ''218'' 8 10 ''00'' None,
     DialPlan_create ''Liechtenstein'' ''LI'' ''423'' 7 7 ''00'' None,
     DialPlan_create ''Lithuania'' ''LT'' ''370'' 8 8 ''00'' None,
     DialPlan_create ''Luxembourg'' ''LU'' ''352'' 4 9 ''00'' None,
     DialPlan_create ''Macau'' ''MO'' ''853'' 7 8 ''00'' None,
     DialPlan_create ''Madagascar'' ''MG'' ''261'' 9 9 ''00'' None,
     DialPlan_create ''Malawi'' ''MW'' ''265'' 7 9 ''00'' None,
     DialPlan_create ''Malaysia'' ''MY'' ''60'' 7 10 ''00'' None,
     DialPlan_create ''Maldives'' ''MV'' ''960'' 7 7 ''00'' None,
     DialPlan_create ''Mali'' ''ML'' ''223'' 8 8 ''00'' None,
     DialPlan_create ''Malta'' ''MT'' ''356'' 8 8 ''00'' None,
     DialPlan_create ''Marshall Islands'' ''MH'' ''692'' 7 7 ''011'' None,
     DialPlan_create ''Martinique'' ''MQ'' ''596'' 9 9 ''00'' None,
     DialPlan_create ''Mauritania'' ''MR'' ''222'' 8 8 ''00'' None,
     DialPlan_create ''Mauritius'' ''MU'' ''230'' 7 7 ''00'' None,
     DialPlan_create ''Mexico'' ''MX'' ''52'' 10 11 ''00'' None,
     DialPlan_create ''Micronesia'' ''FM'' ''691'' 7 7 ''011'' None,
     DialPlan_create ''Moldova'' ''MD'' ''373'' 8 8 ''00'' None,
     DialPlan_create ''Monaco'' ''MC'' ''377'' 8 8 ''00'' None,
     DialPlan_create ''Mongolia'' ''MN'' ''976'' 7 8 ''001'' None,
     DialPlan_create ''Montenegro'' ''ME'' ''382'' 8 8 ''00'' None,
     DialPlan_create ''Montserrat'' ''MS'' ''1'' 10 10 ''011'' None,
     DialPlan_create ''Morocco'' ''MA'' ''212'' 9 9 ''00'' None,
     DialPlan_create ''Mozambique'' ''MZ'' ''258'' 8 9 ''00'' None,
     DialPlan_create ''Myanmar'' ''MM'' ''95'' 7 10 ''00'' None,
     DialPlan_create ''Namibia'' ''NA'' ''264'' 8 9 ''00'' None,
     DialPlan_create ''Nauru'' ''NR'' ''674'' 4 7 ''00'' None,
     DialPlan_create ''Nepal'' ''NP'' ''977'' 8 8 ''00'' None,
     DialPlan_create ''Netherlands'' ''NL'' ''31'' 9 9 ''00'' None,
     DialPlan_create ''New Caledonia'' ''NC'' ''687'' 6 6 ''00'' None,
     DialPlan_create ''New Zealand'' ''NZ'' ''64'' 3 10 ''00'' None,
     DialPlan_create ''Nicaragua'' ''NI'' ''505'' 8 8 ''00'' None,
     DialPlan_create ''Niger'' ''NE'' ''227'' 8 8 ''00'' None,
     DialPlan_create ''Nigeria'' ''NG'' ''234'' 7 10 ''009'' None,
     DialPlan_create ''Niue'' ''NU'' ''683'' 4 4 ''00'' None,
     DialPlan_create ''Norfolk Island'' ''NF'' ''672'' 6 6 ''00'' None,
     DialPlan_create ''North Macedonia'' ''MK'' ''389'' 8 8 ''00'' None,
     DialPlan_create ''Northern Mariana Islands'' ''MP'' ''1'' 10 10 ''011'' None,
     DialPlan_create ''Norway'' ''NO'' ''47'' 5 8 ''00'' None,
     DialPlan_create ''Oman'' ''OM'' ''968'' 7 8 ''00'' None,
     DialPlan_create ''Pakistan'' ''PK'' ''92'' 6 10 ''00'' None,
     DialPlan_create ''Palau'' ''PW'' ''680'' 7 7 ''011'' None,
     DialPlan_create ''Palestine'' ''PS'' ''970'' 9 9 ''00'' None,
     DialPlan_create ''Panama'' ''PA'' ''507'' 7 8 ''00'' None,
     DialPlan_create ''Papua New Guinea'' ''PG'' ''675'' 7 8 ''00'' None,
     DialPlan_create ''Paraguay'' ''PY'' ''595'' 5 9 ''00'' None,
     DialPlan_create ''Peru'' ''PE'' ''51'' 8 9 ''00'' None,
     DialPlan_create ''Philippines'' ''PH'' ''63'' 8 10 ''00'' None,
     DialPlan_create ''Poland'' ''PL'' ''48'' 6 9 ''00'' None,
     DialPlan_create ''Portugal'' ''PT'' ''351'' 9 9 ''00'' None,
     DialPlan_create ''Puerto Rico'' ''PR'' ''1'' 10 10 ''011'' None,
     DialPlan_create ''Qatar'' ''QA'' ''974'' 3 8 ''00'' None,
     DialPlan_create ''Republic of the Congo'' ''CG'' ''242'' 9 9 ''00'' None,
     DialPlan_create ''Reunion Island'' ''RE'' ''262'' 9 9 ''011'' None,
     DialPlan_create ''Romania'' ''RO'' ''40'' 9 9 ''00'' None,
     DialPlan_create ''Russian Federation'' ''RU'' ''7'' 10 10 ''8'' None,
     DialPlan_create ''Rwanda'' ''RW'' ''250'' 9 9 ''00'' None,
     DialPlan_create ''Saint Helena'' ''SH'' ''290'' 4 4 ''00'' None,
     DialPlan_create ''Saint Kitts and Nevis'' ''KN'' ''1'' 10 10 ''011'' None,
     DialPlan_create ''Saint Lucia'' ''LC'' ''1'' 10 10 ''011'' None,
     DialPlan_create ''Saint Pierre and Miquelon'' ''PM'' ''508'' 6 6 ''00'' None,
     DialPlan_create ''Saint Vincent and the Grenadines'' ''VC'' ''1'' 10 10 ''011'' None,
     DialPlan_create ''Samoa'' ''WS'' ''685'' 3 7 ''0'' None,
     DialPlan_create ''San Marino'' ''SM'' ''378'' 6 10 ''00'' None,
     DialPlan_create ''Sao Tome and Principe'' ''ST'' ''239'' 7 7 ''00'' None,
     DialPlan_create ''Saudi Arabia'' ''SA'' ''966'' 8 9 ''00'' None,
     DialPlan_create ''Senegal'' ''SN'' ''221'' 9 9 ''00'' None,
     DialPlan_create ''Serbia'' ''RS'' ''381'' 6 9 ''00'' None,
     DialPlan_create ''Seychelles'' ''SC'' ''248'' 7 7 ''00'' None,
     DialPlan_create ''Sierra Leone'' ''SL'' ''232'' 8 8 ''00'' None,
     DialPlan_create ''Singapore'' ''SG'' ''65'' 8 8 ''001'' None,
     DialPlan_create ''Slovakia'' ''SK'' ''421'' 4 9 ''00'' None,
     DialPlan_create ''Slovenia'' ''SI'' ''386'' 8 8 ''00'' None,
     DialPlan_create ''Solomon Islands'' ''SB'' ''677'' 5 7 ''00'' None,
     DialPlan_create ''Somalia'' ''SO'' ''252'' 5 8 ''00'' None,
     DialPlan_create ''South Africa'' ''ZA'' ''27'' 9 9 ''00'' None,
     DialPlan_create ''South Sudan'' ''SSD'' ''211'' 9 9 ''00'' None,
     DialPlan_create ''Spain'' ''ES'' ''34'' 9 9 ''00'' None,
     DialPlan_create ''Sri Lanka'' ''LK'' ''94'' 9 9 ''00'' None,
     DialPlan_create ''Sudan'' ''SD'' ''249'' 9 9 ''00'' None,
     DialPlan_create ''Suriname'' ''SR'' ''597'' 6 7 ''00'' None,
     DialPlan_create ''Sweden'' ''SE'' ''46'' 7 9 ''00'' None,
     DialPlan_create ''Switzerland'' ''XK'' ''41'' 9 9 ''00'' None,
     DialPlan_create ''Syria'' ''SY'' ''963'' 8 9 ''00'' None,
     DialPlan_create ''Taiwan'' ''TW'' ''886'' 8 9 ''810'' None,
     DialPlan_create ''Tajikistan'' ''TJ'' ''992'' 9 9 ''002'' None,
     DialPlan_create ''Tanzania'' ''TZ'' ''255'' 9 9 ''000'' None,
     DialPlan_create ''Thailand'' ''TH'' ''66'' 8 9 ''001'' None,
     DialPlan_create ''Togo'' ''TG'' ''228'' 8 8 ''00'' None,
     DialPlan_create ''Tokelau'' ''TK'' ''690'' 4 4 ''00'' None,
     DialPlan_create ''Tonga'' ''TO'' ''676'' 5 7 ''00'' None,
     DialPlan_create ''Trinidad and Tobago'' ''TT'' ''1'' 10 10 ''011'' None,
     DialPlan_create ''Tunisia'' ''TN'' ''216'' 8 8 ''00'' None,
     DialPlan_create ''Turkey'' ''TR'' ''90'' 10 10 ''00'' None,
     DialPlan_create ''Turkmenistan'' ''TM'' ''993'' 8 8 ''00'' None,
     DialPlan_create ''Turks and Caicos Islands'' ''TC'' ''1'' 7 7 ''0'' None,
     DialPlan_create ''Tuvalu'' ''TV'' ''688'' 5 5 ''00'' None,
     DialPlan_create ''Uganda'' ''UG'' ''256'' 9 9 ''000'' None,
     DialPlan_create ''Ukraine'' ''UA'' ''380'' 9 9 ''00'' None,
     DialPlan_create ''United Arab Emirates'' ''AE'' ''971'' 8 9 ''00'' None,
     DialPlan_create ''United Kingdom'' ''GB'' ''44'' 7 10 ''00'' None,
     DialPlan_create ''United States'' ''US'' ''1'' 10 10 ''011'' None,
     DialPlan_create ''Uruguay'' ''UY'' ''598'' 8 8 ''00'' None,
     DialPlan_create ''Uzbekistan'' ''UZ'' ''998'' 9 9 ''8'' None,
     DialPlan_create ''Vanuatu'' ''VU'' ''678'' 5 7 ''00'' None,
     DialPlan_create ''Venezuela'' ''VE'' ''58'' 10 10 ''00'' None,
     DialPlan_create ''Vietnam'' ''VN'' ''84'' 7 10 ''00'' None,
     DialPlan_create ''Wallis and Futuna'' ''WF'' ''681'' 6 6 ''00'' None,
     DialPlan_create ''Yemen'' ''YE'' ''967'' 6 9 ''00'' None,
     DialPlan_create ''Zambia'' ''ZM'' ''260'' 9 9 ''00'' None,
     DialPlan_create ''Zimbabwe'' ''ZW'' ''263'' 9 9 ''00'' None]"

definition sDialPlans :: "DialPlan list" where
  "sDialPlans = sDialPlans_A_to_I @ sDialPlans_J_to_Z"

definition mostCommon :: DialPlan where
  "mostCommon = DialPlan_create ''generic'' [] [] 0 10 ''00'' None"

text \<open>A plan that was found: one of the table, or the shared plan \<open>MostCommon\<close>.\<close>

datatype plan_ref = MostCommon | Listed DialPlan

definition plan_at :: "DialPlan \<Rightarrow> plan_ref \<Rightarrow> DialPlan" where
  "plan_at common r = (case r of MostCommon \<Rightarrow> common | Listed p \<Rightarrow> p)"

definition isGeneric :: "DialPlan \<Rightarrow> DialPlan \<Rightarrow> bool" where
  "isGeneric common p \<longleftrightarrow> dp_country p = dp_country common"

text \<open>Assigning a plan to another one: a function for the length stays when the source has none.\<close>

definition dp_assign :: "DialPlan \<Rightarrow> DialPlan \<Rightarrow> DialPlan" where
  "dp_assign p other = other\<lparr>dp_nationalNumberLengthFunction :=
     (case dp_nationalNumberLengthFunction other of Some f \<Rightarrow> Some f | None \<Rightarrow> dp_nationalNumberLengthFunction p)\<rparr>"

definition setCountryCallingCode :: "string \<Rightarrow> DialPlan \<Rightarrow> DialPlan" where
  "setCountryCallingCode ccc p = p\<lparr>dp_countryCallingCode := ccc\<rparr>"

section \<open>Searches\<close>

text \<open>
  The loop of \<open>lookupCccFromE164\<close>: with one more character each time, the plans whose code agrees with the number are counted, until one is left or the number ends.
  Comparing the first \<open>i\<close> characters of two texts that hold no null character is comparing what \<open>take\<close> gives.
\<close>

definition agreeing :: "string \<Rightarrow> nat \<Rightarrow> DialPlan list" where
  "agreeing digits i = filter (\<lambda>p. take i (dp_countryCallingCode p) = take i digits) sDialPlans"

function lookup_loop :: "string \<Rightarrow> nat \<Rightarrow> DialPlan list" where
  "lookup_loop digits i =
     (let found = agreeing digits (Suc i)
      in if length found \<noteq> 1 \<and> Suc i < length digits then lookup_loop digits (Suc i) else found)"
  by pat_completeness auto
termination by (relation "measure (\<lambda>(digits, i). length digits - i)") auto

declare lookup_loop.simps [simp del]

definition lookupCccFromE164 :: "string \<Rightarrow> int" where
  "lookupCccFromE164 e164 =
     (case e164 of
        [] \<Rightarrow> -1
      | c # digits \<Rightarrow>
          if c \<noteq> CHR ''+'' then -1
          else if digits \<noteq> [] \<and> hd digits = CHR ''1'' then 1
          else (case lookup_loop digits 0 of
                  [p] \<Rightarrow> int (digits_value (dp_countryCallingCode p))
                | _ \<Rightarrow> -1))"

definition lookupCccFromIso :: "string \<Rightarrow> int" where
  "lookupCccFromIso isoCode =
     (case find (\<lambda>p. dp_isoCountryCode p = isoCode) sDialPlans of
        Some p \<Rightarrow> int (digits_value (dp_countryCallingCode p)) | None \<Rightarrow> -1)"

definition findByCcc :: "string \<Rightarrow> plan_ref" where
  "findByCcc ccc =
     (if ccc = [] then MostCommon
      else case find (\<lambda>p. dp_countryCallingCode p = ccc) sDialPlans of Some p \<Rightarrow> Listed p | None \<Rightarrow> MostCommon)"

definition findByCcc_int :: "int \<Rightarrow> plan_ref" where
  "findByCcc_int ccc = findByCcc (int_to_string ccc)"

section \<open>Numbers\<close>

definition is_flat :: "char \<Rightarrow> bool" where
  "is_flat c \<longleftrightarrow> c = CHR ''+'' \<or> is_digit_c c"

definition flattenPhoneNumber :: "(string \<Rightarrow> string) \<Rightarrow> string \<Rightarrow> string" where
  "flattenPhoneNumber unescape number = filter is_flat (unescape number)"

definition getSignificantDigits :: "(string \<Rightarrow> string) \<Rightarrow> DialPlan \<Rightarrow> string \<Rightarrow> string" where
  "getSignificantDigits unescape p phoneNumber =
     (let flat = flattenPhoneNumber unescape phoneNumber;
          flat1 = (if flat \<noteq> [] \<and> hd flat = CHR ''+'' then tl flat else flat);
          ccc = dp_countryCallingCode p
      in if prefix ccc flat1 \<and> length flat1 \<noteq> length ccc then drop (length ccc) flat1 else flat1)"

definition nationalNumberLength :: "DialPlan \<Rightarrow> string \<Rightarrow> nat" where
  "nationalNumberLength p flat =
     (case dp_nationalNumberLengthFunction p of
        Some f \<Rightarrow> min (dp_maxNationalNumberLength p) (f flat) | None \<Rightarrow> dp_maxNationalNumberLength p)"

definition formatPhoneNumber :: "(string \<Rightarrow> string) \<Rightarrow> DialPlan \<Rightarrow> string \<Rightarrow> bool \<Rightarrow> string" where
  "formatPhoneNumber unescape p phoneNumber escapePlus =
     (if dp_countryCallingCode p = [] then phoneNumber
      else let flat = getSignificantDigits unescape p phoneNumber;
               n = nationalNumberLength p flat;
               pre = (if escapePlus then dp_internationalCallPrefix p else ''+'')
           in if length flat > n then pre @ dp_countryCallingCode p @ drop (length flat - n) flat
              else if length flat < dp_minNationalNumberLength p then phoneNumber
              else pre @ dp_countryCallingCode p @ flat)"

definition isShortNumber :: "DialPlan \<Rightarrow> int \<Rightarrow> string \<Rightarrow> bool" where
  "isShortNumber common ccc phoneNumber \<longleftrightarrow> length phoneNumber < dp_minNationalNumberLength (plan_at common (findByCcc_int ccc))"

definition hasEnoughSignificantDigits :: "(string \<Rightarrow> string) \<Rightarrow> DialPlan \<Rightarrow> int \<Rightarrow> string \<Rightarrow> bool" where
  "hasEnoughSignificantDigits unescape common ccc phoneNumber \<longleftrightarrow>
     \<not> length (getSignificantDigits unescape (plan_at common (findByCcc_int ccc)) phoneNumber)
         < dp_minNationalNumberLength (plan_at common (findByCcc_int ccc))"

section \<open>Normalisation\<close>

definition is_phone_char :: "char \<Rightarrow> bool" where
  "is_phone_char c \<longleftrightarrow> is_digit_c c \<or> c \<in> set '' .-)(/+'' \<or> c \<in> {CHR 0xCA, CHR 0xC2, CHR 0xA0}"

definition linphone_account_is_phone_number :: "(string \<Rightarrow> string) \<Rightarrow> string option \<Rightarrow> bool" where
  "linphone_account_is_phone_number unescape username =
     (case username of None \<Rightarrow> False | Some s \<Rightarrow> list_all is_phone_char (unescape s))"

text \<open>The plan that formats the number: a shared plan takes over the prefix of the account, for good.\<close>

definition use_plan :: "DialPlan \<Rightarrow> string option \<Rightarrow> plan_ref \<Rightarrow> DialPlan \<times> DialPlan" where
  "use_plan common dial_prefix r =
     (case (r, dial_prefix) of
        (MostCommon, Some ccc) \<Rightarrow> (setCountryCallingCode ccc common, setCountryCallingCode ccc common)
      | _ \<Rightarrow> (plan_at common r, common))"

definition format_result :: "string \<Rightarrow> string option" where
  "format_result formattedNumber = (if formattedNumber = [] then None else Some formattedNumber)"

definition format_with :: "(string \<Rightarrow> string) \<Rightarrow> DialPlan \<Rightarrow> string option \<Rightarrow> bool \<Rightarrow> plan_ref \<Rightarrow> string \<Rightarrow> string option \<times> DialPlan" where
  "format_with unescape common dial_prefix dial_escape_plus r flat =
     (let (p, common') = use_plan common dial_prefix r
      in (format_result (formatPhoneNumber unescape p flat dial_escape_plus), common'))"

definition starts_with :: "string \<Rightarrow> string \<Rightarrow> bool" where
  "starts_with pre s = prefix pre s"

text \<open>
  \<open>linphone_account_normalize_phone_number\<close>: the prefix of the account is \<open>None\<close> when it is not set.  The result is the number, \<open>None\<close> for a null pointer, and the shared plan afterwards.
\<close>

definition linphone_account_normalize_phone_number ::
  "(string \<Rightarrow> string) \<Rightarrow> DialPlan \<Rightarrow> string option \<Rightarrow> bool \<Rightarrow> string option \<Rightarrow> string option \<times> DialPlan" where
  "linphone_account_normalize_phone_number unescape common dial_prefix dial_escape_plus username =
     (case username of
        None \<Rightarrow> (None, common)
      | Some s \<Rightarrow>
          if \<not> linphone_account_is_phone_number unescape (Some s) then (None, common)
          else
            (let flat = flattenPhoneNumber unescape s;
                 plus = starts_with ''+'' flat
             in if (case dial_prefix of None \<Rightarrow> False
                    | Some ccc \<Rightarrow> \<not> plus \<and> length flat < dp_minNationalNumberLength (plan_at common (findByCcc ccc)))
                then (Some flat, common)
                else if length flat > 2 \<and> starts_with ''00'' flat
                then (let withPlus = CHR ''+'' # drop 2 flat; ccc = lookupCccFromE164 withPlus
                      in if ccc > -1
                         then (if isShortNumber common ccc flat then (Some flat, common)
                               else if \<not> hasEnoughSignificantDigits unescape common ccc withPlus then (Some flat, common)
                               else format_with unescape common dial_prefix dial_escape_plus (findByCcc_int ccc) (tl withPlus))
                         else format_with unescape common dial_prefix dial_escape_plus
                                (case dial_prefix of None \<Rightarrow> MostCommon | Some c \<Rightarrow> findByCcc c) flat)
                else (let ccc = lookupCccFromE164 flat
                      in if ccc > -1 then format_with unescape common dial_prefix dial_escape_plus (findByCcc_int ccc) flat
                         else if plus then (Some flat, common)
                         else format_with unescape common dial_prefix dial_escape_plus
                                (case dial_prefix of None \<Rightarrow> MostCommon | Some c \<Rightarrow> findByCcc c) flat)))"

section \<open>The codes of the table\<close>

text \<open>
  A list of codes is decided when reading a number digit by digit leaves a single code exactly when this code has been read completely: at each digit the codes either are one that ends here,
  or at least two that all go on.
\<close>

definition decimal_digits :: string where
  "decimal_digits = ''0123456789''"

fun decided :: "nat \<Rightarrow> string list \<Rightarrow> bool" where
  "decided 0 cs \<longleftrightarrow> cs = [] \<or> cs = [[]]"
| "decided (Suc n) cs \<longleftrightarrow> cs = [] \<or> cs = [[]] \<or>
     2 \<le> length cs \<and> list_all (\<lambda>c. c \<noteq> [] \<and> hd c \<in> set decimal_digits) cs \<and>
     list_all (\<lambda>d. decided n (map tl (filter (\<lambda>c. hd c = d) cs))) decimal_digits"

lemma decided_count:
  "decided n cs \<Longrightarrow> c \<in> set cs \<Longrightarrow> length (filter (\<lambda>x. take i x = take i c) cs) = 1 \<longleftrightarrow> length c \<le> i"
proof (induction n arbitrary: cs c i)
  case 0
  then show ?case by auto
next
  case (Suc n)
  consider "cs = [[]]" | "2 \<le> length cs" "list_all (\<lambda>c. c \<noteq> [] \<and> hd c \<in> set decimal_digits) cs"
      "list_all (\<lambda>d. decided n (map tl (filter (\<lambda>c. hd c = d) cs))) decimal_digits"
    using Suc.prems by auto
  then show ?case
  proof cases
    case 1
    then show ?thesis using Suc.prems(2) by simp
  next
    case 2
    then have ne: "x \<noteq> []" if "x \<in> set cs" for x using that by (auto simp: list_all_iff)
    obtain d c' where c: "c = d # c'" using ne Suc.prems(2) by (cases c) auto
    then have "d \<in> set decimal_digits" using 2(2) Suc.prems(2) by (fastforce simp: list_all_iff)
    then have dec: "decided n (map tl (filter (\<lambda>c. hd c = d) cs))" using 2(3) by (simp add: list_all_iff)
    show ?thesis
    proof (cases i)
      case 0
      then show ?thesis using 2(1) c by simp
    next
      case (Suc j)
      have "filter (\<lambda>x. take i x = take i c) cs = filter (\<lambda>x. take j (tl x) = take j c') (filter (\<lambda>x. hd x = d) cs)"
        unfolding filter_filter using ne c Suc by (intro filter_cong refl) (auto simp: take_Suc)
      then have "length (filter (\<lambda>x. take i x = take i c) cs)
          = length (filter (\<lambda>y. take j y = take j c') (map tl (filter (\<lambda>x. hd x = d) cs)))"
        by (simp add: filter_map comp_def)
      moreover have "c' \<in> set (map tl (filter (\<lambda>x. hd x = d) cs))" using c Suc.prems(2) by force
      ultimately show ?thesis using Suc.IH [OF dec] c Suc by simp
    qed
  qed
qed

section \<open>Facts of the table\<close>

definition codes :: "string list" where
  "codes = map dp_countryCallingCode sDialPlans"

definition longer_codes :: "string list" where
  "longer_codes = filter (\<lambda>c. c \<noteq> ''1'') codes"

lemma table_decided: "decided 4 longer_codes"
  by code_simp

lemma table_codes:
  "list_all (\<lambda>c. c \<noteq> [] \<and> list_all (\<lambda>d. d \<in> set decimal_digits) c \<and> hd c \<noteq> CHR ''0'' \<and> (hd c = CHR ''1'' \<longrightarrow> c = ''1'')) codes"
  by code_simp

lemma table_lengths:
  "list_all (\<lambda>p. 1 \<le> dp_minNationalNumberLength p \<and> dp_minNationalNumberLength p \<le> dp_maxNationalNumberLength p \<and>
     (dp_nationalNumberLengthFunction p = None \<or> dp_countryCallingCode p = ''32'')) sDialPlans"
  by code_simp

lemma table_one: "''1'' \<in> set codes"
  by code_simp

lemma decimal_digit: "d \<in> set decimal_digits \<Longrightarrow> is_digit_c d"
  by (auto simp: decimal_digits_def is_digit_c_def)

lemma code_facts:
  assumes "p \<in> set sDialPlans"
  shows "dp_countryCallingCode p \<noteq> []" and "list_all is_digit_c (dp_countryCallingCode p)" and "hd (dp_countryCallingCode p) \<noteq> CHR ''0''"
    and "hd (dp_countryCallingCode p) = CHR ''1'' \<Longrightarrow> dp_countryCallingCode p = ''1''"
  using assms table_codes decimal_digit by (auto simp: list_all_iff codes_def)

lemma digit_char_of:
  assumes "is_digit_c c"
  shows "char_of (digit_value c + 48) = c" and "digit_value c < 10"
  using assms by (simp_all add: is_digit_c_def digit_value_def less_diff_conv2 less_Suc_eq_le)

lemma nat_to_string_digits_value:
  "list_all is_digit_c s \<Longrightarrow> s \<noteq> [] \<Longrightarrow> hd s \<noteq> CHR ''0'' \<Longrightarrow> nat_to_string (digits_value s) = s"
proof (induction s rule: rev_induct)
  case (snoc c xs)
  then have c: "char_of (digit_value c + 48) = c" "digit_value c < 10" using digit_char_of by auto
  show ?case
  proof (cases "xs = []")
    case True
    then show ?thesis using c by (simp add: digits_value_def nat_to_string.simps [of "digit_value c"])
  next
    case False
    then have IH: "nat_to_string (digits_value xs) = xs" using snoc by simp
    have "digits_value xs \<noteq> 0"
    proof
      assume "digits_value xs = 0"
      with IH have "xs = nat_to_string 0" by simp
      then have "hd xs = char_of (48 :: nat)" by (simp add: nat_to_string.simps [of 0])
      also have "char_of (48 :: nat) = CHR ''0''" by code_simp
      finally show False using snoc.prems False by simp
    qed
    then show ?thesis using c IH by (simp add: nat_to_string.simps [of "digits_value xs * 10 + digit_value c"])
  qed
qed simp

lemma code_of_number: "p \<in> set sDialPlans \<Longrightarrow> int_to_string (int (digits_value (dp_countryCallingCode p))) = dp_countryCallingCode p"
  using nat_to_string_digits_value code_facts [of p] by (simp add: int_to_string_def)

lemma longer_codes_iff: "c \<in> set longer_codes \<longleftrightarrow> (\<exists>p \<in> set sDialPlans. dp_countryCallingCode p = c \<and> c \<noteq> ''1'')"
  by (auto simp: longer_codes_def codes_def)

lemma count_longer_codes:
  "c \<in> set longer_codes \<Longrightarrow> length (filter (\<lambda>x. take i x = take i c) longer_codes) = 1 \<longleftrightarrow> length c \<le> i"
  by (rule decided_count [OF table_decided])

lemma prefix_of_code:
  assumes "a \<in> set longer_codes" "b \<in> set longer_codes" "prefix a b"
  shows "a = b"
proof -
  have t: "take (length a) b = a" using assms(3) by (auto simp: prefix_def)
  have "length (filter (\<lambda>x. take (length a) x = take (length a) b) longer_codes) = 1"
    using count_longer_codes [OF assms(1), of "length a"] unfolding t by simp
  then have "length b \<le> length a" using count_longer_codes [OF assms(2)] by blast
  then show ?thesis using t by simp
qed

section \<open>Looking up codes\<close>

lemma agreeing_length:
  assumes "digits = [] \<or> hd digits \<noteq> CHR ''1''"
  shows "length (agreeing digits (Suc i)) = length (filter (\<lambda>c. take (Suc i) c = take (Suc i) digits) longer_codes)"
proof -
  have "take (Suc i) ''1'' \<noteq> take (Suc i) digits" using assms by (cases digits) auto
  then have "filter (\<lambda>c. take (Suc i) c = take (Suc i) digits) longer_codes = filter (\<lambda>c. take (Suc i) c = take (Suc i) digits) codes"
    unfolding longer_codes_def filter_filter by (intro filter_cong refl) auto
  then show ?thesis by (simp add: agreeing_def codes_def filter_map comp_def)
qed

lemma agreeing_one:
  assumes "digits = [] \<or> hd digits \<noteq> CHR ''1''"
  shows "length (agreeing digits (Suc i)) = 1 \<longleftrightarrow> take (Suc i) digits \<in> set longer_codes"
proof
  assume one: "length (agreeing digits (Suc i)) = 1"
  then have "filter (\<lambda>c. take (Suc i) c = take (Suc i) digits) longer_codes \<noteq> []" unfolding agreeing_length [OF assms] by auto
  then obtain c where c: "c \<in> set longer_codes" "take (Suc i) c = take (Suc i) digits" unfolding filter_empty_conv by blast
  then have "length c \<le> Suc i" using one count_longer_codes [OF c(1), of "Suc i"] unfolding agreeing_length [OF assms] by simp
  then show "take (Suc i) digits \<in> set longer_codes" using c by simp
next
  assume "take (Suc i) digits \<in> set longer_codes"
  from count_longer_codes [OF this, of "Suc i"] show "length (agreeing digits (Suc i)) = 1"
    unfolding agreeing_length [OF assms] by simp
qed

lemma agreeing_single: "length (agreeing digits i) = 1 \<Longrightarrow> \<exists>p. agreeing digits i = [p] \<and> p \<in> set sDialPlans \<and> take i (dp_countryCallingCode p) = take i digits"
proof -
  assume "length (agreeing digits i) = 1"
  then obtain p where p: "agreeing digits i = [p]" by (auto simp: length_Suc_conv)
  then have "p \<in> set (agreeing digits i)" by simp
  then have "p \<in> set sDialPlans" "take i (dp_countryCallingCode p) = take i digits" unfolding agreeing_def by simp_all
  with p show ?thesis by blast
qed

lemma lookup_loop_result:
  assumes "digits = [] \<or> hd digits \<noteq> CHR ''1''"
  shows "(\<exists>p. lookup_loop digits i = [p] \<and> p \<in> set sDialPlans \<and> prefix (dp_countryCallingCode p) digits) \<or>
    length (lookup_loop digits i) \<noteq> 1 \<and> (\<forall>j. i < j \<longrightarrow> j \<le> length digits \<longrightarrow> take j digits \<notin> set longer_codes)"
  using assms
proof (induction digits i rule: lookup_loop.induct)
  case (1 digits i)
  show ?case
  proof (cases "length (agreeing digits (Suc i)) = 1")
    case True
    then obtain p where p: "agreeing digits (Suc i) = [p]" "p \<in> set sDialPlans" "take (Suc i) (dp_countryCallingCode p) = take (Suc i) digits"
      using agreeing_single by blast
    have "take (Suc i) digits \<in> set longer_codes" using True agreeing_one [OF 1(2)] by simp
    moreover have "dp_countryCallingCode p \<in> set longer_codes"
      using code_facts(1) [OF p(2)] p(2,3) 1(2) by (cases digits) (auto simp: longer_codes_iff)
    ultimately have "dp_countryCallingCode p = take (Suc i) digits"
      using prefix_of_code p(3) by (metis take_is_prefix)
    then show ?thesis using p by (simp add: lookup_loop.simps [of digits i] take_is_prefix)
  next
    case False
    then have no: "take (Suc i) digits \<notin> set longer_codes" using agreeing_one [OF 1(2)] by simp
    show ?thesis
    proof (cases "Suc i < length digits")
      case True
      then have "lookup_loop digits i = lookup_loop digits (Suc i)" using False by (simp add: lookup_loop.simps [of digits i])
      with 1(1) [OF refl] 1(2) False True no show ?thesis by (metis Suc_lessI)
    next
      case stop: False
      then have "lookup_loop digits i = agreeing digits (Suc i)" by (simp add: lookup_loop.simps [of digits i])
      moreover have "j = Suc i" if "i < j" "j \<le> length digits" for j using that stop by simp
      ultimately show ?thesis using False no by auto
    qed
  qed
qed

lemma lookup_find:
  "lookupCccFromE164 (CHR ''+'' # digits) =
     (case find (\<lambda>p. prefix (dp_countryCallingCode p) digits) sDialPlans of
        Some p \<Rightarrow> int (digits_value (dp_countryCallingCode p)) | None \<Rightarrow> -1)"
proof (cases "digits \<noteq> [] \<and> hd digits = CHR ''1''")
  case True
  then have one: "dp_countryCallingCode p = ''1''" if "p \<in> set sDialPlans" "prefix (dp_countryCallingCode p) digits" for p
    using that code_facts(1,4) [OF that(1)] by (cases digits; cases "dp_countryCallingCode p") auto
  moreover have "\<exists>p \<in> set sDialPlans. prefix (dp_countryCallingCode p) digits"
  proof -
    obtain p where "p \<in> set sDialPlans" "dp_countryCallingCode p = ''1''" using table_one by (auto simp: codes_def)
    moreover have "prefix ''1'' digits" using True by (cases digits) auto
    ultimately show ?thesis by metis
  qed
  ultimately obtain p where "find (\<lambda>p. prefix (dp_countryCallingCode p) digits) sDialPlans = Some p" "dp_countryCallingCode p = ''1''"
    by (metis (mono_tags, lifting) find_None_iff find_SomeD not_None_eq)
  then show ?thesis using True by (simp add: lookupCccFromE164_def digits_value_def digit_value_def)
next
  case False
  then have d: "digits = [] \<or> hd digits \<noteq> CHR ''1''" by blast
  show ?thesis
  proof (cases "find (\<lambda>p. prefix (dp_countryCallingCode p) digits) sDialPlans")
    case None
    then have "\<not> prefix (dp_countryCallingCode p) digits" if "p \<in> set sDialPlans" for p using that by (simp add: find_None_iff)
    then have "length (lookup_loop digits 0) \<noteq> 1" using lookup_loop_result [OF d, of 0] by blast
    then have "lookupCccFromE164 (CHR ''+'' # digits) = -1" using False by (auto simp: lookupCccFromE164_def split: list.split)
    then show ?thesis using None by simp
  next
    case (Some p0)
    then have p0: "p0 \<in> set sDialPlans" "prefix (dp_countryCallingCode p0) digits" using find_SomeD [OF Some] by auto
    have long: "dp_countryCallingCode q \<in> set longer_codes" if "q \<in> set sDialPlans" "prefix (dp_countryCallingCode q) digits" for q
      using that d code_facts(1) [OF that(1)] by (cases digits) (auto simp: longer_codes_iff)
    let ?k = "length (dp_countryCallingCode p0)"
    have "take ?k digits = dp_countryCallingCode p0" "0 < ?k" "?k \<le> length digits"
      using p0 code_facts(1) by (auto simp: prefix_def)
    then obtain p where p: "lookup_loop digits 0 = [p]" "p \<in> set sDialPlans" "prefix (dp_countryCallingCode p) digits"
      using lookup_loop_result [OF d, of 0] long [OF p0] by metis
    have "dp_countryCallingCode p = dp_countryCallingCode p0"
      using prefix_same_cases [OF p(3) p0(2)] prefix_of_code long p(2,3) p0 by metis
    then show ?thesis using Some False p by (auto simp: lookupCccFromE164_def)
  qed
qed

text \<open>
  C25: The loop finds the country of a number in international form: the code is the one of the table that the number starts with, whatever follows, and there is none when the number starts
  with no code of the table.
\<close>

theorem lookup_finds_code:
  "lookupCccFromE164 (CHR ''+'' # digits) =
     (case find (\<lambda>p. prefix (dp_countryCallingCode p) digits) sDialPlans of
        Some p \<Rightarrow> int (digits_value (dp_countryCallingCode p)) | None \<Rightarrow> -1)"
  by (rule lookup_find)

lemma lookup_code:
  assumes "p \<in> set sDialPlans"
  shows "lookupCccFromE164 (CHR ''+'' # dp_countryCallingCode p @ n) = int (digits_value (dp_countryCallingCode p))"
proof -
  let ?m = "dp_countryCallingCode p @ n"
  have "\<exists>q \<in> set sDialPlans. prefix (dp_countryCallingCode q) ?m" using assms by (intro bexI [of _ p]) simp_all
  then obtain q where q: "find (\<lambda>p. prefix (dp_countryCallingCode p) ?m) sDialPlans = Some q" "q \<in> set sDialPlans" "prefix (dp_countryCallingCode q) ?m"
    by (metis (mono_tags, lifting) find_None_iff find_SomeD not_None_eq)
  have "dp_countryCallingCode q = dp_countryCallingCode p"
  proof (cases "''1'' \<in> {dp_countryCallingCode p, dp_countryCallingCode q}")
    case True
    then show ?thesis using code_facts [OF assms] code_facts [OF q(2)] q(3)
      by (cases "dp_countryCallingCode p"; cases "dp_countryCallingCode q") auto
  next
    case False
    then have "dp_countryCallingCode p \<in> set longer_codes" "dp_countryCallingCode q \<in> set longer_codes"
      using assms q(2) by (auto simp: longer_codes_iff)
    moreover have "prefix (dp_countryCallingCode p) ?m" by simp
    ultimately show ?thesis using prefix_of_code prefix_same_cases q(3) by metis
  qed
  then show ?thesis using q(1) by (simp add: lookup_find)
qed

section \<open>Formatting\<close>

text \<open>What is relied on of belle-sip: nothing is changed in a text without escapes.\<close>

definition plain_unescape :: "(string \<Rightarrow> string) \<Rightarrow> bool" where
  "plain_unescape unescape \<longleftrightarrow> (\<forall>s. CHR ''%'' \<notin> set s \<longrightarrow> unescape s = s)"

lemma flat_not_special: "is_flat c \<Longrightarrow> c \<noteq> CHR ''%'' \<and> is_phone_char c"
  by (auto simp: is_flat_def is_phone_char_def is_digit_c_def)

lemma unescape_flat: "plain_unescape u \<Longrightarrow> list_all is_flat s \<Longrightarrow> u s = s"
  using flat_not_special by (auto simp: plain_unescape_def list_all_iff)

lemma flatten_flat: "plain_unescape u \<Longrightarrow> list_all is_flat s \<Longrightarrow> flattenPhoneNumber u s = s"
  by (simp add: flattenPhoneNumber_def unescape_flat list_all_iff filter_id_conv)

lemma flat_flatten: "list_all is_flat (flattenPhoneNumber u s)"
  by (simp add: flattenPhoneNumber_def list_all_iff)

lemma flat_is_phone: "plain_unescape u \<Longrightarrow> list_all is_flat s \<Longrightarrow> linphone_account_is_phone_number u (Some s)"
  using flat_not_special by (auto simp: linphone_account_is_phone_number_def unescape_flat list_all_iff)

lemma digits_flat: "list_all is_digit_c s \<Longrightarrow> list_all is_flat s"
  by (simp add: list_all_iff is_flat_def)

lemma digit_not_plus: "is_digit_c c \<Longrightarrow> c \<noteq> CHR ''+''"
  by (auto simp: is_digit_c_def)

lemma digits_no_plus: "list_all is_digit_c s \<Longrightarrow> \<not> starts_with ''+'' s"
  using digit_not_plus by (cases s) (auto simp: starts_with_def)

lemma code_flat: "p \<in> set sDialPlans \<Longrightarrow> list_all is_flat (dp_countryCallingCode p)"
  using code_facts(2) digits_flat by blast

lemma significant_with_code:
  assumes u: "plain_unescape u" and p: "p \<in> set sDialPlans" and n: "list_all is_flat n" "n \<noteq> []"
  shows "getSignificantDigits u p (CHR ''+'' # dp_countryCallingCode p @ n) = n"
    and "getSignificantDigits u p (dp_countryCallingCode p @ n) = n"
proof -
  have flat: "list_all is_flat (dp_countryCallingCode p @ n)" "list_all is_flat (CHR ''+'' # dp_countryCallingCode p @ n)"
    using n code_flat [OF p] by (auto simp: is_flat_def)
  have "hd (dp_countryCallingCode p @ n) \<noteq> CHR ''+''"
    using code_facts(1,2) [OF p] digit_not_plus by (cases "dp_countryCallingCode p") auto
  then show "getSignificantDigits u p (CHR ''+'' # dp_countryCallingCode p @ n) = n" "getSignificantDigits u p (dp_countryCallingCode p @ n) = n"
    using n(2) by (simp_all add: getSignificantDigits_def flatten_flat [OF u flat(1)] flatten_flat [OF u flat(2)])
qed

lemma significant_national:
  assumes "plain_unescape u" and "list_all is_digit_c n" and "\<not> prefix (dp_countryCallingCode p) n"
  shows "getSignificantDigits u p n = n"
proof -
  have "n = [] \<or> hd n \<noteq> CHR ''+''" using assms(2) digit_not_plus by (cases n) auto
  then show ?thesis using assms by (auto simp: getSignificantDigits_def flatten_flat digits_flat)
qed

lemma national_length:
  assumes p: "p \<in> set sDialPlans" and len: "nationalNumberLength p flat < length flat"
  shows "dp_minNationalNumberLength p \<le> nationalNumberLength p flat" "nationalNumberLength p flat \<le> dp_maxNationalNumberLength p"
proof -
  have belgium: "list_all (\<lambda>p. case dp_nationalNumberLengthFunction p of None \<Rightarrow> True
      | Some f \<Rightarrow> f = belgian_length \<and> dp_minNationalNumberLength p = 8 \<and> dp_maxNationalNumberLength p = 9) sDialPlans"
    by (simp add: sDialPlans_def sDialPlans_A_to_I_def sDialPlans_J_to_Z_def DialPlan_create_def)
  show "dp_minNationalNumberLength p \<le> nationalNumberLength p flat" "nationalNumberLength p flat \<le> dp_maxNationalNumberLength p"
    using p len belgium table_lengths
    by (auto simp: nationalNumberLength_def list_all_iff belgian_length_def split: option.splits if_splits dest!: bspec [where x = p])
qed

text \<open>
  C26: A formatted number: either the number is left as it was, or it is the prefix, the code of the country and the last significant digits, no more of them and no fewer than the plan of the country allows.
\<close>

theorem formatted_number_fits:
  assumes "p \<in> set sDialPlans"
  shows "formatPhoneNumber u p s e = s \<or>
    (\<exists>d. formatPhoneNumber u p s e = (if e then dp_internationalCallPrefix p else ''+'') @ dp_countryCallingCode p @ d \<and>
      suffix d (getSignificantDigits u p s) \<and> dp_minNationalNumberLength p \<le> length d \<and> length d \<le> dp_maxNationalNumberLength p)"
proof -
  define flat where "flat = getSignificantDigits u p s"
  define n where "n = nationalNumberLength p flat"
  let ?pre = "if e then dp_internationalCallPrefix p else ''+''"
  consider "n < length flat" | "length flat \<le> n" "length flat < dp_minNationalNumberLength p"
    | "length flat \<le> n" "dp_minNationalNumberLength p \<le> length flat" by linarith
  then show ?thesis
  proof cases
    case 1
    then have "formatPhoneNumber u p s e = ?pre @ dp_countryCallingCode p @ drop (length flat - n) flat"
      using code_facts(1) [OF assms] by (simp add: formatPhoneNumber_def Let_def flip: flat_def n_def)
    moreover have "dp_minNationalNumberLength p \<le> n" "n \<le> dp_maxNationalNumberLength p" using national_length [OF assms] 1 unfolding n_def by auto
    moreover have "length (drop (length flat - n) flat) = n" using 1 by simp
    ultimately show ?thesis using suffix_drop unfolding flat_def [symmetric] by metis
  next
    case 2
    then show ?thesis using code_facts(1) [OF assms] by (simp add: formatPhoneNumber_def Let_def flip: flat_def n_def)
  next
    case 3
    then have "formatPhoneNumber u p s e = ?pre @ dp_countryCallingCode p @ flat"
      using code_facts(1) [OF assms] by (simp add: formatPhoneNumber_def Let_def flip: flat_def n_def)
    moreover have "length flat \<le> dp_maxNationalNumberLength p" using 3(1) by (auto simp: n_def nationalNumberLength_def split: option.splits)
    ultimately show ?thesis using 3(2) unfolding flat_def [symmetric] by blast
  qed
qed


section \<open>Normalising\<close>

lemma find_listed_plan: "findByCcc c = Listed q \<Longrightarrow> q \<in> set sDialPlans \<and> dp_countryCallingCode q = c"
  by (auto simp: findByCcc_def split: if_splits option.splits dest: find_SomeD)

lemma find_by_number: "p \<in> set sDialPlans \<Longrightarrow> findByCcc_int (int (digits_value (dp_countryCallingCode p))) = findByCcc (dp_countryCallingCode p)"
  by (simp add: findByCcc_int_def code_of_number)

lemma format_listed: "format_with u common pre e (Listed p) s = (format_result (formatPhoneNumber u p s e), common)"
  by (simp add: format_with_def use_plan_def plan_at_def)

lemma format_fitting:
  assumes "p \<in> set sDialPlans" "getSignificantDigits u p s = n"
    and "dp_minNationalNumberLength p \<le> length n" "length n \<le> nationalNumberLength p n"
  shows "formatPhoneNumber u p s e = (if e then dp_internationalCallPrefix p else ''+'') @ dp_countryCallingCode p @ n"
  using assms code_facts(1) [OF assms(1)] by (simp add: formatPhoneNumber_def Let_def)

lemma listed_min: "p \<in> set sDialPlans \<Longrightarrow> 1 \<le> dp_minNationalNumberLength p"
  using table_lengths by (simp add: list_all_iff)

lemma digits_no_lookup: "list_all is_digit_c n \<Longrightarrow> lookupCccFromE164 n = -1"
  using digit_not_plus by (cases n) (simp_all add: lookupCccFromE164_def)

lemma normalize_national:
  assumes u: "plain_unescape u" and p: "findByCcc c = Listed p" and n: "list_all is_digit_c n" "\<not> prefix ''00'' n"
    and len: "dp_minNationalNumberLength p \<le> length n"
  shows "linphone_account_normalize_phone_number u common (Some c) e (Some n) = (format_result (formatPhoneNumber u p n e), common)"
proof -
  have flat: "list_all is_flat n" using digits_flat n(1) .
  have "lookupCccFromE164 n = -1" using digits_no_lookup n(1) .
  then show ?thesis
    using flat_is_phone [OF u flat] flatten_flat [OF u flat] digits_no_plus [OF n(1)] n(2) len p
    by (simp add: linphone_account_normalize_phone_number_def Let_def plan_at_def format_listed starts_with_def)
qed

lemma normalize_plus:
  assumes u: "plain_unescape u" and p: "p \<in> set sDialPlans" "findByCcc (dp_countryCallingCode p) = Listed p" and n: "list_all is_flat n"
  shows "linphone_account_normalize_phone_number u common pre e (Some (CHR ''+'' # dp_countryCallingCode p @ n))
    = (format_result (formatPhoneNumber u p (CHR ''+'' # dp_countryCallingCode p @ n) e), common)"
proof -
  have flat: "list_all is_flat (CHR ''+'' # dp_countryCallingCode p @ n)" using n code_flat [OF p(1)] by (auto simp: is_flat_def)
  show ?thesis
    using flat_is_phone [OF u flat] flatten_flat [OF u flat] lookup_code [OF p(1), of n] find_by_number [OF p(1)] p(2)
    by (simp add: linphone_account_normalize_phone_number_def Let_def format_listed starts_with_def split: option.split)
qed

lemma normalize_zeros:
  assumes u: "plain_unescape u" and p: "p \<in> set sDialPlans" "findByCcc (dp_countryCallingCode p) = Listed p" and n: "list_all is_flat n"
    and len: "dp_minNationalNumberLength p \<le> length n" and pre: "pre = None \<or> pre = Some (dp_countryCallingCode p)"
  shows "linphone_account_normalize_phone_number u common pre e (Some (''00'' @ dp_countryCallingCode p @ n))
    = (format_result (formatPhoneNumber u p (dp_countryCallingCode p @ n) e), common)"
proof -
  have flat: "list_all is_flat (CHR ''0'' # CHR ''0'' # dp_countryCallingCode p @ n)"
    using n code_flat [OF p(1)] by (auto simp: is_flat_def is_digit_c_def)
  have "n \<noteq> []" using len listed_min [OF p(1)] by auto
  then show ?thesis
    using flat_is_phone [OF u flat] flatten_flat [OF u flat] lookup_code [OF p(1), of n] find_by_number [OF p(1)] p(2) pre len
      significant_with_code(1) [OF u p(1) n] code_facts(1) [OF p(1)]
    by (auto simp: linphone_account_normalize_phone_number_def Let_def format_listed starts_with_def plan_at_def isShortNumber_def
        hasEnoughSignificantDigits_def)
qed

text \<open>
  C23: The three ways to write a number give one result: as a national number of the country of the account, after two zeros, and after a plus, whatever the account.  The national number consists of digits, has a length that
  the plan of the country allows, starts neither with two zeros nor with the digits of the code of the country (which would be lost, as shown below), and the account does not replace the plus by the international prefix.
\<close>

theorem spellings_agree:
  assumes "plain_unescape u" and "findByCcc ccc = Listed p" and "list_all is_digit_c n"
    and "\<not> prefix ''00'' n" and "\<not> prefix ccc n"
    and "dp_minNationalNumberLength p \<le> length n" and "length n \<le> nationalNumberLength p n"
  shows "linphone_account_normalize_phone_number u common (Some ccc) False (Some n) = (Some (CHR ''+'' # ccc @ n), common) \<and>
    linphone_account_normalize_phone_number u common (Some ccc) False (Some (''00'' @ ccc @ n)) = (Some (CHR ''+'' # ccc @ n), common) \<and>
    linphone_account_normalize_phone_number u common any_prefix False (Some (CHR ''+'' # ccc @ n)) = (Some (CHR ''+'' # ccc @ n), common)"
proof -
  have p: "p \<in> set sDialPlans" "dp_countryCallingCode p = ccc" using find_listed_plan assms(2) by auto
  have ne: "n \<noteq> []" using assms(6) listed_min [OF p(1)] by auto
  have fmt: "formatPhoneNumber u p s False = CHR ''+'' # ccc @ n" if "getSignificantDigits u p s = n" for s
    using format_fitting [OF p(1) that assms(6,7)] p(2) by simp
  note code = significant_with_code [OF assms(1) p(1) digits_flat [OF assms(3)] ne, unfolded p(2)]
  have "linphone_account_normalize_phone_number u common (Some ccc) False (Some n) = (Some (CHR ''+'' # ccc @ n), common)"
    using normalize_national [OF assms(1-4,6)] fmt [OF significant_national] assms(1,3,5) p(2) by (simp add: format_result_def)
  moreover have "linphone_account_normalize_phone_number u common (Some ccc) False (Some (''00'' @ ccc @ n)) = (Some (CHR ''+'' # ccc @ n), common)"
    using normalize_zeros [OF assms(1) p(1) _ digits_flat [OF assms(3)] assms(6)] fmt [OF code(2)] assms(2) p(2) by (simp add: format_result_def)
  moreover have "linphone_account_normalize_phone_number u common any_prefix False (Some (CHR ''+'' # ccc @ n)) = (Some (CHR ''+'' # ccc @ n), common)"
    using normalize_plus [OF assms(1) p(1) _ digits_flat [OF assms(3)]] fmt [OF code(1)] assms(2) p(2) by (simp add: format_result_def)
  ultimately show ?thesis by blast
qed


lemma plain_id [simp]: "plain_unescape (\<lambda>s. s)"
  by (simp add: plain_unescape_def)

lemma france: "case findByCcc ''33'' of MostCommon \<Rightarrow> False | Listed p \<Rightarrow> dp_minNationalNumberLength p = 9 \<and> nationalNumberLength p ''612345678'' = 9"
  by code_simp

theorem spellings_agree_witness:
  "linphone_account_normalize_phone_number (\<lambda>s. s) mostCommon (Some ''33'') False (Some ''612345678'') = (Some ''+33612345678'', mostCommon) \<and>
   linphone_account_normalize_phone_number (\<lambda>s. s) mostCommon (Some ''33'') False (Some ''0033612345678'') = (Some ''+33612345678'', mostCommon) \<and>
   linphone_account_normalize_phone_number (\<lambda>s. s) mostCommon None False (Some ''+33612345678'') = (Some ''+33612345678'', mostCommon)"
proof -
  obtain p where p: "findByCcc ''33'' = Listed p" "dp_minNationalNumberLength p = 9" "nationalNumberLength p ''612345678'' = 9" using france by (auto split: plan_ref.splits)
  show ?thesis using spellings_agree [OF plain_id p(1), of "''612345678''" mostCommon None] p(2,3) by (simp add: is_digit_c_def)
qed

lemma getSignificant_flat: "list_all is_flat (getSignificantDigits u p s)"
proof -
  have "list_all is_flat (flattenPhoneNumber u s)" by (rule flat_flatten)
  then show ?thesis by (auto simp: getSignificantDigits_def Let_def list_all_iff dest!: in_set_dropD intro: list.set_sel(2))
qed

lemma trimmed_once:
  assumes "p \<in> set sDialPlans" "dp_countryCallingCode p \<noteq> ''32''"
  shows "nationalNumberLength p s = dp_maxNationalNumberLength p"
  using assms table_lengths by (auto simp: nationalNumberLength_def list_all_iff)

lemma format_again:
  assumes u: "plain_unescape u" and p: "p \<in> set sDialPlans" "findByCcc (dp_countryCallingCode p) = Listed p" "dp_countryCallingCode p \<noteq> ''32''"
    and r: "formatPhoneNumber u p s False = r" "r \<noteq> s"
  shows "linphone_account_normalize_phone_number u common pre False (Some r) = (Some r, common)"
proof -
  define flat where "flat = getSignificantDigits u p s"
  define d where "d = (if dp_maxNationalNumberLength p < length flat then drop (length flat - dp_maxNationalNumberLength p) flat else flat)"
  note table = table_lengths [unfolded list_all_iff, rule_format, OF p(1)]
  have r': "r = CHR ''+'' # dp_countryCallingCode p @ d" "dp_minNationalNumberLength p \<le> length d" "length d \<le> dp_maxNationalNumberLength p"
    using r code_facts(1) [OF p(1)] table
    by (auto simp: formatPhoneNumber_def Let_def d_def trimmed_once [OF p(1,3)] simp flip: flat_def split: if_splits)
  have "list_all is_flat flat" unfolding flat_def by (rule getSignificant_flat)
  then have d: "list_all is_flat d" by (auto simp: d_def list_all_iff dest: in_set_dropD)
  have "d \<noteq> []" using r'(2) table by auto
  from significant_with_code(1) [OF u p(1) d this] have "formatPhoneNumber u p r False = r"
    using format_fitting [OF p(1), of u r d False] r' by (simp add: trimmed_once [OF p(1,3)])
  then show ?thesis using normalize_plus [OF u p(1,2) d, of common pre False] r'(1) by (simp add: format_result_def)
qed

lemma normalize_flat:
  assumes "plain_unescape u" "linphone_account_is_phone_number u (Some s)"
  shows "linphone_account_normalize_phone_number u common pre e (Some (flattenPhoneNumber u s))
    = linphone_account_normalize_phone_number u common pre e (Some s)"
  using assms flat_is_phone [OF assms(1) flat_flatten] flatten_flat [OF assms(1) flat_flatten]
  by (simp add: linphone_account_normalize_phone_number_def)

lemma find_again: "p \<in> set sDialPlans \<Longrightarrow> \<exists>q \<in> set sDialPlans. findByCcc (dp_countryCallingCode p) = Listed q \<and> dp_countryCallingCode q = dp_countryCallingCode p"
  using code_facts(1) [of p] by (auto simp: findByCcc_def find_None_iff split: option.split dest: find_SomeD)

lemma code_plan:
  assumes "-1 < lookupCccFromE164 s"
  obtains p n where "p \<in> set sDialPlans" "s = CHR ''+'' # dp_countryCallingCode p @ n" "findByCcc_int (lookupCccFromE164 s) = Listed p"
    "findByCcc (dp_countryCallingCode p) = Listed p"
proof -
  obtain digits where s: "s = CHR ''+'' # digits" using assms by (cases s) (auto simp: lookupCccFromE164_def split: if_splits)
  then obtain q where q: "q \<in> set sDialPlans" "prefix (dp_countryCallingCode q) digits" "lookupCccFromE164 s = int (digits_value (dp_countryCallingCode q))"
    using assms by (auto simp: lookup_find split: option.splits dest: find_SomeD)
  obtain p where p: "p \<in> set sDialPlans" "findByCcc (dp_countryCallingCode q) = Listed p" "dp_countryCallingCode p = dp_countryCallingCode q"
    using find_again [OF q(1)] by blast
  obtain n where "digits = dp_countryCallingCode p @ n" using q(2) p(3) by (auto simp: prefix_def)
  with that p q s show thesis by (simp add: find_by_number)
qed

lemma significant_plus:
  assumes u: "plain_unescape u" and p: "p \<in> set sDialPlans" and n: "list_all is_flat n"
  shows "getSignificantDigits u p (CHR ''+'' # dp_countryCallingCode p @ n) = getSignificantDigits u p (dp_countryCallingCode p @ n)"
proof (cases "n = []")
  case True
  have "hd (dp_countryCallingCode p) \<noteq> CHR ''+''" using code_facts(1,2) [OF p] digit_not_plus by (cases "dp_countryCallingCode p") auto
  moreover have "list_all is_flat (CHR ''+'' # dp_countryCallingCode p)" using code_flat [OF p] by (simp add: is_flat_def)
  ultimately show ?thesis using True flatten_flat [OF u] code_flat [OF p] by (simp add: getSignificantDigits_def)
qed (simp add: significant_with_code [OF u p n])

lemma format_changes:
  assumes "p \<in> set sDialPlans" "\<not> length (getSignificantDigits u p x) < dp_minNationalNumberLength p" "\<not> prefix ''+'' x"
  shows "formatPhoneNumber u p x False \<noteq> x"
  using assms code_facts(1) [OF assms(1)] by (cases x) (auto simp: formatPhoneNumber_def Let_def)

text \<open>What normalising gives without escapes: the flattened number, or one that a plan of the table has formatted.\<close>

definition formatted_by_table :: "(string \<Rightarrow> string) \<Rightarrow> string \<Rightarrow> string \<Rightarrow> bool" where
  "formatted_by_table u flat r \<longleftrightarrow>
     (\<exists>p x. p \<in> set sDialPlans \<and> findByCcc (dp_countryCallingCode p) = Listed p \<and> r = formatPhoneNumber u p x False \<and> (x = flat \<or> r \<noteq> x))"

lemma formatted_here:
  assumes "format_with u common pre False (Listed p) x = (Some r, common')" "findByCcc (dp_countryCallingCode p) = Listed p" "x = flat \<or> formatPhoneNumber u p x False \<noteq> x"
  shows "common' = common \<and> formatted_by_table u flat r"
  using assms find_listed_plan [OF assms(2)] by (auto simp: format_listed format_result_def formatted_by_table_def split: if_splits)

lemma formatted_national:
  assumes "format_with u common pre False (case pre of None \<Rightarrow> MostCommon | Some c \<Rightarrow> findByCcc c) flat = (Some r, common')"
    and "dp_countryCallingCode common = []" "\<And>c. pre = Some c \<Longrightarrow> findByCcc c \<noteq> MostCommon"
  shows "common' = common \<and> (r = flat \<or> formatted_by_table u flat r)"
proof (cases pre)
  case None
  then show ?thesis using assms(1,2)
    by (auto simp: format_with_def use_plan_def plan_at_def formatPhoneNumber_def format_result_def split: if_splits)
next
  case (Some c)
  then obtain p where "findByCcc c = Listed p" using assms(3) by (cases "findByCcc c") auto
  then show ?thesis using formatted_here assms(1) Some find_listed_plan by fastforce
qed

lemma normalize_outcome:
  assumes u: "plain_unescape u"
    and norm: "linphone_account_normalize_phone_number u common pre False (Some s) = (Some r, common')"
    and common: "dp_countryCallingCode common = []" "\<And>c. pre = Some c \<Longrightarrow> findByCcc c \<noteq> MostCommon"
  shows "common' = common \<and> (r = flattenPhoneNumber u s \<or> formatted_by_table u (flattenPhoneNumber u s) r)"
proof -
  define flat where "flat = flattenPhoneNumber u s"
  have flat: "list_all is_flat flat" unfolding flat_def by (rule flat_flatten)
  consider (unchanged) "r = flat" "common' = common"
    | (national) "format_with u common pre False (case pre of None \<Rightarrow> MostCommon | Some c \<Rightarrow> findByCcc c) flat = (Some r, common')"
    | (zeros) digits where "flat = ''00'' @ digits" "-1 < lookupCccFromE164 (CHR ''+'' # digits)"
        "hasEnoughSignificantDigits u common (lookupCccFromE164 (CHR ''+'' # digits)) (CHR ''+'' # digits)"
        "format_with u common pre False (findByCcc_int (lookupCccFromE164 (CHR ''+'' # digits))) digits = (Some r, common')"
    | (plus) "-1 < lookupCccFromE164 flat" "format_with u common pre False (findByCcc_int (lookupCccFromE164 flat)) flat = (Some r, common')"
    using norm unfolding linphone_account_normalize_phone_number_def Let_def starts_with_def prefix_def
    by (auto simp flip: flat_def split: if_splits)
  then have "common' = common \<and> (r = flat \<or> formatted_by_table u flat r)"
  proof cases
    case national
    then show ?thesis using formatted_national common by blast
  next
    case zeros
    from zeros(2) obtain p n where p: "p \<in> set sDialPlans" "digits = dp_countryCallingCode p @ n"
      "findByCcc_int (lookupCccFromE164 (CHR ''+'' # digits)) = Listed p" "findByCcc (dp_countryCallingCode p) = Listed p"
      by (auto elim: code_plan)
    have "list_all is_flat n" using flat zeros(1) p(2) by simp
    then have "\<not> length (getSignificantDigits u p digits) < dp_minNationalNumberLength p"
      using zeros(3) p significant_plus [OF u p(1)] by (simp add: hasEnoughSignificantDigits_def plan_at_def)
    moreover have "\<not> prefix ''+'' digits"
      using p(2) code_facts(1,2) [OF p(1)] digit_not_plus by (cases "dp_countryCallingCode p") auto
    ultimately show ?thesis using formatted_here zeros(4) format_changes p by metis
  next
    case plus
    from plus(1) obtain p where "findByCcc_int (lookupCccFromE164 flat) = Listed p" "findByCcc (dp_countryCallingCode p) = Listed p"
      by (auto elim: code_plan)
    then show ?thesis using formatted_here plus(2) by metis
  qed simp
  then show ?thesis by (simp only: flat_def)
qed

text \<open>
  C24: Normalising a normalised number changes nothing, for an account that does not replace the plus by the international prefix and whose own prefix, if any, is that of a listed plan, as long as nothing has changed the code of the
  shared plan, and unless the result is a Belgian number: there the trimming of a leading zero may apply twice.
\<close>

theorem normalize_idempotent:
  assumes "plain_unescape u" and "dp_countryCallingCode common = []" and "\<And>c. pre = Some c \<Longrightarrow> findByCcc c \<noteq> MostCommon"
    and "linphone_account_normalize_phone_number u common pre False (Some s) = (Some r, common')"
    and "\<not> prefix ''+32'' r"
  shows "linphone_account_normalize_phone_number u common' pre False (Some r) = (Some r, common')"
proof -
  let ?flat = "flattenPhoneNumber u s"
  have phone: "linphone_account_is_phone_number u (Some s)"
    using assms(4) by (auto simp: linphone_account_normalize_phone_number_def split: if_splits)
  have common: "common' = common" and r: "r = ?flat \<or> formatted_by_table u ?flat r"
    using normalize_outcome [OF assms(1,4,2,3)] by auto
  show ?thesis
  proof (cases "r = ?flat")
    case True
    then show ?thesis using normalize_flat [OF assms(1) phone] assms(4) common by simp
  next
    case False
    then obtain p x where p: "p \<in> set sDialPlans" "findByCcc (dp_countryCallingCode p) = Listed p" "formatPhoneNumber u p x False = r" "r \<noteq> x"
      using r by (auto simp: formatted_by_table_def)
    have "dp_countryCallingCode p \<noteq> ''32''"
      using p(3,4) assms(5) by (auto simp: formatPhoneNumber_def Let_def split: if_splits)
    then show ?thesis using format_again assms(1) p by blast
  qed
qed


lemma france_format:
  "case findByCcc ''33'' of MostCommon \<Rightarrow> False | Listed p \<Rightarrow> dp_minNationalNumberLength p = 9 \<and>
     formatPhoneNumber (\<lambda>s. s) p ''0612345678'' False = ''+33612345678''"
  by code_simp

theorem normalize_idempotent_witness:
  "linphone_account_normalize_phone_number (\<lambda>s. s) mostCommon (Some ''33'') False (Some ''0612345678'') = (Some ''+33612345678'', mostCommon) \<and>
   linphone_account_normalize_phone_number (\<lambda>s. s) mostCommon (Some ''33'') False (Some ''+33612345678'') = (Some ''+33612345678'', mostCommon)"
proof -
  obtain p where p: "findByCcc ''33'' = Listed p" "dp_minNationalNumberLength p = 9" "formatPhoneNumber (\<lambda>s. s) p ''0612345678'' False = ''+33612345678''"
    using france_format by (auto split: plan_ref.splits)
  have first: "linphone_account_normalize_phone_number (\<lambda>s. s) mostCommon (Some ''33'') False (Some ''0612345678'') = (Some ''+33612345678'', mostCommon)"
    using normalize_national [OF plain_id p(1), of "''0612345678''" mostCommon False] p(2,3) by (simp add: is_digit_c_def format_result_def)
  have "dp_countryCallingCode mostCommon = []" by (simp add: mostCommon_def DialPlan_create_def)
  then show ?thesis using normalize_idempotent [OF plain_id _ _ first] first p(1) by simp
qed

section \<open>The shared plan\<close>

lemma mostCommon_fields:
  "dp_minNationalNumberLength (setCountryCallingCode c mostCommon) = 0" "dp_minNationalNumberLength mostCommon = 0"
  "dp_countryCallingCode (setCountryCallingCode c mostCommon) = c" "dp_countryCallingCode mostCommon = []"
  "nationalNumberLength (setCountryCallingCode c mostCommon) s = 10" 
  by (simp_all add: mostCommon_def DialPlan_create_def setCountryCallingCode_def nationalNumberLength_def)

lemma normalize_common:
  assumes u: "plain_unescape u" and n: "list_all is_digit_c n" "\<not> prefix ''00'' n"
    and pre: "\<And>c. pre = Some c \<Longrightarrow> findByCcc c = MostCommon" and common: "dp_minNationalNumberLength common = 0"
  shows "linphone_account_normalize_phone_number u common pre e (Some n) = format_with u common pre e MostCommon n"
proof -
  have flat: "list_all is_flat n" using digits_flat n(1) .
  show ?thesis
    using flat_is_phone [OF u flat] flatten_flat [OF u flat] digits_no_plus [OF n(1)] digits_no_lookup [OF n(1)] n(2) pre common
    by (auto simp: linphone_account_normalize_phone_number_def Let_def plan_at_def starts_with_def split: option.split)
qed

text \<open>
  C27: An account whose prefix is in no plan changes the numbers of the accounts without a prefix: its prefix is written into the shared plan, and every later number without a country gets it.
  Without the first account such a number is left as it is.
\<close>

theorem common_plan_leaks:
  assumes "plain_unescape u" and "findByCcc ccc = MostCommon" and "ccc \<noteq> []"
    and "list_all is_digit_c first" and "\<not> prefix ''00'' first"
    and "list_all is_digit_c n" and "\<not> prefix ''00'' n" and "\<not> prefix ccc n" and "n \<noteq> []" and "length n \<le> 10"
  shows "linphone_account_normalize_phone_number u mostCommon None False (Some n) = (Some n, mostCommon) \<and>
    (let common = snd (linphone_account_normalize_phone_number u mostCommon (Some ccc) False (Some first))
     in fst (linphone_account_normalize_phone_number u common None False (Some n)) = Some (CHR ''+'' # ccc @ n))"
proof -
  let ?changed = "setCountryCallingCode ccc mostCommon"
  have "linphone_account_normalize_phone_number u mostCommon None False (Some n) = (Some n, mostCommon)"
    using normalize_common [OF assms(1,6,7), of None mostCommon False] assms(9)
    by (simp add: mostCommon_fields format_with_def use_plan_def plan_at_def formatPhoneNumber_def format_result_def)
  moreover have "snd (linphone_account_normalize_phone_number u mostCommon (Some ccc) False (Some first)) = ?changed"
    using normalize_common [OF assms(1,4,5), of "Some ccc" mostCommon False] assms(2) by (simp add: mostCommon_fields format_with_def use_plan_def)
  moreover have "getSignificantDigits u ?changed n = n"
    by (rule significant_national) (simp_all add: assms mostCommon_fields)
  then have "fst (linphone_account_normalize_phone_number u ?changed None False (Some n)) = Some (CHR ''+'' # ccc @ n)"
    using normalize_common [OF assms(1,6,7), of None ?changed False] assms(3,10)
    by (simp add: mostCommon_fields format_with_def use_plan_def plan_at_def formatPhoneNumber_def format_result_def)
  ultimately show ?thesis by simp
qed

lemma no_plan_999: "case findByCcc ''999'' of MostCommon \<Rightarrow> True | Listed p \<Rightarrow> False"
  by code_simp

theorem common_plan_leaks_witness:
  "linphone_account_normalize_phone_number (\<lambda>s. s) mostCommon None False (Some ''612345678'') = (Some ''612345678'', mostCommon) \<and>
   (let common = snd (linphone_account_normalize_phone_number (\<lambda>s. s) mostCommon (Some ''999'') False (Some ''1234567''))
    in fst (linphone_account_normalize_phone_number (\<lambda>s. s) common None False (Some ''612345678'')) = Some ''+999612345678'')"
proof -
  have "findByCcc ''999'' = MostCommon" using no_plan_999 by (cases "findByCcc ''999''") auto
  then show ?thesis using common_plan_leaks [OF plain_id, of "''999''" "''1234567''" "''612345678''"] by (simp add: is_digit_c_def)
qed

section \<open>National numbers that start with the digits of the country\<close>

text \<open>
  A national number that starts with the digits of the code of the country of the account loses them, also when it is no longer than a national number may be: it is normalised like the number without these digits.
\<close>

theorem national_code_digits_lost:
  assumes "plain_unescape u" and "findByCcc ccc = Listed p" and "list_all is_digit_c n" and "\<not> prefix ''00'' n" and "\<not> prefix ccc n"
    and "dp_minNationalNumberLength p \<le> length n"
  shows "linphone_account_normalize_phone_number u common (Some ccc) e (Some (ccc @ n)) =
    linphone_account_normalize_phone_number u common (Some ccc) e (Some n)"
proof -
  have p: "p \<in> set sDialPlans" "dp_countryCallingCode p = ccc" using find_listed_plan assms(2) by auto
  have ne: "n \<noteq> []" using assms(6) listed_min [OF p(1)] by auto
  have code: "list_all is_digit_c (ccc @ n)" "\<not> prefix ''00'' (ccc @ n)"
    using code_facts(1-3) [OF p(1)] p(2) assms(3) by (simp_all, cases ccc, simp_all)
  have sig: "getSignificantDigits u p (ccc @ n) = n" "getSignificantDigits u p n = n"
    using significant_with_code(2) [OF assms(1) p(1) digits_flat [OF assms(3)] ne] significant_national [OF assms(1,3)] assms(5) p(2) by auto
  have "formatPhoneNumber u p (ccc @ n) e = formatPhoneNumber u p n e"
    using code_facts(1) [OF p(1)] assms(6) by (simp add: formatPhoneNumber_def sig Let_def)
  then show ?thesis
    using normalize_national [OF assms(1,2) code, of common e] normalize_national [OF assms(1-4,6), of common e] assms(6) by simp
qed

lemma italy: "case findByCcc ''39'' of MostCommon \<Rightarrow> False | Listed p \<Rightarrow> dp_minNationalNumberLength p = 6"
  by code_simp

theorem national_code_digits_lost_witness:
  "linphone_account_normalize_phone_number (\<lambda>s. s) mostCommon (Some ''39'') False (Some ''3921234567'') =
   linphone_account_normalize_phone_number (\<lambda>s. s) mostCommon (Some ''39'') False (Some ''21234567'')"
proof -
  obtain p where "findByCcc ''39'' = Listed p" "dp_minNationalNumberLength p = 6"
    using italy by (auto split: plan_ref.splits)
  then show ?thesis using national_code_digits_lost [OF plain_id, of "''39''" p "''21234567''" mostCommon False] by (simp add: is_digit_c_def)
qed

text \<open>The code of the Ivory Coast is not found by its name of two letters, which the table gives to Andorra twice.\<close>

lemma ivory_coast: "lookupCccFromIso ''CI'' = -1" "lookupCccFromIso ''AD'' = 376"
  by code_simp+

text \<open>A Belgian number of ten digits whose second digit is a zero is trimmed to nine digits, and the result to eight.\<close>

lemma belgium_twice:
  "fst (linphone_account_normalize_phone_number (\<lambda>s. s) mostCommon (Some ''32'') False (Some ''9012345678'')) = Some ''+32012345678''"
  "fst (linphone_account_normalize_phone_number (\<lambda>s. s) mostCommon (Some ''32'') False (Some ''+32012345678'')) = Some ''+3212345678''"
  by code_simp+

theorem formatted_number_fits_witness:
  "formatPhoneNumber (\<lambda>s. s) (hd sDialPlans) ''0701234567'' False = ''0701234567'' \<or>
    (\<exists>d. formatPhoneNumber (\<lambda>s. s) (hd sDialPlans) ''0701234567'' False = (if False then dp_internationalCallPrefix (hd sDialPlans) else ''+'') @ dp_countryCallingCode (hd sDialPlans) @ d \<and>
      suffix d (getSignificantDigits (\<lambda>s. s) (hd sDialPlans) ''0701234567'') \<and> dp_minNationalNumberLength (hd sDialPlans) \<le> length d \<and>
      length d \<le> dp_maxNationalNumberLength (hd sDialPlans))"
  by (rule formatted_number_fits) (simp add: sDialPlans_def sDialPlans_A_to_I_def)

end
