(* ===== verification/Spec2Isabelle.thy ===== *)
theory Spec2Isabelle
  imports Offer_Answer Lp_File Imdn Call_Lifecycle Dial_Plan
begin

text \<open>
  \<^bold>\<open>Verification of liblinphone.\<close>  liblinphone is a SIP soft-phone library.  The development models the parts that decide what
  two ends of a call or a conversation agree on and what is remembered of it: the life of a call session, the negotiation of the media of a call,
  the store of the configuration, the life of chat messages with their delivery notifications, and the phone numbers that are dialled.

  \<^bold>\<open>Parts of the program and how they interact.\<close>  The signalling layer (\<open>src/src/sal\<close>) keeps a call's media as a
  \<open>SalMediaDescription\<close>: a list of \<open>SalStreamDescription\<close>s, each with a map of \<open>SalStreamConfiguration\<close>s (the actual one and the
  potential ones of RFC 5939, which \<open>PotentialCfgGraph\<close> reads from the SDP attributes), and the BUNDLE groups
  (\<open>SalStreamBundle\<close>).  \<open>OfferAnswerEngine\<close> combines the local and the remote description into the negotiated one; it uses
  \<open>PayloadTypeHandler\<close> for codec numbers.  A \<open>CallSession\<close> (\<open>src/src/conference/session\<close>) is the state machine of a call: the application and the core call its methods, the
  SIP stack reports answers, updates and failures to it (\<open>src/coreapi/callbacks.c\<close>), and it tells its listeners, which may call it again before they return; reasons of failures travel as
  \<open>SalErrorInfo\<close> and \<open>LinphoneErrorInfo\<close> (\<open>src/coreapi/error_info.c\<close>).  \<open>LpConfig\<close> (\<open>src/coreapi/lpconfig.c\<close>) is the key-value store all parts read their settings from.
  A \<open>ChatMessage\<close> moves through its states as the SIP layer and the delivery notifications of the recipients report progress, and
  stores each change through \<open>MainDb\<close>; \<open>Imdn\<close> collects the notifications a room owes, sends them grouped by peer, and applies the
  received ones to the messages.  A number that a user dials is brought into international form by \<open>linphone_account_normalize_phone_number\<close> (\<open>src/src/c-wrapper/api/c-account.cpp\<close>),
  which searches and applies the dial plans of the countries (\<open>src/src/dial-plan\<close>).

  \<^bold>\<open>Theories.\<close>
  \<^item> \<open>Prelude\<close>: 32-bit integers, results with undefined behaviour (\<open>'a res\<close>, a sum of failures and values), first-match
    searches and the shared lemmas; \<open>C_Text\<close>: the C library conversions (\<open>sscanf\<close>, \<open>atoi\<close>, \<open>strtol\<close>, \<open>printf\<close>) that the sources use;
    \<open>Std_Map\<close>: \<open>std::map\<close> with a comparator, as a locale over its rank function.
  \<^item> \<open>Sal_Types\<close> (\<open>c-sal.h\<close>, \<open>c-sal.cpp\<close>): enumerations and their conversions; \<open>Payload_Types\<close> (\<open>payload-type-handler.cpp\<close>): numbers
    of codecs, disjointness of the allocation; \<open>Stream_Config\<close>, \<open>Stream_Bundle\<close>, \<open>Potential_Cfg\<close>, \<open>Stream_Desc\<close>, \<open>Media_Desc\<close>: the classes of
    the same names under \<open>src/src/sal\<close>, with equality, printing and parsing of attributes, capability indexes (locale
    \<open>index_store\<close>), potential configurations and searches over streams.
  \<^item> \<open>Codec_Match\<close> and \<open>Offer_Answer\<close> (\<open>offeranswer.cpp\<close>): matching of codecs (locale \<open>codec_matcher\<close>), keys, directions and
    transports; negotiation of configurations, streams, sessions and bundles on both sides.
  \<^item> \<open>Lp_Config\<close>, \<open>Lp_Text\<close>, \<open>Lp_File\<close> (\<open>lpconfig.c\<close>): the store as a map (locales \<open>kv_store\<close> and \<open>typed_entry\<close>), its text format, and the
    write through a temporary file with the states a crash can leave, a step relation that is linked to \<open>linphone_config_sync\<close>.
  \<^item> \<open>Error_Info\<close> (\<open>error_info.c\<close>, \<open>misc.c\<close>, \<open>sal_op_impl.c\<close>): reasons, their SIP codes and error informations with an attached one; \<open>Call_Session\<close> (\<open>call-session.cpp\<close>,
    \<open>callbacks.c\<close>): every method of the base class as a step on a world that holds the session, its SIP operation, its call log and the list of its outputs; \<open>Call_Lifecycle\<close>: what all
    methods keep, proved along the statements in the locales \<open>step_relation\<close>, \<open>session_relation\<close> and \<open>session_environment\<close>, and how calls begin, end and are repaired.
  \<^item> \<open>Chat_Message\<close> (\<open>chat-message.cpp\<close> with the rows of \<open>main-db.cpp\<close> and the parts of \<open>chat-room.cpp\<close> it calls): the state machine of a
    message; \<open>Chat_Delivery\<close>: what every change of state keeps, proved once in the locales \<open>message_steps\<close> and \<open>simple_steps\<close>
    and interpreted on six relations; \<open>Imdn\<close> (\<open>imdn.cpp\<close>, \<open>imdn-message.cpp\<close>): the handler of notifications, and the effect of received ones on
    the messages of the chat rooms, which includes marking a room as read (\<open>ChatRoom::markAsRead\<close> and the unread messages of \<open>MainDb\<close>).
  \<^item> \<open>Dial_Plan\<close> (\<open>dial-plan.cpp\<close>, \<open>c-account.cpp\<close>): the table of the dial plans, the search for the country of a number, its significant digits and its form, and the normalisation for an account;
    the plan for unknown countries is a global object that normalisation changes, and is passed and returned.

  \<^bold>\<open>Modelling.\<close>  A class is a record, an enumeration a datatype, a method a function from the object to the updated object and its
  result.  \<open>std::map\<close> is the list of its nodes in order; a 32-bit index is a word; \<open>time_t\<close> and counters that the code does not let wrap are integers.
  Undefined behaviour (an index out of range, a front of an empty list, a null pointer, a read past a buffer) is a failure value, so a theorem that an operation returns
  says it does not happen.  Assertions that are compiled only for debugging are not modelled.  Descriptions are passed by value: the engine copies what it stores.  Calls to the application, the
  SIP stack and the data base that the modelled code does not read back are appended to a list of outputs, in order.

  The environment of a call session is \<open>call_core\<close>: settings, searches for accounts and conferences, operations on addresses, the results of SIP commands, and the reaction to each output, a step
  of its own.  Theorems about all environments let it answer every output by any calls of the session; theorems with the hypothesis \<open>quiet\<close> describe one call at a time.

  Code outside the sources is a parameter: the codec functions of oRTP (\<open>ortp_api\<close> with the laws \<open>ortp_contract\<close>), the test for multicast
  addresses, the SRTP suite names, the file system (\<open>file_api\<close> with \<open>reader_contract\<close>), conversions of floating point numbers, SIP
  addresses (\<open>uri_api\<close>), the removal of escapes from user names (\<open>plain_unescape\<close>) and the XML of notifications (already parsed).  Each theorem that uses a contract has a witness with a concrete instance.

  \<^bold>\<open>Fuel.\<close>  The state of a message and the state of a participant call each other; both carry a number of nested calls, \<open>state_fuel\<close> is 5, and
  it is proved that this is enough and that more gives the same result.  \<open>core_at\<close> lets callbacks of a call session nest to a given depth and fails beyond it; the theorems about
  all environments hold at every depth.  All other loops are structural or have a termination proof.

  \<^bold>\<open>What the theorems show.\<close>  Calls: the states of a session follow the rules under any nesting of callbacks, a released session stays released, a call that has an operation can be ended,
  accepted calls are connected and logged, cancelled ones are logged by their reason, a running or paused call that lost the network is repaired by one re-INVITE, pending actions run once.  Negotiation: a configuration keeps its kind of protection and has a common key; answers have the shape of
  the offer when both descriptions have the same lines, and otherwise the streams are indexed out of range; codecs, numbers and directions of both ends agree.  Descriptions: round trips of attributes, unique indexes, references only
  to declared capabilities.  Store: refinement of a map, round trips of typed values, of the text and of the files, crash safety of replacing a configuration on disk.
  Messages: announced states follow the table, a participant does not go back (except by the report of a file transfer), displayed means displayed by all recipients, unread counters and
  notifications are counted once; the handler of notifications loses none unless a failure is pending.  Phone numbers: the search by digits finds the country whose code a number starts with, the spellings of a number agree when its digits do not start like a prefix, normalising twice is normalising once with the tables as they are and outside Belgium, and lengths fit the plan.  The theorems of kind error show
  inputs on which the code does something else than its comments or its callers expect.

  \<^bold>\<open>Not modelled.\<close>  Media streams, sound and video (mediastreamer), SIP transactions (belle-sip), the media part of a call session (\<open>media-session.cpp\<close>), conferences, presence, friends, the
  other tables of the data base, SDP syntax, encryption engines, ICE, the C and other language wrappers, the XML bindings (generated) and the tests.
  Next in the plan: accounts and registration, conference participants, content headers.
\<close>

end
